(* ===== verification/Prelude.thy ===== *)
theory Prelude
  imports Main "HOL-Library.AList" "HOL-Library.Char_ord"
begin

text \<open>
  What the components share: the error value that the TypeScript code throws, the decimal
  printing of numbers, the string helpers (\<open>split\<close>, \<open>startsWith\<close>), the removal of
  duplicates with a \<open>Set\<close> of keys, and the JavaScript \<open>Map\<close>.

  Conventions. A JavaScript string is a \<^typ>\<open>string\<close>, one \<^typ>\<open>char\<close> for a UTF-16
  code unit below 256. A JavaScript \<open>Map\<close> is an association list with distinct keys in
  insertion order: \<open>get\<close> is \<^const>\<open>map_of\<close>, \<open>set\<close> is \<^const>\<open>AList.update\<close> (which
  keeps the position of a key that is there and appends a new one) and \<open>delete\<close> is
  \<^const>\<open>AList.delete\<close>. A \<open>throw\<close> is the value \<^const>\<open>Inl\<close>.
\<close>

named_theorems model_defs \<open>definitions that are unfolded to compute with the model\<close>
named_theorems inv_intros \<open>preservation of invariants by operations\<close>

section \<open>Errors\<close>

text \<open>\<open>QubiclError\<close> of \<^verbatim>\<open>packages/control/src/errors.ts\<close>: the code and the HTTP status.
  Message and details are for display and are left out.\<close>

datatype qubicl_error = QubiclError (error_code: string) (error_status: nat)

type_synonym 'a outcome = "qubicl_error + 'a"

definition is_error :: "'e + 'a \<Rightarrow> bool" where
  "is_error r = (case r of Inl _ \<Rightarrow> True | Inr _ \<Rightarrow> False)"

lemma is_error_simps [simp]: "is_error (Inl e)" "\<not> is_error (Inr a)"
  by (simp_all add: is_error_def)

lemma not_is_errorE: "\<not> is_error r \<Longrightarrow> (\<And>a. r = Inr a \<Longrightarrow> P) \<Longrightarrow> P"
  by (cases r) auto

definition rbind :: "'e + 'a \<Rightarrow> ('a \<Rightarrow> 'e + 'b) \<Rightarrow> 'e + 'b" where
  "rbind r f = (case r of Inl e \<Rightarrow> Inl e | Inr a \<Rightarrow> f a)"

lemma rbind_simps [simp]: "rbind (Inl e) f = Inl e" "rbind (Inr a) f = f a"
  by (simp_all add: rbind_def)

lemma rbind_eq_Inr: "rbind r f = Inr b \<longleftrightarrow> (\<exists>a. r = Inr a \<and> f a = Inr b)"
  by (cases r) auto

definition check :: "bool \<Rightarrow> 'e \<Rightarrow> 'e + unit" where
  "check ok e = (if ok then Inr () else Inl e)"

lemma check_simps [simp]: "check True e = Inr ()" "check False e = Inl e"
  by (simp_all add: check_def)

lemma check_eq_Inr: "check ok e = Inr u \<longleftrightarrow> ok"
  by (simp add: check_def)

lemma check_eq_Inl: "check ok e = Inl e' \<longleftrightarrow> \<not> ok \<and> e' = e"
  by (auto simp: check_def)

section \<open>Numbers in decimal\<close>

definition digit_char :: "nat \<Rightarrow> char" where
  "digit_char n = char_of (48 + n)"

fun show_nat :: "nat \<Rightarrow> string" where
  "show_nat n = (if n < 10 then [digit_char n] else show_nat (n div 10) @ [digit_char (n mod 10)])"

declare show_nat.simps [simp del]

definition digit_value :: "char \<Rightarrow> nat" where
  "digit_value c = of_char c - 48"

definition is_digit :: "char \<Rightarrow> bool" where
  "is_digit c = (48 \<le> (of_char c :: nat) \<and> (of_char c :: nat) \<le> 57)"

definition read_nat :: "string \<Rightarrow> nat" where
  "read_nat s = foldl (\<lambda>a c. 10 * a + digit_value c) 0 s"

lemma of_char_digit_char [simp]: "n < 10 \<Longrightarrow> (of_char (digit_char n) :: nat) = 48 + n"
  by (simp add: digit_char_def)

lemma digit_value_char [simp]: "n < 10 \<Longrightarrow> digit_value (digit_char n) = n"
  by (simp add: digit_value_def)

lemma is_digit_char [simp]: "n < 10 \<Longrightarrow> is_digit (digit_char n)"
  by (simp add: is_digit_def)

lemma read_show_nat [simp]: "read_nat (show_nat n) = n"
proof (induction n rule: show_nat.induct)
  case (1 n)
  show ?case
  proof (cases "n < 10")
    case True
    then show ?thesis by (simp add: show_nat.simps [of n] read_nat_def)
  next
    case False
    with 1 have "read_nat (show_nat (n div 10)) = n div 10" by simp
    with False show ?thesis by (simp add: show_nat.simps [of n] read_nat_def)
  qed
qed

lemma show_nat_inject [simp]: "show_nat m = show_nat n \<longleftrightarrow> m = n"
  by (metis read_show_nat)

lemma show_nat_digits: "c \<in> set (show_nat n) \<Longrightarrow> is_digit c"
proof (induction n rule: show_nat.induct)
  case (1 n)
  then show ?case
    by (cases "n < 10") (auto simp: show_nat.simps [of n])
qed

lemma show_nat_nonempty [simp]: "show_nat n \<noteq> []"
  by (simp add: show_nat.simps [of n])

section \<open>Strings\<close>

text \<open>\<open>startsWith\<close> and \<open>endsWith\<close>.\<close>

fun starts_with :: "string \<Rightarrow> string \<Rightarrow> bool" where
  "starts_with s [] = True"
| "starts_with [] (p # ps) = False"
| "starts_with (c # cs) (p # ps) = (c = p \<and> starts_with cs ps)"

lemma starts_with_iff: "starts_with s p \<longleftrightarrow> (\<exists>t. s = p @ t)"
  by (induction s p rule: starts_with.induct) auto

definition ends_with :: "string \<Rightarrow> string \<Rightarrow> bool" where
  "ends_with s p = starts_with (rev s) (rev p)"

lemma ends_with_iff: "ends_with s p \<longleftrightarrow> (\<exists>t. s = t @ p)"
proof -
  have "(rev s = rev p @ t) = (s = rev t @ p)" for t
    by (metis rev_append rev_rev_ident)
  then show ?thesis
    unfolding ends_with_def starts_with_iff by (metis rev_rev_ident)
qed

text \<open>\<open>value.split(separator)\<close> with a one-character separator.\<close>

fun split_on :: "char \<Rightarrow> string \<Rightarrow> string list" where
  "split_on d [] = [[]]"
| "split_on d (c # cs) =
     (if c = d then [] # split_on d cs
      else (case split_on d cs of [] \<Rightarrow> [[c]] | p # ps \<Rightarrow> (c # p) # ps))"

fun join_with :: "char \<Rightarrow> string list \<Rightarrow> string" where
  "join_with d [] = []"
| "join_with d [p] = p"
| "join_with d (p # q # ps) = p @ d # join_with d (q # ps)"

lemma split_on_nonempty [simp]: "split_on d s \<noteq> []"
  by (cases s) (auto split: list.splits)

lemma split_on_pieces: "p \<in> set (split_on d s) \<Longrightarrow> d \<notin> set p"
  by (induction s arbitrary: p) (fastforce split: if_splits list.splits)+

lemma join_split: "join_with d (split_on d s) = s"
proof (induction s)
  case (Cons c s)
  obtain p ps where s: "split_on d s = p # ps"
    by (cases "split_on d s") auto
  with Cons show ?case by (cases ps) auto
qed simp

lemma split_on_clean: "d \<notin> set p \<Longrightarrow> split_on d p = [p]"
  by (induction p) auto

lemma split_on_append: "d \<notin> set p \<Longrightarrow> split_on d (p @ d # s) = p # split_on d s"
  by (induction p) auto

lemma split_join:
  "ps \<noteq> [] \<Longrightarrow> (\<And>p. p \<in> set ps \<Longrightarrow> d \<notin> set p) \<Longrightarrow> split_on d (join_with d ps) = ps"
  by (induction d ps rule: join_with.induct) (auto simp: split_on_clean split_on_append)

section \<open>Duplicates\<close>

text \<open>The loop with a \<open>Set\<close> of the keys seen so far that keeps the first entry of each key.\<close>

fun dedup_from :: "'k list \<Rightarrow> ('a \<Rightarrow> 'k) \<Rightarrow> 'a list \<Rightarrow> 'a list" where
  "dedup_from seen key [] = []"
| "dedup_from seen key (x # xs) =
     (if key x \<in> set seen then dedup_from seen key xs
      else x # dedup_from (key x # seen) key xs)"

definition dedup_by :: "('a \<Rightarrow> 'k) \<Rightarrow> 'a list \<Rightarrow> 'a list" where
  "dedup_by key xs = dedup_from [] key xs"

lemma dedup_from_subset: "set (dedup_from seen key xs) \<subseteq> set xs"
  by (induction seen key xs rule: dedup_from.induct) auto

lemma dedup_from_keys:
  "key ` set (dedup_from seen key xs) = key ` set xs - set seen"
  by (induction seen key xs rule: dedup_from.induct) auto

lemma dedup_from_distinct:
  "distinct (map key (dedup_from seen key xs))"
proof (induction seen key xs rule: dedup_from.induct)
  case (2 seen key x xs)
  then show ?case
    using dedup_from_keys [of key "key x # seen" xs] by auto
qed simp

lemma dedup_by_subset: "set (dedup_by key xs) \<subseteq> set xs"
  by (simp add: dedup_by_def dedup_from_subset)

lemma dedup_by_keys: "key ` set (dedup_by key xs) = key ` set xs"
  by (simp add: dedup_by_def dedup_from_keys)

lemma dedup_by_distinct: "distinct (map key (dedup_by key xs))"
  by (simp add: dedup_by_def dedup_from_distinct)

lemma dedup_by_Nil [simp]: "dedup_by key [] = []"
  by (simp add: dedup_by_def)

lemma dedup_by_single [simp]: "dedup_by key [x] = [x]"
  by (simp add: dedup_by_def)

section \<open>Maps in insertion order\<close>

type_synonym ('k, 'v) js_map = "('k \<times> 'v) list"

definition map_values :: "('k, 'v) js_map \<Rightarrow> 'v list" where
  "map_values m = map snd m"

lemma map_of_update [simp]:
  "map_of (AList.update k v m) k' = (if k' = k then Some v else map_of m k')"
  by (simp add: update_conv')

lemma map_of_delete [simp]:
  "map_of (AList.delete k m) k' = (if k' = k then None else map_of m k')"
  by (simp add: delete_conv')

lemma keys_delete_subset: "fst ` set (AList.delete k m) \<subseteq> fst ` set m"
  by (auto simp: AList.delete_eq)

lemma update_length_le: "length (AList.update k v m) \<le> Suc (length m)"
  by (induction m) auto

lemma update_length_mem: "k \<in> fst ` set m \<Longrightarrow> length (AList.update k v m) = length m"
  by (induction m) auto

lemma sum_update:
  fixes f :: "'v \<Rightarrow> int"
  shows "map_of xs k = Some v \<Longrightarrow> sum_list (map (f \<circ> snd) (AList.update k v' xs)) = sum_list (map (f \<circ> snd) xs) - f v + f v'"
  by (induction xs) auto

lemma sum_update_new:
  fixes f :: "'v \<Rightarrow> int"
  shows "map_of xs k = None \<Longrightarrow> sum_list (map (f \<circ> snd) (AList.update k v' xs)) = sum_list (map (f \<circ> snd) xs) + f v'"
  by (induction xs) auto

lemma delete_absent: "map_of xs k = None \<Longrightarrow> AList.delete k xs = xs"
  by (induction xs) auto

lemma sum_delete:
  fixes f :: "'v \<Rightarrow> int"
  shows "distinct (map fst xs) \<Longrightarrow> map_of xs k = Some v \<Longrightarrow> sum_list (map (f \<circ> snd) (AList.delete k xs)) = sum_list (map (f \<circ> snd) xs) - f v"
  by (induction xs) (auto simp: delete_absent map_of_eq_None_iff)

lemma set_update_subset: "(a, b) \<in> set (AList.update k v xs) \<Longrightarrow> (a, b) = (k, v) \<or> (a, b) \<in> set xs"
  by (induction xs) (auto split: if_splits)

section \<open>Loops that may fail\<close>

fun rfold :: "('a \<Rightarrow> 's \<Rightarrow> 'e + 's) \<Rightarrow> 'a list \<Rightarrow> 's \<Rightarrow> 'e + 's" where
  "rfold f [] s = Inr s"
| "rfold f (x # xs) s = rbind (f x s) (rfold f xs)"

lemma rfold_append: "rfold f (xs @ ys) s = rbind (rfold f xs s) (rfold f ys)"
  by (induction xs arbitrary: s) (simp_all add: rbind_def split: sum.split)

text \<open>An invariant of the loop, which may speak of the elements that were handled.\<close>

lemma rfold_invariant:
  assumes "rfold f xs s = Inr s'" and "P [] s"
    and "\<And>handled x t t'. P handled t \<Longrightarrow> x \<in> set xs \<Longrightarrow> f x t = Inr t' \<Longrightarrow> P (handled @ [x]) t'"
  shows "P xs s'"
proof -
  have "P (handled @ xs) s'" if "rfold f xs s = Inr s'" "P handled s" for handled
    using that assms(3)
  proof (induction xs arbitrary: s handled)
    case (Cons x xs)
    then obtain t where t: "f x s = Inr t" "rfold f xs t = Inr s'" by (auto simp: rbind_eq_Inr)
    from Cons.prems(2,3) t(1) have "P (handled @ [x]) t" by simp
    from Cons.IH [OF t(2) this] Cons.prems(3) show ?case by simp
  qed simp
  from this [OF assms(1), of "[]"] assms(2) show ?thesis by simp
qed

section \<open>Safe integers\<close>

definition MAX_SAFE_INTEGER :: int where "MAX_SAFE_INTEGER = 9007199254740991"

definition isSafeInteger :: "int \<Rightarrow> bool" where
  "isSafeInteger n = (- MAX_SAFE_INTEGER \<le> n \<and> n \<le> MAX_SAFE_INTEGER)"

end
