(* ===== verification/Utf8.thy ===== *)
theory Utf8
  imports Prelude "HOL-Library.Word"
begin

unbundle bit_operations_syntax

text \<open>
  Cutting UTF-8 at code points: \<^verbatim>\<open>packages/control/src/utf8-page.ts\<close> and
  \<open>completeUtf8PrefixLength\<close> and \<open>utf8SequenceBytes\<close> of
  \<^verbatim>\<open>packages/control/src/processes.ts\<close>. A byte is a natural number below 256, a buffer a list
  of bytes. The loops that walk back over continuation bytes are recursions on the position.
\<close>

section \<open>The code\<close>

definition continuation :: "nat \<Rightarrow> bool" where
  "continuation v = (v AND 0xc0 = 0x80)"

definition char_width :: "nat \<Rightarrow> nat" where
  "char_width v = (if v \<ge> 0xf0 \<and> v \<le> 0xf4 then 4 else if v \<ge> 0xe0 \<and> v \<le> 0xef then 3
     else if v \<ge> 0xc2 \<and> v \<le> 0xdf then 2 else 1)"

fun back_start :: "nat list \<Rightarrow> nat \<Rightarrow> nat" where
  "back_start d 0 = 0"
| "back_start d (Suc n) = (if Suc n < length d \<and> continuation (d ! Suc n) then back_start d n else Suc n)"

text \<open>Walking back from a position over continuation bytes, but not beyond \<open>low\<close>.\<close>

fun back_to :: "nat list \<Rightarrow> nat \<Rightarrow> nat \<Rightarrow> nat" where
  "back_to d low 0 = 0"
| "back_to d low (Suc n) = (if Suc n > low \<and> continuation (d ! Suc n) then back_to d low n else Suc n)"

record utf8_page =
  up_offset :: nat
  up_nextOffset :: nat
  up_data :: "nat list"

definition utf8Page :: "nat list \<Rightarrow> nat \<Rightarrow> nat \<Rightarrow> bool \<Rightarrow> utf8_page" where
  "utf8Page d offset maxBytes complete =
     (let start = back_start d (min offset (length d));
          end0 = min (length d) (start + maxBytes);
          end1 = (if end0 < length d \<and> continuation (d ! end0)
            then (let e = back_to d start end0
                  in if e = start then min (length d) (start + char_width (d ! start)) else e)
            else end0);
          end2 = (if \<not> complete \<and> end1 = length d \<and> end1 > start
            then (let lead = back_to d start (end1 - 1)
                  in if lead + char_width (d ! lead) > end1 then lead else end1)
            else end1)
      in \<lparr>up_offset = start, up_nextOffset = end2, up_data = take (end2 - start) (drop start d)\<rparr>)"

definition utf8SequenceBytes :: "nat \<Rightarrow> nat" where
  "utf8SequenceBytes first =
     (if first \<ge> 0xc2 \<and> first \<le> 0xdf then 2 else if first \<ge> 0xe0 \<and> first \<le> 0xef then 3
      else if first \<ge> 0xf0 \<and> first \<le> 0xf4 then 4 else 1)"

text \<open>The number of continuation bytes at the end, at most three.\<close>

fun trailing_continuations :: "nat \<Rightarrow> nat list \<Rightarrow> nat" where
  "trailing_continuations limit [] = 0"
| "trailing_continuations limit (v # rest) =
     (if limit > 0 \<and> continuation v then Suc (trailing_continuations (limit - 1) rest) else 0)"

definition completeUtf8PrefixLength :: "nat list \<Rightarrow> nat" where
  "completeUtf8PrefixLength d =
     (if d = [] then 0
      else
        (let c = trailing_continuations 3 (rev d) in
         if c \<ge> length d then length d
         else
           (let index = length d - 1 - c; expected = utf8SequenceBytes (d ! index)
            in if expected > 1 \<and> length d - index < expected then index else length d)))"

lemma completeUtf8PrefixLength_le: "completeUtf8PrefixLength d \<le> length d"
  by (auto simp: completeUtf8PrefixLength_def Let_def)

section \<open>Well-formed texts\<close>

text \<open>A sequence of code points: a byte that is no continuation and as many continuation bytes as
  it announces.\<close>

function valid_utf8 :: "nat list \<Rightarrow> bool" where
  "valid_utf8 [] = True"
| "valid_utf8 (b # bs) =
     (\<not> continuation b \<and> char_width b - 1 \<le> length bs
      \<and> list_all continuation (take (char_width b - 1) bs) \<and> valid_utf8 (drop (char_width b - 1) bs))"
  by pat_completeness auto
termination by (relation "measure length") auto

lemma char_width_bounds [simp]: "0 < char_width v" "char_width v \<le> 4"
  by (simp_all add: char_width_def)

lemma width_is_sequence_bytes: "utf8SequenceBytes v = char_width v"
  by (simp add: utf8SequenceBytes_def char_width_def)

lemma valid_char_at:
  "valid_utf8 d \<Longrightarrow> i < length d \<Longrightarrow> \<not> continuation (d ! i) \<Longrightarrow>
    i + char_width (d ! i) \<le> length d \<and> (\<forall>j. i < j \<and> j < i + char_width (d ! i) \<longrightarrow> continuation (d ! j))
    \<and> (i + char_width (d ! i) < length d \<longrightarrow> \<not> continuation (d ! (i + char_width (d ! i))))"
proof (induction d arbitrary: i rule: valid_utf8.induct)
  case (2 b bs)
  let ?w = "char_width b - 1"
  have w: "char_width b = Suc ?w" by simp
  from "2.prems" have cont: "\<forall>j < ?w. continuation (bs ! j)" and len: "?w \<le> length bs"
    and rest: "valid_utf8 (drop ?w bs)" by (auto simp: list_all_length)
  have first: "j < length bs - ?w \<Longrightarrow> drop ?w bs ! j = (b # bs) ! (char_width b + j)" for j
    using len char_width_bounds(1) [of b] by (cases "char_width b") simp_all
  show ?case
  proof (cases i)
    case 0
    have "\<not> continuation ((b # bs) ! char_width b)" if "char_width b < length (b # bs)"
    proof -
      from that have "0 < length bs - ?w" using char_width_bounds(1) [of b] by (cases "char_width b") simp_all
      moreover from this rest have "\<not> continuation (drop ?w bs ! 0)"
        by (cases "drop ?w bs") auto
      ultimately show ?thesis using first [of 0] by simp
    qed
    moreover have "continuation ((b # bs) ! j)" if "0 < j" "j < char_width b" for j
      using that cont by (simp add: nth_Cons')
    ultimately show ?thesis using 0 len w by (auto simp: less_Suc_eq_le)
  next
    case (Suc n)
    have "\<not> n < ?w" using cont "2.prems"(3) Suc by auto
    then obtain k where k: "n = ?w + k" using le_Suc_ex not_less by blast
    with Suc w have i: "i = char_width b + k" by simp
    with "2.prems"(2) have kl: "k < length (drop ?w bs)"
      using char_width_bounds(1) [of b] by (cases "char_width b") simp_all
    have nth: "(b # bs) ! i = drop ?w bs ! k" using first [of k] kl i by simp
    with "2.prems"(3) have "\<not> continuation (drop ?w bs ! k)" by simp
    from "2.IH" [OF rest kl this] have ih: "k + char_width (drop ?w bs ! k) \<le> length bs - ?w"
      "\<forall>j. k < j \<and> j < k + char_width (drop ?w bs ! k) \<longrightarrow> continuation (drop ?w bs ! j)"
      "k + char_width (drop ?w bs ! k) < length bs - ?w \<longrightarrow> \<not> continuation (drop ?w bs ! (k + char_width (drop ?w bs ! k)))"
      by auto
    have "continuation ((b # bs) ! j)" if "i < j" "j < i + char_width (drop ?w bs ! k)" for j
    proof -
      define m where "m = j - char_width b"
      from that i have m: "j = char_width b + m" "k < m" "m < k + char_width (drop ?w bs ! k)"
        unfolding m_def by linarith+
      with ih(1) have "m < length bs - ?w" by linarith
      moreover from ih(2) m have "continuation (drop ?w bs ! m)" by blast
      ultimately show ?thesis using first [of m] m(1) by (simp only:)
    qed
    moreover have "\<not> continuation ((b # bs) ! (i + char_width (drop ?w bs ! k)))"
      if "i + char_width (drop ?w bs ! k) < length (b # bs)"
    proof -
      have "k + char_width (drop ?w bs ! k) < length bs - ?w"
        using that i w unfolding length_Cons by linarith
      with ih(3) first [of "k + char_width (drop ?w bs ! k)"] i show ?thesis by (simp only: add.assoc simp_thms)
    qed
    ultimately show ?thesis using ih(1) nth i w len by auto
  qed
qed simp

definition boundary :: "nat list \<Rightarrow> nat \<Rightarrow> bool" where
  "boundary d i = (i \<le> length d \<and> (i < length d \<longrightarrow> \<not> continuation (d ! i)))"

lemma valid_boundary_0: "valid_utf8 d \<Longrightarrow> boundary d 0"
  by (cases d) (auto simp: boundary_def)

lemma back_to_le: "back_to d low n \<le> n"
  by (induction n) (auto intro: le_SucI)

lemma back_to_ge: "low \<le> n \<Longrightarrow> low \<le> back_to d low n"
  by (induction n) (auto simp: le_Suc_eq)

lemma back_to_stops: "low < back_to d low n \<Longrightarrow> \<not> continuation (d ! back_to d low n)"
  by (induction n) auto

lemma back_start_boundary: "boundary d i \<Longrightarrow> back_start d i = i"
  by (cases i) (auto simp: boundary_def)

lemma utf8Page_complete:
  assumes "valid_utf8 d" and "boundary d i" and "i < length d" and "0 < m"
  shows "up_offset (utf8Page d i m True) = i \<and> i < up_nextOffset (utf8Page d i m True)
    \<and> up_nextOffset (utf8Page d i m True) \<le> i + m + 3 \<and> boundary d (up_nextOffset (utf8Page d i m True))
    \<and> up_data (utf8Page d i m True) = take (up_nextOffset (utf8Page d i m True) - i) (drop i d)"
proof -
  have start: "back_start d (min i (length d)) = i"
    using assms(2,3) by (simp add: back_start_boundary)
  have nc: "\<not> continuation (d ! i)" using assms(2,3) by (simp add: boundary_def)
  note at = valid_char_at [OF assms(1,3) nc]
  let ?end0 = "min (length d) (i + m)" and ?w = "char_width (d ! i)"
  define e where "e = back_to d i ?end0"
  define n where "n = (if ?end0 < length d \<and> continuation (d ! ?end0)
      then (if e = i then min (length d) (i + ?w) else e) else ?end0)"
  have page: "utf8Page d i m True = \<lparr>up_offset = i, up_nextOffset = n, up_data = take (n - i) (drop i d)\<rparr>"
    unfolding utf8Page_def Let_def start n_def e_def
    by (simp only: not_True_eq_False simp_thms if_False)
  have "i < n \<and> n \<le> i + m + 3 \<and> boundary d n"
  proof (cases "?end0 < length d \<and> continuation (d ! ?end0)")
    case False
    with assms(3,4) show ?thesis by (auto simp: n_def boundary_def)
  next
    case True
    have "e \<le> ?end0" unfolding e_def by (rule back_to_le)
    moreover have "i \<le> e" unfolding e_def using assms(3) by (intro back_to_ge) simp
    ultimately have e: "i \<le> e" "e \<le> length d" "e \<le> i + m" by simp_all
    show ?thesis
    proof (cases "e = i")
      case True
      with \<open>?end0 < length d \<and> continuation (d ! ?end0)\<close> at assms(4) char_width_bounds [of "d ! i"] show ?thesis
        by (auto simp: n_def boundary_def simp del: char_width_bounds)
    next
      case False
      with e have "\<not> continuation (d ! e)" unfolding e_def by (intro back_to_stops) auto
      with e False True show ?thesis by (auto simp: n_def boundary_def)
    qed
  qed
  then show ?thesis by (simp add: page)
qed

text \<open>Reading a text page by page, each page from where the last one ended; the fuel bounds the
  number of pages.\<close>

fun read_pages :: "nat \<Rightarrow> nat list \<Rightarrow> nat \<Rightarrow> nat \<Rightarrow> nat list list" where
  "read_pages 0 d m i = []"
| "read_pages (Suc fuel) d m i =
     (if i < length d
      then (let p = utf8Page d i m True in up_data p # read_pages fuel d m (up_nextOffset p))
      else [])"

lemma valid_drop: "valid_utf8 d \<Longrightarrow> boundary d i \<Longrightarrow> valid_utf8 (drop i d)"
proof (induction d arbitrary: i rule: valid_utf8.induct)
  case (2 b bs)
  let ?w = "char_width b - 1"
  show ?case
  proof (cases i)
    case (Suc n)
    show ?thesis
    proof (cases "n < length bs")
      case True
      with 2 Suc have "\<not> continuation (bs ! n)" by (simp add: boundary_def)
      moreover from 2 have "\<forall>j < ?w. continuation (bs ! j)" by (auto simp: list_all_length)
      ultimately have "\<not> n < ?w" by auto
      then obtain k where k: "n = ?w + k" using le_Suc_ex not_less by blast
      moreover have "boundary (drop ?w bs) k" using 2 Suc k True by (auto simp: boundary_def)
      ultimately show ?thesis using 2 Suc by (simp add: add.commute)
    qed (simp add: Suc)
  qed (use 2 in simp)
qed simp

lemma valid_slice:
  "valid_utf8 d \<Longrightarrow> boundary d n \<Longrightarrow> valid_utf8 (take n d)"
proof (induction d arbitrary: n rule: valid_utf8.induct)
  case (2 b bs)
  let ?w = "char_width b - 1"
  show ?case
  proof (cases n)
    case (Suc k)
    have cont: "\<forall>j < ?w. continuation (bs ! j)" and len: "?w \<le> length bs" using 2 by (auto simp: list_all_length)
    have "\<not> k < ?w"
    proof
      assume "k < ?w"
      moreover from this len have "k < length bs" by simp
      ultimately show False using cont 2 Suc by (simp add: boundary_def)
    qed
    then obtain j where j: "k = ?w + j" using le_Suc_ex not_less by blast
    then have "boundary (drop ?w bs) j" using 2 Suc by (auto simp: boundary_def)
    then have "valid_utf8 (take j (drop ?w bs))" using 2 by simp
    then show ?thesis using 2 Suc j by (simp add: drop_take min_def)
  qed simp
qed simp

text \<open>C32. Reading a finished UTF-8 output page by page loses nothing and cuts no character: from any
  character boundary, with any page size of at least one byte, at most one page per remaining byte
  is needed, the pages concatenate to exactly the rest of the output, and every page is itself
  well-formed UTF-8 of at most the page size plus three bytes.\<close>

theorem utf8_pages_reassemble:
  assumes "valid_utf8 d" and "boundary d i" and "0 < m" and "length d - i \<le> fuel"
  shows "concat (read_pages fuel d m i) = drop i d
    \<and> (\<forall>p \<in> set (read_pages fuel d m i). valid_utf8 p \<and> p \<noteq> [] \<and> length p \<le> m + 3)"
  using assms(2,4)
proof (induction fuel arbitrary: i)
  case (Suc fuel)
  show ?case
  proof (cases "i < length d")
    case True
    let ?p = "utf8Page d i m True"
    from utf8Page_complete [OF assms(1) Suc.prems(1) True assms(3)]
    have p: "i < up_nextOffset ?p" "up_nextOffset ?p \<le> i + m + 3" "boundary d (up_nextOffset ?p)"
      "up_data ?p = take (up_nextOffset ?p - i) (drop i d)" by simp_all
    have ih: "concat (read_pages fuel d m (up_nextOffset ?p)) = drop (up_nextOffset ?p) d
      \<and> (\<forall>p \<in> set (read_pages fuel d m (up_nextOffset ?p)). valid_utf8 p \<and> p \<noteq> [] \<and> length p \<le> m + 3)"
      using p(1,3) Suc.prems(2) by (intro Suc.IH) auto
    have "boundary (drop i d) (up_nextOffset ?p - i)"
      using p(1,3) by (auto simp: boundary_def)
    then have "valid_utf8 (up_data ?p)"
      unfolding p(4) using valid_drop [OF assms(1) Suc.prems(1)] by (intro valid_slice)
    moreover have "up_data ?p \<noteq> []" "length (up_data ?p) \<le> m + 3"
      using p True by auto
    moreover have "up_data ?p @ drop (up_nextOffset ?p) d = drop i d"
      unfolding p(4) using p(1) by (metis append_take_drop_id drop_drop le_add_diff_inverse2 less_imp_le_nat)
    ultimately show ?thesis using ih True by (simp add: Let_def)
  next
    case False
    with Suc.prems(1) show ?thesis by (simp add: boundary_def)
  qed
qed simp

theorem utf8_pages_reassemble_witness:
  "concat (read_pages 5 [0x61, 0xe2, 0x82, 0xac, 0x62] 2 0) = [0x61, 0xe2, 0x82, 0xac, 0x62]"
proof -
  have "valid_utf8 [0x61, 0xe2, 0x82, 0xac, 0x62]" by (simp add: continuation_def char_width_def)
  from utf8_pages_reassemble [OF this valid_boundary_0 [OF this], of 2 5] show ?thesis by simp
qed

section \<open>Complete prefixes\<close>

lemma trailing_continuations_eq:
  "n \<le> limit \<Longrightarrow> n < length ys \<Longrightarrow> \<forall>j < n. continuation (ys ! j) \<Longrightarrow> \<not> continuation (ys ! n)
    \<Longrightarrow> trailing_continuations limit ys = n"
proof (induction limit ys arbitrary: n rule: trailing_continuations.induct)
  case (2 limit v rest)
  show ?case
  proof (cases n)
    case (Suc m)
    with 2 have "trailing_continuations (limit - 1) rest = m"
      by (intro 2(1)) force+
    with 2 Suc show ?thesis by force
  qed (use 2 in simp)
qed simp

lemma last_start_exists:
  assumes "valid_utf8 d" and "0 < k" and "k \<le> length d"
  shows "\<exists>i < k. \<not> continuation (d ! i) \<and> (\<forall>j. i < j \<and> j < k \<longrightarrow> continuation (d ! j))"
proof -
  let ?P = "\<lambda>i. i < k \<and> \<not> continuation (d ! i)"
  have "?P 0" using assms valid_boundary_0 [OF assms(1)] by (auto simp: boundary_def)
  then have "?P (GREATEST i. ?P i)" by (rule GreatestI_nat [where b = k]) auto
  moreover have "continuation (d ! j)" if "(GREATEST i. ?P i) < j" "j < k" for j
    using that Greatest_le_nat [of ?P j k] by fastforce
  ultimately show ?thesis by blast
qed

text \<open>On a well-formed text cut anywhere, the complete prefix ends at the last character boundary.\<close>

lemma complete_prefix_boundary:
  assumes "valid_utf8 d" and "k \<le> length d"
  shows "boundary d (completeUtf8PrefixLength (take k d)) \<and> completeUtf8PrefixLength (take k d) \<le> k
    \<and> (\<forall>j. completeUtf8PrefixLength (take k d) < j \<and> j \<le> k \<longrightarrow> \<not> boundary d j)"
proof (cases "k = 0")
  case True
  with assms show ?thesis by (auto simp: completeUtf8PrefixLength_def valid_boundary_0)
next
  case False
  with last_start_exists [OF assms(1) _ assms(2)] obtain i where i: "i < k" "\<not> continuation (d ! i)"
    and after: "\<forall>j. i < j \<and> j < k \<longrightarrow> continuation (d ! j)" by blast
  define w where "w = char_width (d ! i)"
  have at: "i + w \<le> length d" "\<forall>j. i < j \<and> j < i + w \<longrightarrow> continuation (d ! j)"
    "i + w < length d \<longrightarrow> \<not> continuation (d ! (i + w))"
    using valid_char_at [OF assms(1) _ i(2)] i(1) assms(2) unfolding w_def by (auto simp: less_le_trans)
  have "0 < w" "w \<le> 4" by (simp_all add: w_def)
  have k: "k \<le> i + w"
  proof (rule ccontr)
    assume "\<not> k \<le> i + w"
    then have "i + w < k" by simp
    with at(3) assms(2) after \<open>0 < w\<close> show False by force
  qed
  have tc: "trailing_continuations 3 (rev (take k d)) = k - 1 - i"
  proof (rule trailing_continuations_eq)
    show "k - 1 - i \<le> 3" using k \<open>w \<le> 4\<close> by simp
    show "k - 1 - i < length (rev (take k d))" using i assms(2) by simp
    show "\<forall>j < k - 1 - i. continuation (rev (take k d) ! j)"
      using after assms(2) by (simp add: rev_nth)
    show "\<not> continuation (rev (take k d) ! (k - 1 - i))"
      using i assms(2) by (simp add: rev_nth)
  qed
  have r: "completeUtf8PrefixLength (take k d) = (if k - i < w then i else k)"
  proof -
    have "take k d \<noteq> []" "length (take k d) = k" "k - 1 - (k - 1 - i) = i" "\<not> k \<le> k - 1 - i"
      using False assms(2) i(1) by auto
    moreover have "take k d ! i = d ! i" using i(1) by simp
    ultimately show ?thesis
      using i(1) \<open>0 < w\<close> unfolding completeUtf8PrefixLength_def Let_def tc
      by (auto simp: width_is_sequence_bytes w_def)
  qed
  show ?thesis
  proof (cases "k - i < w")
    case True
    then have "\<not> boundary d j" if "i < j" "j \<le> k" for j
      using that at by (auto simp: boundary_def)
    with r True i assms(2) show ?thesis by (auto simp: boundary_def)
  next
    case False
    with k i have "k = i + w" by simp
    with r False at show ?thesis by (auto simp: boundary_def)
  qed
qed

lemma complete_prefix_valid:
  "valid_utf8 d \<Longrightarrow> k \<le> length d \<Longrightarrow> valid_utf8 (take (completeUtf8PrefixLength (take k d)) d)"
  using complete_prefix_boundary [of d k] by (intro valid_slice) auto

end
