(* ===== verification/Sorts.thy ===== *)
theory Sorts
  imports Prelude "HOL-Library.Multiset" "HOL-Library.List_Lexorder"
begin

text \<open>\<open>Array.prototype.sort\<close> with a comparison function, which is stable, and the comparison of two
  strings by their code units.\<close>

section \<open>Stable sorting\<close>

fun insert_by :: "('a \<Rightarrow> 'a \<Rightarrow> bool) \<Rightarrow> 'a \<Rightarrow> 'a list \<Rightarrow> 'a list" where
  "insert_by le x [] = [x]"
| "insert_by le x (y # ys) = (if le x y then x # y # ys else y # insert_by le x ys)"

definition sort_by :: "('a \<Rightarrow> 'a \<Rightarrow> bool) \<Rightarrow> 'a list \<Rightarrow> 'a list" where
  "sort_by le xs = foldr (insert_by le) xs []"

lemma insert_by_mset [simp]: "mset (insert_by le x xs) = add_mset x (mset xs)"
  by (induction xs) auto

lemma sort_by_mset [simp]: "mset (sort_by le xs) = mset xs"
  by (induction xs) (simp_all add: sort_by_def)

lemma sort_by_set [simp]: "set (sort_by le xs) = set xs"
  by (metis set_mset_mset sort_by_mset)

lemma insert_by_sorted:
  assumes "\<And>x y. le x y \<or> le y x" and "\<And>x y z. le x y \<Longrightarrow> le y z \<Longrightarrow> le x z" and "sorted_wrt le xs"
  shows "sorted_wrt le (insert_by le x xs)"
  using assms(3)
proof (induction xs)
  case (Cons y ys)
  have "set (insert_by le x ys) = insert x (set ys)" by (metis insert_by_mset set_mset_add_mset_insert set_mset_mset)
  with Cons assms(1,2) show ?case by fastforce
qed simp

lemma sort_by_sorted:
  assumes "\<And>x y. le x y \<or> le y x" and "\<And>x y z. le x y \<Longrightarrow> le y z \<Longrightarrow> le x z"
  shows "sorted_wrt le (sort_by le xs)"
proof -
  have "sorted_wrt le (foldr (insert_by le) xs [])"
    by (induction xs) (simp_all add: insert_by_sorted [OF assms])
  then show ?thesis by (simp add: sort_by_def)
qed

lemma take_sorted_best:
  assumes "sorted_wrt le xs" and "x \<in> set (take n xs)" and "y \<in> set xs" and "y \<notin> set (take n xs)"
  shows "le x y"
proof -
  have "y \<in> set (drop n xs)" using assms(3,4) by (metis Un_iff append_take_drop_id set_append)
  then show ?thesis using assms(1,2) by (metis append_take_drop_id sorted_wrt_append)
qed

lemma sort_by_Nil [simp]: "sort_by le [] = []"
  by (simp add: sort_by_def)

lemma sort_by_length [simp]: "length (sort_by le xs) = length xs"
  by (metis size_mset sort_by_mset)

lemma sort_by_empty [simp]: "sort_by le xs = [] \<longleftrightarrow> xs = []"
  by (metis length_0_conv sort_by_length)

lemma sort_by_distinct [simp]: "distinct (sort_by le xs) \<longleftrightarrow> distinct xs"
  by (metis mset_eq_imp_distinct_iff sort_by_mset)

lemma insert_by_map:
  assumes "\<And>a b. le' (f a) (f b) = le a b"
  shows "insert_by le' (f x) (map f xs) = map f (insert_by le x xs)"
  by (induction xs) (simp_all add: assms)

lemma sort_by_map:
  assumes "\<And>a b. le' (f a) (f b) = le a b"
  shows "sort_by le' (map f xs) = map f (sort_by le xs)"
  by (induction xs) (simp_all add: sort_by_def insert_by_map [of le' f le, OF assms])

text \<open>A list that is sorted already stays as it is.\<close>

lemma sort_by_already: "sorted_wrt le xs \<Longrightarrow> sort_by le xs = xs"
proof (induction xs)
  case (Cons x xs)
  then have "foldr (insert_by le) xs [] = xs" by (simp add: sort_by_def)
  with Cons.prems show ?case by (cases xs) (simp_all add: sort_by_def)
qed simp

section \<open>Strings\<close>

text \<open>\<open>left < right ? -1 : left > right ? 1 : 0\<close>\<close>

definition compareText :: "string \<Rightarrow> string \<Rightarrow> int" where
  "compareText l r = (if l < r then -1 else if l > r then 1 else 0)"

lemma compareText_le [simp]: "compareText l r \<le> 0 \<longleftrightarrow> l \<le> r"
  by (auto simp: compareText_def)

lemma compareText_zero [simp]: "compareText l r = 0 \<longleftrightarrow> l = r"
  by (auto simp: compareText_def)

lemma sort_by_text: "sorted_wrt (\<lambda>a b. compareText (f a) (f b) \<le> 0) (sort_by (\<lambda>a b. compareText (f a) (f b) \<le> 0) xs)"
  by (rule sort_by_sorted) auto

end
