(* ===== verification/Archive_Plan.thy ===== *)
theory Archive_Plan
  imports Utf8 Sorts
begin

text \<open>The inspection of a backup archive: packages/cli/src/safe-backup-archive.ts. The members that the tar
  library reports are checked one by one, then the whole graph of paths and links, before anything is
  extracted. The library and Unicode normalisation are arguments: \<open>nfc\<close> normalises a component. A
  string has one character below 256 for each UTF-16 unit.\<close>

unbundle bit_operations_syntax

section \<open>Members\<close>

record archive_limits =
  al_maxArchiveBytes :: int
  al_maxEntries :: nat
  al_maxFilesystemEntries :: nat
  al_maxExpandedBytes :: int
  al_maxFileBytes :: int
  al_maxPathBytes :: int
  al_maxPathDepth :: nat
  al_maxPathTableBytes :: int
  al_maxLinkChain :: nat
  al_maxLinkResolutionSteps :: nat
  al_maxMetadataBytes :: int
  al_maxDecompressionRatio :: int

definition BACKUP_ARCHIVE_LIMITS :: archive_limits where
  "BACKUP_ARCHIVE_LIMITS = \<lparr>al_maxArchiveBytes = 64 * 1024 * 1024 * 1024, al_maxEntries = 250000,
     al_maxFilesystemEntries = 500000, al_maxExpandedBytes = 128 * 1024 * 1024 * 1024,
     al_maxFileBytes = 32 * 1024 * 1024 * 1024, al_maxPathBytes = 4096, al_maxPathDepth = 256,
     al_maxPathTableBytes = 64 * 1024 * 1024, al_maxLinkChain = 64, al_maxLinkResolutionSteps = 2000000,
     al_maxMetadataBytes = 1024 * 1024, al_maxDecompressionRatio = 1000\<rparr>"

datatype entry_kind = ArchiveDirectory | ArchiveFile | ArchiveHardlink | ArchiveSymlink

record archive_entry =
  ae_name :: string
  ae_kind :: entry_kind
  ae_size :: int
  ae_mode :: int
  ae_linkpath :: "string option"
  ae_linkTarget :: "string option"
  ae_resolvedHardlinkTarget :: "string option"

text \<open>A member as the tar library reports it; an undefined and an empty link path count the same.\<close>

record tar_entry =
  te_type :: string
  te_path :: string
  te_size :: int
  te_mode :: "int option"
  te_linkpath :: string

text \<open>The reasons to refuse an archive.\<close>

datatype archive_error =
    UnsupportedType string string
  | InvalidPath string
  | PathTooLong
  | BackslashPath string
  | AbsolutePath string
  | TraversalPath string
  | PathTooDeep
  | TargetIsRoot string
  | RootNotDirectory
  | InvalidSize string
  | UnsafeSum
  | UnexpectedBody string
  | FileTooLarge string
  | InvalidMode string
  | SetIdMode string
  | DirectoryStylePath string
  | LinkWithoutTarget string
  | LinkTargetTooLong string
  | BackslashTarget string
  | AbsoluteTarget string
  | UnexpectedTarget string
  | DuplicatePath string
  | EquivalentPaths string string
  | TooManyEntries
  | ExpandsTooFar
  | PathTableTooLarge
  | GraphTooLarge
  | BeneathNonDirectory string string
  | LinkBudgetExceeded
  | HardlinkChainTooDeep string
  | HardlinkCycle string
  | HardlinkMissing string string
  | HardlinkNotFile string
  | SymlinkEscapes string
  | SymlinkChainTooDeep string
  | SymlinkPathTooLong string
  | SymlinkCycle string
  | SparseMetadata
  | StreamFailed string

definition allowedTypes :: "(string \<times> entry_kind) list" where
  "allowedTypes = [(''File'', ArchiveFile), (''OldFile'', ArchiveFile), (''Directory'', ArchiveDirectory), (''Link'', ArchiveHardlink),
     (''SymbolicLink'', ArchiveSymlink)]"

text \<open>\<open>Buffer.byteLength\<close> in UTF-8.\<close>

definition utf8_length :: "string \<Rightarrow> int" where
  "utf8_length s = int (length s) + int (length (filter (\<lambda>c. (of_char c :: int) \<ge> 128) s))"

definition checkedSize :: "int \<Rightarrow> string \<Rightarrow> archive_error + int" where
  "checkedSize value label = (if \<not> isSafeInteger value \<or> value < 0 then Inl (InvalidSize label) else Inr value)"

definition checkedSum :: "int \<Rightarrow> int \<Rightarrow> archive_error + int" where
  "checkedSum l r = (if \<not> isSafeInteger (l + r) then Inl UnsafeSum else Inr (l + r))"

definition ascii_letter :: "char \<Rightarrow> bool" where
  "ascii_letter c = (let n = (of_char c :: int) in (65 \<le> n \<and> n \<le> 90) \<or> (97 \<le> n \<and> n \<le> 122))"

definition backslash :: char where "backslash = CHR 0x5C"

definition windowsAbsolute :: "string \<Rightarrow> bool" where
  "windowsAbsolute path =
     ((case path of a # b # c # _ \<Rightarrow> ascii_letter a \<and> b = CHR '':'' \<and> (c = CHR ''/'' \<or> c = backslash) | _ \<Rightarrow> False)
      \<or> starts_with path ''//'' \<or> starts_with path [backslash, backslash])"

definition posix_absolute :: "string \<Rightarrow> bool" where
  "posix_absolute path = (case path of c # _ \<Rightarrow> c = CHR ''/'' | [] \<Rightarrow> False)"

text \<open>\<open>components\<close> is the list that \<open>for ... of raw.split('/')\<close> builds.\<close>

fun path_components :: "string \<Rightarrow> string list \<Rightarrow> archive_error + string list" where
  "path_components raw [] = Inr []"
| "path_components raw (c # cs) =
     (if c = [] \<or> c = ''.'' then path_components raw cs
      else if c = ''..'' then Inl (TraversalPath raw)
      else rbind (path_components raw cs) (\<lambda>r. Inr (c # r)))"

definition canonicalArchivePath :: "archive_limits \<Rightarrow> string \<Rightarrow> bool \<Rightarrow> archive_error + string" where
  "canonicalArchivePath lim raw allowRoot =
     (if raw = [] \<or> CHR 0x00 \<in> set raw then Inl (InvalidPath raw)
      else if utf8_length raw > al_maxPathBytes lim then Inl PathTooLong
      else if backslash \<in> set raw then Inl (BackslashPath raw)
      else if posix_absolute raw \<or> windowsAbsolute raw then Inl (AbsolutePath raw)
      else rbind (path_components raw (split_on CHR ''/'' raw)) (\<lambda>components.
        if length components > al_maxPathDepth lim then Inl PathTooDeep
        else
          (let canonical = join_with CHR ''/'' components
           in if canonical = [] \<and> \<not> allowRoot then Inl (TargetIsRoot raw) else Inr canonical)))"

definition requiredLinkpath :: "archive_limits \<Rightarrow> tar_entry \<Rightarrow> string \<Rightarrow> archive_error + string" where
  "requiredLinkpath lim entry name =
     (if te_linkpath entry = [] then Inl (LinkWithoutTarget name)
      else if utf8_length (te_linkpath entry) > al_maxPathBytes lim then Inl (LinkTargetTooLong name)
      else if backslash \<in> set (te_linkpath entry) then Inl (BackslashTarget name)
      else if windowsAbsolute (te_linkpath entry) \<or> te_type entry \<noteq> ''SymbolicLink'' \<and> posix_absolute (te_linkpath entry)
      then Inl (AbsoluteTarget name)
      else Inr (te_linkpath entry))"

definition safeEntry :: "archive_limits \<Rightarrow> tar_entry \<Rightarrow> archive_error + archive_entry" where
  "safeEntry lim entry = (case map_of allowedTypes (te_type entry) of
       None \<Rightarrow> Inl (UnsupportedType (te_type entry) (te_path entry))
     | Some kind \<Rightarrow>
         rbind (canonicalArchivePath lim (te_path entry) True) (\<lambda>name.
         if name = [] \<and> kind \<noteq> ArchiveDirectory then Inl RootNotDirectory
         else rbind (checkedSize (te_size entry) name) (\<lambda>size.
         if kind \<noteq> ArchiveFile \<and> size \<noteq> 0 then Inl (UnexpectedBody name)
         else if kind = ArchiveFile \<and> size > al_maxFileBytes lim then Inl (FileTooLarge name)
         else
           (let mode = (case te_mode entry of Some m \<Rightarrow> m | None \<Rightarrow> if kind = ArchiveDirectory then 493 else 420);
                plain = \<lparr>ae_name = name, ae_kind = kind, ae_size = size, ae_mode = mode, ae_linkpath = None, ae_linkTarget = None,
                  ae_resolvedHardlinkTarget = None\<rparr>
            in if \<not> isSafeInteger mode \<or> mode < 0 \<or> mode > 4095 then Inl (InvalidMode name)
               else if mode AND 3072 \<noteq> 0 then Inl (SetIdMode name)
               else if kind \<noteq> ArchiveDirectory \<and> ends_with (te_path entry) ''/'' then Inl (DirectoryStylePath name)
               else if kind = ArchiveSymlink
               then rbind (requiredLinkpath lim entry name) (\<lambda>l. Inr (plain\<lparr>ae_linkpath := Some l\<rparr>))
               else if kind = ArchiveHardlink
               then rbind (requiredLinkpath lim entry name) (\<lambda>l. rbind (canonicalArchivePath lim l False) (\<lambda>t.
                      Inr (plain\<lparr>ae_linkpath := Some l, ae_linkTarget := Some t\<rparr>)))
               else if te_linkpath entry \<noteq> [] then Inl (UnexpectedTarget name)
               else Inr plain))))"

section \<open>Collecting the members\<close>

definition unicodeCollisionKey :: "(string \<Rightarrow> string) \<Rightarrow> string \<Rightarrow> string" where
  "unicodeCollisionKey nfc path = join_with CHR ''/'' (map nfc (split_on CHR ''/'' path))"

record archive_inspection =
  ai_entries :: "(string, archive_entry) js_map"
  ai_byKey :: "(string, archive_entry) js_map"
  ai_expandedBytes :: int
  ai_pathTableBytes :: int

definition inspect_entry :: "archive_limits \<Rightarrow> (string \<Rightarrow> string) \<Rightarrow> tar_entry \<Rightarrow> archive_inspection \<Rightarrow> archive_error + archive_inspection" where
  "inspect_entry lim nfc raw st = rbind (safeEntry lim raw) (\<lambda>candidate.
     let name = ae_name candidate; key = unicodeCollisionKey nfc name in
     if map_of (ai_entries st) name \<noteq> None then Inl (DuplicatePath name)
     else if (case map_of (ai_byKey st) key of None \<Rightarrow> False | Some other \<Rightarrow> ae_name other \<noteq> name)
     then Inl (EquivalentPaths (ae_name (the (map_of (ai_byKey st) key))) name)
     else if length (ai_entries st) \<ge> al_maxEntries lim then Inl TooManyEntries
     else rbind (checkedSum (ai_expandedBytes st) (ae_size candidate)) (\<lambda>expanded.
       if expanded > al_maxExpandedBytes lim then Inl ExpandsTooFar
       else rbind (checkedSum (ai_pathTableBytes st)
           (utf8_length name + utf8_length key + utf8_length (case ae_linkpath candidate of None \<Rightarrow> [] | Some l \<Rightarrow> l))) (\<lambda>table.
         if table > al_maxPathTableBytes lim then Inl PathTableTooLarge
         else Inr \<lparr>ai_entries = AList.update name candidate (ai_entries st), ai_byKey = AList.update key candidate (ai_byKey st),
                ai_expandedBytes = expanded, ai_pathTableBytes = table\<rparr>)))"

fun occurs_in :: "string \<Rightarrow> string \<Rightarrow> bool" where
  "occurs_in p [] = (p = [])"
| "occurs_in p (c # s) = (starts_with (c # s) p \<or> occurs_in p s)"

definition sparseMetadata :: "string \<Rightarrow> bool" where
  "sparseMetadata metadata = list_ex (\<lambda>p. occurs_in p metadata)
     [''GNU.sparse.'', ''GNU.sparse='', ''SCHILY.realsize.'', ''SCHILY.realsize='', ''SCHILY.sparse.'', ''SCHILY.sparse='',
      ''SCHILY.filetype=sparse'', ''SUN.holesdata='']"

text \<open>What the parser of the tar library reports. The first handler that fails aborts it.\<close>

datatype archive_event = MemberEvent tar_entry | IgnoredEvent tar_entry | MetaEvent string

definition inspect_event :: "archive_limits \<Rightarrow> (string \<Rightarrow> string) \<Rightarrow> archive_event \<Rightarrow> archive_inspection \<Rightarrow> archive_error + archive_inspection" where
  "inspect_event lim nfc e st = (case e of
       MemberEvent raw \<Rightarrow> inspect_entry lim nfc raw st
     | IgnoredEvent raw \<Rightarrow> Inl (UnsupportedType (te_type raw) (te_path raw))
     | MetaEvent metadata \<Rightarrow> if sparseMetadata metadata then Inl SparseMetadata else Inr st)"

section \<open>Reading the file\<close>

text \<open>The file as it is opened without following a link, and the chunks its stream delivers.\<close>

record archive_file =
  af_symlink :: bool
  af_regular :: bool
  af_size :: int
  af_magic :: "nat list"
  af_chunks :: "nat list list"

definition openArchive :: "archive_limits \<Rightarrow> bool \<Rightarrow> archive_file \<Rightarrow> archive_error + int" where
  "openArchive lim requireGzip f =
     (if af_symlink f then Inl (StreamFailed ''must be a regular file, not a symbolic link'')
      else if \<not> af_regular f then Inl (StreamFailed ''must be a regular file'')
      else if af_size f > al_maxArchiveBytes lim then Inl (StreamFailed ''is larger than allowed'')
      else if requireGzip \<and> af_magic f \<noteq> [0x1f, 0x8b] then Inl (StreamFailed ''is not in the expected gzip-compressed tar format'')
      else Inr (af_size f))"

definition count_chunk :: "archive_limits \<Rightarrow> nat list \<Rightarrow> int \<Rightarrow> archive_error + int" where
  "count_chunk lim chunk archiveBytes = rbind (checkedSum archiveBytes (int (length chunk))) (\<lambda>n.
     if n > al_maxArchiveBytes lim then Inl (StreamFailed ''is larger than allowed'') else Inr n)"

text \<open>\<open>sha\<close> is the hash; \<open>failed\<close> an error of the stream or of the parser itself.\<close>

definition pipeArchive :: "archive_limits \<Rightarrow> (nat list \<Rightarrow> string) \<Rightarrow> archive_file \<Rightarrow> string option \<Rightarrow> archive_error + string" where
  "pipeArchive lim sha f failed = rbind (openArchive lim True f) (\<lambda>size.
     rbind (rfold (count_chunk lim) (af_chunks f) 0) (\<lambda>archiveBytes.
       (case failed of
          Some e \<Rightarrow> Inl (StreamFailed e)
        | None \<Rightarrow> if archiveBytes \<noteq> size then Inl (StreamFailed ''changed size while it was being read'')
            else Inr (sha (concat (af_chunks f))))))"

definition parseArchive ::
  "archive_limits \<Rightarrow> (nat list \<Rightarrow> string) \<Rightarrow> archive_file \<Rightarrow> string option \<Rightarrow> (archive_event \<Rightarrow> 's \<Rightarrow> archive_error + 's)
     \<Rightarrow> archive_event list \<Rightarrow> 's \<Rightarrow> archive_error + ('s \<times> string)"
where
  "parseArchive lim sha f failed handler events st = rbind (openArchive lim True f) (\<lambda>_.
     rbind (rfold handler events st) (\<lambda>st'. rbind (pipeArchive lim sha f failed) (\<lambda>digest. Inr (st', digest))))"

section \<open>The graph of paths\<close>

record archive_graph =
  ag_filesystem :: "(string, entry_kind) js_map"
  ag_names :: "(string, string) js_map"
  ag_pathTableBytes :: int

definition addFilesystemEntry ::
  "archive_limits \<Rightarrow> (string \<Rightarrow> string) \<Rightarrow> (string, archive_entry) js_map \<Rightarrow> string \<Rightarrow> entry_kind \<Rightarrow> bool \<Rightarrow> archive_graph
     \<Rightarrow> archive_error + archive_graph"
where
  "addFilesystemEntry lim nfc byKey name kind implicit g =
     (let key = unicodeCollisionKey nfc name;
          colliding = (case map_of byKey key of
              Some e \<Rightarrow> if ae_name e \<noteq> name then Some (ae_name e)
                else (case map_of (ag_names g) key of Some n \<Rightarrow> if n \<noteq> name then Some n else None | None \<Rightarrow> None)
            | None \<Rightarrow> (case map_of (ag_names g) key of Some n \<Rightarrow> if n \<noteq> name then Some n else None | None \<Rightarrow> None))
      in case colliding of
           Some n \<Rightarrow> Inl (EquivalentPaths n name)
         | None \<Rightarrow>
             rbind (if map_of (ag_filesystem g) name \<noteq> None then Inr (ag_pathTableBytes g)
                else if length (ag_filesystem g) \<ge> al_maxFilesystemEntries lim then Inl GraphTooLarge
                else rbind (checkedSum (ag_pathTableBytes g) ((if implicit then utf8_length name else 0) + utf8_length key)) (\<lambda>table.
                  if table > al_maxPathTableBytes lim then Inl PathTableTooLarge else Inr table)) (\<lambda>table.
             Inr \<lparr>ag_filesystem = AList.update name kind (ag_filesystem g), ag_names = AList.update key name (ag_names g),
               ag_pathTableBytes = table\<rparr>))"

text \<open>\<open>name.split('/').filter(Boolean)\<close>, and the proper ancestors of a path, from the top.\<close>

definition name_components :: "string \<Rightarrow> string list" where
  "name_components name = filter (\<lambda>c. c \<noteq> []) (split_on CHR ''/'' name)"

definition ancestors_of :: "string list \<Rightarrow> string list" where
  "ancestors_of components = map (\<lambda>index. join_with CHR ''/'' (take index components)) [1..<length components]"

definition add_ancestor ::
  "archive_limits \<Rightarrow> (string \<Rightarrow> string) \<Rightarrow> (string, archive_entry) js_map \<Rightarrow> (string, archive_entry) js_map \<Rightarrow> string \<Rightarrow> string
     \<Rightarrow> archive_graph \<Rightarrow> archive_error + archive_graph"
where
  "add_ancestor lim nfc entries byKey name ancestor g =
     (case map_of byKey (unicodeCollisionKey nfc ancestor) of
        Some declared \<Rightarrow> if ae_kind declared \<noteq> ArchiveDirectory then Inl (BeneathNonDirectory name ancestor)
          else addFilesystemEntry lim nfc byKey ancestor ArchiveDirectory (map_of entries ancestor = None) g
      | None \<Rightarrow> addFilesystemEntry lim nfc byKey ancestor ArchiveDirectory (map_of entries ancestor = None) g)"

definition add_entry_paths ::
  "archive_limits \<Rightarrow> (string \<Rightarrow> string) \<Rightarrow> (string, archive_entry) js_map \<Rightarrow> (string, archive_entry) js_map \<Rightarrow> archive_entry
     \<Rightarrow> archive_graph \<Rightarrow> archive_error + archive_graph"
where
  "add_entry_paths lim nfc entries byKey e g =
     rbind (if ae_name e \<noteq> [] then addFilesystemEntry lim nfc byKey (ae_name e) (ae_kind e) False g else Inr g)
       (rfold (add_ancestor lim nfc entries byKey (ae_name e)) (ancestors_of (name_components (ae_name e))))"

section \<open>Links\<close>

text \<open>\<open>steps\<close> counts every step of every link; the loops end because the budget for steps does.\<close>

definition link_step :: "archive_limits \<Rightarrow> nat \<Rightarrow> archive_error + nat" where
  "link_step lim steps = (if Suc steps > al_maxLinkResolutionSteps lim then Inl LinkBudgetExceeded else Inr (Suc steps))"

function resolve_hardlink ::
  "archive_limits \<Rightarrow> (string \<Rightarrow> string) \<Rightarrow> (string, archive_entry) js_map \<Rightarrow> string \<Rightarrow> string \<Rightarrow> string list \<Rightarrow> nat
     \<Rightarrow> archive_error + string \<times> nat"
where
  "resolve_hardlink lim nfc byKey name target visited steps = (case link_step lim steps of
       Inl e \<Rightarrow> Inl e
     | Inr steps' \<Rightarrow>
         (let key = unicodeCollisionKey nfc target in
          if length visited > al_maxLinkChain lim then Inl (HardlinkChainTooDeep name)
          else if key \<in> set visited then Inl (HardlinkCycle target)
          else (case map_of byKey key of
              None \<Rightarrow> Inl (HardlinkMissing name target)
            | Some c \<Rightarrow>
                if ae_kind c = ArchiveFile then Inr (ae_name c, steps')
                else if ae_kind c \<noteq> ArchiveHardlink then Inl (HardlinkNotFile name)
                else resolve_hardlink lim nfc byKey name (case ae_linkTarget c of Some t \<Rightarrow> t | None \<Rightarrow> []) (key # visited) steps')))"
  by pat_completeness auto
termination
  by (relation "measure (\<lambda>(lim, _, _, _, _, _, steps). Suc (al_maxLinkResolutionSteps lim) - steps)")
    (auto simp: link_step_def split: if_splits)

declare resolve_hardlink.simps [simp del]

definition resolveHardlink ::
  "archive_limits \<Rightarrow> (string \<Rightarrow> string) \<Rightarrow> (string, archive_entry) js_map \<Rightarrow> archive_entry \<Rightarrow> nat \<Rightarrow> archive_error + string \<times> nat"
where
  "resolveHardlink lim nfc byKey e steps =
     resolve_hardlink lim nfc byKey (ae_name e) (case ae_linkTarget e of Some t \<Rightarrow> t | None \<Rightarrow> []) [unicodeCollisionKey nfc (ae_name e)] steps"

text \<open>The directory part of a canonical name.\<close>

definition dirnameArchivePath :: "string \<Rightarrow> string" where
  "dirnameArchivePath path = join_with CHR ''/'' (butlast (split_on CHR ''/'' path))"

definition popped_bytes :: "string list \<Rightarrow> int" where
  "popped_bytes resolved = utf8_length (last resolved) + (if butlast resolved \<noteq> [] then 1 else 0)"

text \<open>The loop over the components of a symbolic link and of those it leads to: \<open>resolved\<close> is the
  directory reached, \<open>pending\<close> the components that are left.\<close>

function symlink_walk ::
  "archive_limits \<Rightarrow> (string \<Rightarrow> string) \<Rightarrow> (string, archive_entry) js_map \<Rightarrow> string \<Rightarrow> string list \<Rightarrow> int \<Rightarrow> string list \<Rightarrow> string list
     \<Rightarrow> nat \<Rightarrow> archive_error + nat"
where
  "symlink_walk lim nfc byKey name resolved resolvedBytes [] followed steps = Inr steps"
| "symlink_walk lim nfc byKey name resolved resolvedBytes (component # pending) followed steps = (case link_step lim steps of
       Inl e \<Rightarrow> Inl e
     | Inr steps' \<Rightarrow>
         if component = [] \<or> component = ''.'' then symlink_walk lim nfc byKey name resolved resolvedBytes pending followed steps'
         else if component = ''..'' then
           (if resolved = [] then Inl (SymlinkEscapes name)
            else symlink_walk lim nfc byKey name (butlast resolved) (resolvedBytes - popped_bytes resolved) pending followed steps')
         else
           (let bytes = resolvedBytes + utf8_length component + (if resolved \<noteq> [] then 1 else 0);
                resolved1 = resolved @ [component]; prefix = join_with CHR ''/'' resolved1; key = unicodeCollisionKey nfc prefix
            in if length resolved1 > al_maxPathDepth lim then Inl (SymlinkChainTooDeep name)
               else if bytes > al_maxPathBytes lim then Inl (SymlinkPathTooLong name)
               else (case map_of byKey key of
                   None \<Rightarrow> symlink_walk lim nfc byKey name resolved1 bytes pending followed steps'
                 | Some c \<Rightarrow>
                     if ae_kind c \<noteq> ArchiveSymlink then symlink_walk lim nfc byKey name resolved1 bytes pending followed steps'
                     else
                       (let target = (case ae_linkpath c of Some l \<Rightarrow> l | None \<Rightarrow> [])
                        in if posix_absolute target then Inr steps'
                           else if key \<in> set followed then Inl (SymlinkCycle prefix)
                           else if length followed \<ge> al_maxLinkChain lim then Inl (SymlinkChainTooDeep name)
                           else symlink_walk lim nfc byKey name resolved (bytes - popped_bytes resolved1)
                                  (split_on CHR ''/'' target @ pending) (key # followed) steps'))))"
  by pat_completeness auto
termination
  by (relation "measure (\<lambda>(lim, _, _, _, _, _, _, _, steps). Suc (al_maxLinkResolutionSteps lim) - steps)")
    (auto simp: link_step_def split: if_splits)

declare symlink_walk.simps [simp del]

definition assertConfinedAcyclicSymlink ::
  "archive_limits \<Rightarrow> (string \<Rightarrow> string) \<Rightarrow> (string, archive_entry) js_map \<Rightarrow> archive_entry \<Rightarrow> nat \<Rightarrow> archive_error + nat"
where
  "assertConfinedAcyclicSymlink lim nfc byKey e steps =
     (let target = (case ae_linkpath e of Some l \<Rightarrow> l | None \<Rightarrow> []); resolved = name_components (dirnameArchivePath (ae_name e))
      in if posix_absolute target then Inr steps
         else symlink_walk lim nfc byKey (ae_name e) resolved (utf8_length (join_with CHR ''/'' resolved)) (split_on CHR ''/'' target)
                [unicodeCollisionKey nfc (ae_name e)] steps)"

section \<open>The plan\<close>

record archive_plan =
  pl_entries :: "(string, archive_entry) js_map"
  pl_filesystemEntries :: "(string, entry_kind) js_map"
  pl_expandedBytes :: int
  pl_archiveSha256 :: string

definition resolve_entry ::
  "archive_limits \<Rightarrow> (string \<Rightarrow> string) \<Rightarrow> (string, archive_entry) js_map \<Rightarrow> archive_entry \<Rightarrow> (string, archive_entry) js_map \<times> nat
     \<Rightarrow> archive_error + (string, archive_entry) js_map \<times> nat"
where
  "resolve_entry lim nfc byKey e = (\<lambda>(entries, steps).
     if ae_kind e = ArchiveHardlink
     then rbind (resolveHardlink lim nfc byKey e steps) (\<lambda>(target, steps').
            Inr (AList.update (ae_name e) (e\<lparr>ae_resolvedHardlinkTarget := Some target\<rparr>) entries, steps'))
     else Inr (entries, steps))"

definition check_symlink ::
  "archive_limits \<Rightarrow> (string \<Rightarrow> string) \<Rightarrow> (string, archive_entry) js_map \<Rightarrow> archive_entry \<Rightarrow> nat \<Rightarrow> archive_error + nat"
where
  "check_symlink lim nfc byKey e steps =
     (if ae_kind e = ArchiveSymlink then assertConfinedAcyclicSymlink lim nfc byKey e steps else Inr steps)"

definition validateMetadataGraph ::
  "archive_limits \<Rightarrow> (string \<Rightarrow> string) \<Rightarrow> archive_inspection \<Rightarrow> archive_error + (string, archive_entry) js_map \<times> (string, entry_kind) js_map"
where
  "validateMetadataGraph lim nfc st =
     (let entries = ai_entries st; byKey = ai_byKey st in
      if (case map_of entries [] of Some root \<Rightarrow> ae_kind root \<noteq> ArchiveDirectory | None \<Rightarrow> False) then Inl RootNotDirectory
      else rbind (rfold (add_entry_paths lim nfc entries byKey) (map_values entries)
             \<lparr>ag_filesystem = [], ag_names = [], ag_pathTableBytes = ai_pathTableBytes st\<rparr>) (\<lambda>g.
        rbind (rfold (resolve_entry lim nfc byKey) (map_values entries) (entries, 0)) (\<lambda>(entries', steps).
        rbind (rfold (check_symlink lim nfc byKey) (map_values entries) steps) (\<lambda>_. Inr (entries', ag_filesystem g)))))"

definition inspectBackupArchive ::
  "archive_limits \<Rightarrow> (string \<Rightarrow> string) \<Rightarrow> (nat list \<Rightarrow> string) \<Rightarrow> archive_file \<Rightarrow> string option \<Rightarrow> archive_event list
     \<Rightarrow> archive_error + archive_plan"
where
  "inspectBackupArchive lim nfc sha f failed events =
     rbind (parseArchive lim sha f failed (inspect_event lim nfc) events
       \<lparr>ai_entries = [], ai_byKey = [], ai_expandedBytes = 0, ai_pathTableBytes = 0\<rparr>) (\<lambda>(st, digest).
     rbind (validateMetadataGraph lim nfc st) (\<lambda>(entries, filesystem).
     Inr \<lparr>pl_entries = entries, pl_filesystemEntries = filesystem, pl_expandedBytes = ai_expandedBytes st, pl_archiveSha256 = digest\<rparr>))"

end
