(* ===== verification/Archive_Confinement.thy ===== *)
theory Archive_Confinement
  imports Archive_Plan
begin

text \<open>What an accepted archive is: its names are relative and canonical, every member has real directories
  above it, hard links lead to files of the archive, and following a relative symbolic link in the
  extracted tree never leaves the tree and ends. Absolute symbolic links name paths of the guest and are
  not followed on the host.\<close>

section \<open>Following a path in the extracted tree\<close>

text \<open>A path lookup as the kernel does it in the tree of a plan: in the directory \<open>d\<close>, with the components
  that are left. \<open>fsname\<close> is the stored name that the file system finds for a path. A lookup stops when
  nothing is left, at a path that does not exist and at an absolute link.\<close>

fun walk_next :: "(string \<Rightarrow> string) \<Rightarrow> archive_plan \<Rightarrow> string list \<times> string list \<Rightarrow> (string list \<times> string list) option" where
  "walk_next fsname plan (d, []) = None"
| "walk_next fsname plan (d, c # cs) =
     (if c = [] \<or> c = ''.'' then Some (d, cs)
      else if c = ''..'' then (if d = [] then None else Some (butlast d, cs))
      else
        (let found = fsname (join_with CHR ''/'' (d @ [c])) in
         case map_of (pl_filesystemEntries plan) found of
           None \<Rightarrow> None
         | Some kind \<Rightarrow>
             if kind \<noteq> ArchiveSymlink then Some (d @ [c], cs)
             else (case map_of (pl_entries plan) found of
                 Some e \<Rightarrow> (case ae_linkpath e of
                     Some target \<Rightarrow> if posix_absolute target then None else Some (d, split_on CHR ''/'' target @ cs)
                   | None \<Rightarrow> None)
               | None \<Rightarrow> None)))"

fun walk_after :: "(string \<Rightarrow> string) \<Rightarrow> archive_plan \<Rightarrow> nat \<Rightarrow> string list \<times> string list \<Rightarrow> (string list \<times> string list) option" where
  "walk_after fsname plan 0 x = Some x"
| "walk_after fsname plan (Suc n) x = (case walk_next fsname plan x of None \<Rightarrow> None | Some y \<Rightarrow> walk_after fsname plan n y)"

text \<open>The next component would leave the tree.\<close>

definition leaves_tree :: "string list \<times> string list \<Rightarrow> bool" where
  "leaves_tree x = (fst x = [] \<and> (case snd x of [] \<Rightarrow> False | c # _ \<Rightarrow> c = ''..''))"

section \<open>Members\<close>

definition plain_component :: "string \<Rightarrow> bool" where
  "plain_component c = (c \<noteq> [] \<and> c \<noteq> ''.'' \<and> c \<noteq> ''..'' \<and> CHR ''/'' \<notin> set c)"

definition canonical_name :: "archive_limits \<Rightarrow> string \<Rightarrow> bool" where
  "canonical_name lim name = (name = [] \<or> (list_all plain_component (split_on CHR ''/'' name)
     \<and> length (split_on CHR ''/'' name) \<le> al_maxPathDepth lim))"

lemma path_components_plain:
  "path_components raw cs = Inr r \<Longrightarrow> \<forall>c \<in> set cs. CHR ''/'' \<notin> set c \<Longrightarrow> list_all plain_component r"
  by (induction raw cs arbitrary: r rule: path_components.induct) (auto simp: plain_component_def rbind_eq_Inr split: if_splits)

lemma canonical_path: "canonicalArchivePath lim raw root = Inr name \<Longrightarrow> canonical_name lim name"
proof -
  assume "canonicalArchivePath lim raw root = Inr name"
  then obtain cs where cs: "path_components raw (split_on CHR ''/'' raw) = Inr cs" "length cs \<le> al_maxPathDepth lim"
    "name = join_with CHR ''/'' cs"
    by (auto simp: canonicalArchivePath_def rbind_eq_Inr Let_def split: if_splits)
  have plain: "list_all plain_component cs"
    using path_components_plain [OF cs(1)] split_on_pieces by metis
  show ?thesis
  proof (cases "cs = []")
    case False
    then have "split_on CHR ''/'' name = cs" unfolding cs(3) using plain
      by (intro split_join) (auto simp: list_all_iff plain_component_def)
    with plain cs(2) show ?thesis by (simp add: canonical_name_def)
  qed (simp add: cs(3) canonical_name_def)
qed

definition safe_member :: "archive_limits \<Rightarrow> archive_entry \<Rightarrow> bool" where
  "safe_member lim e = (canonical_name lim (ae_name e) \<and> (ae_name e = [] \<longrightarrow> ae_kind e = ArchiveDirectory)
     \<and> 0 \<le> ae_size e \<and> (ae_kind e = ArchiveFile \<longrightarrow> ae_size e \<le> al_maxFileBytes lim) \<and> (ae_kind e \<noteq> ArchiveFile \<longrightarrow> ae_size e = 0)
     \<and> 0 \<le> ae_mode e \<and> ae_mode e \<le> 4095 \<and> ae_mode e AND 3072 = 0
     \<and> (ae_linkpath e \<noteq> None \<longleftrightarrow> ae_kind e \<in> {ArchiveHardlink, ArchiveSymlink}))"

lemma safeEntry_safe: "safeEntry lim raw = Inr e \<Longrightarrow> safe_member lim e"
  by (auto simp: safeEntry_def safe_member_def rbind_eq_Inr checkedSize_def Let_def canonical_path
      split: option.splits if_splits)

text \<open>What holds of the members while they are collected.\<close>

definition members_ok :: "archive_limits \<Rightarrow> (string \<Rightarrow> string) \<Rightarrow> archive_inspection \<Rightarrow> bool" where
  "members_ok lim nfc st \<longleftrightarrow>
     (\<forall>n e. map_of (ai_entries st) n = Some e \<longrightarrow> ae_name e = n \<and> safe_member lim e
        \<and> map_of (ai_byKey st) (unicodeCollisionKey nfc n) = Some e)
     \<and> (\<forall>k e. map_of (ai_byKey st) k = Some e \<longrightarrow> k = unicodeCollisionKey nfc (ae_name e)
        \<and> map_of (ai_entries st) (ae_name e) = Some e)
     \<and> distinct (map fst (ai_entries st)) \<and> length (ai_entries st) \<le> al_maxEntries lim
     \<and> ai_expandedBytes st = sum_list (map (\<lambda>(n, e). ae_size e) (ai_entries st))
     \<and> (ai_entries st \<noteq> [] \<longrightarrow> ai_expandedBytes st \<le> al_maxExpandedBytes lim)"

lemma update_new: "map_of xs k = None \<Longrightarrow> AList.update k v xs = xs @ [(k, v)]"
  by (induction xs) auto

lemma inspect_entry_ok:
  assumes "members_ok lim nfc st" and "inspect_entry lim nfc raw st = Inr st'"
  shows "members_ok lim nfc st'"
proof -
  from assms(2) obtain e expanded table where e: "safeEntry lim raw = Inr e"
    and new: "map_of (ai_entries st) (ae_name e) = None" "length (ai_entries st) < al_maxEntries lim"
    and key: "\<not> (case map_of (ai_byKey st) (unicodeCollisionKey nfc (ae_name e)) of None \<Rightarrow> False | Some other \<Rightarrow> ae_name other \<noteq> ae_name e)"
    and sum: "checkedSum (ai_expandedBytes st) (ae_size e) = Inr expanded" "expanded \<le> al_maxExpandedBytes lim"
    and st': "st' = \<lparr>ai_entries = AList.update (ae_name e) e (ai_entries st),
       ai_byKey = AList.update (unicodeCollisionKey nfc (ae_name e)) e (ai_byKey st), ai_expandedBytes = expanded, ai_pathTableBytes = table\<rparr>"
    by (auto simp: inspect_entry_def rbind_eq_Inr Let_def not_le split: if_splits)
  let ?k = "unicodeCollisionKey nfc (ae_name e)"
  have fresh: "map_of (ai_byKey st) ?k = None"
  proof (cases "map_of (ai_byKey st) ?k")
    case (Some x)
    then have "map_of (ai_entries st) (ae_name x) = Some x" using assms(1) unfolding members_ok_def by blast
    moreover have "ae_name x = ae_name e" using key Some by simp
    ultimately show ?thesis using new(1) by simp
  qed
  have expanded: "expanded = ai_expandedBytes st + ae_size e" using sum(1) by (auto simp: checkedSum_def split: if_splits)
  have entries: "map_of (ai_entries st') n = (if n = ae_name e then Some e else map_of (ai_entries st) n)" for n
    by (simp add: st' update_conv')
  have byKey: "map_of (ai_byKey st') k = (if k = ?k then Some e else map_of (ai_byKey st) k)" for k
    by (simp add: st' update_conv')
  have named: "map_of (ai_entries st) n = Some d \<Longrightarrow>
      ae_name d = n \<and> safe_member lim d \<and> map_of (ai_byKey st) (unicodeCollisionKey nfc n) = Some d" for n d
    using assms(1) unfolding members_ok_def by blast
  have keyed: "map_of (ai_byKey st) k = Some d \<Longrightarrow> k = unicodeCollisionKey nfc (ae_name d) \<and> map_of (ai_entries st) (ae_name d) = Some d" for k d
    using assms(1) unfolding members_ok_def by blast
  show ?thesis unfolding members_ok_def
  proof (intro conjI allI impI)
    fix n d assume found: "map_of (ai_entries st') n = Some d"
    show "ae_name d = n" "safe_member lim d" "map_of (ai_byKey st') (unicodeCollisionKey nfc n) = Some d"
      using found named [of n d] fresh safeEntry_safe [OF e] unfolding entries byKey by (auto split: if_splits)
  next
    fix k d assume found: "map_of (ai_byKey st') k = Some d"
    show "k = unicodeCollisionKey nfc (ae_name d)" "map_of (ai_entries st') (ae_name d) = Some d"
      using found keyed [of k d] new(1) unfolding entries byKey by (auto split: if_splits)
  next
    show "distinct (map fst (ai_entries st'))" using assms(1) by (simp add: st' distinct_update members_ok_def)
    show "length (ai_entries st') \<le> al_maxEntries lim" using new by (simp add: st' update_new)
    show "ai_expandedBytes st' = sum_list (map (\<lambda>(n, e). ae_size e) (ai_entries st'))"
      using assms(1) new(1) expanded by (simp add: st' update_new members_ok_def)
    show "ai_expandedBytes st' \<le> al_maxExpandedBytes lim" using sum(2) by (simp add: st')
  qed
qed

lemma inspection_ok:
  assumes "parseArchive lim sha f failed (inspect_event lim nfc) events
     \<lparr>ai_entries = [], ai_byKey = [], ai_expandedBytes = 0, ai_pathTableBytes = 0\<rparr> = Inr (st, digest)"
  shows "members_ok lim nfc st"
proof -
  from assms have "rfold (inspect_event lim nfc) events \<lparr>ai_entries = [], ai_byKey = [], ai_expandedBytes = 0, ai_pathTableBytes = 0\<rparr> = Inr st"
    by (auto simp: parseArchive_def rbind_eq_Inr)
  then show ?thesis
  proof (rule rfold_invariant [where P = "\<lambda>_. members_ok lim nfc"])
    show "members_ok lim nfc t'" if "members_ok lim nfc t" "inspect_event lim nfc x t = Inr t'" for t t' x
      using that by (auto simp: inspect_event_def intro: inspect_entry_ok split: archive_event.splits if_splits)
  qed (simp add: members_ok_def)
qed

section \<open>The graph\<close>

text \<open>The kind a path has is determined by the member of its key: the member is at this very path, and where
  there is no member there is a directory.\<close>

definition graph_ok :: "(string \<Rightarrow> string) \<Rightarrow> (string, archive_entry) js_map \<Rightarrow> archive_graph \<Rightarrow> bool" where
  "graph_ok nfc byKey g \<longleftrightarrow> (\<forall>n k. map_of (ag_filesystem g) n = Some k \<longrightarrow>
     (case map_of byKey (unicodeCollisionKey nfc n) of Some e \<Rightarrow> ae_name e = n \<and> ae_kind e = k | None \<Rightarrow> k = ArchiveDirectory))"

definition fs_paths :: "archive_graph \<Rightarrow> string set" where
  "fs_paths g = fst ` set (ag_filesystem g)"

lemma fs_paths_iff: "n \<in> fs_paths g \<longleftrightarrow> map_of (ag_filesystem g) n \<noteq> None"
  by (simp add: fs_paths_def map_of_eq_None_iff)

lemma addFilesystemEntry_graph:
  assumes "addFilesystemEntry lim nfc byKey name kind implicit g = Inr g'"
  shows "\<And>n. map_of (ag_filesystem g') n = (if n = name then Some kind else map_of (ag_filesystem g) n)"
    and "\<And>e. map_of byKey (unicodeCollisionKey nfc name) = Some e \<Longrightarrow> ae_name e = name"
    and "fs_paths g' = insert name (fs_paths g)"
proof -
  from assms obtain table where g': "g' = \<lparr>ag_filesystem = AList.update name kind (ag_filesystem g),
      ag_names = AList.update (unicodeCollisionKey nfc name) name (ag_names g), ag_pathTableBytes = table\<rparr>"
    by (auto simp: addFilesystemEntry_def Let_def rbind_eq_Inr split: option.splits if_splits)
  then show fs: "map_of (ag_filesystem g') n = (if n = name then Some kind else map_of (ag_filesystem g) n)" for n
    by (simp add: update_conv')
  show "ae_name e = name" if "map_of byKey (unicodeCollisionKey nfc name) = Some e" for e
    using assms that by (auto simp: addFilesystemEntry_def Let_def split: option.splits if_splits)
  show "fs_paths g' = insert name (fs_paths g)" by (auto simp: fs_paths_iff fs split: if_splits)
qed

lemma add_graph_ok:
  assumes "graph_ok nfc byKey g" and "addFilesystemEntry lim nfc byKey name kind implicit g = Inr g'"
    and "\<And>e. map_of byKey (unicodeCollisionKey nfc name) = Some e \<Longrightarrow> ae_kind e = kind"
    and "map_of byKey (unicodeCollisionKey nfc name) = None \<Longrightarrow> kind = ArchiveDirectory"
  shows "graph_ok nfc byKey g'"
  using assms(1,3,4) addFilesystemEntry_graph(1,2) [OF assms(2)] by (auto simp: graph_ok_def split: option.splits)

definition directory_key :: "(string \<Rightarrow> string) \<Rightarrow> (string, archive_entry) js_map \<Rightarrow> string \<Rightarrow> bool" where
  "directory_key nfc byKey a \<longleftrightarrow> (\<forall>e. map_of byKey (unicodeCollisionKey nfc a) = Some e \<longrightarrow> ae_kind e = ArchiveDirectory)"

lemma add_ancestor_ok:
  assumes "graph_ok nfc byKey g" and "add_ancestor lim nfc entries byKey name a g = Inr g'"
  shows "graph_ok nfc byKey g' \<and> fs_paths g' = insert a (fs_paths g) \<and> directory_key nfc byKey a"
proof -
  from assms(2) have add: "addFilesystemEntry lim nfc byKey a ArchiveDirectory (map_of entries a = None) g = Inr g'"
    and kind: "\<And>e. map_of byKey (unicodeCollisionKey nfc a) = Some e \<Longrightarrow> ae_kind e = ArchiveDirectory"
    by (auto simp: add_ancestor_def split: option.splits if_splits)
  show ?thesis using add_graph_ok [OF assms(1) add] kind addFilesystemEntry_graph(3) [OF add] by (simp add: directory_key_def)
qed

lemma ancestors_ok:
  assumes "graph_ok nfc byKey g" and "rfold (add_ancestor lim nfc entries byKey name) as g = Inr g'"
  shows "graph_ok nfc byKey g' \<and> fs_paths g' = set as \<union> fs_paths g \<and> (\<forall>a \<in> set as. directory_key nfc byKey a)"
  using assms(2)
proof (rule rfold_invariant [where P = "\<lambda>as' h. graph_ok nfc byKey h \<and> fs_paths h = set as' \<union> fs_paths g
    \<and> (\<forall>a \<in> set as'. directory_key nfc byKey a)"])
  fix as' x h h'
  assume "graph_ok nfc byKey h \<and> fs_paths h = set as' \<union> fs_paths g \<and> (\<forall>a \<in> set as'. directory_key nfc byKey a)"
    and "add_ancestor lim nfc entries byKey name x h = Inr h'"
  then show "graph_ok nfc byKey h' \<and> fs_paths h' = set (as' @ [x]) \<union> fs_paths g \<and> (\<forall>a \<in> set (as' @ [x]). directory_key nfc byKey a)"
    using add_ancestor_ok by fastforce
qed (simp add: assms(1))

definition ancestor_paths :: "string \<Rightarrow> string set" where
  "ancestor_paths name = set (ancestors_of (name_components name))"

lemma entry_paths_ok:
  assumes "graph_ok nfc byKey g" and "add_entry_paths lim nfc entries byKey e g = Inr g'"
    and "map_of byKey (unicodeCollisionKey nfc (ae_name e)) = Some e"
  shows "graph_ok nfc byKey g' \<and> fs_paths g' = (if ae_name e = [] then {} else {ae_name e}) \<union> ancestor_paths (ae_name e) \<union> fs_paths g
    \<and> (\<forall>a \<in> ancestor_paths (ae_name e). directory_key nfc byKey a)"
proof -
  from assms(2) obtain h where h: "(if ae_name e \<noteq> [] then addFilesystemEntry lim nfc byKey (ae_name e) (ae_kind e) False g else Inr g) = Inr h"
    and rest: "rfold (add_ancestor lim nfc entries byKey (ae_name e)) (ancestors_of (name_components (ae_name e))) h = Inr g'"
    by (auto simp: add_entry_paths_def rbind_eq_Inr)
  have "graph_ok nfc byKey h \<and> fs_paths h = (if ae_name e = [] then {} else {ae_name e}) \<union> fs_paths g"
  proof (cases "ae_name e = []")
    case False
    then have add: "addFilesystemEntry lim nfc byKey (ae_name e) (ae_kind e) False g = Inr h" using h by simp
    show ?thesis using add_graph_ok [OF assms(1) add] assms(3) addFilesystemEntry_graph(3) [OF add] False by simp
  qed (use h assms(1) in simp)
  with ancestors_ok [OF _ rest] show ?thesis unfolding ancestor_paths_def by (metis (no_types, lifting) sup.assoc sup.commute)
qed

lemma graph_built:
  assumes "members_ok lim nfc st"
    and "rfold (add_entry_paths lim nfc (ai_entries st) (ai_byKey st)) (map_values (ai_entries st))
      \<lparr>ag_filesystem = [], ag_names = [], ag_pathTableBytes = b\<rparr> = Inr g"
  shows "graph_ok nfc (ai_byKey st) g"
    and "fs_paths g = (\<Union>e \<in> set (map_values (ai_entries st)). (if ae_name e = [] then {} else {ae_name e}) \<union> ancestor_paths (ae_name e))"
    and "\<forall>e \<in> set (map_values (ai_entries st)). \<forall>a \<in> ancestor_paths (ae_name e). directory_key nfc (ai_byKey st) a"
proof -
  have keyed: "map_of (ai_byKey st) (unicodeCollisionKey nfc (ae_name e)) = Some e" if "e \<in> set (map_values (ai_entries st))" for e
  proof -
    from that obtain n where "(n, e) \<in> set (ai_entries st)" by (auto simp: map_values_def)
    then have "map_of (ai_entries st) n = Some e" using assms(1) by (simp add: members_ok_def)
    then show ?thesis using assms(1) by (auto simp: members_ok_def)
  qed
  from assms(2) have "graph_ok nfc (ai_byKey st) g
      \<and> fs_paths g = (\<Union>e \<in> set (map_values (ai_entries st)). (if ae_name e = [] then {} else {ae_name e}) \<union> ancestor_paths (ae_name e))
      \<and> (\<forall>e \<in> set (map_values (ai_entries st)). \<forall>a \<in> ancestor_paths (ae_name e). directory_key nfc (ai_byKey st) a)"
  proof (rule rfold_invariant [where P = "\<lambda>es h. graph_ok nfc (ai_byKey st) h
      \<and> fs_paths h = (\<Union>e \<in> set es. (if ae_name e = [] then {} else {ae_name e}) \<union> ancestor_paths (ae_name e))
      \<and> (\<forall>e \<in> set es. \<forall>a \<in> ancestor_paths (ae_name e). directory_key nfc (ai_byKey st) a)"])
    fix es :: "archive_entry list" and e :: archive_entry and h h'
    assume IH: "graph_ok nfc (ai_byKey st) h \<and> fs_paths h = (\<Union>e \<in> set es. (if ae_name e = [] then {} else {ae_name e}) \<union> ancestor_paths (ae_name e))
        \<and> (\<forall>e \<in> set es. \<forall>a \<in> ancestor_paths (ae_name e). directory_key nfc (ai_byKey st) a)"
      and e: "e \<in> set (map_values (ai_entries st))" "add_entry_paths lim nfc (ai_entries st) (ai_byKey st) e h = Inr h'"
    from entry_paths_ok [OF _ e(2) keyed [OF e(1)]] IH
    show "graph_ok nfc (ai_byKey st) h'
      \<and> fs_paths h' = (\<Union>e \<in> set (es @ [e]). (if ae_name e = [] then {} else {ae_name e}) \<union> ancestor_paths (ae_name e))
      \<and> (\<forall>e \<in> set (es @ [e]). \<forall>a \<in> ancestor_paths (ae_name e). directory_key nfc (ai_byKey st) a)"
      by auto
  qed (simp add: graph_ok_def fs_paths_def)
  then show "graph_ok nfc (ai_byKey st) g"
    and "fs_paths g = (\<Union>e \<in> set (map_values (ai_entries st)). (if ae_name e = [] then {} else {ae_name e}) \<union> ancestor_paths (ae_name e))"
    and "\<forall>e \<in> set (map_values (ai_entries st)). \<forall>a \<in> ancestor_paths (ae_name e). directory_key nfc (ai_byKey st) a"
    by simp_all
qed

section \<open>Hard links\<close>

lemma resolve_hardlink_file:
  "resolve_hardlink lim nfc byKey name target visited steps = Inr (t, steps') \<Longrightarrow>
    \<exists>k c. map_of byKey k = Some c \<and> ae_kind c = ArchiveFile \<and> ae_name c = t"
proof (induction lim nfc byKey name target visited steps rule: resolve_hardlink.induct)
  case (1 lim nfc byKey name target visited steps)
  from 1(2) show ?case
    by (subst (asm) resolve_hardlink.simps) (auto simp: Let_def split: sum.splits if_splits option.splits dest!: 1(1))
qed

text \<open>The members of the plan are those that were collected, a hard link with the file it leads to.\<close>

definition same_member :: "archive_entry \<Rightarrow> archive_entry \<Rightarrow> bool" where
  "same_member e e' \<longleftrightarrow> (\<exists>r. e' = e\<lparr>ae_resolvedHardlinkTarget := r\<rparr>)"

definition resolved_of :: "archive_inspection \<Rightarrow> (string, archive_entry) js_map \<Rightarrow> bool" where
  "resolved_of st entries \<longleftrightarrow> (\<forall>n. rel_option same_member (map_of (ai_entries st) n) (map_of entries n))"

lemma same_member_refl [simp]: "same_member e e"
  unfolding same_member_def by (rule exI [of _ "ae_resolvedHardlinkTarget e"]) simp

lemma same_memberD:
  "same_member e e' \<Longrightarrow> ae_name e' = ae_name e \<and> ae_kind e' = ae_kind e \<and> ae_size e' = ae_size e \<and> ae_mode e' = ae_mode e
     \<and> ae_linkpath e' = ae_linkpath e \<and> safe_member lim e' = safe_member lim e"
  by (auto simp: same_member_def safe_member_def)

lemma resolved_refl: "resolved_of st (ai_entries st)"
  unfolding resolved_of_def by (simp add: option.rel_refl)

lemma resolved_some:
  assumes "resolved_of st m" and "map_of (ai_entries st) n = Some e"
  obtains e' where "map_of m n = Some e'" "same_member e e'"
  using assms unfolding resolved_of_def by (cases "map_of m n") (auto dest!: spec [of _ n])

lemma plan_member:
  assumes "resolved_of st m" and "map_of m n = Some e'"
  obtains e where "map_of (ai_entries st) n = Some e" "same_member e e'"
  using assms unfolding resolved_of_def by (cases "map_of (ai_entries st) n") (auto dest!: spec [of _ n])

lemma resolved_update:
  assumes "resolved_of st m" and "map_of (ai_entries st) (ae_name e) = Some e"
  shows "resolved_of st (AList.update (ae_name e) (e\<lparr>ae_resolvedHardlinkTarget := r\<rparr>) m)"
proof -
  have "rel_option same_member (map_of (ai_entries st) n) (map_of (AList.update (ae_name e) (e\<lparr>ae_resolvedHardlinkTarget := r\<rparr>) m) n)" for n
    using assms by (cases "n = ae_name e") (auto simp: resolved_of_def update_conv' same_member_def)
  then show ?thesis by (simp add: resolved_of_def)
qed

lemma members_named:
  assumes "members_ok lim nfc st" and "e \<in> set (map_values (ai_entries st))"
  shows "map_of (ai_entries st) (ae_name e) = Some e"
proof -
  from assms(2) obtain n where "(n, e) \<in> set (ai_entries st)" by (auto simp: map_values_def)
  then have "map_of (ai_entries st) n = Some e" using assms(1) by (simp add: members_ok_def)
  moreover from this have "ae_name e = n" using assms(1) unfolding members_ok_def by blast
  ultimately show ?thesis by simp
qed

lemma resolved_built:
  assumes "members_ok lim nfc st"
    and "rfold (resolve_entry lim nfc (ai_byKey st)) (map_values (ai_entries st)) (ai_entries st, 0) = Inr (entries, steps)"
  shows "resolved_of st entries"
    and "\<And>e. e \<in> set (map_values (ai_entries st)) \<Longrightarrow> ae_kind e = ArchiveHardlink \<Longrightarrow>
      \<exists>t c e'. map_of entries (ae_name e) = Some e' \<and> ae_resolvedHardlinkTarget e' = Some t
        \<and> map_of (ai_entries st) t = Some c \<and> ae_kind c = ArchiveFile"
proof -
  let ?P = "\<lambda>es x. resolved_of st (fst x) \<and> (\<forall>e \<in> set es. ae_kind e = ArchiveHardlink \<longrightarrow>
      (\<exists>t c e'. map_of (fst x) (ae_name e) = Some e' \<and> ae_resolvedHardlinkTarget e' = Some t
        \<and> map_of (ai_entries st) t = Some c \<and> ae_kind c = ArchiveFile))"
  have "?P (map_values (ai_entries st)) (entries, steps)"
    using assms(2)
  proof (rule rfold_invariant [where P = ?P])
    show "?P [] (ai_entries st, 0)" by (simp add: resolved_refl)
  next
    fix es :: "archive_entry list" and e :: archive_entry and x x'
    assume P: "?P es x" and e: "e \<in> set (map_values (ai_entries st))" and step: "resolve_entry lim nfc (ai_byKey st) e x = Inr x'"
    obtain m n where x: "x = (m, n)" by force
    show "?P (es @ [e]) x'"
    proof (cases "ae_kind e = ArchiveHardlink")
      case True
      then obtain t n' where t: "resolveHardlink lim nfc (ai_byKey st) e n = Inr (t, n')"
        and x': "x' = (AList.update (ae_name e) (e\<lparr>ae_resolvedHardlinkTarget := Some t\<rparr>) m, n')"
        using step x by (auto simp: resolve_entry_def rbind_eq_Inr)
      obtain k c where "map_of (ai_byKey st) k = Some c" "ae_kind c = ArchiveFile" "ae_name c = t"
        using resolve_hardlink_file t unfolding resolveHardlink_def by blast
      then have c: "map_of (ai_entries st) t = Some c" "ae_kind c = ArchiveFile" using assms(1) unfolding members_ok_def by blast+
      have lookup: "map_of (fst x') a = (if a = ae_name e then Some (e\<lparr>ae_resolvedHardlinkTarget := Some t\<rparr>) else map_of m a)" for a
        by (simp add: x' update_conv')
      have "resolved_of st (fst x')"
        using resolved_update [OF _ members_named [OF assms(1) e]] P x by (simp add: x')
      moreover have "\<exists>t c e'. map_of (fst x') (ae_name d) = Some e' \<and> ae_resolvedHardlinkTarget e' = Some t
          \<and> map_of (ai_entries st) t = Some c \<and> ae_kind c = ArchiveFile"
        if "d \<in> set (es @ [e])" "ae_kind d = ArchiveHardlink" for d
        using P that c x unfolding lookup by (cases "ae_name d = ae_name e") auto
      ultimately show ?thesis by blast
    next
      case False
      then have "x' = x" using step x by (simp add: resolve_entry_def)
      with P False show ?thesis by auto
    qed
  qed
  then show "resolved_of st entries"
    and "\<And>e. e \<in> set (map_values (ai_entries st)) \<Longrightarrow> ae_kind e = ArchiveHardlink \<Longrightarrow>
      \<exists>t c e'. map_of entries (ae_name e) = Some e' \<and> ae_resolvedHardlinkTarget e' = Some t
        \<and> map_of (ai_entries st) t = Some c \<and> ae_kind c = ArchiveFile" by auto
qed

section \<open>Symbolic links\<close>

text \<open>The file system shows what the members say.\<close>

definition shows_members :: "(string \<Rightarrow> string) \<Rightarrow> (string, archive_entry) js_map \<Rightarrow> (string \<Rightarrow> string) \<Rightarrow> archive_plan \<Rightarrow> bool" where
  "shows_members nfc byKey fsname plan \<longleftrightarrow> (\<forall>p k. map_of (pl_filesystemEntries plan) (fsname p) = Some k \<longrightarrow>
     (if k = ArchiveSymlink
      then (\<exists>c e. map_of byKey (unicodeCollisionKey nfc p) = Some c \<and> ae_kind c = ArchiveSymlink
        \<and> map_of (pl_entries plan) (fsname p) = Some e \<and> ae_linkpath e = ae_linkpath c)
      else (\<forall>c. map_of byKey (unicodeCollisionKey nfc p) = Some c \<longrightarrow> ae_kind c \<noteq> ArchiveSymlink)))"

lemma link_step_Inr: "link_step lim steps = Inr s \<longleftrightarrow> s = Suc steps \<and> Suc steps \<le> al_maxLinkResolutionSteps lim"
  by (auto simp: link_step_def)

text \<open>One component of the check against one of the lookup.\<close>

lemma walk_checked_step:
  assumes "symlink_walk lim nfc byKey name d bytes pending followed steps = Inr r"
    and "shows_members nfc byKey fsname plan" and "walk_next fsname plan (d, pending) = Some (d', pending')"
  shows "\<exists>bytes' followed'. symlink_walk lim nfc byKey name d' bytes' pending' followed' (Suc steps) = Inr r"
    and "Suc steps \<le> al_maxLinkResolutionSteps lim"
proof -
  obtain c cs where pending: "pending = c # cs" using assms(3) by (cases pending) simp_all
  note walk = assms(1) [unfolded pending symlink_walk.simps(2)]
  show budget: "Suc steps \<le> al_maxLinkResolutionSteps lim"
    using walk by (simp add: link_step_def split: if_splits)
  note walk = walk [unfolded link_step_def, simplified budget not_less if_False sum.case]
  show "\<exists>bytes' followed'. symlink_walk lim nfc byKey name d' bytes' pending' followed' (Suc steps) = Inr r"
  proof (cases "c = [] \<or> c = ''.'' \<or> c = ''..''")
    case True
    then show ?thesis using walk budget assms(3) by (auto simp: pending split: if_splits)
  next
    case False
    let ?p = "join_with CHR ''/'' (d @ [c])"
    obtain k where k: "map_of (pl_filesystemEntries plan) (fsname ?p) = Some k"
      using assms(3) False by (auto simp: pending Let_def split: option.splits)
    show ?thesis
    proof (cases "k = ArchiveSymlink")
      case True
      with assms(2) k obtain m e where m: "map_of byKey (unicodeCollisionKey nfc ?p) = Some m" "ae_kind m = ArchiveSymlink"
        "map_of (pl_entries plan) (fsname ?p) = Some e" "ae_linkpath e = ae_linkpath m"
        unfolding shows_members_def by (metis (full_types))
      from assms(3) False k True m(3) obtain target where "ae_linkpath e = Some target" "\<not> posix_absolute target"
        "d' = d" "pending' = split_on CHR ''/'' target @ cs"
        by (auto simp: pending split: option.splits if_splits)
      then show ?thesis using walk budget False m by (auto simp: Let_def split: if_splits)
    next
      case other: False
      then have "\<forall>m. map_of byKey (unicodeCollisionKey nfc ?p) = Some m \<longrightarrow> ae_kind m \<noteq> ArchiveSymlink"
        using assms(2) k unfolding shows_members_def by meson
      moreover have "d' = d @ [c]" "pending' = cs" using assms(3) False k other by (auto simp: pending)
      ultimately show ?thesis using walk budget False by (auto simp: Let_def split: if_splits option.splits)
    qed
  qed
qed

lemma walk_checked:
  assumes "shows_members nfc byKey fsname plan" and "walk_after fsname plan n (d, pending) = Some x"
    and "symlink_walk lim nfc byKey name d bytes pending followed steps = Inr r"
  shows "\<not> leaves_tree x \<and> (0 < n \<longrightarrow> steps + n \<le> al_maxLinkResolutionSteps lim)"
  using assms(2,3)
proof (induction n arbitrary: d pending bytes followed steps)
  case 0
  have "\<not> leaves_tree (d, pending)"
  proof (cases pending)
    case (Cons c cs)
    then show ?thesis using 0(2) by (auto simp: leaves_tree_def symlink_walk.simps(2) split: sum.splits)
  qed (simp add: leaves_tree_def)
  with 0(1) show ?case by simp
next
  case (Suc n)
  from Suc.prems(1) obtain d' pending' where follow: "walk_next fsname plan (d, pending) = Some (d', pending')"
    "walk_after fsname plan n (d', pending') = Some x" by (auto split: option.splits)
  from walk_checked_step [OF Suc.prems(2) assms(1) follow(1)] obtain bytes' followed'
    where step: "symlink_walk lim nfc byKey name d' bytes' pending' followed' (Suc steps) = Inr r"
      "Suc steps \<le> al_maxLinkResolutionSteps lim" by blast
  from Suc.IH [OF follow(2) step(1)] step(2) show ?case by (cases n) auto
qed

section \<open>Accepted archives\<close>

lemma accepted_plan:
  assumes "inspectBackupArchive lim nfc sha f failed events = Inr plan"
  obtains st g steps steps' where "members_ok lim nfc st"
    "rfold (add_entry_paths lim nfc (ai_entries st) (ai_byKey st)) (map_values (ai_entries st))
      \<lparr>ag_filesystem = [], ag_names = [], ag_pathTableBytes = ai_pathTableBytes st\<rparr> = Inr g"
    "rfold (resolve_entry lim nfc (ai_byKey st)) (map_values (ai_entries st)) (ai_entries st, 0) = Inr (pl_entries plan, steps)"
    "rfold (check_symlink lim nfc (ai_byKey st)) (map_values (ai_entries st)) steps = Inr steps'"
    "pl_filesystemEntries plan = ag_filesystem g" "pl_expandedBytes plan = ai_expandedBytes st"
proof -
  from assms obtain st digest entries filesystem where
    parsed: "parseArchive lim sha f failed (inspect_event lim nfc) events
       \<lparr>ai_entries = [], ai_byKey = [], ai_expandedBytes = 0, ai_pathTableBytes = 0\<rparr> = Inr (st, digest)"
    and graph: "validateMetadataGraph lim nfc st = Inr (entries, filesystem)"
    and plan: "plan = \<lparr>pl_entries = entries, pl_filesystemEntries = filesystem, pl_expandedBytes = ai_expandedBytes st, pl_archiveSha256 = digest\<rparr>"
    by (auto simp: inspectBackupArchive_def rbind_eq_Inr)
  from graph obtain g steps steps' where
    "rfold (add_entry_paths lim nfc (ai_entries st) (ai_byKey st)) (map_values (ai_entries st))
      \<lparr>ag_filesystem = [], ag_names = [], ag_pathTableBytes = ai_pathTableBytes st\<rparr> = Inr g"
    "rfold (resolve_entry lim nfc (ai_byKey st)) (map_values (ai_entries st)) (ai_entries st, 0) = Inr (entries, steps)"
    "rfold (check_symlink lim nfc (ai_byKey st)) (map_values (ai_entries st)) steps = Inr steps'" "filesystem = ag_filesystem g"
    by (auto simp: validateMetadataGraph_def rbind_eq_Inr Let_def split: if_splits)
  with that inspection_ok [OF parsed] show thesis by (simp add: plan)
qed

lemma checked_symlink:
  assumes "rfold (check_symlink lim nfc byKey) es steps = Inr steps'" and "e \<in> set es" and "ae_kind e = ArchiveSymlink"
  shows "\<exists>s s'. assertConfinedAcyclicSymlink lim nfc byKey e s = Inr s'"
  using assms
proof (induction es arbitrary: steps)
  case (Cons a es)
  then obtain s where "check_symlink lim nfc byKey a steps = Inr s" "rfold (check_symlink lim nfc byKey) es s = Inr steps'"
    by (auto simp: rbind_eq_Inr)
  note parts = this
  show ?case
  proof (cases "e = a")
    case True
    with parts(1) Cons.prems(3) have "assertConfinedAcyclicSymlink lim nfc byKey e steps = Inr s" by (simp add: check_symlink_def)
    then show ?thesis by blast
  next
    case False
    then show ?thesis using Cons.IH [OF parts(2)] Cons.prems by simp
  qed
qed simp

lemma plan_shows_members:
  assumes "members_ok lim nfc st" and "graph_ok nfc (ai_byKey st) g" and "resolved_of st (pl_entries plan)"
    and "pl_filesystemEntries plan = ag_filesystem g"
    and "\<And>p. unicodeCollisionKey nfc (fsname p) = unicodeCollisionKey nfc p"
  shows "shows_members nfc (ai_byKey st) fsname plan"
  unfolding shows_members_def
proof (intro allI impI)
  fix p k
  assume "map_of (pl_filesystemEntries plan) (fsname p) = Some k"
  then have "case map_of (ai_byKey st) (unicodeCollisionKey nfc (fsname p)) of Some e \<Rightarrow> ae_name e = fsname p \<and> ae_kind e = k
      | None \<Rightarrow> k = ArchiveDirectory"
    using assms(2,4) by (simp add: graph_ok_def)
  then have g: "case map_of (ai_byKey st) (unicodeCollisionKey nfc p) of Some e \<Rightarrow> ae_name e = fsname p \<and> ae_kind e = k | None \<Rightarrow> k = ArchiveDirectory"
    by (simp only: assms(5))
  show "if k = ArchiveSymlink
      then (\<exists>c e. map_of (ai_byKey st) (unicodeCollisionKey nfc p) = Some c \<and> ae_kind c = ArchiveSymlink
        \<and> map_of (pl_entries plan) (fsname p) = Some e \<and> ae_linkpath e = ae_linkpath c)
      else (\<forall>c. map_of (ai_byKey st) (unicodeCollisionKey nfc p) = Some c \<longrightarrow> ae_kind c \<noteq> ArchiveSymlink)"
  proof (cases "k = ArchiveSymlink")
    case True
    then obtain c where c: "map_of (ai_byKey st) (unicodeCollisionKey nfc p) = Some c" "ae_name c = fsname p" "ae_kind c = ArchiveSymlink"
      using g by (auto split: option.splits)
    have "map_of (ai_entries st) (fsname p) = Some c" using assms(1) c unfolding members_ok_def by metis
    then obtain e where "map_of (pl_entries plan) (fsname p) = Some e" "same_member c e" by (rule resolved_some [OF assms(3)])
    with c True show ?thesis by (auto dest: same_memberD)
  qed (use g in \<open>auto split: option.splits\<close>)
qed

text \<open>C15. In the tree of an accepted archive, a relative symbolic link can be followed as the kernel follows
  it, through directories and further relative links: the lookup never leaves the tree, and it takes at most
  as many steps as the step budget of the inspection. The file system may find a path under another
  Unicode spelling of the same name (\<open>fsname\<close>).\<close>

theorem archive_symlinks_confined:
  assumes "inspectBackupArchive lim nfc sha f failed events = Inr plan"
    and "\<And>p. unicodeCollisionKey nfc (fsname p) = unicodeCollisionKey nfc p"
    and "map_of (pl_entries plan) n = Some e" and "ae_kind e = ArchiveSymlink"
    and "ae_linkpath e = Some target" and "\<not> posix_absolute target"
    and "walk_after fsname plan k (name_components (dirnameArchivePath n), split_on CHR ''/'' target) = Some x"
  shows "\<not> leaves_tree x \<and> k \<le> al_maxLinkResolutionSteps lim"
proof -
  obtain st g steps steps' where st: "members_ok lim nfc st"
    and g: "rfold (add_entry_paths lim nfc (ai_entries st) (ai_byKey st)) (map_values (ai_entries st))
      \<lparr>ag_filesystem = [], ag_names = [], ag_pathTableBytes = ai_pathTableBytes st\<rparr> = Inr g"
    and res: "rfold (resolve_entry lim nfc (ai_byKey st)) (map_values (ai_entries st)) (ai_entries st, 0) = Inr (pl_entries plan, steps)"
    and chk: "rfold (check_symlink lim nfc (ai_byKey st)) (map_values (ai_entries st)) steps = Inr steps'"
    and fs: "pl_filesystemEntries plan = ag_filesystem g" by (rule accepted_plan [OF assms(1)]) blast
  have resolved: "resolved_of st (pl_entries plan)" by (rule resolved_built [OF st res])
  obtain d where d: "map_of (ai_entries st) n = Some d" "same_member d e" by (rule plan_member [OF resolved assms(3)])
  have name: "ae_name d = n" using st d(1) unfolding members_ok_def by blast
  have "d \<in> set (map_values (ai_entries st))" using map_of_SomeD [OF d(1)] by (force simp: map_values_def)
  then obtain s s' where "assertConfinedAcyclicSymlink lim nfc (ai_byKey st) d s = Inr s'"
    using checked_symlink [OF chk, of d] same_memberD [OF d(2)] assms(4) by auto
  then have walk: "symlink_walk lim nfc (ai_byKey st) n (name_components (dirnameArchivePath n))
      (utf8_length (join_with CHR ''/'' (name_components (dirnameArchivePath n)))) (split_on CHR ''/'' target)
      [unicodeCollisionKey nfc n] s = Inr s'"
    using assms(5,6) same_memberD [OF d(2)] name by (simp add: assertConfinedAcyclicSymlink_def Let_def)
  have "shows_members nfc (ai_byKey st) fsname plan"
    by (rule plan_shows_members [OF st graph_built(1) [OF st g] resolved fs assms(2)])
  from walk_checked [OF this assms(7) walk] show ?thesis by (cases "k = 0") auto
qed


section \<open>An archive\<close>

definition demo_archive_limits :: archive_limits where
  "demo_archive_limits = \<lparr>al_maxArchiveBytes = 1000, al_maxEntries = 4, al_maxFilesystemEntries = 4, al_maxExpandedBytes = 1000,
     al_maxFileBytes = 1000, al_maxPathBytes = 1000, al_maxPathDepth = 3, al_maxPathTableBytes = 1000, al_maxLinkChain = 3,
     al_maxLinkResolutionSteps = 6, al_maxMetadataBytes = 1000, al_maxDecompressionRatio = 1000\<rparr>"

definition demo_member :: "string \<Rightarrow> string \<Rightarrow> int \<Rightarrow> string \<Rightarrow> archive_event" where
  "demo_member t path n link = MemberEvent \<lparr>te_type = t, te_path = path, te_size = n, te_mode = Some 420, te_linkpath = link\<rparr>"

definition demo_archive_events :: "archive_event list" where
  "demo_archive_events = [demo_member ''File'' ''./h/a'' 3 [], demo_member ''Link'' ''h/b'' 0 ''h/a'',
     demo_member ''SymbolicLink'' ''h/l'' 0 ''../h/a'']"

definition demo_archive_file :: archive_file where
  "demo_archive_file = \<lparr>af_symlink = False, af_regular = True, af_size = 2, af_magic = [0x1f, 0x8b], af_chunks = [[0x1f, 0x8b]]\<rparr>"

definition demo_inspection :: "archive_error + archive_plan" where
  "demo_inspection = inspectBackupArchive demo_archive_limits (\<lambda>c. c) (\<lambda>_. ''digest'') demo_archive_file None demo_archive_events"

definition demo_archive_plan :: archive_plan where
  "demo_archive_plan = (case demo_inspection of Inr p \<Rightarrow> p
     | Inl _ \<Rightarrow> \<lparr>pl_entries = [], pl_filesystemEntries = [], pl_expandedBytes = 0, pl_archiveSha256 = []\<rparr>)"

lemma demo_inspected: "inspectBackupArchive demo_archive_limits (\<lambda>c. c) (\<lambda>_. ''digest'') demo_archive_file None demo_archive_events = Inr demo_archive_plan"
proof -
  have "case demo_inspection of Inr p \<Rightarrow> True | Inl _ \<Rightarrow> False" by code_simp
  then show ?thesis unfolding demo_archive_plan_def by (auto simp: demo_inspection_def split: sum.splits)
qed

theorem archive_symlinks_confined_witness:
  "\<exists>e x. map_of (pl_entries demo_archive_plan) ''h/l'' = Some e \<and> ae_kind e = ArchiveSymlink
     \<and> walk_after (\<lambda>p. p) demo_archive_plan 2 ([''h''], [''..'', ''h'', ''a'']) = Some x \<and> \<not> leaves_tree x"
proof -
  have "case map_of (pl_entries demo_archive_plan) ''h/l'' of None \<Rightarrow> False
      | Some e \<Rightarrow> ae_kind e = ArchiveSymlink \<and> ae_linkpath e = Some ''../h/a''" by code_simp
  then obtain e where e: "map_of (pl_entries demo_archive_plan) ''h/l'' = Some e" "ae_kind e = ArchiveSymlink" "ae_linkpath e = Some ''../h/a''"
    by (auto split: option.splits)
  have walk: "walk_after (\<lambda>p. p) demo_archive_plan 2 (name_components (dirnameArchivePath ''h/l''), split_on CHR ''/'' ''../h/a'') = Some ([''h''], [''a''])"
    by code_simp
  have start: "(name_components (dirnameArchivePath ''h/l''), split_on CHR ''/'' ''../h/a'') = ([''h''], [''..'', ''h'', ''a''])" by code_simp
  have "\<not> posix_absolute ''../h/a''" by (simp add: posix_absolute_def)
  from archive_symlinks_confined [OF demo_inspected refl e this walk] e walk show ?thesis unfolding start by blast
qed


end
