(* ===== verification/Archive_Extract.thy ===== *)
theory Archive_Extract
  imports Archive_Confinement
begin

text \<open>Copying a backup archive under its checksum, extracting an inspected archive and verifying the tree on
  disk: packages/cli/src/safe-backup-archive.ts. What the tar library writes to the disk is not trusted: the
  verification looks at the whole tree afterwards, with a further look at each file and directory to see
  that nothing was exchanged in between. An observed tree holds what these looks see.\<close>

section \<open>The verified copy\<close>

text \<open>A positional write, and the loop that repeats it until everything is written. \<open>wr p\<close> is the number
  of bytes that a write at position \<open>p\<close> reports, which is never more than it was asked to write.\<close>

definition pwrite :: "nat \<Rightarrow> nat list \<Rightarrow> nat list \<Rightarrow> nat list" where
  "pwrite pos d disk = take pos disk @ replicate (pos - length disk) 0 @ d @ drop (pos + length d) disk"

function writeAll :: "(nat \<Rightarrow> string + nat) \<Rightarrow> nat list \<Rightarrow> nat \<Rightarrow> nat \<Rightarrow> nat list \<Rightarrow> nat list \<times> (string + unit)" where
  "writeAll wr contents start offset disk =
     (if offset \<ge> length contents then (disk, Inr ())
      else (case wr (start + offset) of
          Inl e \<Rightarrow> (disk, Inl e)
        | Inr n \<Rightarrow>
            (let written = min n (length contents - offset);
                 disk' = pwrite (start + offset) (take written (drop offset contents)) disk
             in if written = 0 then (disk', Inl ''Backup archive copy made no write progress.'')
                else writeAll wr contents start (offset + written) disk')))"
  by auto
termination by (relation "measure (\<lambda>(wr, contents, start, offset, disk). length contents - offset)") auto

declare writeAll.simps [simp del]

text \<open>One chunk of the pipeline: counted and hashed, then written.\<close>

definition copy_chunk ::
  "archive_limits \<Rightarrow> (nat \<Rightarrow> string + nat) \<Rightarrow> nat list \<Rightarrow> nat list \<times> int \<times> nat \<Rightarrow> nat list \<times> (string + int \<times> nat)"
where
  "copy_chunk lim wr chunk = (\<lambda>(disk, archiveBytes, destinationOffset).
     (case count_chunk lim chunk archiveBytes of
        Inl _ \<Rightarrow> (disk, Inl ''Backup archive is too large.'')
      | Inr n \<Rightarrow> (case writeAll wr chunk destinationOffset 0 disk of
            (disk', Inl e) \<Rightarrow> (disk', Inl e)
          | (disk', Inr _) \<Rightarrow> (disk', Inr (n, destinationOffset + length chunk)))))"

fun copy_chunks ::
  "archive_limits \<Rightarrow> (nat \<Rightarrow> string + nat) \<Rightarrow> nat list list \<Rightarrow> nat list \<times> int \<times> nat \<Rightarrow> nat list \<times> (string + nat)"
where
  "copy_chunks lim wr [] (disk, n, destinationOffset) = (disk, Inr destinationOffset)"
| "copy_chunks lim wr (c # cs) (disk, n, destinationOffset) = (case copy_chunk lim wr c (disk, n, destinationOffset) of
     (disk', Inl e) \<Rightarrow> (disk', Inl e)
   | (disk', Inr (n', offset')) \<Rightarrow> copy_chunks lim wr cs (disk', n', offset'))"

text \<open>The destination: whether a file is there already, how writes go, whether the path still names the file
  that was created when this is looked at, at the end and before it is removed again, and whether the stream
  or the sync fails.\<close>

record copy_destination =
  cd_exists :: bool
  cd_write :: "nat \<Rightarrow> string + nat"
  cd_failure :: "string option"
  cd_sameAtEnd :: bool
  cd_sameAtRemoval :: bool

text \<open>What the destination holds afterwards, when the copy has created it, and the outcome.\<close>

definition copyVerifiedBackupArchive ::
  "archive_limits \<Rightarrow> (nat list \<Rightarrow> string) \<Rightarrow> archive_file \<Rightarrow> string \<Rightarrow> copy_destination \<Rightarrow> nat list option \<times> (string + unit)"
where
  "copyVerifiedBackupArchive lim sha source expectedSha256 dest =
     (case openArchive lim False source of
        Inl _ \<Rightarrow> (None, Inl ''Backup archive cannot be opened.'')
      | Inr archiveSize \<Rightarrow>
          if cd_exists dest then (None, Inl ''EEXIST'')
          else
            (let (disk, copied) = copy_chunks lim (cd_write dest) (af_chunks source) ([], 0, 0);
                 outcome = (case copied of
                     Inl e \<Rightarrow> Inl e
                   | Inr offset \<Rightarrow>
                       (case cd_failure dest of
                          Some e \<Rightarrow> Inl e
                        | None \<Rightarrow>
                            if int offset \<noteq> archiveSize then Inl ''Backup archive changed size while it was being copied.''
                            else if \<not> cd_sameAtEnd dest then Inl ''Backup archive destination changed while it was in use.''
                            else if sha (concat (af_chunks source)) \<noteq> expectedSha256 then Inl ''Backup checksum mismatch.''
                            else Inr ()))
             in (case outcome of
                   Inr u \<Rightarrow> (Some disk, Inr u)
                 | Inl e \<Rightarrow> (if cd_sameAtRemoval dest then None else Some disk, Inl e))))"

lemma pwrite_append: "pos = length disk \<Longrightarrow> pwrite pos d disk = disk @ d"
  by (simp add: pwrite_def)

lemma writeAll_appends:
  assumes "writeAll wr contents start offset disk = (disk', Inr u)" and "length disk = start + offset" and "offset \<le> length contents"
  shows "disk' = disk @ drop offset contents"
  using assms
proof (induction wr contents start offset disk rule: writeAll.induct)
  case (1 wr contents start offset disk)
  show ?case
  proof (cases "offset \<ge> length contents")
    case True
    then show ?thesis using 1(2) by (simp add: writeAll.simps)
  next
    case False
    with 1(2) obtain n where n: "wr (start + offset) = Inr n"
      by (simp add: writeAll.simps [of wr contents start offset] split: sum.splits)
    let ?w = "min n (length contents - offset)"
    let ?f = "pwrite (start + offset) (take ?w (drop offset contents)) disk"
    have step: "?w \<noteq> 0" "writeAll wr contents start (offset + ?w) ?f = (disk', Inr u)"
      using 1(2) False n by (auto simp: writeAll.simps [of wr contents start offset] Let_def split: if_splits)
    have f: "?f = disk @ take ?w (drop offset contents)" using 1(3) by (intro pwrite_append) simp
    have "disk' = ?f @ drop (offset + ?w) contents"
    proof (rule 1(1) [OF False n refl refl step])
      show "offset + ?w \<le> length contents" using False by linarith
      show "length ?f = start + (offset + ?w)" using f 1(3) by simp
    qed
    moreover have "drop offset contents = take ?w (drop offset contents) @ drop (offset + ?w) contents"
      by (metis add.commute append_take_drop_id drop_drop)
    ultimately show ?thesis unfolding f by simp
  qed
qed

lemma copy_chunks_appends:
  "copy_chunks lim wr cs (disk, n, offset) = (disk', Inr offset') \<Longrightarrow> length disk = offset \<Longrightarrow>
    disk' = disk @ concat cs \<and> offset' = length disk'"
proof (induction cs arbitrary: disk n offset)
  case (Cons c cs)
  from Cons.prems(1) obtain f n1 o1 where step: "copy_chunk lim wr c (disk, n, offset) = (f, Inr (n1, o1))"
    "copy_chunks lim wr cs (f, n1, o1) = (disk', Inr offset')" by (auto split: prod.splits sum.splits)
  then obtain u where "writeAll wr c offset 0 disk = (f, Inr u)" "o1 = offset + length c"
    by (auto simp: copy_chunk_def split: sum.splits prod.splits)
  with writeAll_appends [of wr c offset 0 disk f u] Cons.prems(2) have "f = disk @ c" "o1 = length f" by auto
  with Cons.IH [OF step(2)] show ?case by simp
qed simp



end
