(* ===== verification/Archive_Verify.thy ===== *)
theory Archive_Verify
  imports Archive_Extract
begin

text \<open>The extraction of an inspected archive and the verification of what is then on the disk:
  \<open>extractInspectedBackupArchive\<close>, \<open>verifyExtractedTree\<close> and \<open>walkDirectory\<close> of
  packages/cli/src/safe-backup-archive.ts. The tar library and the disk may do anything: the callbacks of
  the library are a list of events, and the tree that the verification looks at is an argument that holds
  everything it sees, each look on its own.\<close>

section \<open>Extraction\<close>

definition sameEntry :: "archive_entry \<Rightarrow> archive_entry \<Rightarrow> bool" where
  "sameEntry expected observed = (ae_name expected = ae_name observed \<and> ae_kind expected = ae_kind observed
     \<and> ae_size expected = ae_size observed \<and> ae_mode expected = ae_mode observed
     \<and> ae_linkpath expected = ae_linkpath observed \<and> ae_linkTarget expected = ae_linkTarget observed)"

text \<open>The failure is the first reason that was given to reject something; an abort overwrites it.\<close>

record extraction =
  xt_seen :: "string list"
  xt_failure :: "string option"

datatype extract_event = FilterCall tar_entry | IgnoredCall tar_entry | MetaCall string

definition reject :: "string \<Rightarrow> extraction \<Rightarrow> extraction \<times> bool" where
  "reject message x = (if xt_failure x = None then x\<lparr>xt_failure := Some message\<rparr> else x, False)"

text \<open>Whether the library may write a member to the disk.\<close>

definition extract_filter :: "archive_limits \<Rightarrow> archive_plan \<Rightarrow> tar_entry \<Rightarrow> extraction \<Rightarrow> extraction \<times> bool" where
  "extract_filter lim plan raw x = (case safeEntry lim raw of
       Inl _ \<Rightarrow> reject ''unsafe entry'' x
     | Inr observed \<Rightarrow>
         (case map_of (pl_entries plan) (ae_name observed) of
            None \<Rightarrow> reject ''changed between inspection and extraction'' x
          | Some expected \<Rightarrow>
              if \<not> sameEntry expected observed then reject ''changed between inspection and extraction'' x
              else if ae_name observed \<in> set (xt_seen x) then reject ''repeated path during extraction'' x
              else (x\<lparr>xt_seen := xt_seen x @ [ae_name observed]\<rparr>,
                    ae_name observed \<noteq> [] \<and> ae_kind observed \<in> {ArchiveFile, ArchiveDirectory})))"

definition extract_ignored :: "archive_limits \<Rightarrow> archive_plan \<Rightarrow> tar_entry \<Rightarrow> extraction \<Rightarrow> extraction" where
  "extract_ignored lim plan raw x =
     (if xt_failure x \<noteq> None then x
      else (case safeEntry lim raw of
          Inl _ \<Rightarrow> x\<lparr>xt_failure := Some ''unsafe entry''\<rparr>
        | Inr observed \<Rightarrow>
            (case map_of (pl_entries plan) (ae_name observed) of
               None \<Rightarrow> x\<lparr>xt_failure := Some ''unsupported ignored entry''\<rparr>
             | Some expected \<Rightarrow>
                 if sameEntry expected observed \<and> ae_name observed \<in> set (xt_seen x)
                    \<and> (ae_name observed = [] \<or> ae_kind observed \<in> {ArchiveHardlink, ArchiveSymlink})
                 then x else x\<lparr>xt_failure := Some ''unsupported ignored entry''\<rparr>)))"

definition extract_event_step :: "archive_limits \<Rightarrow> archive_plan \<Rightarrow> extract_event \<Rightarrow> extraction \<Rightarrow> extraction" where
  "extract_event_step lim plan e x = (case e of
       FilterCall raw \<Rightarrow> fst (extract_filter lim plan raw x)
     | IgnoredCall raw \<Rightarrow> extract_ignored lim plan raw x
     | MetaCall metadata \<Rightarrow> if sparseMetadata metadata then x\<lparr>xt_failure := Some ''unsupported sparse-file metadata''\<rparr> else x)"

section \<open>Links\<close>

text \<open>The operations that materialise the directories that are missing and the links, in the order of the
  code; \<open>before\<close> is \<open>localeCompare\<close> being at most 0. What is a directory already is left alone.\<close>

datatype disk_call = EnsureDirectory string | MakeHardlink string string | MakeSymlink string string

definition link_calls :: "(string \<Rightarrow> string \<Rightarrow> bool) \<Rightarrow> archive_plan \<Rightarrow> disk_call list" where
  "link_calls before plan =
     map EnsureDirectory (sort_by (\<lambda>l r. let a = length (split_on CHR ''/'' l); b = length (split_on CHR ''/'' r)
         in a < b \<or> a = b \<and> before l r)
       (map fst (filter (\<lambda>(n, k). k = ArchiveDirectory) (pl_filesystemEntries plan))))
     @ map (\<lambda>e. MakeHardlink (case ae_resolvedHardlinkTarget e of Some t \<Rightarrow> t | None \<Rightarrow> []) (ae_name e))
         (filter (\<lambda>e. ae_kind e = ArchiveHardlink) (map_values (pl_entries plan)))
     @ map (\<lambda>e. MakeSymlink (case ae_linkpath e of Some l \<Rightarrow> l | None \<Rightarrow> []) (ae_name e))
         (filter (\<lambda>e. ae_kind e = ArchiveSymlink) (map_values (pl_entries plan)))"

section \<open>The observed tree\<close>

datatype stat_kind = StatDirectory | StatFile | StatSymlink | StatOther

record file_stat =
  fs_kind :: stat_kind
  fs_dev :: nat
  fs_ino :: nat
  fs_size :: int

text \<open>A path as it is observed: the first \<open>lstat\<close>, the opened descriptor, the text of a link, the last
  \<open>lstat\<close>; for a directory also the \<open>lstat\<close> after it was opened, its children as they are listed, and
  the descriptor at the end. Opening fails when the observation of the descriptor is missing.\<close>

datatype observed = Observed (ob_info: file_stat) (ob_descriptor: "file_stat option") (ob_link: string)
  (ob_pathnameBefore: file_stat) (ob_children: "(string \<times> observed) list") (ob_descriptorAfter: file_stat)
  (ob_pathnameAfter: file_stat)

record tree_check =
  tc_seen :: "string list"
  tc_identities :: "(string, nat \<times> nat) js_map"

definition same_identity :: "file_stat \<Rightarrow> file_stat \<Rightarrow> bool" where
  "same_identity a b = (fs_dev a = fs_dev b \<and> fs_ino a = fs_ino b)"

definition child_name :: "string \<Rightarrow> string \<Rightarrow> string" where
  "child_name directory name = (if directory = [] then name else directory @ ''/'' @ name)"

text \<open>The look at a directory before and after its children.\<close>

definition directory_before :: "observed \<Rightarrow> bool" where
  "directory_before ob = (case ob_descriptor ob of
       None \<Rightarrow> False
     | Some d \<Rightarrow> fs_kind d = StatDirectory \<and> fs_kind (ob_pathnameBefore ob) = StatDirectory \<and> same_identity (ob_pathnameBefore ob) d)"

definition directory_after :: "observed \<Rightarrow> bool" where
  "directory_after ob = (case ob_descriptor ob of
       None \<Rightarrow> False
     | Some d \<Rightarrow> fs_kind (ob_descriptorAfter ob) = StatDirectory \<and> fs_kind (ob_pathnameAfter ob) = StatDirectory
         \<and> same_identity (ob_descriptorAfter ob) d \<and> same_identity (ob_pathnameAfter ob) (ob_descriptorAfter ob))"

definition expected_size :: "archive_plan \<Rightarrow> string \<Rightarrow> int option" where
  "expected_size plan name = (case map_of (pl_entries plan) name of
       None \<Rightarrow> None
     | Some e \<Rightarrow>
         if ae_kind e = ArchiveHardlink
         then (case ae_resolvedHardlinkTarget e of
             None \<Rightarrow> None
           | Some t \<Rightarrow> map_option ae_size (map_of (pl_entries plan) t))
         else Some (ae_size e))"

definition check_symlink_entry :: "archive_plan \<Rightarrow> string \<Rightarrow> observed \<Rightarrow> string + unit" where
  "check_symlink_entry plan name ob =
     (if fs_kind (ob_info ob) \<noteq> StatSymlink then Inl ''expected a symbolic link''
      else if (case map_of (pl_entries plan) name of None \<Rightarrow> True | Some e \<Rightarrow> ae_linkpath e \<noteq> Some (ob_link ob))
      then Inl ''symlink changed target during extraction''
      else if \<not> same_identity (ob_pathnameAfter ob) (ob_info ob) \<or> fs_kind (ob_pathnameAfter ob) \<noteq> StatSymlink
      then Inl ''symlink changed during verification''
      else Inr ())"

definition check_file_entry :: "archive_plan \<Rightarrow> string \<Rightarrow> observed \<Rightarrow> tree_check \<Rightarrow> string + tree_check" where
  "check_file_entry plan name ob st =
     (if fs_kind (ob_info ob) \<noteq> StatFile then Inl ''expected a regular file''
      else (case ob_descriptor ob of
          None \<Rightarrow> Inl ''refused symbolic-link file''
        | Some d \<Rightarrow>
            if fs_kind d \<noteq> StatFile \<or> \<not> same_identity d (ob_info ob) then Inl ''file changed during verification''
            else if expected_size plan name \<noteq> Some (fs_size d) then Inl ''file has an unexpected extracted size''
            else if fs_kind (ob_pathnameAfter ob) \<noteq> StatFile \<or> \<not> same_identity (ob_pathnameAfter ob) d
            then Inl ''file changed during verification''
            else Inr (st\<lparr>tc_identities := AList.update name (fs_dev d, fs_ino d) (tc_identities st)\<rparr>)))"

fun walkDirectory :: "archive_plan \<Rightarrow> string \<Rightarrow> observed \<Rightarrow> tree_check \<Rightarrow> string + tree_check"
  and walk_children :: "archive_plan \<Rightarrow> string \<Rightarrow> (string \<times> observed) list \<Rightarrow> tree_check \<Rightarrow> string + tree_check"
where
  "walkDirectory plan directory (Observed info descriptor link pathnameBefore children descriptorAfter pathnameAfter) st =
     (let ob = Observed info descriptor link pathnameBefore children descriptorAfter pathnameAfter in
      if \<not> directory_before ob then Inl ''directory changed before verification''
      else rbind (walk_children plan directory children st) (\<lambda>st'.
        if \<not> directory_after ob then Inl ''directory changed during verification'' else Inr st'))"
| "walk_children plan directory [] st = Inr st"
| "walk_children plan directory ((n, ob) # rest) st =
     (let name = child_name directory n in
      case map_of (pl_filesystemEntries plan) name of
        None \<Rightarrow> Inl ''extraction created unexpected path''
      | Some kind \<Rightarrow>
          if name \<in> set (tc_seen st) then Inl ''extraction produced duplicate path''
          else
            (let st1 = st\<lparr>tc_seen := tc_seen st @ [name]\<rparr> in
             rbind (if kind = ArchiveDirectory
                then (if fs_kind (ob_info ob) \<noteq> StatDirectory then Inl ''expected a real directory'' else walkDirectory plan name ob st1)
                else if kind = ArchiveSymlink then rbind (check_symlink_entry plan name ob) (\<lambda>_. Inr st1)
                else check_file_entry plan name ob st1)
               (walk_children plan directory rest)))"

definition hardlink_identity_ok :: "archive_plan \<Rightarrow> (string, nat \<times> nat) js_map \<Rightarrow> archive_entry \<Rightarrow> bool" where
  "hardlink_identity_ok plan identities e = (ae_kind e = ArchiveHardlink \<longrightarrow>
     (case (map_of identities (ae_name e), ae_resolvedHardlinkTarget e) of
        (Some a, Some t) \<Rightarrow> map_of identities t = Some a
      | _ \<Rightarrow> False))"

definition verifyExtractedTree :: "archive_plan \<Rightarrow> observed \<Rightarrow> string + unit" where
  "verifyExtractedTree plan root = rbind (walkDirectory plan [] root \<lparr>tc_seen = [], tc_identities = []\<rparr>) (\<lambda>st.
     if length (tc_seen st) \<noteq> length (pl_filesystemEntries plan) \<or> list_ex (\<lambda>(n, k). n \<notin> set (tc_seen st)) (pl_filesystemEntries plan)
     then Inl ''staged filesystem does not exactly match the inspected archive graph''
     else if \<not> list_all (hardlink_identity_ok plan (tc_identities st)) (map_values (pl_entries plan))
     then Inl ''hardlink is not linked to its validated regular-file target''
     else Inr ())"

text \<open>The whole extraction: \<open>destination\<close> says whether the destination is a private empty directory,
  \<open>events\<close> what the library called, \<open>materialized\<close> whether the links could be made, \<open>root\<close> what the
  verification sees, \<open>unmoved\<close> whether the destination is still the directory that was opened.\<close>

definition extractInspectedBackupArchive ::
  "archive_limits \<Rightarrow> (nat list \<Rightarrow> string) \<Rightarrow> archive_file \<Rightarrow> string option \<Rightarrow> archive_plan \<Rightarrow> bool \<Rightarrow> extract_event list
     \<Rightarrow> (string + unit) \<Rightarrow> observed \<Rightarrow> bool \<Rightarrow> string + unit"
where
  "extractInspectedBackupArchive lim sha f failed plan destination events materialized root unmoved =
     (if \<not> destination then Inl ''private extraction destination is not empty''
      else
        (let x = fold (extract_event_step lim plan) events \<lparr>xt_seen = [], xt_failure = None\<rparr> in
         case pipeArchive lim sha f failed of
           Inl _ \<Rightarrow> Inl ''archive cannot be read''
         | Inr digest \<Rightarrow>
             (case xt_failure x of
                Some e \<Rightarrow> Inl e
              | None \<Rightarrow>
                  if digest \<noteq> pl_archiveSha256 plan then Inl ''changed between inspection and extraction''
                  else if length (xt_seen x) \<noteq> length (pl_entries plan) \<or> list_ex (\<lambda>(n, e). n \<notin> set (xt_seen x)) (pl_entries plan)
                  then Inl ''changed between inspection and extraction''
                  else rbind materialized (\<lambda>_. rbind (verifyExtractedTree plan root) (\<lambda>_.
                    if unmoved then Inr () else Inl ''private extraction destination changed while it was in use'')))))"

section \<open>What a verified tree is\<close>

text \<open>The paths below an observed directory, with what was observed there; the tree is entered only where it
  is a directory.\<close>

fun tree_paths :: "string \<Rightarrow> observed \<Rightarrow> (string \<times> observed) list"
  and children_paths :: "string \<Rightarrow> (string \<times> observed) list \<Rightarrow> (string \<times> observed) list"
where
  "tree_paths directory (Observed info descriptor link pathnameBefore children descriptorAfter pathnameAfter) =
     children_paths directory children"
| "children_paths directory [] = []"
| "children_paths directory ((n, ob) # rest) =
     (child_name directory n, ob) # (if fs_kind (ob_info ob) = StatDirectory then tree_paths (child_name directory n) ob else [])
       @ children_paths directory rest"

text \<open>What was observed at a path is what the plan says: the kind, the target of a symbolic link, the size of
  a file, and the same file at each of the looks.\<close>

definition observed_as_planned :: "archive_plan \<Rightarrow> string \<Rightarrow> observed \<Rightarrow> bool" where
  "observed_as_planned plan name ob = (case map_of (pl_filesystemEntries plan) name of
       None \<Rightarrow> False
     | Some ArchiveDirectory \<Rightarrow> fs_kind (ob_info ob) = StatDirectory \<and> directory_before ob \<and> directory_after ob
     | Some ArchiveSymlink \<Rightarrow> check_symlink_entry plan name ob = Inr ()
     | Some _ \<Rightarrow> (case ob_descriptor ob of None \<Rightarrow> False
         | Some d \<Rightarrow> fs_kind (ob_info ob) = StatFile \<and> fs_kind d = StatFile \<and> same_identity d (ob_info ob)
             \<and> same_identity (ob_pathnameAfter ob) d \<and> expected_size plan name = Some (fs_size d)))"

lemma check_file_entry_result:
  assumes "check_file_entry plan name ob st = Inr st'"
  obtains d where "ob_descriptor ob = Some d" "fs_kind (ob_info ob) = StatFile" "fs_kind d = StatFile" "same_identity d (ob_info ob)"
    "same_identity (ob_pathnameAfter ob) d" "expected_size plan name = Some (fs_size d)"
    "st' = st\<lparr>tc_identities := AList.update name (fs_dev d, fs_ino d) (tc_identities st)\<rparr>"
  using assms by (auto simp: check_file_entry_def split: option.splits if_splits)

text \<open>The identities recorded are those of the observed descriptors.\<close>

definition identities_from :: "(string \<times> observed) list \<Rightarrow> (string, nat \<times> nat) js_map \<Rightarrow> bool" where
  "identities_from obs ids \<longleftrightarrow> (\<forall>n v. map_of ids n = Some v \<longrightarrow>
     (\<exists>ob d. (n, ob) \<in> set obs \<and> ob_descriptor ob = Some d \<and> v = (fs_dev d, fs_ino d)))"

lemma identities_mono: "identities_from pre ids \<Longrightarrow> identities_from (pre @ x) ids"
  unfolding identities_from_def by (metis Un_iff set_append)

definition walked :: "archive_plan \<Rightarrow> (string \<times> observed) list \<Rightarrow> tree_check \<Rightarrow> tree_check \<Rightarrow> bool" where
  "walked plan obs st st' \<longleftrightarrow> tc_seen st' = tc_seen st @ map fst obs \<and> (\<forall>(n, ob) \<in> set obs. observed_as_planned plan n ob)
     \<and> (distinct (tc_seen st) \<longrightarrow> distinct (tc_seen st'))
     \<and> (\<forall>pre. identities_from pre (tc_identities st) \<longrightarrow> identities_from (pre @ obs) (tc_identities st'))"

lemma walked_Nil [simp]: "walked plan [] st st"
  by (simp add: walked_def)

lemma walked_append: "walked plan a st st1 \<Longrightarrow> walked plan b st1 st2 \<Longrightarrow> walked plan (a @ b) st st2"
proof -
  assume w1: "walked plan a st st1" and w2: "walked plan b st1 st2"
  have "tc_seen st2 = tc_seen st @ map fst (a @ b)" using w1 w2 by (simp add: walked_def)
  moreover have "\<forall>(n, ob) \<in> set (a @ b). observed_as_planned plan n ob" using w1 w2 unfolding walked_def by fastforce
  moreover have "distinct (tc_seen st) \<longrightarrow> distinct (tc_seen st2)" using w1 w2 unfolding walked_def by blast
  moreover have "identities_from (pre @ a @ b) (tc_identities st2)" if "identities_from pre (tc_identities st)" for pre
  proof -
    have "identities_from (pre @ a) (tc_identities st1)" using w1 that unfolding walked_def by blast
    then have "identities_from ((pre @ a) @ b) (tc_identities st2)" using w2 unfolding walked_def by blast
    then show ?thesis by simp
  qed
  ultimately show "walked plan (a @ b) st st2" unfolding walked_def by blast
qed

lemma walk_result:
  "walkDirectory plan directory ob st = Inr st' \<Longrightarrow> walked plan (tree_paths directory ob) st st' \<and> directory_before ob \<and> directory_after ob"
  "walk_children plan directory obs st = Inr st' \<Longrightarrow> walked plan (children_paths directory obs) st st'"
proof (induction plan directory ob st and plan directory obs st arbitrary: st' and st' rule: walkDirectory_walk_children.induct)
  case (1 plan directory info descriptor link pathnameBefore children descriptorAfter pathnameAfter st)
  let ?ob = "Observed info descriptor link pathnameBefore children descriptorAfter pathnameAfter"
  from 1(2) have parts: "directory_before ?ob" "directory_after ?ob" "walk_children plan directory children st = Inr st'"
    by (auto simp: Let_def rbind_eq_Inr split: if_splits)
  from 1(1) [OF refl _ parts(3)] parts(1) have "walked plan (children_paths directory children) st st'" by simp
  with parts(1,2) show ?case by simp
next
  case (2 plan directory st)
  then show ?case by simp
next
  case (3 plan directory n ob rest st)
  define name where "name = child_name directory n"
  define st1 where "st1 = st\<lparr>tc_seen := tc_seen st @ [name]\<rparr>"
  from 3(3) obtain kind st2 where kind: "map_of (pl_filesystemEntries plan) name = Some kind" and new: "name \<notin> set (tc_seen st)"
    and here: "(if kind = ArchiveDirectory
        then (if fs_kind (ob_info ob) \<noteq> StatDirectory then Inl ''expected a real directory'' else walkDirectory plan name ob st1)
        else if kind = ArchiveSymlink then rbind (check_symlink_entry plan name ob) (\<lambda>_. Inr st1)
        else check_file_entry plan name ob st1) = Inr st2"
    and rest: "walk_children plan directory rest st2 = Inr st'"
    by (auto simp: Let_def name_def st1_def rbind_eq_Inr split: option.splits if_splits)
  have first: "walked plan [(name, ob)] st st1" if "observed_as_planned plan name ob"
    using that new by (simp add: walked_def st1_def identities_mono)
  have "walked plan ((name, ob) # (if fs_kind (ob_info ob) = StatDirectory then tree_paths name ob else [])) st st2"
  proof (cases "kind = ArchiveDirectory")
    case True
    then have dir: "fs_kind (ob_info ob) = StatDirectory" "walkDirectory plan name ob st1 = Inr st2" using here by (simp_all split: if_splits)
    have IH: "walked plan (tree_paths name ob) st1 st2 \<and> directory_before ob \<and> directory_after ob"
      using 3(1) [OF name_def kind new st1_def True _ dir(2)] dir(1) by simp
    then have "observed_as_planned plan name ob" using dir(1) kind True by (simp add: observed_as_planned_def)
    with walked_append [OF first] IH dir(1) show ?thesis by force
  next
    case False
    show ?thesis
    proof (cases "kind = ArchiveSymlink")
      case True
      then have link: "check_symlink_entry plan name ob = Inr ()" "st2 = st1" using here by (auto simp: rbind_eq_Inr)
      then have "observed_as_planned plan name ob" using kind True by (simp add: observed_as_planned_def)
      moreover have "fs_kind (ob_info ob) = StatSymlink" using link(1) by (simp add: check_symlink_entry_def split: if_splits)
      ultimately show ?thesis using first link(2) by simp
    next
      case other: False
      then have entry: "check_file_entry plan name ob st1 = Inr st2" using here False by simp
      then obtain d where d: "ob_descriptor ob = Some d" "fs_kind (ob_info ob) = StatFile" "fs_kind d = StatFile" "same_identity d (ob_info ob)"
        "same_identity (ob_pathnameAfter ob) d" "expected_size plan name = Some (fs_size d)"
        "st2 = st1\<lparr>tc_identities := AList.update name (fs_dev d, fs_ino d) (tc_identities st1)\<rparr>"
        by (rule check_file_entry_result)
      have "observed_as_planned plan name ob"
        using kind False other d by (cases kind) (simp_all add: observed_as_planned_def)
      moreover have "identities_from (pre @ [(name, ob)]) (tc_identities st2)" if "identities_from pre (tc_identities st)" for pre
        using that d(1,7) by (fastforce simp: identities_from_def st1_def update_conv')
      ultimately show ?thesis using d(2,7) new by (auto simp: walked_def st1_def)
    qed
  qed
  moreover have "walked plan (children_paths directory rest) st2 st'"
    using 3(2) [OF name_def kind new st1_def rest] .
  ultimately have "walked plan (((name, ob) # (if fs_kind (ob_info ob) = StatDirectory then tree_paths name ob else []))
      @ children_paths directory rest) st st'" by (rule walked_append)
  then show ?case by (simp add: name_def split: if_splits)
qed

text \<open>C16. When the extraction of an inspected archive succeeds, whatever the tar library called and wrote,
  then the archive that was read has the hash of the inspected one and the tree on the disk is exactly the
  plan: the paths found are the planned paths, each found once, every one of them is of its planned kind, a symbolic link has its planned target, a file its
  planned size, and a hard link is the same file as its target. A directory or file that was exchanged
  between two looks makes the extraction fail.\<close>

theorem extraction_is_the_plan:
  assumes "extractInspectedBackupArchive lim sha f failed plan destination events materialized root unmoved = Inr ()"
  shows "sha (concat (af_chunks f)) = pl_archiveSha256 plan
    \<and> fst ` set (tree_paths [] root) = fst ` set (pl_filesystemEntries plan) \<and> distinct (map fst (tree_paths [] root))
    \<and> (\<forall>(n, ob) \<in> set (tree_paths [] root). observed_as_planned plan n ob)
    \<and> (\<forall>e \<in> set (map_values (pl_entries plan)). ae_kind e = ArchiveHardlink \<longrightarrow> (\<exists>t a b da db.
      ae_resolvedHardlinkTarget e = Some t \<and> (ae_name e, a) \<in> set (tree_paths [] root) \<and> (t, b) \<in> set (tree_paths [] root)
      \<and> ob_descriptor a = Some da \<and> ob_descriptor b = Some db \<and> same_identity da db))"
proof (intro conjI)
  from assms obtain digest where piped: "pipeArchive lim sha f failed = Inr digest" "digest = pl_archiveSha256 plan"
    and verified: "verifyExtractedTree plan root = Inr ()"
    by (auto simp: extractInspectedBackupArchive_def Let_def rbind_eq_Inr split: sum.splits option.splits if_splits)
  show "sha (concat (af_chunks f)) = pl_archiveSha256 plan"
    using piped by (auto simp: pipeArchive_def rbind_eq_Inr split: option.splits if_splits)
  from verified obtain st where walk: "walkDirectory plan [] root \<lparr>tc_seen = [], tc_identities = []\<rparr> = Inr st"
    and all: "\<not> list_ex (\<lambda>(n, k). n \<notin> set (tc_seen st)) (pl_filesystemEntries plan)"
    and links: "list_all (hardlink_identity_ok plan (tc_identities st)) (map_values (pl_entries plan))"
    by (auto simp: verifyExtractedTree_def rbind_eq_Inr split: if_splits)
  let ?paths = "tree_paths [] root"
  from walk_result(1) [OF walk] have w: "walked plan ?paths \<lparr>tc_seen = [], tc_identities = []\<rparr> st" by simp
  then have seen: "tc_seen st = map fst ?paths" "distinct (map fst ?paths)" and planned: "\<forall>(n, ob) \<in> set ?paths. observed_as_planned plan n ob"
    by (auto simp: walked_def)
  show "distinct (map fst ?paths)" "\<forall>(n, ob) \<in> set ?paths. observed_as_planned plan n ob" by (rule seen planned)+
  show "fst ` set ?paths = fst ` set (pl_filesystemEntries plan)"
  proof
    show "fst ` set ?paths \<subseteq> fst ` set (pl_filesystemEntries plan)"
    proof
      fix n assume "n \<in> fst ` set ?paths"
      then obtain ob where "observed_as_planned plan n ob" using planned by auto
      then have "map_of (pl_filesystemEntries plan) n \<noteq> None" by (auto simp: observed_as_planned_def split: option.splits)
      then show "n \<in> fst ` set (pl_filesystemEntries plan)" by (simp add: map_of_eq_None_iff)
    qed
    show "fst ` set (pl_filesystemEntries plan) \<subseteq> fst ` set ?paths"
      using all seen(1) by (auto simp: list_ex_iff)
  qed
  have "identities_from [] (tc_identities \<lparr>tc_seen = [], tc_identities = []\<rparr>)" by (simp add: identities_from_def)
  then have ids: "identities_from ?paths (tc_identities st)" using w unfolding walked_def by (metis append_Nil)
  show "\<forall>e \<in> set (map_values (pl_entries plan)). ae_kind e = ArchiveHardlink \<longrightarrow> (\<exists>t a b da db.
      ae_resolvedHardlinkTarget e = Some t \<and> (ae_name e, a) \<in> set ?paths \<and> (t, b) \<in> set ?paths
      \<and> ob_descriptor a = Some da \<and> ob_descriptor b = Some db \<and> same_identity da db)"
  proof (intro ballI impI)
    fix e assume e: "e \<in> set (map_values (pl_entries plan))" "ae_kind e = ArchiveHardlink"
    then have "hardlink_identity_ok plan (tc_identities st) e" using links by (simp add: list_all_iff)
    then obtain v t where t: "map_of (tc_identities st) (ae_name e) = Some v" "ae_resolvedHardlinkTarget e = Some t" "map_of (tc_identities st) t = Some v"
      using e(2) by (auto simp: hardlink_identity_ok_def split: option.splits)
    from ids t(1) obtain a da where a: "(ae_name e, a) \<in> set ?paths" "ob_descriptor a = Some da" "v = (fs_dev da, fs_ino da)"
      unfolding identities_from_def by blast
    from ids t(3) obtain b db where b: "(t, b) \<in> set ?paths" "ob_descriptor b = Some db" "v = (fs_dev db, fs_ino db)"
      unfolding identities_from_def by blast
    from a b have "same_identity da db" by (simp add: same_identity_def)
    with t(2) a b show "\<exists>t a b da db. ae_resolvedHardlinkTarget e = Some t \<and> (ae_name e, a) \<in> set ?paths \<and> (t, b) \<in> set ?paths
      \<and> ob_descriptor a = Some da \<and> ob_descriptor b = Some db \<and> same_identity da db" by blast
  qed
qed

section \<open>An extraction\<close>

definition demo_stat :: "stat_kind \<Rightarrow> nat \<Rightarrow> int \<Rightarrow> file_stat" where
  "demo_stat k i n = \<lparr>fs_kind = k, fs_dev = 1, fs_ino = i, fs_size = n\<rparr>"

definition demo_observed :: "file_stat \<Rightarrow> string \<Rightarrow> (string \<times> observed) list \<Rightarrow> observed" where
  "demo_observed s link children = Observed s (Some s) link s children s s"

definition demo_tree :: observed where
  "demo_tree = demo_observed (demo_stat StatDirectory 1 0) [] [(''h'', demo_observed (demo_stat StatDirectory 2 0) []
     [(''a'', demo_observed (demo_stat StatFile 3 3) [] []), (''b'', demo_observed (demo_stat StatFile 3 3) [] []),
      (''l'', demo_observed (demo_stat StatSymlink 4 0) ''../h/a'' [])])]"

definition demo_calls :: "extract_event list" where
  "demo_calls = List.map_filter (\<lambda>e. case e of MemberEvent raw \<Rightarrow> Some (FilterCall raw) | _ \<Rightarrow> None) demo_archive_events"

theorem extraction_is_the_plan_witness:
  "extractInspectedBackupArchive demo_archive_limits (\<lambda>_. ''digest'') demo_archive_file None demo_archive_plan True demo_calls (Inr ()) demo_tree True = Inr ()
   \<and> fst ` set (tree_paths [] demo_tree) = fst ` set (pl_filesystemEntries demo_archive_plan)"
proof -
  have run: "extractInspectedBackupArchive demo_archive_limits (\<lambda>_. ''digest'') demo_archive_file None demo_archive_plan True demo_calls (Inr ()) demo_tree True = Inr ()"
    by code_simp
  from extraction_is_the_plan [OF this] run show ?thesis by blast
qed

end
