(* ===== verification/Deadline_Timer.thy ===== *)
theory Deadline_Timer
  imports Prelude
begin

text \<open>Timers for delays that the timers of Node cannot hold: packages/control/src/deadline-timer.ts. The
  timer is armed for at most 2147483647 milliseconds and armed again until its deadline has come.\<close>

section \<open>The timer\<close>

definition MAX_TIMER_DELAY_MS :: int where "MAX_TIMER_DELAY_MS = 2147483647"



text \<open>\<open>dt_delay\<close> is the delay the running timer of Node was armed for, \<open>dt_armedAt\<close> the clock then;
  \<open>dt_referenced\<close> says whether the running timer keeps the process alive.\<close>

record deadline_timer =
  dt_deadline :: int
  dt_cancelled :: bool
  dt_unreferenced :: bool
  dt_armedAt :: int
  dt_delay :: "int option"
  dt_referenced :: bool

definition armed_delay :: "int \<Rightarrow> int \<Rightarrow> int" where
  "armed_delay deadline now = max 1 (min MAX_TIMER_DELAY_MS (deadline - now))"

definition arm :: "int \<Rightarrow> deadline_timer \<Rightarrow> deadline_timer" where
  "arm now t = t\<lparr>dt_armedAt := now, dt_delay := Some (armed_delay (dt_deadline t) now), dt_referenced := \<not> dt_unreferenced t\<rparr>"

definition deadlineTimer :: "int \<Rightarrow> int \<Rightarrow> string + deadline_timer" where
  "deadlineTimer now delayMs =
     (if delayMs > MAX_SAFE_INTEGER \<or> delayMs < 0 then Inl ''Timer delay must be a non-negative safe integer.''
      else Inr (arm now \<lparr>dt_deadline = now + delayMs, dt_cancelled = False, dt_unreferenced = False, dt_armedAt = now,
        dt_delay = None, dt_referenced = False\<rparr>))"

text \<open>What happens when the timer of Node fires, and whether the callback is called.\<close>

definition timer_fired :: "int \<Rightarrow> deadline_timer \<Rightarrow> deadline_timer \<times> bool" where
  "timer_fired now t =
     (if dt_cancelled t then (t\<lparr>dt_delay := None\<rparr>, False)
      else if now < dt_deadline t then (arm now t, False)
      else (t\<lparr>dt_cancelled := True, dt_delay := None\<rparr>, True))"

definition cancel_timer :: "deadline_timer \<Rightarrow> deadline_timer" where
  "cancel_timer t = t\<lparr>dt_cancelled := True, dt_delay := None\<rparr>"

definition unref_timer :: "deadline_timer \<Rightarrow> deadline_timer" where
  "unref_timer t = t\<lparr>dt_unreferenced := True, dt_referenced := False\<rparr>"

section \<open>A clock that moves on\<close>

text \<open>The timer of Node fires \<open>late k\<close> milliseconds after the delay of its \<open>k\<close>-th arming has passed.
  \<open>timer_rounds\<close> lets it fire until it is not armed again, and answers how often it fired, when the
  callback was called and what the timer is then.\<close>

function timer_rounds :: "(nat \<Rightarrow> nat) \<Rightarrow> nat \<Rightarrow> deadline_timer \<Rightarrow> nat \<times> int option \<times> deadline_timer" where
  "timer_rounds late k t = (case dt_delay t of
       None \<Rightarrow> (k, None, t)
     | Some d \<Rightarrow>
         (let now = dt_armedAt t + max 1 d + int (late k); (t', called) = timer_fired now t
          in if called then (Suc k, Some now, t') else timer_rounds late (Suc k) t'))"
  by auto
termination
proof (relation "measure (\<lambda>(late, k, t). if dt_delay t = None then 0 else if dt_cancelled t then 1
    else 2 + nat (dt_deadline t - dt_armedAt t))")
  fix late :: "nat \<Rightarrow> nat" and k :: nat and t t' :: deadline_timer and d now x called
  assume "dt_delay t = Some d" "now = dt_armedAt t + max 1 d + int (late k)" "x = timer_fired now t"
    "(t', called) = x" "\<not> called"
  then show "((late, Suc k, t'), late, k, t) \<in> measure (\<lambda>(late, k, t). if dt_delay t = None then 0 else if dt_cancelled t then 1
    else 2 + nat (dt_deadline t - dt_armedAt t))"
    by (auto simp: timer_fired_def arm_def split: if_splits)
qed simp

declare timer_rounds.simps [simp del]

text \<open>A timer that is armed and whose deadline is \<open>rest\<close> milliseconds off.\<close>

definition waiting_timer :: "deadline_timer \<Rightarrow> bool" where
  "waiting_timer t = (\<not> dt_cancelled t \<and> dt_delay t = Some (armed_delay (dt_deadline t) (dt_armedAt t)))"

lemma armed_delay_positive [simp]: "1 \<le> armed_delay deadline now"
  by (simp add: armed_delay_def)

lemma arm_waiting: "\<not> dt_cancelled t \<Longrightarrow> waiting_timer (arm now t)"
  by (simp add: waiting_timer_def arm_def)

lemma created_timer:
  "deadlineTimer now d = Inr t \<Longrightarrow> waiting_timer t \<and> dt_armedAt t = now \<and> dt_deadline t = now + d \<and> 0 \<le> d"
  by (auto simp: deadlineTimer_def waiting_timer_def arm_def split: if_splits)

text \<open>One firing: the timer is done, or it is armed again at least its whole delay later.\<close>

lemma waiting_fires:
  assumes "waiting_timer t"
  obtains (ended) now t' where
      "now = dt_armedAt t + armed_delay (dt_deadline t) (dt_armedAt t) + int (late k)" "dt_deadline t \<le> now"
      "timer_rounds late k t = (Suc k, Some now, t')" "dt_cancelled t'" "dt_delay t' = None"
    | (rearmed) now where
      "now = dt_armedAt t + armed_delay (dt_deadline t) (dt_armedAt t) + int (late k)" "now < dt_deadline t"
      "timer_rounds late k t = timer_rounds late (Suc k) (arm now t)"
proof -
  define now where "now = dt_armedAt t + armed_delay (dt_deadline t) (dt_armedAt t) + int (late k)"
  have d: "dt_delay t = Some (armed_delay (dt_deadline t) (dt_armedAt t))" "\<not> dt_cancelled t"
    using assms by (simp_all add: waiting_timer_def)
  obtain u called where fired: "timer_fired now t = (u, called)" by force
  have step: "timer_rounds late k t = (let (t', called) = timer_fired now t
      in if called then (Suc k, Some now, t') else timer_rounds late (Suc k) t')"
    unfolding timer_rounds.simps [of late k t] using fired by (simp add: d now_def Let_def max_absorb2)
  show thesis
  proof (cases "now < dt_deadline t")
    case True
    then show thesis using rearmed [of now] step d by (simp add: now_def timer_fired_def)
  next
    case False
    then show thesis using ended [of now "t\<lparr>dt_cancelled := True, dt_delay := None\<rparr>"] step d
      by (simp add: now_def timer_fired_def)
  qed
qed

lemma rounds_bound:
  assumes "waiting_timer t" and "dt_deadline t - dt_armedAt t \<le> int n * MAX_TIMER_DELAY_MS" and "0 < n"
  shows "\<exists>r at t'. timer_rounds late k t = (k + r, Some at, t') \<and> 0 < r \<and> r \<le> n \<and> dt_deadline t \<le> at
    \<and> dt_cancelled t' \<and> dt_delay t' = None"
  using assms
proof (induction n arbitrary: k t)
  case (Suc n)
  from Suc.prems(1) show ?case
  proof (cases rule: waiting_fires [of t late k])
    case (ended now t')
    then show ?thesis by - (rule exI [of _ 1], simp)
  next
    case (rearmed now)
    have far: "MAX_TIMER_DELAY_MS < dt_deadline t - dt_armedAt t"
      using rearmed(1,2) by (auto simp: armed_delay_def max_def min_def MAX_TIMER_DELAY_MS_def split: if_splits)
    then have now: "dt_armedAt t + MAX_TIMER_DELAY_MS \<le> now"
      using rearmed(1) by (simp add: armed_delay_def MAX_TIMER_DELAY_MS_def)
    have "0 < n" using far Suc.prems(2) by (cases n) (simp_all add: MAX_TIMER_DELAY_MS_def)
    moreover have "dt_deadline (arm now t) - dt_armedAt (arm now t) \<le> int n * MAX_TIMER_DELAY_MS"
      using now Suc.prems(2) by (simp add: arm_def algebra_simps)
    moreover have "waiting_timer (arm now t)" using Suc.prems(1) by (simp add: waiting_timer_def arm_def)
    ultimately obtain r at t' where "timer_rounds late (Suc k) (arm now t) = (Suc k + r, Some at, t')" "0 < r" "r \<le> n"
      "dt_deadline (arm now t) \<le> at" "dt_cancelled t'" "dt_delay t' = None"
      using Suc.IH by blast
    then show ?thesis using rearmed(3) by - (rule exI [of _ "Suc r"], simp add: arm_def)
  qed
qed simp

lemma rounds_on_time:
  assumes "waiting_timer t" and "\<forall>j. late j \<le> l" and "timer_rounds late k t = (r, Some at, t')"
  shows "at \<le> max (dt_deadline t) (dt_armedAt t + 1) + int l"
  using assms(1,3)
proof (induction "nat (dt_deadline t - dt_armedAt t)" arbitrary: k t rule: less_induct)
  case less
  have "late k \<le> l" using assms(2) by simp
  from less.prems(1) show ?case
  proof (cases rule: waiting_fires [of t late k])
    case (ended now t')
    then have "at = now" using less.prems(2) by simp
    then show ?thesis using ended(1) \<open>late k \<le> l\<close> by (auto simp: armed_delay_def max_def min_def)
  next
    case (rearmed now)
    have "1 \<le> armed_delay (dt_deadline t) (dt_armedAt t)" by simp
    then have moved: "dt_armedAt t < now" using rearmed(1) by linarith
    have "at \<le> max (dt_deadline (arm now t)) (dt_armedAt (arm now t) + 1) + int l"
    proof (rule less.hyps)
      show "nat (dt_deadline (arm now t) - dt_armedAt (arm now t)) < nat (dt_deadline t - dt_armedAt t)"
        using moved rearmed(2) by (simp add: arm_def)
      show "waiting_timer (arm now t)" using less.prems(1) by (simp add: waiting_timer_def arm_def)
      show "timer_rounds late (Suc k) (arm now t) = (r, Some at, t')" using less.prems(2) rearmed(3) by simp
    qed
    then show ?thesis using rearmed(2) by (simp add: arm_def)
  qed
qed

text \<open>C26. A timer made for \<open>d\<close> milliseconds ends: however late each firing of the underlying timer is,
  after at most \<open>d div 2147483647 + 1\<close> firings the callback has been called, once, never before the
  deadline, and the timer is not armed any more. When every firing is at most \<open>l\<close> milliseconds late the
  callback is at most \<open>l\<close> milliseconds late (one more for a delay of 0). No arming asks the underlying
  timer for a delay that it would cut to one millisecond.\<close>

theorem deadline_timer_ends:
  assumes "deadlineTimer now d = Inr t"
  shows "(\<exists>r at t'. timer_rounds late 0 t = (r, Some at, t') \<and> 0 < r \<and> r \<le> nat (d div MAX_TIMER_DELAY_MS) + 1
      \<and> now + d \<le> at \<and> (\<forall>l. (\<forall>j. late j \<le> l) \<longrightarrow> at \<le> now + max d 1 + int l) \<and> dt_delay t' = None)
      \<and> (\<forall>deadline clock. armed_delay deadline clock \<in> {1..MAX_TIMER_DELAY_MS})"
proof (rule conjI)
  note made = created_timer [OF assms]
  have "d < (d div MAX_TIMER_DELAY_MS + 1) * MAX_TIMER_DELAY_MS"
    by (simp add: MAX_TIMER_DELAY_MS_def algebra_simps)
  then have "d \<le> int (nat (d div MAX_TIMER_DELAY_MS) + 1) * MAX_TIMER_DELAY_MS"
    using made by (simp add: MAX_TIMER_DELAY_MS_def pos_imp_zdiv_nonneg_iff)
  then obtain r at t' where run: "timer_rounds late 0 t = (r, Some at, t')" "0 < r" "r \<le> nat (d div MAX_TIMER_DELAY_MS) + 1"
    "dt_deadline t \<le> at" "dt_delay t' = None"
    using rounds_bound [of t "nat (d div MAX_TIMER_DELAY_MS) + 1" late 0] made by auto
  have "at \<le> now + max d 1 + int l" if "\<forall>j. late j \<le> l" for l
    using rounds_on_time [OF _ that run(1)] made by (simp add: max_def split: if_splits)
  with run made show "\<exists>r at t'. timer_rounds late 0 t = (r, Some at, t') \<and> 0 < r \<and> r \<le> nat (d div MAX_TIMER_DELAY_MS) + 1
      \<and> now + d \<le> at \<and> (\<forall>l. (\<forall>j. late j \<le> l) \<longrightarrow> at \<le> now + max d 1 + int l) \<and> dt_delay t' = None"
    by auto
  show "\<forall>deadline clock. armed_delay deadline clock \<in> {1..MAX_TIMER_DELAY_MS}"
    by (simp add: armed_delay_def MAX_TIMER_DELAY_MS_def)
qed

text \<open>A cancelled timer never calls back.\<close>

lemma cancelled_timer_silent:
  "snd (timer_fired now (cancel_timer t)) = False" "dt_delay (cancel_timer t) = None"
  "timer_rounds late k (cancel_timer t) = (k, None, cancel_timer t)"
  by (simp_all add: timer_fired_def cancel_timer_def timer_rounds.simps [of late k])

theorem deadline_timer_ends_witness:
  "\<exists>t. deadlineTimer 1000 3000000000 = Inr t \<and> (\<exists>r at t'. timer_rounds (\<lambda>_. 0) 0 t = (r, Some at, t') \<and> r \<le> 2)"
proof -
  obtain t where t: "deadlineTimer 1000 3000000000 = Inr t"
    by (simp add: deadlineTimer_def MAX_SAFE_INTEGER_def)
  from deadline_timer_ends [OF t, of "\<lambda>_. 0"] show ?thesis
    using t by (auto simp: MAX_TIMER_DELAY_MS_def)
qed

end
