(* ===== verification/Fencing.thy ===== *)
theory Fencing
  imports Prelude
begin

text \<open>
  The interface of a component that hands out fencing tokens: a state machine whose clock is an
  epoch and a generation, and whose tokens are stamped with the epoch and the generation they
  were issued at. The laws say that a token is never ahead of the clock, that a step moves the
  clock forwards, and that a token which a step makes valid is ahead of the old clock. What a
  client needs follows once and for all: a token that stopped being valid never becomes valid
  again, whatever happens, unless its epoch is used a second time.
\<close>

fun run_steps :: "('e \<Rightarrow> 's \<Rightarrow> 's) \<Rightarrow> 'e list \<Rightarrow> 's \<Rightarrow> 's" where
  "run_steps step [] s = s"
| "run_steps step (e # es) s = run_steps step es (step e s)"

lemma run_steps_append: "run_steps step (es @ fs) s = run_steps step fs (run_steps step es s)"
  by (induction es arbitrary: s) auto

lemma run_steps_invariant:
  "(\<And>e s. P s \<Longrightarrow> P (step e s)) \<Longrightarrow> P s \<Longrightarrow> P (run_steps step es s)"
  by (induction es arbitrary: s) auto

locale fencing =
  fixes step :: "'e \<Rightarrow> 's \<Rightarrow> 's"
    and epoch :: "'s \<Rightarrow> 'c"
    and clock :: "'s \<Rightarrow> nat"
    and valid :: "'s \<Rightarrow> 'p \<Rightarrow> bool"
    and token_epoch :: "'p \<Rightarrow> 'c"
    and stamp :: "'p \<Rightarrow> nat"
    and new_epoch :: "'e \<Rightarrow> 'c option"
    and inv :: "'s \<Rightarrow> bool"
  assumes inv_step: "inv s \<Longrightarrow> inv (step e s)"
    and valid_epoch: "inv s \<Longrightarrow> valid s p \<Longrightarrow> token_epoch p = epoch s"
    and valid_stamp: "inv s \<Longrightarrow> valid s p \<Longrightarrow> stamp p \<le> clock s"
    and step_epoch: "inv s \<Longrightarrow> epoch (step e s) = (case new_epoch e of None \<Rightarrow> epoch s | Some c \<Rightarrow> c)"
    and step_clock: "inv s \<Longrightarrow> new_epoch e = None \<Longrightarrow> clock s \<le> clock (step e s)"
    and step_valid: "inv s \<Longrightarrow> new_epoch e = None \<Longrightarrow> valid (step e s) p
      \<Longrightarrow> valid s p \<or> clock s < stamp p"
begin

definition spent :: "'s \<Rightarrow> 'p \<Rightarrow> bool" where
  "spent s p \<longleftrightarrow> \<not> valid s p \<and> (token_epoch p = epoch s \<longrightarrow> stamp p \<le> clock s)"

lemma spent_not_valid: "spent s p \<Longrightarrow> \<not> valid s p"
  by (simp add: spent_def)

lemma spent_step:
  assumes inv: "inv s" and sp: "spent s p" and fresh: "new_epoch e \<noteq> Some (token_epoch p)"
  shows "spent (step e s) p"
proof (cases "new_epoch e")
  case None
  from inv sp None have epoch: "epoch (step e s) = epoch s" and clock: "clock s \<le> clock (step e s)"
    by (simp_all add: step_epoch step_clock)
  have "\<not> valid (step e s) p"
  proof
    assume v: "valid (step e s) p"
    with inv have "token_epoch p = epoch s"
      using valid_epoch [OF inv_step [OF inv] v] epoch by simp
    with sp have "stamp p \<le> clock s" by (simp add: spent_def)
    with step_valid [OF inv None v] sp show False by (simp add: spent_def)
  qed
  with sp epoch clock show ?thesis by (auto simp: spent_def)
next
  case (Some c)
  with inv fresh have "epoch (step e s) \<noteq> token_epoch p" by (simp add: step_epoch)
  with valid_epoch [OF inv_step [OF inv]] show ?thesis
    by (auto simp: spent_def)
qed

lemma inv_run: "inv s \<Longrightarrow> inv (run_steps step es s)"
  by (rule run_steps_invariant) (auto intro: inv_step)

lemma spent_run:
  "inv s \<Longrightarrow> spent s p \<Longrightarrow> (\<forall>e \<in> set es. new_epoch e \<noteq> Some (token_epoch p))
    \<Longrightarrow> spent (run_steps step es s) p"
  by (induction es arbitrary: s) (auto intro: spent_step inv_step)

lemma known_valid: "inv s \<Longrightarrow> valid s p \<Longrightarrow> token_epoch p = epoch s \<and> stamp p \<le> clock s"
  by (simp add: valid_epoch valid_stamp)

text \<open>A token that was valid once is behind the clock for as long as its epoch lasts.\<close>

definition behind :: "'s \<Rightarrow> 'p \<Rightarrow> bool" where
  "behind s p \<longleftrightarrow> (token_epoch p = epoch s \<longrightarrow> stamp p \<le> clock s)"

lemma behind_step:
  assumes "inv s" and "behind s p" and "new_epoch e \<noteq> Some (token_epoch p)"
  shows "behind (step e s) p"
proof (cases "new_epoch e")
  case None
  with assms show ?thesis
    using step_clock [of s e] by (auto simp: behind_def step_epoch)
next
  case (Some c)
  with assms show ?thesis by (auto simp: behind_def step_epoch)
qed

lemma behind_run:
  "inv s \<Longrightarrow> behind s p \<Longrightarrow> (\<forall>e \<in> set es. new_epoch e \<noteq> Some (token_epoch p))
    \<Longrightarrow> behind (run_steps step es s) p"
  by (induction es arbitrary: s) (auto intro: behind_step inv_step)

lemma never_again:
  assumes "inv s" and "valid s p"
    and "\<forall>e \<in> set (es @ fs). new_epoch e \<noteq> Some (token_epoch p)"
    and "\<not> valid (run_steps step es s) p"
  shows "\<not> valid (run_steps step fs (run_steps step es s)) p"
proof -
  have "behind (run_steps step es s) p"
    using assms known_valid by (intro behind_run) (auto simp: behind_def)
  with assms(4) have "spent (run_steps step es s) p"
    by (simp add: spent_def behind_def)
  then have "spent (run_steps step fs (run_steps step es s)) p"
    using assms by (intro spent_run [OF inv_run]) auto
  then show ?thesis by (rule spent_not_valid)
qed

text \<open>Two tokens of one epoch, the second issued by a later step: the stamps tell the order.\<close>

lemma issued_later:
  assumes "inv s" and "valid s p" and "new_epoch e = None"
    and "valid (step e s) q" and "\<not> valid s q"
  shows "stamp p < stamp q"
proof -
  from assms have "clock s < stamp q" using step_valid by blast
  moreover from assms have "stamp p \<le> clock s" by (simp add: valid_stamp)
  ultimately show ?thesis by simp
qed

end

end
