(* ===== verification/Lease.thy ===== *)
theory Lease
  imports Fencing
begin

text \<open>
  \<^verbatim>\<open>packages/control/src/lease.ts\<close>: the lease manager that decides which client may send
  input to a computer, and its chain of asynchronous revocations.

  State passing: every method takes the manager and returns the new one with the outcome. The
  clock (\<open>Date.now()\<close>, milliseconds) and the random identifiers are arguments. Timestamps stay
  numbers; \<open>toISOString\<close> is not applied. The promise chain \<open>this.revocation\<close> is the queue
  \<open>revocations\<close> of its jobs, the head being the one that runs: the field is undefined exactly
  when the queue is empty. Starting the next job, the answer of the revocation handler and the
  end of a job are steps of their own, so that other calls can come in between, as they do
  between the awaits. The promises of waiting clients are settled by an entry in \<open>effects\<close>.
\<close>

section \<open>Data\<close>

record lease_proof =
  proof_id :: string
  proof_generation :: nat
  proof_epoch :: string

record lease_actor =
  actor_protocol :: string
  untrustedLabel :: string

record lease = lease_proof +
  lease_expiresAt :: int
  lease_durationMs :: int
  lease_backgroundOnly :: bool
  lease_actor_of :: "lease_actor option"

record public_lease = lease_proof +
  public_expiresAt :: int

record revocation_target =
  target_proof :: "lease_proof option"
  invokeWithoutProof :: bool

text \<open>A link of the promise chain: not started yet, or inside its loop, with the targets that are
  left, the processes terminated so far and the first failure.\<close>

datatype revocation_job =
    Queued "revocation_target list"
  | Running "revocation_target list" nat "string option"

record lease_waiter =
  waiter_key :: nat
  waiter_durationSeconds :: nat
  waiter_actor :: "lease_actor option"

datatype lease_effect =
    WaiterResolved nat public_lease
  | WaiterRejected nat qubicl_error
  | HandlerSucceeded "lease_proof option"
  | RevocationReport nat
  | RevocationFailed string

record lease_manager =
  lm_epoch :: string
  lm_generation :: nat
  lm_lease :: "lease option"
  lm_human :: bool
  lm_timer :: "int option"
  revocations :: "revocation_job list"
  failedRevocations :: "revocation_target list"
  lm_waiters :: "lease_waiter list"
  effects :: "lease_effect list"

definition new_lease_manager :: "string \<Rightarrow> lease_manager" where
  "new_lease_manager ep = \<lparr>lm_epoch = ep, lm_generation = 0, lm_lease = None, lm_human = False,
     lm_timer = None, revocations = [], failedRevocations = [], lm_waiters = [], effects = []\<rparr>"

datatype lease_controller = NoController | AgentController | HumanController
datatype lease_fencing = FencingInProgress | FencingFailed

record lease_snapshot =
  snap_epoch :: string
  snap_generation :: nat
  snap_controller :: lease_controller
  snap_expiresAt :: "int option"
  snap_actor :: "lease_actor option"
  snap_backgroundAgent :: bool
  snap_fencing :: "lease_fencing option"

definition proof_of :: "'a lease_proof_scheme \<Rightarrow> lease_proof" where
  "proof_of l = lease_proof.truncate l"

lemma proof_of_simps [simp]:
  "proof_id (proof_of l) = proof_id l"
  "proof_generation (proof_of l) = proof_generation l"
  "proof_epoch (proof_of l) = proof_epoch l"
  by (simp_all add: proof_of_def lease_proof.defs)

lemma proof_of_eq_iff:
  "p = proof_of l \<longleftrightarrow> proof_id p = proof_id l \<and> proof_generation p = proof_generation l
     \<and> proof_epoch p = proof_epoch l" for p :: lease_proof
  by (metis (full_types) lease_proof.equality old.unit.exhaust proof_of_simps)

section \<open>Actors and targets\<close>

definition control_character :: "char \<Rightarrow> bool" where
  "control_character c = ((of_char c :: nat) \<le> 31 \<or> (of_char c :: nat) = 127)"

definition validateLeaseActor :: "lease_actor \<Rightarrow> lease_actor outcome" where
  "validateLeaseActor a =
     (if actor_protocol a \<notin> {''mcp'', ''openapi'', ''open-terminal''}
        \<or> length (untrustedLabel a) < 1
        \<or> length (untrustedLabel a) > 120
        \<or> list_ex control_character (untrustedLabel a)
      then Inl (QubiclError ''invalid_arguments'' 400)
      else Inr \<lparr>actor_protocol = actor_protocol a, untrustedLabel = untrustedLabel a\<rparr>)"

lemma validateLeaseActor_Inr: "validateLeaseActor a = Inr b \<Longrightarrow> b = a"
  by (auto simp: validateLeaseActor_def split: if_splits)

definition sameProof :: "'a lease_proof_scheme \<Rightarrow> 'b lease_proof_scheme \<Rightarrow> bool" where
  "sameProof left right = (proof_id left = proof_id right
     \<and> proof_generation left = proof_generation right \<and> proof_epoch left = proof_epoch right)"

definition target_key :: "revocation_target \<Rightarrow> string" where
  "target_key t = (case target_proof t of
       Some p \<Rightarrow> proof_epoch p @ '':'' @ show_nat (proof_generation p) @ '':'' @ proof_id p
     | None \<Rightarrow> if invokeWithoutProof t then ''without-proof'' else ''noop'')"

definition deduplicateTargets :: "revocation_target list \<Rightarrow> revocation_target list" where
  "deduplicateTargets targets = dedup_by target_key targets"

section \<open>Timers and the revocation queue\<close>

definition clearTimer :: "lease_manager \<Rightarrow> lease_manager" where
  "clearTimer m = m\<lparr>lm_timer := None\<rparr>"

definition armTimer :: "int \<Rightarrow> lease_manager \<Rightarrow> lease_manager" where
  "armTimer now m = (case lm_lease m of
       None \<Rightarrow> clearTimer m
     | Some l \<Rightarrow> m\<lparr>lm_timer := Some (now + max 1 (lease_expiresAt l - now + 1))\<rparr>)"

definition enqueueRevocations :: "revocation_target list \<Rightarrow> lease_manager \<Rightarrow> lease_manager" where
  "enqueueRevocations targets m = m\<lparr>revocations := revocations m @ [Queued targets]\<rparr>"

definition revoke :: "lease_proof option \<Rightarrow> bool \<Rightarrow> lease_manager \<Rightarrow> lease_manager" where
  "revoke p without m = enqueueRevocations [\<lparr>target_proof = p, invokeWithoutProof = without\<rparr>] m"

definition revokeExact :: "lease_proof list \<Rightarrow> lease_manager \<Rightarrow> lease_manager" where
  "revokeExact ps m =
     enqueueRevocations (map (\<lambda>p. \<lparr>target_proof = Some p, invokeWithoutProof = False\<rparr>) ps) m"

definition retryFailedRevocations :: "lease_manager \<Rightarrow> lease_manager" where
  "retryFailedRevocations m = enqueueRevocations [] m"

definition expireIfNeeded :: "int \<Rightarrow> lease_manager \<Rightarrow> lease_manager" where
  "expireIfNeeded now m = (case lm_lease m of
       None \<Rightarrow> m
     | Some l \<Rightarrow>
         if lease_expiresAt l > now then m
         else revoke (Some (proof_of l)) False
                (clearTimer (m\<lparr>lm_lease := None, lm_generation := lm_generation m + 1\<rparr>)))"

definition publicLease :: "lease \<Rightarrow> public_lease" where
  "publicLease l = \<lparr>proof_id = proof_id l, proof_generation = proof_generation l,
     proof_epoch = proof_epoch l, public_expiresAt = lease_expiresAt l\<rparr>"

section \<open>Granting\<close>

definition lease_snapshot_of :: "int \<Rightarrow> lease_manager \<Rightarrow> lease_manager \<times> lease_snapshot" where
  "lease_snapshot_of now m0 = (let m = expireIfNeeded now m0 in
     (m, \<lparr>snap_epoch = lm_epoch m,
          snap_generation = lm_generation m,
          snap_controller =
            (if lm_human m then HumanController
             else (case lm_lease m of
                 Some l \<Rightarrow> if lease_backgroundOnly l then NoController else AgentController
               | None \<Rightarrow> NoController)),
          snap_expiresAt = map_option lease_expiresAt (lm_lease m),
          snap_actor = Option.bind (lm_lease m) lease_actor_of,
          snap_backgroundAgent =
            (case lm_lease m of Some l \<Rightarrow> lease_backgroundOnly l | None \<Rightarrow> False),
          snap_fencing =
            (if revocations m \<noteq> [] then Some FencingInProgress
             else if failedRevocations m \<noteq> [] then Some FencingFailed else None)\<rparr>))"

text \<open>\<open>grant\<close>: the generation moves before the actor is validated, so an invalid actor leaves it
  raised and no lease behind.\<close>

definition grant ::
  "int \<Rightarrow> string \<Rightarrow> nat \<Rightarrow> lease_actor option \<Rightarrow> lease_manager \<Rightarrow> lease_manager \<times> public_lease outcome"
where
  "grant now rid durationSeconds who m0 =
     (let m = m0\<lparr>lm_generation := lm_generation m0 + 1\<rparr>;
          durationMs = int durationSeconds * 1000;
          checked = (case who of None \<Rightarrow> Inr None
                      | Some a \<Rightarrow> rbind (validateLeaseActor a) (\<lambda>b. Inr (Some b)))
      in (case checked of
            Inl e \<Rightarrow> (m, Inl e)
          | Inr who' \<Rightarrow>
              (let l = \<lparr>proof_id = rid, proof_generation = lm_generation m, proof_epoch = lm_epoch m,
                        lease_expiresAt = now + durationMs, lease_durationMs = durationMs,
                        lease_backgroundOnly = lm_human m, lease_actor_of = who'\<rparr>
               in (armTimer now (m\<lparr>lm_lease := Some l\<rparr>), Inr (publicLease l)))))"

definition acquire ::
  "int \<Rightarrow> string \<Rightarrow> nat \<Rightarrow> lease_actor option \<Rightarrow> lease_manager \<Rightarrow> lease_manager \<times> public_lease outcome"
where
  "acquire now rid durationSeconds who m0 =
     (let m = expireIfNeeded now m0
      in if revocations m \<noteq> [] then (m, Inl (QubiclError ''lease_transition'' 409))
         else if failedRevocations m \<noteq> [] then (m, Inl (QubiclError ''lease_fencing_failed'' 409))
         else if lm_lease m \<noteq> None then (m, Inl (QubiclError ''lease_unavailable'' 409))
         else if lm_waiters m \<noteq> [] then (m, Inl (QubiclError ''lease_queue_active'' 409))
         else grant now rid durationSeconds who m)"

definition drainWaiters :: "int \<Rightarrow> string \<Rightarrow> lease_manager \<Rightarrow> lease_manager" where
  "drainWaiters now rid m0 =
     (let m = expireIfNeeded now m0
      in if lm_lease m \<noteq> None \<or> revocations m \<noteq> [] \<or> failedRevocations m \<noteq> [] then m
         else (case lm_waiters m of
             [] \<Rightarrow> m
           | w # ws \<Rightarrow>
               (case grant now rid (waiter_durationSeconds w) (waiter_actor w) (m\<lparr>lm_waiters := ws\<rparr>) of
                  (m', Inr l) \<Rightarrow> m'\<lparr>effects := effects m' @ [WaiterResolved (waiter_key w) l]\<rparr>
                | (m', Inl e) \<Rightarrow> m'\<lparr>effects := effects m' @ [WaiterRejected (waiter_key w) e]\<rparr>)))"

text \<open>\<open>acquireWaiting\<close>: \<^const>\<open>None\<close> is a promise that is still pending, identified by
  \<open>key\<close>.\<close>

definition acquireWaiting ::
  "int \<Rightarrow> string \<Rightarrow> nat \<Rightarrow> nat \<Rightarrow> lease_actor option \<Rightarrow> int \<Rightarrow> lease_manager
     \<Rightarrow> lease_manager \<times> public_lease outcome option"
where
  "acquireWaiting now rid key durationSeconds who waitSeconds m0 =
     (let m = expireIfNeeded now m0
      in if waitSeconds \<le> 0 then
           (let (m', r) = acquire now rid durationSeconds who m in (m', Some r))
         else if lm_lease m = None \<and> revocations m = [] \<and> failedRevocations m = [] \<and> lm_waiters m = []
         then (let (m', r) = grant now rid durationSeconds who m in (m', Some r))
         else (case (case who of None \<Rightarrow> Inr None
                      | Some a \<Rightarrow> rbind (validateLeaseActor a) (\<lambda>b. Inr (Some b))) of
             Inl e \<Rightarrow> (m, Some (Inl e))
           | Inr who' \<Rightarrow>
               (drainWaiters now rid (m\<lparr>lm_waiters := lm_waiters m @
                  [\<lparr>waiter_key = key, waiter_durationSeconds = durationSeconds,
                    waiter_actor = who'\<rparr>]\<rparr>), None)))"

text \<open>The timer of one waiter. It is cleared when the waiter is served, so it acts only on a waiter
  that is still in the queue. Building the error takes a snapshot, which may expire the lease.\<close>

definition waiterTimeout :: "int \<Rightarrow> nat \<Rightarrow> lease_manager \<Rightarrow> lease_manager" where
  "waiterTimeout now key m =
     (if list_ex (\<lambda>w. waiter_key w = key) (lm_waiters m)
      then expireIfNeeded now
             (m\<lparr>lm_waiters := filter (\<lambda>w. waiter_key w \<noteq> key) (lm_waiters m),
                effects := effects m @ [WaiterRejected key (QubiclError ''lease_wait_timeout'' 409)]\<rparr>)
      else m)"

section \<open>Using and giving back a lease\<close>

definition stale_lease :: qubicl_error where
  "stale_lease = QubiclError ''stale_lease'' 409"

definition verify :: "int \<Rightarrow> lease_proof \<Rightarrow> bool \<Rightarrow> lease_manager \<Rightarrow> lease_manager \<times> lease_proof outcome"
where
  "verify now p renewActivity m0 =
     (let m = expireIfNeeded now m0
      in (case lm_lease m of
            None \<Rightarrow> (m, Inl stale_lease)
          | Some l \<Rightarrow>
              if proof_epoch p \<noteq> lm_epoch m \<or> proof_id p \<noteq> proof_id l
                 \<or> proof_generation p \<noteq> proof_generation l
              then (m, Inl stale_lease)
              else
                (if renewActivity
                 then armTimer now (m\<lparr>lm_lease := Some (l\<lparr>lease_expiresAt := now + lease_durationMs l\<rparr>)\<rparr>)
                 else m, Inr (proof_of l))))"

definition verifyInteractive :: "int \<Rightarrow> lease_proof \<Rightarrow> lease_manager \<Rightarrow> lease_manager \<times> lease_proof outcome"
where
  "verifyInteractive now p m0 =
     (case verify now p False m0 of
        (m, Inl e) \<Rightarrow> (m, Inl e)
      | (m, Inr v) \<Rightarrow>
          if lm_human m then (m, Inl (QubiclError ''human_control_active'' 409))
          else if (case lm_lease m of Some l \<Rightarrow> lease_backgroundOnly l | None \<Rightarrow> False)
          then (m, Inl (QubiclError ''background_lease'' 409))
          else (m, Inr v))"

definition renew :: "int \<Rightarrow> lease_proof \<Rightarrow> nat \<Rightarrow> lease_manager \<Rightarrow> lease_manager \<times> public_lease outcome"
where
  "renew now p durationSeconds m0 =
     (case verify now p False m0 of
        (m, Inl e) \<Rightarrow> (m, Inl e)
      | (m, Inr _) \<Rightarrow>
          (case lm_lease m of
             None \<Rightarrow> (m, Inl stale_lease)
           | Some l \<Rightarrow>
               (let d = int durationSeconds * 1000;
                    l' = l\<lparr>lease_durationMs := d, lease_expiresAt := now + d\<rparr>
                in (armTimer now (m\<lparr>lm_lease := Some l'\<rparr>), Inr (publicLease l')))))"

definition revoked_proof :: "lease_manager \<Rightarrow> lease_proof option" where
  "revoked_proof m = map_option proof_of (lm_lease m)"

definition release :: "int \<Rightarrow> lease_proof \<Rightarrow> lease_manager \<Rightarrow> lease_manager \<times> unit outcome" where
  "release now p m0 =
     (case verify now p False m0 of
        (m, Inl e) \<Rightarrow> (m, Inl e)
      | (m, Inr _) \<Rightarrow>
          (revoke (revoked_proof m) False
             (clearTimer (m\<lparr>lm_lease := None, lm_generation := lm_generation m + 1\<rparr>)), Inr ()))"

definition revokeAgentControl :: "lease_manager \<Rightarrow> lease_manager" where
  "revokeAgentControl m =
     revoke (revoked_proof m) False
       (clearTimer (m\<lparr>lm_lease := None,
          lm_generation := (if lm_lease m = None then lm_generation m else lm_generation m + 1)\<rparr>))"

definition revokeAgentControlFor :: "lease_proof \<Rightarrow> lease_manager \<Rightarrow> lease_manager" where
  "revokeAgentControlFor p m =
     revokeExact [p]
       (case lm_lease m of
          Some l \<Rightarrow>
            if sameProof l p
            then clearTimer (m\<lparr>lm_lease := None, lm_generation := lm_generation m + 1\<rparr>)
            else m
        | None \<Rightarrow> m)"

section \<open>Human control\<close>

text \<open>\<open>takeHumanControl\<close>. While a human holds control already and a revocation is in progress,
  the call waits for it; what follows that wait is \<open>takeHumanControl_resumed\<close>.\<close>

definition takeHumanControl_resumed :: "lease_manager \<Rightarrow> lease_manager" where
  "takeHumanControl_resumed m =
     (if failedRevocations m \<noteq> [] then retryFailedRevocations m else m)"

definition takeHumanControl :: "lease_manager \<Rightarrow> lease_manager" where
  "takeHumanControl m =
     (if lm_human m then
        (if revocations m \<noteq> [] then m else takeHumanControl_resumed m)
      else revoke (revoked_proof m) False
             (clearTimer (m\<lparr>lm_lease := None, lm_human := True,
                lm_generation := lm_generation m + 1\<rparr>)))"

definition releaseHumanControl :: "int \<Rightarrow> string \<Rightarrow> lease_manager \<Rightarrow> lease_manager" where
  "releaseHumanControl now rid m =
     drainWaiters now rid
       (m\<lparr>lm_generation := (if lm_human m then lm_generation m + 1 else lm_generation m),
          lm_human := False\<rparr>)"

definition resetEpoch :: "string \<Rightarrow> lease_manager \<Rightarrow> lease_manager" where
  "resetEpoch ep m =
     revoke (revoked_proof m) True
       (clearTimer (m\<lparr>lm_lease := None, lm_human := False, lm_generation := 0, lm_epoch := ep\<rparr>))"

section \<open>The revocation jobs\<close>

text \<open>A link of the chain begins: it takes over what failed before, without duplicates.\<close>

definition revocationStart :: "lease_manager \<Rightarrow> lease_manager" where
  "revocationStart m = (case revocations m of
       Queued targets # rest \<Rightarrow>
         m\<lparr>revocations := Running (deduplicateTargets (failedRevocations m @ targets)) 0 None # rest,
           failedRevocations := []\<rparr>
     | _ \<Rightarrow> m)"

definition skipped_target :: "revocation_target \<Rightarrow> bool" where
  "skipped_target t = (target_proof t = None \<and> \<not> invokeWithoutProof t)"

text \<open>One turn of the loop; \<open>answer\<close> is what the revocation handler does for the target, the
  number of processes it terminated or the error it threw.\<close>

definition revocationTarget :: "string + nat \<Rightarrow> lease_manager \<Rightarrow> lease_manager" where
  "revocationTarget answer m = (case revocations m of
       Running (t # ts) n failure # rest \<Rightarrow>
         if skipped_target t then m\<lparr>revocations := Running ts n failure # rest\<rparr>
         else (case answer of
             Inr k \<Rightarrow> m\<lparr>revocations := Running ts (n + k) failure # rest,
                        effects := effects m @ [HandlerSucceeded (target_proof t)]\<rparr>
           | Inl e \<Rightarrow> m\<lparr>revocations := Running ts n (case failure of None \<Rightarrow> Some e | Some f \<Rightarrow> Some f) # rest,
                        failedRevocations := failedRevocations m @ [t]\<rparr>)
     | _ \<Rightarrow> m)"

definition revocationFinish :: "int \<Rightarrow> string \<Rightarrow> lease_manager \<Rightarrow> lease_manager" where
  "revocationFinish now rid m = (case revocations m of
       Running [] n failure # rest \<Rightarrow>
         (case failure of
            None \<Rightarrow> drainWaiters now rid (m\<lparr>revocations := rest, effects := effects m @ [RevocationReport n]\<rparr>)
          | Some e \<Rightarrow> m\<lparr>revocations := rest, effects := effects m @ [RevocationFailed e]\<rparr>)
     | _ \<Rightarrow> m)"

section \<open>The manager as a state machine\<close>

datatype lease_event =
    Acquire string nat "lease_actor option"
  | AcquireWaiting string nat nat "lease_actor option" int
  | Snapshot
  | Verify lease_proof bool
  | VerifyInteractive lease_proof
  | Renew lease_proof nat
  | Release lease_proof
  | RevokeAgentControl
  | RevokeAgentControlFor lease_proof
  | TakeHumanControl
  | TakeHumanControlResumed
  | ReleaseHumanControl string
  | ResetEpoch string
  | TimerFired
  | WaiterTimedOut nat
  | RevocationStarts
  | RevocationAnswered "string + nat"
  | RevocationFinishes string

text \<open>An event happens at a time of its own; nothing is assumed about the clock.\<close>

fun lease_step :: "int \<times> lease_event \<Rightarrow> lease_manager \<Rightarrow> lease_manager" where
  "lease_step (now, Acquire rid d a) m = fst (acquire now rid d a m)"
| "lease_step (now, AcquireWaiting rid k d a w) m = fst (acquireWaiting now rid k d a w m)"
| "lease_step (now, Snapshot) m = fst (lease_snapshot_of now m)"
| "lease_step (now, Verify p r) m = fst (verify now p r m)"
| "lease_step (now, VerifyInteractive p) m = fst (verifyInteractive now p m)"
| "lease_step (now, Renew p d) m = fst (renew now p d m)"
| "lease_step (now, Release p) m = fst (release now p m)"
| "lease_step (now, RevokeAgentControl) m = revokeAgentControl m"
| "lease_step (now, RevokeAgentControlFor p) m = revokeAgentControlFor p m"
| "lease_step (now, TakeHumanControl) m = takeHumanControl m"
| "lease_step (now, TakeHumanControlResumed) m = takeHumanControl_resumed m"
| "lease_step (now, ReleaseHumanControl rid) m = releaseHumanControl now rid m"
| "lease_step (now, ResetEpoch ep) m = resetEpoch ep m"
| "lease_step (now, TimerFired) m = expireIfNeeded now m"
| "lease_step (now, WaiterTimedOut k) m = waiterTimeout now k m"
| "lease_step (now, RevocationStarts) m = revocationStart m"
| "lease_step (now, RevocationAnswered r) m = revocationTarget r m"
| "lease_step (now, RevocationFinishes rid) m = revocationFinish now rid m"

inductive lease_reachable :: "lease_manager \<Rightarrow> bool" where
  lease_start: "lease_reachable (new_lease_manager ep)"
| lease_next: "lease_reachable m \<Longrightarrow> lease_reachable (lease_step e m)"

section \<open>Invariant\<close>

definition accepts :: "lease_manager \<Rightarrow> lease_proof \<Rightarrow> bool" where
  "accepts m p = (case lm_lease m of None \<Rightarrow> False | Some l \<Rightarrow> p = proof_of l)"

definition lease_inv :: "lease_manager \<Rightarrow> bool" where
  "lease_inv m = (case lm_lease m of
       None \<Rightarrow> lm_timer m = None
     | Some l \<Rightarrow> proof_generation l \<le> lm_generation m
         \<and> proof_epoch l = lm_epoch m
         \<and> (lm_human m \<longrightarrow> lease_backgroundOnly l)
         \<and> (case lm_timer m of None \<Rightarrow> False | Some t \<Rightarrow> lease_expiresAt l < t))"

definition same_lease :: "lease_manager \<Rightarrow> lease \<Rightarrow> bool" where
  "same_lease m l' = (case lm_lease m of None \<Rightarrow> False
     | Some l \<Rightarrow> proof_of l' = proof_of l \<and> lease_backgroundOnly l' = lease_backgroundOnly l)"

definition advances :: "lease_manager \<Rightarrow> lease_manager \<Rightarrow> bool" where
  "advances m m' = (lm_epoch m' = lm_epoch m \<and> lm_generation m \<le> lm_generation m'
     \<and> (\<forall>l'. lm_lease m' = Some l' \<longrightarrow> same_lease m l' \<or> lm_generation m < proof_generation l'))"

lemma advances_refl [simp]: "advances m m"
  by (simp add: advances_def same_lease_def)

lemma same_leaseE:
  assumes "same_lease m l'"
  obtains l where "lm_lease m = Some l" and "proof_of l' = proof_of l"
    and "lease_backgroundOnly l' = lease_backgroundOnly l"
  using assms by (auto simp: same_lease_def split: option.splits)

lemma advances_trans:
  assumes ab: "advances a b" and bc: "advances b c"
  shows "advances a c"
proof -
  have "same_lease a l \<or> lm_generation a < proof_generation l" if l: "lm_lease c = Some l" for l
  proof (cases "same_lease b l")
    case True
    then obtain k where "lm_lease b = Some k" and k: "proof_of l = proof_of k"
      "lease_backgroundOnly l = lease_backgroundOnly k" by (rule same_leaseE)
    with ab have "same_lease a k \<or> lm_generation a < proof_generation k" by (simp add: advances_def)
    moreover from k(1) have "proof_generation l = proof_generation k" by (metis proof_of_simps(2))
    ultimately show ?thesis using k by (simp add: same_lease_def split: option.splits)
  next
    case False
    with l ab bc show ?thesis by (fastforce simp: advances_def)
  qed
  with ab bc show ?thesis by (auto simp: advances_def)
qed

lemma advances_accepts:
  "advances m m' \<Longrightarrow> accepts m' p \<Longrightarrow> accepts m p \<or> lm_generation m < proof_generation p"
  by (auto simp: advances_def accepts_def same_lease_def same_lease_def split: option.splits)

lemmas queue_defs = enqueueRevocations_def revoke_def revokeExact_def retryFailedRevocations_def
  clearTimer_def armTimer_def

lemma lease_inv_new [simp]: "lease_inv (new_lease_manager ep)"
  by (simp add: lease_inv_def new_lease_manager_def)

lemma enqueue_simps [simp]:
  "lease_inv (enqueueRevocations ts m) = lease_inv m"
  "accepts (enqueueRevocations ts m) p = accepts m p"
  "lm_lease (enqueueRevocations ts m) = lm_lease m"
  "lm_epoch (enqueueRevocations ts m) = lm_epoch m"
  "lm_generation (enqueueRevocations ts m) = lm_generation m"
  "lm_human (enqueueRevocations ts m) = lm_human m"
  "lm_timer (enqueueRevocations ts m) = lm_timer m"
  "lm_waiters (enqueueRevocations ts m) = lm_waiters m"
  "failedRevocations (enqueueRevocations ts m) = failedRevocations m"
  "effects (enqueueRevocations ts m) = effects m"
  "revocations (enqueueRevocations ts m) = revocations m @ [Queued ts]"
  by (simp_all add: enqueueRevocations_def lease_inv_def accepts_def split: option.split)

lemma dropped_lease_inv [simp]:
  "lease_inv (clearTimer (m\<lparr>lm_lease := None, lm_generation := g\<rparr>))"
  by (simp add: lease_inv_def clearTimer_def)

lemma expire_inv [inv_intros]: "lease_inv m \<Longrightarrow> lease_inv (expireIfNeeded now m)"
  by (simp add: expireIfNeeded_def revoke_def split: option.split)

lemma expire_advances: "advances m (expireIfNeeded now m)"
  by (auto simp: expireIfNeeded_def revoke_def advances_def same_lease_def clearTimer_def
      split: option.split)

lemma expire_frame [simp]:
  "lm_waiters (expireIfNeeded now m) = lm_waiters m"
  "failedRevocations (expireIfNeeded now m) = failedRevocations m"
  "lm_human (expireIfNeeded now m) = lm_human m"
  "lm_epoch (expireIfNeeded now m) = lm_epoch m"
  "effects (expireIfNeeded now m) = effects m"
  by (auto simp: expireIfNeeded_def revoke_def clearTimer_def split: option.split)

lemma expire_idle: "lm_lease m = None \<Longrightarrow> expireIfNeeded now m = m"
  by (simp add: expireIfNeeded_def)

lemma arm_simps [simp]:
  "lm_lease (armTimer now m) = lm_lease m"
  "lm_epoch (armTimer now m) = lm_epoch m"
  "lm_generation (armTimer now m) = lm_generation m"
  "lm_human (armTimer now m) = lm_human m"
  "lm_waiters (armTimer now m) = lm_waiters m"
  "revocations (armTimer now m) = revocations m"
  "failedRevocations (armTimer now m) = failedRevocations m"
  "effects (armTimer now m) = effects m"
  "accepts (armTimer now m) p = accepts m p"
  by (auto simp: armTimer_def clearTimer_def accepts_def split: option.split)

lemma arm_timer [simp]:
  "lm_lease m = Some l
    \<Longrightarrow> lm_timer (armTimer now m) = Some (now + max 1 (lease_expiresAt l - now + 1))"
  by (simp add: armTimer_def)

lemma arm_inv:
  "lm_lease m = Some l \<Longrightarrow> proof_generation l \<le> lm_generation m \<Longrightarrow> proof_epoch l = lm_epoch m
    \<Longrightarrow> (lm_human m \<Longrightarrow> lease_backgroundOnly l) \<Longrightarrow> lease_inv (armTimer now m)"
  by (auto simp: lease_inv_def armTimer_def)

lemma grant_cases:
  obtains (refused) e where "grant now rid d who m = (m\<lparr>lm_generation := lm_generation m + 1\<rparr>, Inl e)"
  | (granted) l where "proof_generation l = lm_generation m + 1" and "proof_epoch l = lm_epoch m"
      and "proof_id l = rid" and "lease_backgroundOnly l = lm_human m"
      and "lease_expiresAt l = now + int d * 1000"
      and "grant now rid d who m
        = (armTimer now (m\<lparr>lm_generation := lm_generation m + 1, lm_lease := Some l\<rparr>), Inr (publicLease l))"
proof (cases "case who of None \<Rightarrow> Inr None | Some a \<Rightarrow> rbind (validateLeaseActor a) (\<lambda>b. Inr (Some b))")
  case (Inl e)
  then show ?thesis by (intro refused [of e]) (simp add: grant_def Let_def)
next
  case (Inr who')
  then show ?thesis
    by (intro granted [of "\<lparr>proof_id = rid, proof_generation = lm_generation m + 1,
        proof_epoch = lm_epoch m, lease_expiresAt = now + int d * 1000,
        lease_durationMs = int d * 1000, lease_backgroundOnly = lm_human m, lease_actor_of = who'\<rparr>"])
      (simp_all add: grant_def Let_def)
qed

lemma grant_inv:
  assumes "lease_inv m" and "lm_lease m = None"
  shows "lease_inv (fst (grant now rid d who m))"
  using assms by (cases rule: grant_cases [of now rid d who m]) (auto simp: lease_inv_def)

lemma grant_advances:
  "lm_lease m = None \<Longrightarrow> advances m (fst (grant now rid d who m))"
  by (cases rule: grant_cases [of now rid d who m]) (auto simp: advances_def accepts_def same_lease_def)

lemma pair_app: "(case x of (a, b) \<Rightarrow> f a b) = f (fst x) (snd x)"
  by (cases x) simp

lemma drain_cases:
  obtains (idle) "drainWaiters now rid m = expireIfNeeded now m"
  | (serve) w ws r where "lm_waiters m = w # ws"
      and "lm_lease (expireIfNeeded now m) = None"
      and "revocations (expireIfNeeded now m) = []"
      and "failedRevocations m = []"
      and "drainWaiters now rid m
        = (fst (grant now rid (waiter_durationSeconds w) (waiter_actor w)
            ((expireIfNeeded now m)\<lparr>lm_waiters := ws\<rparr>)))\<lparr>effects := effects m @ [r]\<rparr>"
proof (cases "lm_lease (expireIfNeeded now m) \<noteq> None \<or> revocations (expireIfNeeded now m) \<noteq> []
    \<or> failedRevocations m \<noteq> [] \<or> lm_waiters m = []")
  case True
  then have "drainWaiters now rid m = expireIfNeeded now m"
    by (auto simp: drainWaiters_def Let_def)
  then show ?thesis by (rule idle)
next
  case False
  then obtain w ws where w: "lm_waiters m = w # ws" by (cases "lm_waiters m") auto
  let ?m = "(expireIfNeeded now m)\<lparr>lm_waiters := ws\<rparr>"
  obtain m' r where g: "grant now rid (waiter_durationSeconds w) (waiter_actor w) ?m = (m', r)"
    by fastforce
  have eff: "effects m' = effects m"
    using g by (cases rule: grant_cases [of now rid "waiter_durationSeconds w" "waiter_actor w" ?m]) auto
  show ?thesis
  proof (cases r)
    case (Inl e)
    with False w g eff show ?thesis
      by (intro serve [of w ws "WaiterRejected (waiter_key w) e"]) (simp_all add: drainWaiters_def)
  next
    case (Inr l)
    with False w g eff show ?thesis
      by (intro serve [of w ws "WaiterResolved (waiter_key w) l"]) (simp_all add: drainWaiters_def)
  qed
qed

lemma waiters_update_simps [simp]:
  "lease_inv (m\<lparr>lm_waiters := ws\<rparr>) = lease_inv m"
  "lease_inv (m\<lparr>effects := es\<rparr>) = lease_inv m"
  "lease_inv (m\<lparr>revocations := rs\<rparr>) = lease_inv m"
  "lease_inv (m\<lparr>failedRevocations := ts\<rparr>) = lease_inv m"
  "accepts (m\<lparr>lm_waiters := ws\<rparr>) p = accepts m p"
  "accepts (m\<lparr>effects := es\<rparr>) p = accepts m p"
  "accepts (m\<lparr>revocations := rs\<rparr>) p = accepts m p"
  "accepts (m\<lparr>failedRevocations := ts\<rparr>) p = accepts m p"
  "advances a (m\<lparr>lm_waiters := ws\<rparr>) = advances a m"
  "advances a (m\<lparr>effects := es\<rparr>) = advances a m"
  "advances a (m\<lparr>revocations := rs\<rparr>) = advances a m"
  "advances a (m\<lparr>failedRevocations := ts\<rparr>) = advances a m"
  "advances (m\<lparr>lm_waiters := ws\<rparr>) b = advances m b"
  "advances (m\<lparr>effects := es\<rparr>) b = advances m b"
  "advances (m\<lparr>revocations := rs\<rparr>) b = advances m b"
  by (simp_all add: lease_inv_def accepts_def advances_def same_lease_def split: option.split)

lemma enqueue_advances [simp]:
  "advances a (enqueueRevocations ts m) = advances a m"
  by (simp add: advances_def)

lemma drainWaiters_inv [inv_intros]: "lease_inv m \<Longrightarrow> lease_inv (drainWaiters now rid m)"
  by (cases rule: drain_cases [of now rid m]) (auto intro!: grant_inv expire_inv)

lemma drain_advances: "advances m (drainWaiters now rid m)"
proof (cases rule: drain_cases [of now rid m])
  case idle
  then show ?thesis by (simp add: expire_advances)
next
  case (serve w ws r)
  let ?e = "expireIfNeeded now m"
  have "advances ?e (drainWaiters now rid m)"
    using serve grant_advances [of "?e\<lparr>lm_waiters := ws\<rparr>"] by simp
  then show ?thesis by (rule advances_trans [OF expire_advances])
qed

lemma acquire_step:
  "lease_inv m \<Longrightarrow> lease_inv (fst (acquire now rid d a m))"
  "advances m (fst (acquire now rid d a m))"
  by (auto simp: acquire_def Let_def intro: grant_inv expire_inv expire_advances
      advances_trans [OF expire_advances grant_advances])

lemma acquireWaiting_step:
  assumes "lease_inv m"
  shows "lease_inv (fst (acquireWaiting now rid k d a w m))"
    and "advances m (fst (acquireWaiting now rid k d a w m))"
proof -
  let ?e = "expireIfNeeded now m"
  have e: "lease_inv ?e" and adv: "advances m ?e"
    using assms by (simp_all add: expire_inv expire_advances)
  show "lease_inv (fst (acquireWaiting now rid k d a w m))"
    using e by (auto simp: acquireWaiting_def Let_def pair_app
        intro!: grant_inv acquire_step drainWaiters_inv split: sum.split)
  show "advances m (fst (acquireWaiting now rid k d a w m))"
    using adv advances_trans [OF adv acquire_step(2)] advances_trans [OF adv grant_advances]
      advances_trans [OF adv drain_advances [of "?e\<lparr>lm_waiters := x\<rparr>" for x, simplified]]
    by (auto simp: acquireWaiting_def Let_def pair_app split: sum.split)
qed

lemma verify_cases:
  assumes "lease_inv m"
  obtains (stale) "verify now p r m = (expireIfNeeded now m, Inl stale_lease)"
      and "\<not> accepts (expireIfNeeded now m) p"
  | (plain) l where "lm_lease (expireIfNeeded now m) = Some l" and "p = proof_of l"
      and "\<not> r" and "verify now p r m = (expireIfNeeded now m, Inr p)"
  | (renewed) l where "lm_lease (expireIfNeeded now m) = Some l" and "p = proof_of l" and "r"
      and "verify now p r m = (armTimer now ((expireIfNeeded now m)\<lparr>lm_lease :=
             Some (l\<lparr>lease_expiresAt := now + lease_durationMs l\<rparr>)\<rparr>), Inr p)"
proof (cases "lm_lease (expireIfNeeded now m)")
  case None
  then show ?thesis by (intro stale) (simp_all add: verify_def accepts_def)
next
  case (Some l)
  have "lease_inv (expireIfNeeded now m)" using assms by (rule expire_inv)
  with Some have ep: "proof_epoch l = lm_epoch m" by (simp add: lease_inv_def)
  show ?thesis
  proof (cases "p = proof_of l")
    case False
    with Some ep show ?thesis
      by (intro stale) (auto simp: verify_def accepts_def proof_of_eq_iff)
  next
    case True
    show ?thesis
    proof (cases r)
      case True
      with Some ep \<open>p = proof_of l\<close> show ?thesis
        by (intro renewed [of l]) (simp_all add: verify_def)
    next
      case False
      with Some ep \<open>p = proof_of l\<close> show ?thesis
        by (intro plain [of l]) (simp_all add: verify_def)
    qed
  qed
qed

lemma renewed_lease:
  assumes "lease_inv m" and "lm_lease m = Some l"
    and "proof_of l' = proof_of l" and "lease_backgroundOnly l' = lease_backgroundOnly l"
  shows "lease_inv (armTimer now (m\<lparr>lm_lease := Some l'\<rparr>))"
    and "advances m (armTimer now (m\<lparr>lm_lease := Some l'\<rparr>))"
proof -
  from assms(3) have "proof_generation l' = proof_generation l" "proof_epoch l' = proof_epoch l"
    by (metis proof_of_simps)+
  with assms show "lease_inv (armTimer now (m\<lparr>lm_lease := Some l'\<rparr>))"
    by (auto simp: lease_inv_def split: option.splits)
  from assms show "advances m (armTimer now (m\<lparr>lm_lease := Some l'\<rparr>))"
    by (simp add: advances_def accepts_def same_lease_def)
qed

lemma proof_of_update [simp]:
  "proof_of (l\<lparr>lease_expiresAt := t\<rparr>) = proof_of l"
  "proof_of (l\<lparr>lease_durationMs := t\<rparr>) = proof_of l"
  by (simp_all add: proof_of_def lease_proof.defs)

lemma verify_step:
  assumes "lease_inv m"
  shows "lease_inv (fst (verify now p r m))" and "advances m (fst (verify now p r m))"
  using assms
  by (cases rule: verify_cases [OF assms, of now p r];
      auto simp: expire_inv expire_advances
        intro: renewed_lease advances_trans [OF expire_advances renewed_lease(2)] expire_inv)+

lemma verifyInteractive_fst [simp]:
  "fst (verifyInteractive now p m) = fst (verify now p False m)"
  by (auto simp: verifyInteractive_def pair_app split: sum.split prod.split)

lemma verify_unrenewed [simp]: "fst (verify now p False m) = expireIfNeeded now m"
  by (auto simp: verify_def Let_def split: option.split)

lemma renew_step:
  assumes "lease_inv m"
  shows "lease_inv (fst (renew now p d m))" and "advances m (fst (renew now p d m))"
proof -
  obtain r where v: "verify now p False m = (expireIfNeeded now m, r)"
    by (metis prod.collapse verify_unrenewed)
  have e: "lease_inv (expireIfNeeded now m)" using assms by (rule expire_inv)
  show "lease_inv (fst (renew now p d m))" "advances m (fst (renew now p d m))"
    using e renewed_lease [OF e] advances_trans [OF expire_advances renewed_lease(2) [OF e]]
    by (auto simp: renew_def v Let_def expire_advances split: sum.split option.split)
qed

lemma dropped_step:
  assumes "lease_inv m" and "g \<ge> lm_generation m"
  shows "advances m (clearTimer (m\<lparr>lm_lease := None, lm_generation := g\<rparr>))"
    and "advances m (clearTimer (m\<lparr>lm_lease := None, lm_human := h, lm_generation := g\<rparr>))"
    and "lease_inv (clearTimer (m\<lparr>lm_lease := None, lm_human := h, lm_generation := g\<rparr>))"
  using assms by (auto simp: advances_def accepts_def same_lease_def clearTimer_def lease_inv_def)

lemma release_step:
  assumes "lease_inv m"
  shows "lease_inv (fst (release now p m))" and "advances m (fst (release now p m))"
proof -
  obtain r where v: "verify now p False m = (expireIfNeeded now m, r)"
    by (metis prod.collapse verify_unrenewed)
  have e: "lease_inv (expireIfNeeded now m)" using assms by (rule expire_inv)
  show "lease_inv (fst (release now p m))" "advances m (fst (release now p m))"
    using e advances_trans [OF expire_advances dropped_step(1) [OF e]]
    by (auto simp: release_def v revoke_def expire_advances split: sum.split)
qed

lemma revokeAgentControl_step:
  assumes "lease_inv m"
  shows "lease_inv (revokeAgentControl m)" and "advances m (revokeAgentControl m)"
  using dropped_step [OF assms] by (auto simp: revokeAgentControl_def revoke_def)

lemma revokeAgentControlFor_step:
  assumes "lease_inv m"
  shows "lease_inv (revokeAgentControlFor p m)" and "advances m (revokeAgentControlFor p m)"
  using assms dropped_step [OF assms]
  by (auto simp: revokeAgentControlFor_def revokeExact_def split: option.split)

lemma takeHumanControl_step:
  assumes "lease_inv m"
  shows "lease_inv (takeHumanControl m)" and "advances m (takeHumanControl m)"
    and "lease_inv (takeHumanControl_resumed m)" and "advances m (takeHumanControl_resumed m)"
  using assms dropped_step [OF assms]
  by (auto simp: takeHumanControl_def takeHumanControl_resumed_def revoke_def
      retryFailedRevocations_def)

lemma releaseHumanControl_step:
  assumes "lease_inv m"
  shows "lease_inv (releaseHumanControl now rid m)" and "advances m (releaseHumanControl now rid m)"
proof -
  let ?m = "m\<lparr>lm_generation := (if lm_human m then lm_generation m + 1 else lm_generation m),
          lm_human := False\<rparr>"
  have "lease_inv ?m" and "advances m ?m"
    using assms by (auto simp: lease_inv_def advances_def accepts_def same_lease_def split: option.splits)
  then show "lease_inv (releaseHumanControl now rid m)" "advances m (releaseHumanControl now rid m)"
    using drainWaiters_inv [of ?m] advances_trans [OF _ drain_advances, of m ?m]
    by (simp_all add: releaseHumanControl_def)
qed

lemma resetEpoch_step: "lease_inv (resetEpoch ep m)"
  by (simp add: resetEpoch_def revoke_def lease_inv_def clearTimer_def)

lemma revocation_steps:
  assumes "lease_inv m"
  shows "lease_inv (revocationStart m)" and "advances m (revocationStart m)"
    and "lease_inv (revocationTarget a m)" and "advances m (revocationTarget a m)"
    and "lease_inv (revocationFinish now rid m)" and "advances m (revocationFinish now rid m)"
  using assms
  by (auto simp: revocationStart_def revocationTarget_def revocationFinish_def
      intro!: drainWaiters_inv drain_advances [of "m\<lparr>revocations := x, effects := y\<rparr>" for x y, simplified]
      split: list.split revocation_job.split option.split sum.split)

lemma waiterTimeout_step:
  assumes "lease_inv m"
  shows "lease_inv (waiterTimeout now k m)" and "advances m (waiterTimeout now k m)"
  using assms expire_advances [of "m\<lparr>lm_waiters := x, effects := y\<rparr>" for x y, simplified]
  by (auto simp: waiterTimeout_def intro!: expire_inv)

lemmas lease_ops_step = acquire_step acquireWaiting_step verify_step renew_step release_step
  revokeAgentControl_step revokeAgentControlFor_step takeHumanControl_step
  releaseHumanControl_step revocation_steps waiterTimeout_step expire_inv expire_advances

fun reset_to :: "int \<times> lease_event \<Rightarrow> string option" where
  "reset_to (now, ResetEpoch ep) = Some ep"
| "reset_to e = None"

lemma lease_step_inv: "lease_inv m \<Longrightarrow> lease_inv (lease_step e m)"
  by (cases "(e, m)" rule: lease_step.cases)
    (auto simp: lease_snapshot_of_def Let_def resetEpoch_step lease_ops_step)

lemma lease_step_advances: "lease_inv m \<Longrightarrow> reset_to e = None \<Longrightarrow> advances m (lease_step e m)"
  by (cases "(e, m)" rule: lease_step.cases)
    (auto simp: lease_snapshot_of_def Let_def lease_ops_step)

lemma lease_step_epoch:
  "lease_inv m \<Longrightarrow> lm_epoch (lease_step e m)
    = (case reset_to e of None \<Rightarrow> lm_epoch m | Some ep \<Rightarrow> ep)"
proof (cases "reset_to e")
  case None
  then show "lease_inv m \<Longrightarrow> ?thesis" using lease_step_advances [of m e] by (simp add: advances_def)
next
  case (Some ep)
  then show ?thesis
    by (cases e rule: reset_to.cases) (auto simp: resetEpoch_def revoke_def clearTimer_def)
qed

interpretation lease_fence: fencing lease_step lm_epoch lm_generation accepts proof_epoch
    proof_generation reset_to lease_inv
proof unfold_locales
  fix m :: lease_manager and e :: "int \<times> lease_event" and p :: lease_proof
  assume inv: "lease_inv m"
  show "lease_inv (lease_step e m)" using inv by (rule lease_step_inv)
  show "lm_epoch (lease_step e m) = (case reset_to e of None \<Rightarrow> lm_epoch m | Some ep \<Rightarrow> ep)"
    using inv by (rule lease_step_epoch)
  show "accepts m p \<Longrightarrow> proof_epoch p = lm_epoch m" "accepts m p \<Longrightarrow> proof_generation p \<le> lm_generation m"
    using inv by (auto simp: accepts_def lease_inv_def split: option.splits)
  assume "reset_to e = None"
  with inv have "advances m (lease_step e m)" by (rule lease_step_advances)
  then show "lm_generation m \<le> lm_generation (lease_step e m)"
    "accepts (lease_step e m) p \<Longrightarrow> accepts m p \<or> lm_generation m < proof_generation p"
    using advances_accepts by (auto simp: advances_def)
qed

lemma lease_reachable_inv: "lease_reachable m \<Longrightarrow> lease_inv m"
  by (induction rule: lease_reachable.induct) (auto intro: lease_step_inv)

lemma lease_reachable_run: "lease_reachable m \<Longrightarrow> lease_reachable (run_steps lease_step es m)"
  by (induction es arbitrary: m) (auto intro: lease_next)

section \<open>Fencing\<close>

lemma not_accepts_expire: "\<not> accepts m p \<Longrightarrow> \<not> accepts (expireIfNeeded now m) p"
  by (auto simp: expireIfNeeded_def revoke_def accepts_def clearTimer_def split: option.split)

lemma verify_rejects:
  assumes "lease_inv m" and "\<not> accepts m p"
  shows "snd (verify now p r m) = Inl stale_lease"
proof -
  have "\<not> accepts (expireIfNeeded now m) p" using assms(2) by (rule not_accepts_expire)
  then show ?thesis
    by (cases rule: verify_cases [OF assms(1), of now p r]) (simp_all add: accepts_def)
qed

text \<open>C8. Fencing: once a lease proof has stopped being the current one, \<open>verify\<close> answers
  \<open>stale_lease\<close> to it for ever, whatever calls, timers and revocations follow, as long as the
  random epoch of the proof is not drawn a second time.\<close>

theorem revoked_proof_stays_rejected:
  assumes "lease_reachable m" and "accepts m p"
    and "\<forall>e \<in> set (es @ fs). reset_to e \<noteq> Some (proof_epoch p)"
    and "\<not> accepts (run_steps lease_step es m) p"
  shows "snd (verify now p r (run_steps lease_step fs (run_steps lease_step es m))) = Inl stale_lease"
proof -
  let ?m = "run_steps lease_step fs (run_steps lease_step es m)"
  have inv: "lease_inv m" using assms(1) by (rule lease_reachable_inv)
  have "\<not> accepts ?m p" using lease_fence.never_again [OF inv assms(2-4)] .
  moreover have "lease_inv ?m" using inv by (simp add: lease_fence.inv_run)
  ultimately show ?thesis by (simp add: verify_rejects)
qed

definition example_granted :: lease_manager where
  "example_granted = lease_step (0, Acquire ''a'' 60 None) (new_lease_manager ''e'')"

lemma example_granted_reachable: "lease_reachable example_granted"
  unfolding example_granted_def by (intro lease_next lease_start)

lemma example_granted_state:
  "lm_lease example_granted = Some \<lparr>proof_id = ''a'', proof_generation = 1, proof_epoch = ''e'',
     lease_expiresAt = 60000, lease_durationMs = 60000, lease_backgroundOnly = False,
     lease_actor_of = None\<rparr>"
  "lm_human example_granted = False" "lm_waiters example_granted = []"
  "revocations example_granted = []" "failedRevocations example_granted = []"
  by (simp_all add: example_granted_def acquire_def grant_def expireIfNeeded_def
      new_lease_manager_def armTimer_def Let_def)

theorem revoked_proof_stays_rejected_witness:
  "snd (verify 9 \<lparr>proof_id = ''a'', proof_generation = 1, proof_epoch = ''e''\<rparr> True
     (run_steps lease_step [(5, RevocationStarts)]
        (run_steps lease_step [(2, RevokeAgentControl)] example_granted))) = Inl stale_lease"
proof (rule revoked_proof_stays_rejected [OF example_granted_reachable])
  show "accepts example_granted \<lparr>proof_id = ''a'', proof_generation = 1, proof_epoch = ''e''\<rparr>"
    by (simp add: accepts_def example_granted_state proof_of_eq_iff)
qed (simp_all add: accepts_def revokeAgentControl_def revoke_def clearTimer_def)

text \<open>Every operation that ends a lease ends it at once: after a successful release, an
  operator revocation, an exact revocation, a human takeover or an epoch reset, the proof that was
  valid before the call is not valid after it.\<close>

theorem ending_operations_revoke:
  assumes "lease_reachable m" and "accepts m p"
  shows "(snd (release now p m) = Inr () \<longrightarrow> \<not> accepts (fst (release now p m)) q)
    \<and> \<not> accepts (revokeAgentControl m) q
    \<and> \<not> accepts (revokeAgentControlFor p m) q
    \<and> (\<not> lm_human m \<longrightarrow> \<not> accepts (takeHumanControl m) q)
    \<and> \<not> accepts (resetEpoch ep m) q"
  using assms
  by (auto simp: accepts_def release_def revokeAgentControl_def revokeAgentControlFor_def
      takeHumanControl_def resetEpoch_def revoke_def revokeExact_def clearTimer_def sameProof_def
      split: option.splits prod.split sum.split)

theorem ending_operations_revoke_witness:
  "\<not> accepts (revokeAgentControlFor \<lparr>proof_id = ''a'', proof_generation = 1, proof_epoch = ''e''\<rparr>
     example_granted) \<lparr>proof_id = ''a'', proof_generation = 1, proof_epoch = ''e''\<rparr>"
  using ending_operations_revoke [OF example_granted_reachable,
      of "\<lparr>proof_id = ''a'', proof_generation = 1, proof_epoch = ''e''\<rparr>" 0 "\<lparr>proof_id = ''a'', proof_generation = 1, proof_epoch = ''e''\<rparr>"]
  by (simp add: accepts_def example_granted_state proof_of_eq_iff)

section \<open>Human control\<close>

lemma drain_human [simp]: "lm_human (drainWaiters now rid m) = lm_human m"
proof (cases rule: drain_cases [of now rid m])
  case idle
  then show ?thesis by simp
next
  case (serve w ws r)
  then show ?thesis
    by (cases rule: grant_cases [of now rid "waiter_durationSeconds w" "waiter_actor w"
          "(expireIfNeeded now m)\<lparr>lm_waiters := ws\<rparr>"]) auto
qed

lemma grant_human [simp]: "lm_human (fst (grant now rid d a m)) = lm_human m"
  by (cases rule: grant_cases [of now rid d a m]) auto

fun ends_human_control :: "int \<times> lease_event \<Rightarrow> bool" where
  "ends_human_control (now, ReleaseHumanControl rid) = True"
| "ends_human_control (now, ResetEpoch ep) = True"
| "ends_human_control e = False"

lemma human_step:
  "lm_human m \<Longrightarrow> \<not> ends_human_control e \<Longrightarrow> lm_human (lease_step e m)"
  by (cases "(e, m)" rule: lease_step.cases)
    (auto simp: acquire_def acquireWaiting_def lease_snapshot_of_def verify_def renew_def release_def
      revokeAgentControl_def revokeAgentControlFor_def takeHumanControl_def revoke_def revokeExact_def
      takeHumanControl_resumed_def retryFailedRevocations_def clearTimer_def waiterTimeout_def
      revocationStart_def revocationTarget_def revocationFinish_def Let_def pair_app
      split: option.split sum.split list.split revocation_job.split)

lemma human_run:
  "lm_human m \<Longrightarrow> \<forall>e \<in> set es. \<not> ends_human_control e \<Longrightarrow> lm_human (run_steps lease_step es m)"
  by (induction es arbitrary: m) (auto simp: human_step)

text \<open>C40. While a human holds control, no agent has interactive input: from a takeover until
  human control is released or the epoch is reset, \<open>verifyInteractive\<close> refuses every proof,
  those of leases granted meanwhile included.\<close>

theorem human_control_excludes_agents:
  assumes "lease_reachable m" and "\<forall>e \<in> set es. \<not> ends_human_control e"
  shows "is_error (snd (verifyInteractive now p (run_steps lease_step es (takeHumanControl m))))"
proof -
  have "lm_human (takeHumanControl m)"
    by (simp add: takeHumanControl_def takeHumanControl_resumed_def retryFailedRevocations_def
        revoke_def clearTimer_def)
  with assms(2) have "lm_human (run_steps lease_step es (takeHumanControl m))"
    by (simp add: human_run)
  then show ?thesis
    by (auto simp: verifyInteractive_def verify_def Let_def split: prod.split sum.split option.splits)
qed

theorem human_control_excludes_agents_witness:
  "is_error (snd (verifyInteractive 7 \<lparr>proof_id = ''a'', proof_generation = 1, proof_epoch = ''e''\<rparr> (run_steps lease_step
     [(2, RevocationStarts), (3, AcquireWaiting ''b'' 1 60 None 5)] (takeHumanControl example_granted))))"
  by (rule human_control_excludes_agents [OF example_granted_reachable]) simp

lemma verifyInteractive_Inr:
  assumes inv: "lease_inv m" and ok: "snd (verifyInteractive now p m) = Inr v"
  obtains l where "lm_lease m = Some l" and "p = proof_of l" and "\<not> lease_backgroundOnly l"
    and "now < lease_expiresAt l" and "\<not> lm_human m"
proof -
  have "\<exists>l. lm_lease (expireIfNeeded now m) = Some l \<and> p = proof_of l
      \<and> \<not> lease_backgroundOnly l \<and> \<not> lm_human m"
    using ok
    by (cases rule: verify_cases [OF inv, of now p False])
      (auto simp: verifyInteractive_def split: if_splits)
  then obtain l where l: "lm_lease (expireIfNeeded now m) = Some l" "p = proof_of l"
      "\<not> lease_backgroundOnly l" "\<not> lm_human m" by blast
  moreover from l(1) have "lm_lease m = Some l" and "now < lease_expiresAt l"
    by (auto simp: expireIfNeeded_def revoke_def clearTimer_def split: option.splits if_splits)
  ultimately show ?thesis by (intro that [of l])
qed

text \<open>A lease that was granted during human control is for background work for as long as
  it lives: after the human gave control back, its proof is still refused for interactive input.\<close>

theorem background_lease_never_interactive:
  assumes "lease_reachable m" and "lm_lease m = Some l" and "lease_backgroundOnly l"
    and "\<forall>e \<in> set es. reset_to e = None"
  shows "is_error (snd (verifyInteractive now (proof_of l) (run_steps lease_step es m)))"
proof -
  have inv: "lease_inv m" using assms(1) by (rule lease_reachable_inv)
  have adv: "advances m (run_steps lease_step es m)"
    using inv assms(4)
    by (induction es arbitrary: m)
      (auto intro: advances_trans [OF lease_step_advances] lease_step_inv)
  have "lease_inv (run_steps lease_step es m)" using inv by (simp add: lease_fence.inv_run)
  show ?thesis
  proof (rule ccontr)
    assume "\<not> ?thesis"
    then obtain v where "snd (verifyInteractive now (proof_of l) (run_steps lease_step es m)) = Inr v"
      by (auto elim: not_is_errorE)
    then obtain l' where l': "lm_lease (run_steps lease_step es m) = Some l'"
      and eq: "proof_of l = proof_of l'" and bg: "\<not> lease_backgroundOnly l'"
      using \<open>lease_inv (run_steps lease_step es m)\<close> by (auto elim: verifyInteractive_Inr)
    from inv assms(2) have "proof_generation l \<le> lm_generation m" by (simp add: lease_inv_def)
    moreover from eq have "proof_generation l' = proof_generation l" by (metis proof_of_simps(2))
    ultimately have "same_lease m l'" using adv l' by (auto simp: advances_def)
    with assms(2,3) bg show False by (auto elim: same_leaseE)
  qed
qed

definition example_background :: lease_manager where
  "example_background = lease_step (1, Acquire ''b'' 60 None)
     (run_steps lease_step [(0, RevocationStarts), (0, RevocationAnswered (Inr 0)),
        (0, RevocationFinishes ''x'')] (lease_step (0, TakeHumanControl) (new_lease_manager ''e'')))"

lemma example_background_state:
  "lease_reachable example_background"
  "lm_lease example_background = Some \<lparr>proof_id = ''b'', proof_generation = 2, proof_epoch = ''e'',
     lease_expiresAt = 60001, lease_durationMs = 60000, lease_backgroundOnly = True,
     lease_actor_of = None\<rparr>"
  unfolding example_background_def
  by (intro lease_next lease_start lease_reachable_run)
    (simp add: acquire_def grant_def expireIfNeeded_def new_lease_manager_def armTimer_def Let_def
      takeHumanControl_def revoke_def enqueueRevocations_def clearTimer_def revocationStart_def
      deduplicateTargets_def revocationTarget_def skipped_target_def revoked_proof_def
      revocationFinish_def drainWaiters_def)

theorem background_lease_never_interactive_witness:
  "is_error (snd (verifyInteractive 3 \<lparr>proof_id = ''b'', proof_generation = 2, proof_epoch = ''e''\<rparr>
     (run_steps lease_step [(2, ReleaseHumanControl ''c'')] example_background)))"
  using background_lease_never_interactive
    [OF example_background_state(1,2), of "[(2, ReleaseHumanControl ''c'')]" 3]
  by (simp add: proof_of_def lease_proof.defs)

section \<open>Accounting of revocations\<close>

primrec job_targets :: "revocation_job \<Rightarrow> revocation_target list" where
  "job_targets (Queued ts) = ts"
| "job_targets (Running ts n f) = ts"

definition owed_targets :: "lease_manager \<Rightarrow> revocation_target list" where
  "owed_targets m = failedRevocations m @ concat (map job_targets (revocations m))"

lemma owed_targets_simps [simp]:
  "owed_targets (clearTimer m) = owed_targets m"
  "owed_targets (armTimer now m) = owed_targets m"
  "owed_targets (enqueueRevocations ts m) = owed_targets m @ ts"
  "owed_targets (m\<lparr>lm_lease := x\<rparr>) = owed_targets m"
  "owed_targets (m\<lparr>lm_generation := g\<rparr>) = owed_targets m"
  "owed_targets (m\<lparr>lm_human := h\<rparr>) = owed_targets m"
  "owed_targets (m\<lparr>lm_epoch := ep\<rparr>) = owed_targets m"
  "owed_targets (m\<lparr>lm_waiters := ws\<rparr>) = owed_targets m"
  "owed_targets (m\<lparr>effects := es\<rparr>) = owed_targets m"
  by (simp_all add: owed_targets_def clearTimer_def)

lemma effects_clearTimer [simp]: "effects (clearTimer m) = effects m"
  by (simp add: clearTimer_def)

text \<open>A proof is tracked when it is the current one, when its revocation is still owed, or when
  the revocation handler has succeeded for it.\<close>

definition tracked :: "lease_manager \<Rightarrow> lease_proof \<Rightarrow> bool" where
  "tracked m p = (accepts m p \<or> list_ex (\<lambda>t. target_proof t = Some p) (owed_targets m)
     \<or> HandlerSucceeded (Some p) \<in> set (effects m))"

definition colon_free :: "lease_proof \<Rightarrow> bool" where
  "colon_free p = (CHR '':'' \<notin> set (proof_epoch p) \<and> CHR '':'' \<notin> set (proof_id p))"

lemma count_colon_show [simp]: "count_list (show_nat n) CHR '':'' = 0"
  using show_nat_digits [of "CHR '':''" n] by (auto simp: is_digit_def intro: count_notin)

lemma show_nat_colon [simp]: "CHR '':'' \<notin> set (show_nat n)"
  using show_nat_digits [of "CHR '':''" n] by (auto simp: is_digit_def)

lemma target_key_inject:
  assumes "colon_free p" and "target_key t = target_key t'" and "target_proof t = Some p"
  shows "target_proof t' = Some p"
proof -
  from assms(1) have c: "count_list (proof_epoch p) CHR '':'' = 0" "count_list (proof_id p) CHR '':'' = 0"
    by (simp_all add: colon_free_def count_list_0_iff)
  have two: "count_list (target_key t') CHR '':'' = 2"
    using assms(3) c unfolding assms(2) [symmetric] by (simp add: target_key_def)
  then obtain q where q: "target_proof t' = Some q"
    by (cases "target_proof t'") (auto simp: target_key_def split: if_splits)
  with two have "count_list (proof_epoch q) CHR '':'' = 0" "count_list (proof_id q) CHR '':'' = 0"
    by (simp_all add: target_key_def)
  then have "split_on CHR '':'' (target_key t')
      = [proof_epoch q, show_nat (proof_generation q), proof_id q]"
    using q by (simp add: target_key_def count_list_0_iff split_on_append split_on_clean)
  moreover have "split_on CHR '':'' (target_key t)
      = [proof_epoch p, show_nat (proof_generation p), proof_id p]"
    using assms(3) c by (simp add: target_key_def count_list_0_iff split_on_append split_on_clean)
  ultimately have "p = q" using assms(2) by simp
  with q show ?thesis by simp
qed

lemma tracked_enqueue [simp]:
  "tracked (enqueueRevocations ts m) p \<longleftrightarrow> tracked m p \<or> list_ex (\<lambda>t. target_proof t = Some p) ts"
  by (auto simp: tracked_def owed_targets_def)

lemma tracked_arm [simp]: "tracked (armTimer now m) p = tracked m p"
  by (simp add: tracked_def owed_targets_def)

lemma tracked_waiters [simp]: "tracked (m\<lparr>lm_waiters := ws\<rparr>) p = tracked m p"
  by (simp add: tracked_def owed_targets_def)

lemma tracked_effects: "tracked m p \<Longrightarrow> tracked (m\<lparr>effects := effects m @ es\<rparr>) p"
  by (auto simp: tracked_def owed_targets_def)

text \<open>Dropping the lease and revoking what was dropped keeps every proof tracked.\<close>

lemma tracked_drop:
  assumes "tracked m p"
    and "owed_targets m' = owed_targets m" and "effects m' = effects m"
  shows "tracked (revoke (revoked_proof m) w m') p"
  using assms
  by (auto simp: tracked_def revoke_def revoked_proof_def accepts_def split: option.splits)

lemma tracked_expire:
  assumes "tracked m p"
  shows "tracked (expireIfNeeded now m) p"
proof (cases "expireIfNeeded now m = m")
  case False
  then obtain l where "lm_lease m = Some l"
    and "expireIfNeeded now m = revoke (revoked_proof m) False
        (clearTimer (m\<lparr>lm_lease := None, lm_generation := lm_generation m + 1\<rparr>))"
    by (auto simp: expireIfNeeded_def revoked_proof_def split: option.splits if_splits)
  with assms show ?thesis
    by (auto intro!: tracked_drop simp: owed_targets_def clearTimer_def)
qed (simp add: assms)

lemma tracked_same_queues:
  assumes "tracked m p" and "\<And>l. lm_lease m = Some l \<Longrightarrow> \<exists>l'. lm_lease m' = Some l' \<and> proof_of l' = proof_of l"
    and "owed_targets m' = owed_targets m" and "effects m' = effects m"
  shows "tracked m' p"
proof -
  have "accepts m p \<Longrightarrow> accepts m' p"
    using assms(2) by (cases "lm_lease m") (auto simp: accepts_def)
  with assms show ?thesis by (auto simp: tracked_def)
qed

lemma tracked_grant:
  assumes "tracked m p" and "lm_lease m = None"
  shows "tracked (fst (grant now rid d a m)) p"
  using assms
  by (cases rule: grant_cases [of now rid d a m])
    (auto intro!: tracked_same_queues [OF assms(1)] simp: owed_targets_def)

lemma tracked_drain:
  assumes "tracked m p"
  shows "tracked (drainWaiters now rid m) p"
proof (cases rule: drain_cases [of now rid m])
  case idle
  with assms show ?thesis by (simp add: tracked_expire)
next
  case (serve w ws r)
  let ?g = "fst (grant now rid (waiter_durationSeconds w) (waiter_actor w)
      ((expireIfNeeded now m)\<lparr>lm_waiters := ws\<rparr>))"
  have "tracked ?g p" using assms serve(2) by (intro tracked_grant) (simp_all add: tracked_expire)
  moreover have "effects ?g = effects m"
    by (cases rule: grant_cases [of now rid "waiter_durationSeconds w" "waiter_actor w"
          "(expireIfNeeded now m)\<lparr>lm_waiters := ws\<rparr>"]) auto
  ultimately show ?thesis using serve(5) tracked_effects [of ?g p "[r]"] by simp
qed

lemma tracked_verify:
  assumes "tracked m p"
  shows "tracked (fst (verify now q r m)) p"
proof -
  have e: "tracked (expireIfNeeded now m) p" using assms by (rule tracked_expire)
  show ?thesis
    using e by (auto simp: verify_def Let_def split: option.split
        intro!: tracked_same_queues [OF e] simp: owed_targets_def)
qed

lemma tracked_start:
  assumes "tracked m p" and "colon_free p"
  shows "tracked (revocationStart m) p"
proof (cases "revocations m")
  case (Cons j rest)
  show ?thesis
  proof (cases j)
    case (Queued ts)
    let ?all = "failedRevocations m @ ts"
    have "list_ex (\<lambda>t. target_proof t = Some p) (deduplicateTargets ?all)"
      if "list_ex (\<lambda>t. target_proof t = Some p) ?all"
    proof -
      from that obtain t where t: "t \<in> set ?all" "target_proof t = Some p" by (auto simp: list_ex_iff)
      then have "target_key t \<in> target_key ` set (deduplicateTargets ?all)"
        by (auto simp: deduplicateTargets_def dedup_by_keys)
      then obtain t' where "t' \<in> set (deduplicateTargets ?all)" "target_key t = target_key t'" by auto
      with t assms(2) show ?thesis by (auto simp: list_ex_iff dest: target_key_inject)
    qed
    with assms Cons Queued show ?thesis
      by (auto simp: tracked_def owed_targets_def revocationStart_def accepts_def)
  next
    case (Running ts n f)
    with assms Cons show ?thesis by (simp add: revocationStart_def)
  qed
qed (use assms in \<open>simp add: revocationStart_def\<close>)

lemma tracked_target:
  assumes "tracked m p"
  shows "tracked (revocationTarget a m) p"
  using assms
  by (auto simp: revocationTarget_def tracked_def owed_targets_def accepts_def skipped_target_def
      split: list.split revocation_job.split sum.split option.split)

lemma tracked_finish:
  assumes "tracked m p"
  shows "tracked (revocationFinish now rid m) p"
proof -
  have "tracked (m\<lparr>revocations := rest, effects := effects m @ [x]\<rparr>) p"
    if "revocations m = Running [] n f # rest" for n f rest x
    using assms that by (auto simp: tracked_def owed_targets_def accepts_def)
  then show ?thesis
    using assms by (auto simp: revocationFinish_def intro!: tracked_drain
        split: list.split revocation_job.split option.split)
qed

lemma tracked_renew:
  assumes "tracked m p"
  shows "tracked (fst (renew now q d m)) p"
proof -
  have e: "tracked (expireIfNeeded now m) p" using assms by (rule tracked_expire)
  show ?thesis
    using e by (auto simp: renew_def Let_def pair_app split: option.split sum.split
        intro!: tracked_same_queues [OF e])
qed

lemma tracked_release:
  assumes "tracked m p"
  shows "tracked (fst (release now q m)) p"
  using tracked_expire [OF assms]
  by (auto simp: release_def pair_app split: sum.split intro!: tracked_drop)

lemma tracked_humans:
  assumes "tracked m p"
  shows "tracked (takeHumanControl m) p" and "tracked (takeHumanControl_resumed m) p"
    and "tracked (releaseHumanControl now rid m) p" and "tracked (resetEpoch ep m) p"
    and "tracked (revokeAgentControl m) p" and "tracked (waiterTimeout now k m) p"
proof -
  let ?r = "m\<lparr>lm_generation := (if lm_human m then lm_generation m + 1 else lm_generation m),
      lm_human := False\<rparr>"
  have "tracked ?r p" by (rule tracked_same_queues [OF assms]) simp_all
  then show "tracked (releaseHumanControl now rid m) p"
    unfolding releaseHumanControl_def by (rule tracked_drain)
  show "tracked (waiterTimeout now k m) p"
    using assms tracked_effects [of "m\<lparr>lm_waiters := x\<rparr>" for x]
    by (auto simp: waiterTimeout_def intro!: tracked_expire)
  show "tracked (takeHumanControl m) p" "tracked (takeHumanControl_resumed m) p"
      "tracked (resetEpoch ep m) p" "tracked (revokeAgentControl m) p"
    using assms by (auto simp: takeHumanControl_def takeHumanControl_resumed_def resetEpoch_def
        retryFailedRevocations_def revokeAgentControl_def intro!: tracked_drop)
qed

lemma tracked_revokeFor:
  assumes "tracked m p"
  shows "tracked (revokeAgentControlFor q m) p"
  using assms by (auto simp: revokeAgentControlFor_def revokeExact_def tracked_def
      accepts_def sameProof_def proof_of_eq_iff split: option.splits)

lemma tracked_acquire:
  assumes "tracked m p"
  shows "tracked (fst (acquire now rid d a m)) p"
  using tracked_expire [OF assms] by (auto simp: acquire_def Let_def intro!: tracked_grant)

lemma tracked_acquireWaiting:
  assumes "tracked m p"
  shows "tracked (fst (acquireWaiting now rid k d a w m)) p"
proof -
  have e: "tracked (expireIfNeeded now m) p" using assms by (rule tracked_expire)
  show ?thesis
    using e tracked_acquire [OF e] tracked_drain [of "(expireIfNeeded now m)\<lparr>lm_waiters := x\<rparr>" for x]
    by (auto simp: acquireWaiting_def Let_def pair_app intro!: tracked_grant split: sum.split)
qed

lemma tracked_step:
  "tracked m p \<Longrightarrow> colon_free p \<Longrightarrow> tracked (lease_step e m) p"
  by (cases "(e, m)" rule: lease_step.cases)
    (simp_all add: tracked_acquire tracked_acquireWaiting tracked_humans tracked_revokeFor tracked_renew tracked_release
      tracked_verify tracked_expire tracked_start tracked_target tracked_finish lease_snapshot_of_def
      Let_def)

lemma tracked_run: "tracked m p \<Longrightarrow> colon_free p \<Longrightarrow> tracked (run_steps lease_step es m) p"
  by (induction es arbitrary: m) (auto intro: tracked_step)

text \<open>C7. No revocation is lost: a proof that was valid once is, at every later time, still valid,
  or its revocation is queued, running or recorded as failed, or the revocation handler has
  succeeded for it. (Generated epochs and identifiers are base64url text, without a colon.)\<close>

theorem no_revocation_lost:
  assumes "lease_reachable m" and "accepts m p" and "colon_free p"
  shows "tracked (run_steps lease_step es m) p"
  using assms by (intro tracked_run) (simp_all add: tracked_def)

theorem no_revocation_lost_witness:
  "tracked (run_steps lease_step [(2, TakeHumanControl), (3, RevocationStarts),
      (4, RevocationAnswered (Inl ''kill failed''))] example_granted)
     \<lparr>proof_id = ''a'', proof_generation = 1, proof_epoch = ''e''\<rparr>"
  by (rule no_revocation_lost [OF example_granted_reachable])
    (simp_all add: accepts_def example_granted_state proof_of_eq_iff colon_free_def)

section \<open>Grants happen only after fencing\<close>

definition unclaimed :: "lease_manager \<Rightarrow> bool" where
  "unclaimed m = (revocations m = [] \<and> failedRevocations m = [])"

definition grants_fenced :: "lease_manager \<Rightarrow> lease_manager \<Rightarrow> bool" where
  "grants_fenced m m' = (case lm_lease m' of None \<Rightarrow> True
     | Some l \<Rightarrow> accepts m (proof_of l) \<or> unclaimed m')"

lemma grants_fenced_none: "lm_lease m' = None \<Longrightarrow> grants_fenced m m'"
  by (simp add: grants_fenced_def)

lemma grants_fenced_kept:
  "(\<And>l'. lm_lease m' = Some l' \<Longrightarrow> \<exists>l. lm_lease m = Some l \<and> proof_of l' = proof_of l)
    \<Longrightarrow> grants_fenced m m'"
  by (auto simp: grants_fenced_def accepts_def split: option.split)

lemma grants_fenced_from:
  "(\<And>p. accepts b p \<Longrightarrow> accepts a p) \<Longrightarrow> grants_fenced b c \<Longrightarrow> grants_fenced a c"
  by (auto simp: grants_fenced_def split: option.splits)

lemma grants_fenced_unclaimed: "unclaimed m' \<Longrightarrow> grants_fenced m m'"
  by (simp add: grants_fenced_def split: option.split)

lemma grant_unclaimed [simp]: "unclaimed (fst (grant now rid d a m)) = unclaimed m"
  by (cases rule: grant_cases [of now rid d a m]) (auto simp: unclaimed_def)

lemma unclaimed_simps [simp]:
  "unclaimed (m\<lparr>lm_waiters := ws\<rparr>) = unclaimed m"
  "unclaimed (m\<lparr>effects := es\<rparr>) = unclaimed m"
  by (simp_all add: unclaimed_def)

lemma expire_lease: "lm_lease (expireIfNeeded now m) = Some l \<Longrightarrow> lm_lease m = Some l"
  by (auto simp: expireIfNeeded_def revoke_def clearTimer_def split: option.splits if_splits)

lemma accepts_expire: "accepts (expireIfNeeded now m) p \<Longrightarrow> accepts m p"
  using not_accepts_expire by blast

lemma fenced_expire: "grants_fenced m (expireIfNeeded now m)"
  by (rule grants_fenced_kept) (auto dest: expire_lease)

lemma fenced_acquire: "grants_fenced m (fst (acquire now rid d a m))"
  using fenced_expire [of m now] grants_fenced_unclaimed [of "fst (grant now rid d a (expireIfNeeded now m))" m]
  by (auto simp: acquire_def Let_def unclaimed_def [of "expireIfNeeded now m"])

lemma fenced_drain: "grants_fenced m (drainWaiters now rid m)"
proof (cases rule: drain_cases [of now rid m])
  case idle
  then show ?thesis by (simp add: fenced_expire)
next
  case (serve w ws r)
  then show ?thesis by (intro grants_fenced_unclaimed) (simp add: unclaimed_def [of "expireIfNeeded now m"])
qed

lemma fenced_acquireWaiting: "grants_fenced m (fst (acquireWaiting now rid k d a w m))"
proof -
  let ?e = "expireIfNeeded now m"
  have from_e: "grants_fenced ?e c \<Longrightarrow> grants_fenced m c" for c
    by (rule grants_fenced_from) (rule accepts_expire)
  have "grants_fenced m (drainWaiters now rid (?e\<lparr>lm_waiters := x\<rparr>))" for x
    by (rule grants_fenced_from [OF _ fenced_drain]) (auto dest: accepts_expire)
  then show ?thesis
    using from_e [OF fenced_acquire] fenced_expire
      grants_fenced_unclaimed [of "fst (grant now rid d a ?e)" m]
    by (auto simp: acquireWaiting_def Let_def pair_app unclaimed_def [of ?e] split: sum.split)
qed

lemma fenced_kept_ops:
  "grants_fenced m (fst (renew now p d m))"
  "grants_fenced m (fst (verify now p r m))"
  "grants_fenced m (fst (release now p m))"
proof -
  have kept: "grants_fenced m ((expireIfNeeded now m)\<lparr>lm_lease := Some l'\<rparr>)"
    if "lm_lease (expireIfNeeded now m) = Some l" "proof_of l' = proof_of l" for l l'
    using that by (auto intro!: grants_fenced_kept dest: expire_lease)
  have armed: "grants_fenced m (armTimer now m') = grants_fenced m m'" for m'
    by (simp add: grants_fenced_def unclaimed_def split: option.split)
  show "grants_fenced m (fst (renew now p d m))"
    using fenced_expire [of m now] by (auto simp: renew_def Let_def pair_app armed
        intro!: kept split: sum.split option.split)
  show "grants_fenced m (fst (verify now p r m))"
    using fenced_expire [of m now] by (auto simp: verify_def Let_def armed
        intro!: kept split: option.split)
  show "grants_fenced m (fst (release now p m))"
    using fenced_expire [of m now] by (auto simp: release_def revoke_def pair_app clearTimer_def
        intro!: grants_fenced_none split: sum.split)
qed

lemma fenced_releaseHuman: "grants_fenced m (releaseHumanControl now rid m)"
  unfolding releaseHumanControl_def
  by (rule grants_fenced_from [OF _ fenced_drain]) (simp add: accepts_def)

lemma fenced_finish: "grants_fenced m (revocationFinish now rid m)"
proof -
  have "grants_fenced m (drainWaiters now rid (m\<lparr>revocations := rs, effects := es\<rparr>))" for rs es
    by (rule grants_fenced_from [OF _ fenced_drain]) simp
  then show ?thesis
    by (auto simp: revocationFinish_def intro!: grants_fenced_kept
        split: list.splits revocation_job.splits option.splits)
qed

lemma fenced_other_ops:
  "grants_fenced m (revokeAgentControl m)"
  "grants_fenced m (revokeAgentControlFor p m)"
  "grants_fenced m (takeHumanControl m)"
  "grants_fenced m (takeHumanControl_resumed m)"
  "grants_fenced m (resetEpoch ep m)"
  "grants_fenced m (waiterTimeout now k m)"
  "grants_fenced m (revocationStart m)"
  "grants_fenced m (revocationTarget a m)"
  by (auto simp: revokeAgentControl_def revokeAgentControlFor_def takeHumanControl_def
      takeHumanControl_resumed_def resetEpoch_def waiterTimeout_def revocationStart_def
      revocationTarget_def revoke_def revokeExact_def retryFailedRevocations_def clearTimer_def
      intro!: grants_fenced_kept dest: expire_lease
      split: list.splits revocation_job.splits option.splits sum.splits if_splits)

lemma fenced_step: "grants_fenced m (lease_step e m)"
  by (cases "(e, m)" rule: lease_step.cases)
    (simp_all add: fenced_acquire fenced_acquireWaiting fenced_expire fenced_kept_ops
      fenced_releaseHuman fenced_finish fenced_other_ops lease_snapshot_of_def Let_def)

text \<open>C1. A computer changes hands only after the last holder was fenced: at the step that grants
  a new lease, no revocation is queued, running or failed, and the revocation handler has succeeded
  for every proof that was ever valid before.\<close>

theorem new_lease_only_after_fencing:
  assumes "lease_reachable m" and "accepts m p" and "colon_free p"
    and "\<not> accepts (run_steps lease_step es m) p"
    and "\<forall>x \<in> set (es @ [e]). reset_to x \<noteq> Some (proof_epoch p)"
    and "lm_lease (lease_step e (run_steps lease_step es m)) = Some l"
    and "\<not> accepts (run_steps lease_step es m) (proof_of l)"
  shows "revocations (lease_step e (run_steps lease_step es m)) = []
    \<and> failedRevocations (lease_step e (run_steps lease_step es m)) = []
    \<and> HandlerSucceeded (Some p) \<in> set (effects (lease_step e (run_steps lease_step es m)))"
proof -
  let ?m' = "run_steps lease_step es m"
  let ?n = "lease_step e ?m'"
  have inv: "lease_inv m" using assms(1) by (rule lease_reachable_inv)
  have u: "unclaimed ?n"
    using fenced_step [of ?m' e] assms(6,7) by (simp add: grants_fenced_def)
  have "tracked m p" using assms(2) by (simp add: tracked_def)
  then have "tracked ?n p" using assms(3) by (intro tracked_step tracked_run)
  moreover have "\<not> accepts ?n p"
    using lease_fence.never_again [OF inv assms(2), of es "[e]"] assms(4,5) by simp
  ultimately show ?thesis using u by (simp add: tracked_def unclaimed_def owed_targets_def)
qed

text \<open>The run of the witness: the holder is revoked, its revocation fails once and succeeds on the
  second attempt, and only then the next client gets the lease.\<close>

definition example_handover :: "(int \<times> lease_event) list" where
  "example_handover =
     [(1, AcquireWaiting ''x'' 7 60 None 10), (2, RevokeAgentControl), (3, RevocationStarts),
      (3, RevocationAnswered (Inl ''kill failed'')), (3, RevocationFinishes ''x''),
      (4, RevokeAgentControl), (5, RevocationStarts), (5, RevocationAnswered (Inr 1)),
      (5, RevocationAnswered (Inr 0))]"

lemmas lease_eval = acquire_def acquireWaiting_def grant_def expireIfNeeded_def new_lease_manager_def
  armTimer_def Let_def takeHumanControl_def revoke_def enqueueRevocations_def clearTimer_def
  revocationStart_def deduplicateTargets_def dedup_by_def revocationTarget_def skipped_target_def
  revoked_proof_def revocationFinish_def drainWaiters_def revokeAgentControl_def target_key_def

lemma example_handover_state:
  "lm_lease (run_steps lease_step example_handover example_granted) = None"
  "lm_lease (lease_step (6, RevocationFinishes ''b'')
     (run_steps lease_step example_handover example_granted)) =
   Some \<lparr>proof_id = ''b'', proof_generation = 3, proof_epoch = ''e'', lease_expiresAt = 60006,
     lease_durationMs = 60000, lease_backgroundOnly = False, lease_actor_of = None\<rparr>"
  by (simp_all add: example_handover_def example_granted_def lease_eval)

theorem new_lease_only_after_fencing_witness:
  "HandlerSucceeded (Some \<lparr>proof_id = ''a'', proof_generation = 1, proof_epoch = ''e''\<rparr>)
     \<in> set (effects (lease_step (6, RevocationFinishes ''b'')
               (run_steps lease_step example_handover example_granted)))"
proof -
  let ?p = "\<lparr>proof_id = ''a'', proof_generation = 1, proof_epoch = ''e''\<rparr>"
  have "accepts example_granted ?p" "colon_free ?p"
    by (simp_all add: accepts_def example_granted_state proof_of_eq_iff colon_free_def)
  moreover have "\<forall>x \<in> set (example_handover @ [(6, RevocationFinishes ''b'')]).
      reset_to x \<noteq> Some (proof_epoch ?p)"
    by (simp add: example_handover_def)
  ultimately show ?thesis
    using new_lease_only_after_fencing [OF example_granted_reachable, of ?p example_handover
        "(6, RevocationFinishes ''b'')"]
    by (simp add: accepts_def example_handover_state del: lease_step.simps)
qed

section \<open>Expiry and the waiting queue\<close>

text \<open>The expiry timer is always armed while there is a lease, for a time after its deadline,
  so that it ends the lease when it fires, and queues the revocation of exactly that lease.\<close>

theorem expiry_timer_ends_lease:
  assumes "lease_reachable m" and "lm_lease m = Some l"
  shows "\<exists>due. lm_timer m = Some due \<and> lease_expiresAt l < due
    \<and> (\<forall>now \<ge> due. lm_lease (lease_step (now, TimerFired) m) = None
        \<and> revocations (lease_step (now, TimerFired) m) = revocations m
            @ [Queued [\<lparr>target_proof = Some (proof_of l), invokeWithoutProof = False\<rparr>]])"
  using lease_reachable_inv [OF assms(1)] assms(2)
  by (auto simp: lease_inv_def expireIfNeeded_def revoke_def clearTimer_def enqueueRevocations_def
      split: option.splits)

theorem expiry_timer_ends_lease_witness:
  "\<exists>due. lm_timer example_granted = Some due \<and> 60000 < due
     \<and> (\<forall>now \<ge> due. lm_lease (lease_step (now, TimerFired) example_granted) = None)"
  using expiry_timer_ends_lease [OF example_granted_reachable example_granted_state(1)] by auto

text \<open>The queue of waiting clients moves: when the last revocation ends well, nobody holds the
  lease and no revocation has failed, the first waiting client is served. It gets the lease for the
  time it asked for and leaves the queue, and no other waiting client is touched.\<close>

theorem finished_revocation_serves_first_waiter:
  assumes "revocations m = [Running [] n None]" and "failedRevocations m = []"
    and "lm_lease m = None" and "lm_waiters m = w # ws"
    and "waiter_actor w = None \<or> validateLeaseActor (the (waiter_actor w)) = Inr (the (waiter_actor w))"
  shows "\<exists>l. lm_lease (revocationFinish now rid m) = Some l
    \<and> lease_expiresAt l = now + int (waiter_durationSeconds w) * 1000
    \<and> lease_actor_of l = waiter_actor w
    \<and> lm_waiters (revocationFinish now rid m) = ws
    \<and> effects (revocationFinish now rid m)
        = effects m @ [RevocationReport n, WaiterResolved (waiter_key w) (publicLease l)]"
  using assms
  by (auto simp: revocationFinish_def drainWaiters_def expireIfNeeded_def grant_def Let_def
      split: option.splits)

theorem finished_revocation_serves_first_waiter_witness:
  "\<exists>l. lm_lease (revocationFinish 6 ''b''
     ((new_lease_manager ''e'')\<lparr>revocations := [Running [] 2 None],
        lm_waiters := [\<lparr>waiter_key = 7, waiter_durationSeconds = 60, waiter_actor = None\<rparr>]\<rparr>)) = Some l
     \<and> lease_expiresAt l = 60006"
  using finished_revocation_serves_first_waiter
    [of "(new_lease_manager ''e'')\<lparr>revocations := [Running [] 2 None],
        lm_waiters := [\<lparr>waiter_key = 7, waiter_durationSeconds = 60, waiter_actor = None\<rparr>]\<rparr>" 2 _ "[]" 6 "''b''"]
  by (auto simp: new_lease_manager_def)

end
