(* ===== verification/Network_Address.thy ===== *)
theory Network_Address
  imports Prelude "HOL-Library.Word"
begin

unbundle bit_operations_syntax

text \<open>
  \<^verbatim>\<open>packages/control/src/network-address.ts\<close>: which IP addresses are globally routable, the
  test at every boundary of restricted egress. \<open>isIP\<close> of \<^verbatim>\<open>node:net\<close> is written out as the
  grammar it accepts. A byte is a natural number below 256. The specification is about networks:
  an address is in a network when their first bits agree.
\<close>

section \<open>Text of addresses\<close>

definition to_lower_char :: "char \<Rightarrow> char" where
  "to_lower_char c =
     (case map_of (zip ''ABCDEFGHIJKLMNOPQRSTUVWXYZ'' ''abcdefghijklmnopqrstuvwxyz'') c of
        Some d \<Rightarrow> d
      | None \<Rightarrow> let n = (of_char c :: nat) in if 192 \<le> n \<and> n \<le> 222 \<and> n \<noteq> 215 then char_of (n + 32) else c)"

definition to_lower :: "string \<Rightarrow> string" where
  "to_lower s = map to_lower_char s"

definition hex_value :: "char \<Rightarrow> nat" where
  "hex_value c = (let n = (of_char c :: nat) in
     if n \<le> 57 then n - 48 else if n \<le> 70 then n - 55 else n - 87)"

definition is_hex :: "char \<Rightarrow> bool" where
  "is_hex c = (let n = (of_char c :: nat) in
     48 \<le> n \<and> n \<le> 57 \<or> 65 \<le> n \<and> n \<le> 70 \<or> 97 \<le> n \<and> n \<le> 102)"

definition is_lower_hex :: "char \<Rightarrow> bool" where
  "is_lower_hex c = (let n = (of_char c :: nat) in 48 \<le> n \<and> n \<le> 57 \<or> 97 \<le> n \<and> n \<le> 102)"

definition hex_char :: "nat \<Rightarrow> char" where
  "hex_char n = ''0123456789abcdef'' ! n"

text \<open>\<open>toString(16)\<close> and \<open>parseInt(part, 16)\<close>.\<close>

fun show_hex :: "nat \<Rightarrow> string" where
  "show_hex n = (if n < 16 then [hex_char n] else show_hex (n div 16) @ [hex_char (n mod 16)])"

declare show_hex.simps [simp del]

definition read_hex :: "string \<Rightarrow> nat" where
  "read_hex s = foldl (\<lambda>a c. 16 * a + hex_value c) 0 s"

text \<open>\<open>Number\<close> of a text of digits; anything else counts as not an integer.\<close>

definition digits_value :: "string \<Rightarrow> nat option" where
  "digits_value s = (if s \<noteq> [] \<and> list_all is_digit s then Some (read_nat s) else None)"

section \<open>\<open>isIP\<close>\<close>

definition ipv4_part :: "string \<Rightarrow> bool" where
  "ipv4_part p = (p \<noteq> [] \<and> list_all is_digit p \<and> length p \<le> 3 \<and> (length p > 1 \<longrightarrow> hd p \<noteq> CHR ''0'')
     \<and> read_nat p \<le> 255)"

definition isIPv4 :: "string \<Rightarrow> bool" where
  "isIPv4 s = (length (split_on CHR ''.'' s) = 4 \<and> list_all ipv4_part (split_on CHR ''.'' s))"

definition ipv6_part :: "string \<Rightarrow> bool" where
  "ipv6_part p = (p \<noteq> [] \<and> length p \<le> 4 \<and> list_all is_hex p)"

fun group_count :: "string list \<Rightarrow> nat option" where
  "group_count [] = Some 0"
| "group_count [p] = (if ipv6_part p then Some 1 else if isIPv4 p then Some 2 else None)"
| "group_count (p # q # ps) = (if ipv6_part p then map_option Suc (group_count (q # ps)) else None)"

text \<open>\<open>split('::')\<close> as far as the code looks at it: the text before the first \<open>::\<close> and, when
  there is one, the text up to the second.\<close>

fun before_double :: "string \<Rightarrow> string" where
  "before_double (a # b # s) = (if a = CHR '':'' \<and> b = CHR '':'' then [] else a # before_double (b # s))"
| "before_double s = s"

fun after_double :: "string \<Rightarrow> string option" where
  "after_double (a # b # s) = (if a = CHR '':'' \<and> b = CHR '':'' then Some s else after_double (b # s))"
| "after_double s = None"

definition colon_parts :: "string \<Rightarrow> string list" where
  "colon_parts s = (if s = [] then [] else split_on CHR '':'' s)"

definition zone_char :: "char \<Rightarrow> bool" where
  "zone_char c = (let n = (of_char c :: nat) in is_digit c \<or> 65 \<le> n \<and> n \<le> 90 \<or> 97 \<le> n \<and> n \<le> 122
     \<or> c = CHR ''-'' \<or> c = CHR ''.'' \<or> c = CHR '':'')"

definition isIPv6 :: "string \<Rightarrow> bool" where
  "isIPv6 s = (let body = takeWhile (\<lambda>c. c \<noteq> CHR ''%'') s; zone = dropWhile (\<lambda>c. c \<noteq> CHR ''%'') s in
     (zone = [] \<or> tl zone \<noteq> [] \<and> list_all zone_char (tl zone))
     \<and> (case after_double body of
          None \<Rightarrow> group_count (colon_parts body) = Some 8
        | Some right \<Rightarrow> list_all ipv6_part (colon_parts (before_double body))
            \<and> (case group_count (colon_parts right) of None \<Rightarrow> False
               | Some n \<Rightarrow> length (colon_parts (before_double body)) + n \<le> 7)))"

definition isIP :: "string \<Rightarrow> nat" where
  "isIP s = (if isIPv4 s then 4 else if isIPv6 s then 6 else 0)"

section \<open>The code\<close>

definition routable_octets :: "nat \<Rightarrow> nat \<Rightarrow> nat \<Rightarrow> bool" where
  "routable_octets a b c = (\<not> (a = 0 \<or> a = 10 \<or> a = 127 \<or> a \<ge> 224
     \<or> (a = 100 \<and> b \<ge> 64 \<and> b \<le> 127)
     \<or> (a = 169 \<and> b = 254)
     \<or> (a = 172 \<and> b \<ge> 16 \<and> b \<le> 31)
     \<or> (a = 192 \<and> b = 0)
     \<or> (a = 192 \<and> b = 168)
     \<or> (a = 198 \<and> (b = 18 \<or> b = 19))
     \<or> (a = 198 \<and> b = 51 \<and> c = 100)
     \<or> (a = 203 \<and> b = 0 \<and> c = 113)))"

definition isGloballyRoutableIpv4 :: "string \<Rightarrow> bool" where
  "isGloballyRoutableIpv4 address =
     (let parts = map digits_value (split_on CHR ''.'' address) in
      length parts = 4 \<and> list_all (\<lambda>p. case p of None \<Rightarrow> False | Some v \<Rightarrow> v \<le> 255) parts
      \<and> routable_octets (the (parts ! 0)) (the (parts ! 1)) (the (parts ! 2)))"

definition ip_prefix :: "nat list \<Rightarrow> nat list \<Rightarrow> nat \<Rightarrow> bool" where
  "ip_prefix value expected bits =
     (let complete = bits div 8; remaining = bits mod 8 in
      list_all (\<lambda>i. value ! i = expected ! i) [0..<complete]
      \<and> (remaining = 0
         \<or> (let mask = push_bit (8 - remaining) 0xff
             in (value ! complete) AND mask = (expected ! complete) AND mask)))"

text \<open>The embedded dotted form is rewritten to two groups of hexadecimal digits.\<close>

definition after_last_colon :: "string \<Rightarrow> string" where
  "after_last_colon s = rev (takeWhile (\<lambda>c. c \<noteq> CHR '':'') (rev s))"

definition rewrite_mapped :: "string \<Rightarrow> string option" where
  "rewrite_mapped input =
     (let tail = after_last_colon input; octets = map digits_value (split_on CHR ''.'' tail) in
      if CHR '':'' \<in> set input \<and> length octets = 4 \<and> None \<notin> set octets
      then (case octets of
          [Some a, Some b, Some c, Some d] \<Rightarrow>
            if a > 255 \<or> b > 255 \<or> c > 255 \<or> d > 255 then None
            else Some (take (length input - length tail) input @ show_hex (a * 256 + b) @ '':'' @ show_hex (c * 256 + d))
        | _ \<Rightarrow> None)
      else Some input)"

fun count_doubles :: "string \<Rightarrow> nat" where
  "count_doubles (a # b # s) = (if a = CHR '':'' \<and> b = CHR '':'' then Suc (count_doubles s) else count_doubles (b # s))"
| "count_doubles s = 0"

definition hex_group :: "string \<Rightarrow> bool" where
  "hex_group p = (p \<noteq> [] \<and> length p \<le> 4 \<and> list_all is_lower_hex p)"

definition word_bytes :: "nat \<Rightarrow> nat list" where
  "word_bytes w = [w div 256, w mod 256]"

definition parseIpv6 :: "string \<Rightarrow> nat list option" where
  "parseIpv6 address =
     (case rewrite_mapped (takeWhile (\<lambda>c. c \<noteq> CHR ''%'') (to_lower address)) of
        None \<Rightarrow> None
      | Some input \<Rightarrow>
          if count_doubles input > 1 then None
          else
            (let left = colon_parts (before_double input);
                 right = (case after_double input of None \<Rightarrow> [] | Some r \<Rightarrow> colon_parts r);
                 doubled = (after_double input \<noteq> None)
             in if \<not> list_all hex_group (left @ right) then None
                else if doubled \<and> length left + length right > 7
                  \<or> \<not> doubled \<and> length left + length right \<noteq> 8 then None
                else Some (concat (map (\<lambda>p. word_bytes (read_hex p))
                  (left @ replicate (8 - length left - length right) ''0'' @ right)))))"

definition routable_ipv6_bytes :: "nat list \<Rightarrow> bool" where
  "routable_ipv6_bytes bytes =
     (if list_all (\<lambda>v. v = 0) (take 10 bytes) \<and> bytes ! 10 = 0xff \<and> bytes ! 11 = 0xff
      then routable_octets (bytes ! 12) (bytes ! 13) (bytes ! 14)
      else if list_all (\<lambda>v. v = 0) (take 12 bytes) then False
      else if (bytes ! 0) AND 0xe0 \<noteq> 0x20 then False
      else if ip_prefix bytes [0x20, 0x01, 0x00, 0x00] 32 then False
      else if ip_prefix bytes [0x20, 0x01, 0x00, 0x02, 0x00, 0x00] 48 then False
      else if ip_prefix bytes [0x20, 0x01, 0x00, 0x10] 28 then False
      else if ip_prefix bytes [0x20, 0x01, 0x0d, 0xb8] 32 then False
      else if ip_prefix bytes [0x20, 0x02] 16 then False
      else True)"

definition isGloballyRoutableIp :: "string \<Rightarrow> bool" where
  "isGloballyRoutableIp address =
     (let family = isIP address in
      if family = 4 then isGloballyRoutableIpv4 address
      else if family \<noteq> 6 then False
      else (case parseIpv6 address of None \<Rightarrow> False | Some bytes \<Rightarrow> routable_ipv6_bytes bytes))"

section \<open>Networks as prefixes of bits\<close>

definition byte_bits :: "nat \<Rightarrow> bool list" where
  "byte_bits v = map (\<lambda>i. bit v (7 - i)) [0..<8]"

definition ip_bits :: "nat list \<Rightarrow> bool list" where
  "ip_bits bs = concat (map byte_bits bs)"

definition in_network :: "nat list \<Rightarrow> nat list \<times> nat \<Rightarrow> bool" where
  "in_network bs net = (take (snd net) (ip_bits bs) = take (snd net) (ip_bits (fst net)))"

lemma length_byte_bits [simp]: "length (byte_bits v) = 8"
  by (simp add: byte_bits_def)

lemma byte_high_bits: "v < 256 \<Longrightarrow> 8 \<le> n \<Longrightarrow> \<not> bit (v :: nat) n"
proof -
  assume "v < 256" and "8 \<le> n"
  then have "v < 2 ^ n" using power_increasing [of 8 n "2 :: nat"] by simp
  then show ?thesis by (simp add: bit_iff_odd)
qed

lemma byte_prefix:
  assumes "v < 256" and "w < 256" and "r \<le> 8"
  shows "take r (byte_bits v) = take r (byte_bits w) \<longleftrightarrow> drop_bit (8 - r) v = drop_bit (8 - r) w"
proof
  assume *: "drop_bit (8 - r) v = drop_bit (8 - r) w"
  have "bit v (7 - i) = bit w (7 - i)" if "i < r" for i
  proof -
    from that assms(3) have i: "7 - i = 8 - r + (r - 1 - i)" by simp
    have "bit (drop_bit (8 - r) v) (r - 1 - i) = bit (drop_bit (8 - r) w) (r - 1 - i)" by (simp add: *)
    then show ?thesis unfolding bit_drop_bit_eq o_def i .
  qed
  then show "take r (byte_bits v) = take r (byte_bits w)"
    using assms(3) by (intro nth_equalityI) (auto simp: byte_bits_def)
next
  assume *: "take r (byte_bits v) = take r (byte_bits w)"
  show "drop_bit (8 - r) v = drop_bit (8 - r) w"
  proof (rule bit_eqI)
    fix n
    show "bit (drop_bit (8 - r) v) n = bit (drop_bit (8 - r) w) n"
    proof (cases "n < r")
      case True
      with assms(3) have i: "8 - r + n = 7 - (r - 1 - n)" and r: "r - 1 - n < r" by auto
      from * have "take r (byte_bits v) ! (r - 1 - n) = take r (byte_bits w) ! (r - 1 - n)" by simp
      with r assms(3) have "bit v (7 - (r - 1 - n)) = bit w (7 - (r - 1 - n))"
        by (simp add: byte_bits_def)
      then show ?thesis unfolding bit_drop_bit_eq o_def i .
    next
      case False
      with assms show ?thesis using byte_high_bits [of v "8 - r + n"] byte_high_bits [of w "8 - r + n"]
        by (simp add: bit_drop_bit_eq)
    qed
  qed
qed

lemma byte_bits_inject: "v < 256 \<Longrightarrow> w < 256 \<Longrightarrow> byte_bits v = byte_bits w \<longleftrightarrow> v = w"
  using byte_prefix [of v w 8] by simp

lemma masked_byte:
  assumes "(v :: nat) < 256" and "r \<le> 8"
  shows "v AND push_bit (8 - r) 0xff = push_bit (8 - r) (drop_bit (8 - r) v)"
proof (rule bit_eqI)
  fix n :: nat
  have "(0xff :: nat) = mask 8" by (simp add: mask_eq_exp_minus_1)
  then have low: "bit (0xff :: nat) m = (m < 8)" for m by (simp only: bit_mask_iff) simp
  have high: "bit v n \<Longrightarrow> n < 8" using byte_high_bits [OF assms(1), of n] by (meson not_less)
  show "bit (v AND push_bit (8 - r) 0xff) n = bit (push_bit (8 - r) (drop_bit (8 - r) v)) n"
    unfolding bit_and_iff bit_push_bit_iff bit_drop_bit_eq o_def low
    using high by (cases "8 - r \<le> n") auto
qed

lemma masked_equal:
  assumes "(v :: nat) < 256" and "(w :: nat) < 256" and "r \<le> 8"
  shows "v AND push_bit (8 - r) 0xff = w AND push_bit (8 - r) 0xff \<longleftrightarrow> drop_bit (8 - r) v = drop_bit (8 - r) w"
proof -
  have "push_bit k x = push_bit k y \<longleftrightarrow> x = y" for k x y :: nat by (simp add: push_bit_eq_mult)
  with assms show ?thesis by (simp only: masked_byte)
qed

lemma take_ip_bits:
  assumes "k < length bs" and "r \<le> 8"
  shows "take (8 * k + r) (ip_bits bs) = ip_bits (take k bs) @ take r (byte_bits (bs ! k))"
  using assms
proof (induction k arbitrary: bs)
  case 0
  then show ?case by (cases bs) (simp_all add: ip_bits_def)
next
  case (Suc k)
  then obtain b bs' where bs: "bs = b # bs'" by (cases bs) auto
  with Suc have "take (8 * k + r) (ip_bits bs') = ip_bits (take k bs') @ take r (byte_bits (bs' ! k))" by simp
  then show ?case by (simp add: bs ip_bits_def)
qed

lemma take_ip_bits_full: "k \<le> length bs \<Longrightarrow> take (8 * k) (ip_bits bs) = ip_bits (take k bs)"
proof (induction k arbitrary: bs)
  case (Suc k)
  then obtain b bs' where "bs = b # bs'" by (cases bs) auto
  with Suc show ?case by (simp add: ip_bits_def)
qed (simp add: ip_bits_def)

lemma ip_bits_inject:
  "length xs = length ys \<Longrightarrow> \<forall>b \<in> set xs \<union> set ys. b < 256 \<Longrightarrow> ip_bits xs = ip_bits ys \<longleftrightarrow> xs = ys"
  by (induction xs ys rule: list_induct2) (simp_all add: ip_bits_def byte_bits_inject)

lemma length_ip_bits [simp]: "length (ip_bits bs) = 8 * length bs"
  by (induction bs) (simp_all add: ip_bits_def)

text \<open>The byte-wise comparison with a mask decides membership in the network.\<close>

lemma ip_prefix_in_network:
  assumes "bits \<le> 8 * length value" and "bits \<le> 8 * length expected"
    and "\<forall>b \<in> set value \<union> set expected. b < 256"
  shows "ip_prefix value expected bits \<longleftrightarrow> in_network value (expected, bits)"
proof -
  let ?k = "bits div 8" and ?r = "bits mod 8"
  have bits: "bits = 8 * ?k + ?r" by simp
  have k: "?k \<le> length value" "?k \<le> length expected" using assms(1,2) by auto
  have whole: "list_all (\<lambda>i. value ! i = expected ! i) [0..<?k] \<longleftrightarrow> ip_bits (take ?k value) = ip_bits (take ?k expected)"
    using assms(3) k by (subst ip_bits_inject) (auto simp: list_all_iff list_eq_iff_nth_eq dest: in_set_takeD)
  show ?thesis
  proof (cases "?r = 0")
    case True
    with bits have "bits = 8 * ?k" by linarith
    then have "in_network value (expected, bits) \<longleftrightarrow> ip_bits (take ?k value) = ip_bits (take ?k expected)"
      unfolding in_network_def fst_conv snd_conv by (metis k take_ip_bits_full)
    with whole True show ?thesis by (simp add: ip_prefix_def Let_def)
  next
    case False
    with assms(1,2) k have k: "?k < length value" "?k < length expected" by (auto simp: order_le_less)
    with assms(3) have "value ! ?k < 256" "expected ! ?k < 256" by auto
    then have part: "(value ! ?k) AND push_bit (8 - ?r) 0xff = (expected ! ?k) AND push_bit (8 - ?r) 0xff
        \<longleftrightarrow> take ?r (byte_bits (value ! ?k)) = take ?r (byte_bits (expected ! ?k))"
      by (subst masked_equal) (simp_all add: byte_prefix)
    have "in_network value (expected, bits) \<longleftrightarrow>
        ip_bits (take ?k value) @ take ?r (byte_bits (value ! ?k))
          = ip_bits (take ?k expected) @ take ?r (byte_bits (expected ! ?k))"
      unfolding in_network_def fst_conv snd_conv
      by (subst (1 2) bits) (simp only: take_ip_bits [OF k(1)] take_ip_bits [OF k(2)]
          order.strict_implies_order mod_less_divisor zero_less_numeral)
    also have "\<dots> \<longleftrightarrow> ip_bits (take ?k value) = ip_bits (take ?k expected)
        \<and> take ?r (byte_bits (value ! ?k)) = take ?r (byte_bits (expected ! ?k))"
      using k by (intro append_eq_append_conv) simp
    finally show ?thesis
      using whole part False by (auto simp: ip_prefix_def Let_def)
  qed
qed

lemma in_network_division:
  assumes "bits \<le> 8 * length value" and "bits \<le> 8 * length expected"
    and "\<forall>b \<in> set value \<union> set expected. b < 256"
  shows "in_network value (expected, bits) \<longleftrightarrow>
    take (bits div 8) value = take (bits div 8) expected
      \<and> (bits mod 8 = 0 \<or> value ! (bits div 8) div 2 ^ (8 - bits mod 8) = expected ! (bits div 8) div 2 ^ (8 - bits mod 8))"
proof -
  have "list_all (\<lambda>i. value ! i = expected ! i) [0..<bits div 8] \<longleftrightarrow> take (bits div 8) value = take (bits div 8) expected"
    using assms(1,2) by (auto simp: list_all_iff list_eq_iff_nth_eq)
  moreover have "(value ! (bits div 8)) AND push_bit (8 - bits mod 8) 0xff
      = (expected ! (bits div 8)) AND push_bit (8 - bits mod 8) 0xff
      \<longleftrightarrow> value ! (bits div 8) div 2 ^ (8 - bits mod 8) = expected ! (bits div 8) div 2 ^ (8 - bits mod 8)"
    if "bits mod 8 \<noteq> 0"
  proof -
    from that assms(1,2) have "bits div 8 < length value" "bits div 8 < length expected"
      by (auto simp: order_le_less)
    with assms(3) have "value ! (bits div 8) < 256" "expected ! (bits div 8) < 256" by auto
    then show ?thesis by (subst masked_equal) (simp_all add: drop_bit_eq_div)
  qed
  ultimately show ?thesis
    by (auto simp: ip_prefix_in_network [OF assms, symmetric] ip_prefix_def Let_def)
qed

section \<open>Parsing gives sixteen bytes\<close>

lemma hex_value_less: "is_lower_hex c \<Longrightarrow> hex_value c < 16"
  by (auto simp: is_lower_hex_def hex_value_def Let_def)

lemma read_hex_append: "read_hex (s @ [c]) = 16 * read_hex s + hex_value c"
  by (simp add: read_hex_def)

lemma read_hex_less: "list_all is_lower_hex s \<Longrightarrow> read_hex s < 16 ^ length s"
proof (induction s rule: rev_induct)
  case Nil
  then show ?case by (simp add: read_hex_def)
next
  case (snoc c s)
  then have "read_hex s < 16 ^ length s" "hex_value c < 16" by (simp_all add: hex_value_less)
  then show ?case by (simp add: read_hex_append)
qed

lemma hex_group_less: "hex_group p \<Longrightarrow> read_hex p < 65536"
proof -
  assume "hex_group p"
  then have "read_hex p < 16 ^ length p" "length p \<le> 4" by (simp_all add: hex_group_def read_hex_less)
  moreover from this(2) have "(16 :: nat) ^ length p \<le> 16 ^ 4" by (intro power_increasing) auto
  ultimately show ?thesis by simp
qed

lemma parseIpv6_bytes:
  assumes "parseIpv6 s = Some bs"
  shows "length bs = 16 \<and> (\<forall>b \<in> set bs. b < 256)"
proof -
  from assms obtain input where input: "rewrite_mapped (takeWhile (\<lambda>c. c \<noteq> CHR ''%'') (to_lower s)) = Some input"
    unfolding parseIpv6_def by (cases "rewrite_mapped (takeWhile (\<lambda>c. c \<noteq> CHR ''%'') (to_lower s))") auto
  define left where "left = colon_parts (before_double input)"
  define right where "right = (case after_double input of None \<Rightarrow> [] | Some r \<Rightarrow> colon_parts r)"
  from assms have bs: "bs = concat (map (\<lambda>p. word_bytes (read_hex p))
      (left @ replicate (8 - length left - length right) ''0'' @ right))"
    and groups: "list_all hex_group (left @ right)" and len: "length left + length right \<le> 8"
    unfolding parseIpv6_def Let_def input option.case left_def [symmetric] right_def [symmetric]
    by (auto split: if_splits)
  let ?ps = "left @ replicate (8 - length left - length right) ''0'' @ right"
  have "length ?ps = 8" using len by simp
  moreover have "length (concat (map (\<lambda>p. word_bytes (read_hex p)) ps)) = 2 * length ps" for ps
    by (induction ps) (simp_all add: word_bytes_def)
  ultimately have "length bs = 2 * 8" unfolding bs by metis
  then have "length bs = 16" by simp
  moreover have "hex_group ''0''" by (simp add: hex_group_def is_lower_hex_def)
  then have small: "read_hex p < 65536" if "p \<in> set ?ps" for p
    using that groups by (intro hex_group_less) (auto simp: list_all_iff)
  then have "\<forall>b \<in> set bs. b < 256"
  proof -
    have "\<forall>b \<in> set (word_bytes w). b < 256" if "w < 65536" for w
      using that by (auto simp: word_bytes_def)
    then have "\<forall>b \<in> set (concat (map (\<lambda>p. word_bytes (read_hex p)) ps)). b < 256"
      if "\<forall>p \<in> set ps. read_hex p < 65536" for ps
      using that by (induction ps) auto
    with small show ?thesis unfolding bs by blast
  qed
  ultimately show ?thesis ..
qed

section \<open>Properties\<close>

definition special_ipv4 :: "(nat list \<times> nat) list" where
  "special_ipv4 = [([0, 0, 0, 0], 8), ([10, 0, 0, 0], 8), ([127, 0, 0, 0], 8), ([224, 0, 0, 0], 3),
     ([100, 64, 0, 0], 10), ([169, 254, 0, 0], 16), ([172, 16, 0, 0], 12), ([192, 0, 0, 0], 16),
     ([192, 168, 0, 0], 16), ([198, 18, 0, 0], 15), ([198, 51, 100, 0], 24), ([203, 0, 113, 0], 24)]"

definition special_ipv6 :: "(nat list \<times> nat) list" where
  "special_ipv6 = [([0x20, 0x01, 0x00, 0x00], 32), ([0x20, 0x01, 0x00, 0x02, 0x00, 0x00], 48),
     ([0x20, 0x01, 0x00, 0x10], 28), ([0x20, 0x01, 0x0d, 0xb8], 32), ([0x20, 0x02], 16)]"

lemma div_eq_between: "0 < k \<Longrightarrow> x div k = q \<longleftrightarrow> k * q \<le> x \<and> x < k * q + (k :: nat)"
  using dividend_less_times_div [of k x] by (auto intro!: div_nat_eqI)

lemma routable_octets_networks:
  assumes "a < 256" "b < 256" "c < 256" "d < 256"
  shows "routable_octets a b c \<longleftrightarrow> (\<forall>net \<in> set special_ipv4. \<not> in_network [a, b, c, d] net)"
proof -
  have eqs: "in_network [a, b, c, d] ([0, 0, 0, 0], 8) \<longleftrightarrow> a = 0"
    "in_network [a, b, c, d] ([10, 0, 0, 0], 8) \<longleftrightarrow> a = 10"
    "in_network [a, b, c, d] ([127, 0, 0, 0], 8) \<longleftrightarrow> a = 127"
    "in_network [a, b, c, d] ([224, 0, 0, 0], 3) \<longleftrightarrow> a div 32 = 7"
    "in_network [a, b, c, d] ([100, 64, 0, 0], 10) \<longleftrightarrow> a = 100 \<and> b div 64 = 1"
    "in_network [a, b, c, d] ([169, 254, 0, 0], 16) \<longleftrightarrow> a = 169 \<and> b = 254"
    "in_network [a, b, c, d] ([172, 16, 0, 0], 12) \<longleftrightarrow> a = 172 \<and> b div 16 = 1"
    "in_network [a, b, c, d] ([192, 0, 0, 0], 16) \<longleftrightarrow> a = 192 \<and> b = 0"
    "in_network [a, b, c, d] ([192, 168, 0, 0], 16) \<longleftrightarrow> a = 192 \<and> b = 168"
    "in_network [a, b, c, d] ([198, 18, 0, 0], 15) \<longleftrightarrow> a = 198 \<and> b div 2 = 9"
    "in_network [a, b, c, d] ([198, 51, 100, 0], 24) \<longleftrightarrow> a = 198 \<and> b = 51 \<and> c = 100"
    "in_network [a, b, c, d] ([203, 0, 113, 0], 24) \<longleftrightarrow> a = 203 \<and> b = 0 \<and> c = 113"
    by (simp_all add: in_network_division assms)
  have divs: "a div 32 = 7 \<longleftrightarrow> a \<ge> 224" "b div 64 = 1 \<longleftrightarrow> 64 \<le> b \<and> b \<le> 127"
    "b div 16 = 1 \<longleftrightarrow> 16 \<le> b \<and> b \<le> 31" "b div 2 = 9 \<longleftrightarrow> b = 18 \<or> b = 19"
    using assms(1) by (auto simp: div_eq_between)
  show ?thesis
    unfolding special_ipv4_def routable_octets_def list.set ball_simps eqs divs by (simp only: de_Morgan_disj simp_thms)
qed

lemma four_octets:
  "length xs = 4 \<and> list_all (\<lambda>p. case p of None \<Rightarrow> False | Some v \<Rightarrow> v \<le> (255 :: nat)) xs
      \<and> P (the (xs ! 0)) (the (xs ! 1)) (the (xs ! 2))
    \<longleftrightarrow> (\<exists>a b c d. xs = [Some a, Some b, Some c, Some d] \<and> a \<le> 255 \<and> b \<le> 255 \<and> c \<le> 255 \<and> d \<le> 255 \<and> P a b c)"
proof
  assume l: "length xs = 4 \<and> list_all (\<lambda>p. case p of None \<Rightarrow> False | Some v \<Rightarrow> v \<le> (255 :: nat)) xs
      \<and> P (the (xs ! 0)) (the (xs ! 1)) (the (xs ! 2))"
  then obtain p q r s where "xs = [p, q, r, s]"
    by (auto simp: length_Suc_conv eval_nat_numeral)
  with l show "\<exists>a b c d. xs = [Some a, Some b, Some c, Some d] \<and> a \<le> 255 \<and> b \<le> 255 \<and> c \<le> 255 \<and> d \<le> 255 \<and> P a b c"
    by (auto split: option.splits)
qed auto

text \<open>A dotted address is globally routable exactly when its octets are at most 255 and it is
  outside every one of twelve special-use networks, among them the private, loopback, link-local,
  shared, documentation, benchmarking and multicast ones.\<close>

theorem ipv4_routable_iff_outside_special_networks:
  "isGloballyRoutableIpv4 address \<longleftrightarrow>
    (\<exists>a b c d. map digits_value (split_on CHR ''.'' address) = [Some a, Some b, Some c, Some d]
       \<and> (a \<le> 255 \<and> b \<le> 255 \<and> c \<le> 255 \<and> d \<le> 255)
       \<and> list_all (\<lambda>net. \<not> in_network [a, b, c, d] net) special_ipv4)"
proof -
  have "a \<le> 255 \<and> b \<le> 255 \<and> c \<le> 255 \<and> d \<le> 255 \<and> routable_octets a b c
      \<longleftrightarrow> (a \<le> 255 \<and> b \<le> 255 \<and> c \<le> 255 \<and> d \<le> 255)
        \<and> list_all (\<lambda>net. \<not> in_network [a, b, c, d] net) special_ipv4" for a b c d
    using routable_octets_networks [of a b c d] unfolding list_all_iff by linarith
  then show ?thesis
    unfolding isGloballyRoutableIpv4_def Let_def four_octets by (simp only:)
qed

lemma first_byte_global:
  assumes "(v :: nat) < 256"
  shows "v AND 0xe0 = 0x20 \<longleftrightarrow> v div 32 = 1"
proof -
  have "(0xe0 :: nat) = push_bit 5 (mask 3)" by (simp add: mask_eq_exp_minus_1 push_bit_eq_mult)
  moreover have "v AND push_bit 5 (mask 3) = push_bit 5 (drop_bit 5 v)"
  proof (rule bit_eqI)
    fix n
    have high: "bit v n \<Longrightarrow> n < 8" using byte_high_bits [OF assms, of n] by (meson not_less)
    show "bit (v AND push_bit 5 (mask 3)) n = bit (push_bit 5 (drop_bit 5 v)) n"
      unfolding bit_and_iff bit_push_bit_iff bit_drop_bit_eq o_def bit_mask_iff
      using high by (cases "5 \<le> n") auto
  qed
  ultimately show ?thesis by (simp add: push_bit_eq_mult drop_bit_eq_div)
qed

lemma bytes_16:
  assumes "length bs = 16"
  obtains b0 b1 b2 b3 b4 b5 b6 b7 b8 b9 b10 b11 b12 b13 b14 b15
  where "bs = [b0, b1, b2, b3, b4, b5, b6, b7, b8, b9, b10, b11, b12, b13, b14, b15]"
  using assms by (auto simp: length_Suc_conv eval_nat_numeral)

lemma routable_ipv6_bytes_networks:
  assumes "length bs = 16" and "\<forall>b \<in> set bs. b < 256"
  shows "routable_ipv6_bytes bs \<longleftrightarrow>
    (if in_network bs (replicate 10 0 @ [0xff, 0xff], 96)
     then list_all (\<lambda>net. \<not> in_network (drop 12 bs) net) special_ipv4
     else in_network bs ([0x20], 3) \<and> list_all (\<lambda>net. \<not> in_network bs net) special_ipv6)"
proof -
  from bytes_16 [OF assms(1)] obtain b0 b1 b2 b3 b4 b5 b6 b7 b8 b9 b10 b11 b12 b13 b14 b15
    where bs: "bs = [b0, b1, b2, b3, b4, b5, b6, b7, b8, b9, b10, b11, b12, b13, b14, b15]" .
  have zeros: "replicate 10 (0 :: nat) = [0, 0, 0, 0, 0, 0, 0, 0, 0, 0]" by (simp add: eval_nat_numeral)
  have mapped: "in_network bs (replicate 10 0 @ [0xff, 0xff], 96)
      \<longleftrightarrow> list_all (\<lambda>v. v = 0) (take 10 bs) \<and> bs ! 10 = 0xff \<and> bs ! 11 = 0xff"
    using assms by (simp add: in_network_division bs zeros)
  have global: "in_network bs ([0x20], 3) \<longleftrightarrow> (bs ! 0) AND 0xe0 = 0x20"
    using assms by (simp add: in_network_division bs first_byte_global)
  have zero: "list_all (\<lambda>v. v = 0) (take 12 bs) \<Longrightarrow> (bs ! 0) AND 0xe0 \<noteq> 0x20"
    by (simp add: bs)
  have v4: "list_all (\<lambda>net. \<not> in_network (drop 12 bs) net) special_ipv4
      \<longleftrightarrow> routable_octets (bs ! 12) (bs ! 13) (bs ! 14)"
    using assms routable_octets_networks [of b12 b13 b14 b15] by (simp add: bs list_all_iff)
  have nets: "ip_prefix bs [0x20, 0x01, 0x00, 0x00] 32 \<longleftrightarrow> in_network bs ([0x20, 0x01, 0x00, 0x00], 32)"
    "ip_prefix bs [0x20, 0x01, 0x00, 0x02, 0x00, 0x00] 48 \<longleftrightarrow> in_network bs ([0x20, 0x01, 0x00, 0x02, 0x00, 0x00], 48)"
    "ip_prefix bs [0x20, 0x01, 0x00, 0x10] 28 \<longleftrightarrow> in_network bs ([0x20, 0x01, 0x00, 0x10], 28)"
    "ip_prefix bs [0x20, 0x01, 0x0d, 0xb8] 32 \<longleftrightarrow> in_network bs ([0x20, 0x01, 0x0d, 0xb8], 32)"
    "ip_prefix bs [0x20, 0x02] 16 \<longleftrightarrow> in_network bs ([0x20, 0x02], 16)"
    by (simp_all add: ip_prefix_in_network assms)
  show ?thesis
    unfolding routable_ipv6_bytes_def mapped v4 global nets special_ipv6_def list.pred_inject
    using zero by auto
qed

text \<open>C33. An IPv6 address is globally routable exactly when it is an IPv4-mapped address whose
  embedded address is outside the special-use IPv4 networks, or it is in 2000::/3 and outside the
  Teredo, benchmarking, ORCHID, documentation and 6to4 networks. What does not parse is refused.\<close>

theorem ipv6_routable_iff_networks:
  assumes "isIP address = 6"
  shows "isGloballyRoutableIp address \<longleftrightarrow>
    (\<exists>bs. parseIpv6 address = Some bs \<and> length bs = 16 \<and>
      (if in_network bs (replicate 10 0 @ [0xff, 0xff], 96)
       then list_all (\<lambda>net. \<not> in_network (drop 12 bs) net) special_ipv4
       else in_network bs ([0x20], 3) \<and> list_all (\<lambda>net. \<not> in_network bs net) special_ipv6))"
  using parseIpv6_bytes [of address] routable_ipv6_bytes_networks
  by (auto simp: isGloballyRoutableIp_def assms split: option.split)

theorem ipv6_routable_iff_networks_witness:
  "\<not> isGloballyRoutableIp ''::ffff:10.0.0.1''"
proof -
  have "isIP ''::ffff:10.0.0.1'' = 6" by code_simp
  from ipv6_routable_iff_networks [OF this]
  have "isGloballyRoutableIp ''::ffff:10.0.0.1'' \<longleftrightarrow>
    (\<exists>bs. parseIpv6 ''::ffff:10.0.0.1'' = Some bs \<and> length bs = 16 \<and>
      (if in_network bs (replicate 10 0 @ [0xff, 0xff], 96)
       then list_all (\<lambda>net. \<not> in_network (drop 12 bs) net) special_ipv4
       else in_network bs ([0x20], 3) \<and> list_all (\<lambda>net. \<not> in_network bs net) special_ipv6))" .
  moreover have "replicate 5 x = [x, x, x, x, x]" for x :: "nat list" by (simp add: eval_nat_numeral)
  then have "parseIpv6 ''::ffff:10.0.0.1'' = Some [0, 0, 0, 0, 0, 0, 0, 0, 0, 0, 255, 255, 10, 0, 0, 1]"
    by (simp add: parseIpv6_def rewrite_mapped_def to_lower_def to_lower_char_def after_last_colon_def
        digits_value_def is_digit_def read_nat_def digit_value_def show_hex.simps hex_char_def colon_parts_def
        word_bytes_def read_hex_def hex_value_def hex_group_def is_lower_hex_def Let_def)
  moreover have "in_network [0, 0, 0, 0, 0, 0, 0, 0, 0, 0, 255, 255, 10, 0, 0, 1] (replicate 10 0 @ [0xff, 0xff], 96)"
    by code_simp
  moreover have "\<not> list_all (\<lambda>net. \<not> in_network [10, 0, 0, 1] net) special_ipv4"
    by code_simp
  ultimately show ?thesis by simp
qed

end
