(* ===== verification/Json.thy ===== *)
theory Json
  imports Network_Address
begin

text \<open>JSON values, as \<open>JSON.parse\<close> and the YAML parser deliver them, and character
  patterns. The text form belongs to the language runtime; what the program reads from and writes to
  its journals and records is modelled on the values.\<close>

datatype json =
    JNull
  | JBool bool
  | JNumber int
  | JString string
  | JArray "json list"
  | JObject "(string \<times> json) list"

definition obj_get :: "string \<Rightarrow> (string \<times> json) list \<Rightarrow> json option" where
  "obj_get k fields = map_of fields k"

definition as_string :: "json option \<Rightarrow> string option" where
  "as_string j = (case j of Some (JString s) \<Rightarrow> Some s | _ \<Rightarrow> None)"

definition as_number :: "json option \<Rightarrow> int option" where
  "as_number j = (case j of Some (JNumber n) \<Rightarrow> Some n | _ \<Rightarrow> None)"

lemma as_string_simps [simp]: "as_string (Some (JString s)) = Some s" "as_string None = None"
  by (simp_all add: as_string_def)

lemma as_number_simps [simp]: "as_number (Some (JNumber n)) = Some n" "as_number None = None"
  by (simp_all add: as_number_def)

text \<open>The values of an array, when all of them convert.\<close>

fun all_some :: "('a \<Rightarrow> 'b option) \<Rightarrow> 'a list \<Rightarrow> 'b list option" where
  "all_some f [] = Some []"
| "all_some f (x # xs) = (case f x of
       None \<Rightarrow> None
     | Some y \<Rightarrow> (case all_some f xs of None \<Rightarrow> None | Some ys \<Rightarrow> Some (y # ys)))"

lemma all_some_map: "(\<And>x. x \<in> set xs \<Longrightarrow> f (g x) = Some x) \<Longrightarrow> all_some f (map g xs) = Some xs"
  by (induction xs) auto

section \<open>Characters and patterns\<close>

definition is_alnum :: "char \<Rightarrow> bool" where
  "is_alnum c = (let n = (of_char c :: nat) in
     (48 \<le> n \<and> n \<le> 57) \<or> (65 \<le> n \<and> n \<le> 90) \<or> (97 \<le> n \<and> n \<le> 122))"

definition is_lower_alnum :: "char \<Rightarrow> bool" where
  "is_lower_alnum c = (let n = (of_char c :: nat) in (48 \<le> n \<and> n \<le> 57) \<or> (97 \<le> n \<and> n \<le> 122))"

text \<open>\<open>trim\<close>: white space and line terminators below 256.\<close>

definition js_space :: "char \<Rightarrow> bool" where
  "js_space c = ((of_char c :: nat) \<in> {9, 10, 11, 12, 13, 32, 160})"

definition js_trim :: "string \<Rightarrow> string" where
  "js_trim s = rev (dropWhile js_space (rev (dropWhile js_space s)))"

text \<open>A pattern of single characters.\<close>

definition char_pattern :: "(char \<Rightarrow> bool) list \<Rightarrow> string \<Rightarrow> bool" where
  "char_pattern ps s = list_all2 (\<lambda>p c. p c) ps s"

text \<open>The pattern of a UUID, with the case ignored.\<close>

definition uuid_pattern :: "(char \<Rightarrow> bool) list" where
  "uuid_pattern = replicate 8 is_hex @ [(=) CHR ''-''] @ replicate 4 is_hex @ [(=) CHR ''-'']
     @ [\<lambda>c. c \<in> set ''12345''] @ replicate 3 is_hex @ [(=) CHR ''-'']
     @ [\<lambda>c. c \<in> set ''89abAB''] @ replicate 3 is_hex @ [(=) CHR ''-''] @ replicate 12 is_hex"

definition is_uuid :: "string \<Rightarrow> bool" where
  "is_uuid s = char_pattern uuid_pattern s"

end
