(* ===== verification/Terminals.thy ===== *)
theory Terminals
  imports Utf8 Lease Json Sorts
begin

text \<open>The interactive terminals of a computer: packages/control/src/pty.ts. A terminal is a helper
  process that speaks JSON lines on its standard output. The manager keeps the latest output of each
  terminal within a budget for one and a budget for all.

  A session object outlives its entry in the table, because the callbacks of its child hold it: the objects
  are kept in \<open>ty_objects\<close> and the identifiers of the table, in its order, in \<open>ty_listed\<close>. An
  identifier is made of 12 random bytes and taken to be fresh. The child, the clock, \<open>JSON.parse\<close> of a line and
  the decoding of base64 text are arguments. A waiting read is known by its number; \<open>ty_resumed\<close> is the list
  of the reads that were notified. The time in milliseconds of the computer's clock is positive.\<close>

section \<open>Sessions\<close>

definition MAX_TERMINALS :: nat where "MAX_TERMINALS = 8"
definition MAX_OUTPUT_BYTES :: nat where "MAX_OUTPUT_BYTES = 4000000"
definition MAX_AGGREGATE_OUTPUT_BYTES :: nat where "MAX_AGGREGATE_OUTPUT_BYTES = 16000000"
definition MAX_TERMINAL_INPUT_BYTES :: nat where "MAX_TERMINAL_INPUT_BYTES = 64000"
definition MAX_PROTOCOL_LINE_BYTES :: nat where "MAX_PROTOCOL_LINE_BYTES = 256000"
definition DEFAULT_COMPLETED_TTL_MS :: int where "DEFAULT_COMPLETED_TTL_MS = 7 * 24 * 60 * 60 * 1000"
definition DEFAULT_MAX_COMPLETED_TERMINALS :: nat where "DEFAULT_MAX_COMPLETED_TERMINALS = 32"

datatype terminal_lifecycle = SessionTerminal | TaskTerminal

text \<open>The promise \<open>ready\<close>, which settles once.\<close>

datatype ready_state = ReadyPending | Ready | ReadyRejected string

record pty_session =
  ty_id :: string
  ty_label :: string
  ty_lifecycle :: terminal_lifecycle
  ty_owner :: lease_proof
  ty_pid :: "nat option"
  ty_startedAt :: int
  ty_finishedAt :: "int option"
  ty_exitCode :: "int option"
  ty_signal :: "string option"
  ty_output :: "nat list"
  ty_outputOffset :: nat
  ty_totalOutput :: nat
  ty_protocolBuffer :: "nat list"
  ty_protocolError :: "string option"
  ty_ready :: ready_state
  ty_notify :: "nat list"
  ty_cleanupTimer :: "int option"

text \<open>The options with their defaults filled in; \<open>yl_localeBefore\<close> is \<open>localeCompare\<close> being at most 0.\<close>

record pty_limits =
  yl_maxTerminals :: nat
  yl_maxOutputBytes :: nat
  yl_maxAggregateOutputBytes :: nat
  yl_completedTtlMs :: int
  yl_maxCompletedTerminals :: nat
  yl_localeBefore :: "string \<Rightarrow> string \<Rightarrow> bool"

definition default_pty_limits :: "(string \<Rightarrow> string \<Rightarrow> bool) \<Rightarrow> pty_limits" where
  "default_pty_limits before = \<lparr>yl_maxTerminals = MAX_TERMINALS, yl_maxOutputBytes = MAX_OUTPUT_BYTES,
     yl_maxAggregateOutputBytes = MAX_AGGREGATE_OUTPUT_BYTES, yl_completedTtlMs = DEFAULT_COMPLETED_TTL_MS,
     yl_maxCompletedTerminals = DEFAULT_MAX_COMPLETED_TERMINALS, yl_localeBefore = before\<rparr>"

record pty_manager =
  ty_objects :: "(string, pty_session) js_map"
  ty_listed :: "string list"
  ty_aggregate :: int
  ty_resumed :: "nat list"

definition new_pty_manager :: pty_manager where
  "new_pty_manager = \<lparr>ty_objects = [], ty_listed = [], ty_aggregate = 0, ty_resumed = []\<rparr>"

definition find_session :: "string \<Rightarrow> pty_manager \<Rightarrow> pty_session option" where
  "find_session i m = map_of (ty_objects m) i"

definition put_session :: "string \<Rightarrow> pty_session \<Rightarrow> pty_manager \<Rightarrow> pty_manager" where
  "put_session i s m = m\<lparr>ty_objects := AList.update i s (ty_objects m)\<rparr>"

definition change_session :: "string \<Rightarrow> (pty_session \<Rightarrow> pty_session) \<Rightarrow> pty_manager \<Rightarrow> pty_manager" where
  "change_session i f m = (case find_session i m of None \<Rightarrow> m | Some s \<Rightarrow> put_session i (f s) m)"

text \<open>The entries of the table, in its order.\<close>

definition listed_sessions :: "pty_manager \<Rightarrow> (string \<times> pty_session) list" where
  "listed_sessions m = concat (map (\<lambda>i. case find_session i m of None \<Rightarrow> [] | Some s \<Rightarrow> [(i, s)]) (ty_listed m))"

definition terminal_running :: "pty_session \<Rightarrow> bool" where
  "terminal_running s = (ty_finishedAt s = None)"

definition runningCount :: "pty_manager \<Rightarrow> nat" where
  "runningCount m = length (filter (\<lambda>(i, s). terminal_running s) (listed_sessions m))"

section \<open>Output\<close>

definition notify_readers :: "string \<Rightarrow> pty_manager \<Rightarrow> pty_manager" where
  "notify_readers i m = (case find_session i m of
       None \<Rightarrow> m
     | Some s \<Rightarrow> (put_session i (s\<lparr>ty_notify := []\<rparr>) m)\<lparr>ty_resumed := ty_resumed m @ ty_notify s\<rparr>)"

text \<open>How many bytes are removed: not less than was asked for, and no code point is cut.\<close>

definition dropped_bytes :: "int \<Rightarrow> nat list \<Rightarrow> nat" where
  "dropped_bytes requested d = (let n = min (nat requested) (length d) in n + length (takeWhile continuation (drop n d)))"

definition dropOutput :: "string \<Rightarrow> int \<Rightarrow> pty_manager \<Rightarrow> pty_manager" where
  "dropOutput i requested m = (case find_session i m of
       None \<Rightarrow> m
     | Some s \<Rightarrow>
         (let removed = dropped_bytes requested (ty_output s)
          in if removed = 0 then m
             else (put_session i (s\<lparr>ty_output := drop removed (ty_output s), ty_outputOffset := ty_outputOffset s + removed\<rparr>) m)
                    \<lparr>ty_aggregate := ty_aggregate m - int removed\<rparr>))"

definition older_terminal :: "pty_session \<Rightarrow> pty_session \<Rightarrow> bool" where
  "older_terminal l r = (let d = of_bool (terminal_running l) - of_bool (terminal_running r) :: int
     in (if d \<noteq> 0 then d else ty_startedAt l - ty_startedAt r) \<le> 0)"

definition oldest_with_output :: "pty_manager \<Rightarrow> string option" where
  "oldest_with_output m =
     (case sort_by (\<lambda>l r. older_terminal (snd l) (snd r)) (filter (\<lambda>(i, s). ty_output s \<noteq> []) (listed_sessions m)) of
       [] \<Rightarrow> None
     | (i, s) # _ \<Rightarrow> Some i)"

lemma dropped_bytes_le: "dropped_bytes requested d \<le> length d"
proof -
  have "length (takeWhile continuation (drop n d)) \<le> length d - n" for n
    by (metis length_drop length_takeWhile_le)
  then show ?thesis by (simp add: dropped_bytes_def Let_def min_def) (metis le_diff_conv2 add.commute nat_le_linear)
qed

lemma dropped_bytes_ge: "min (nat requested) (length d) \<le> dropped_bytes requested d"
  by (simp add: dropped_bytes_def Let_def)

lemma listed_found: "(i, s) \<in> set (listed_sessions m) \<longleftrightarrow> i \<in> set (ty_listed m) \<and> find_session i m = Some s"
  by (auto simp: listed_sessions_def split: option.splits)

lemma oldest_listed:
  assumes "oldest_with_output m = Some i"
  obtains s where "i \<in> set (ty_listed m)" "find_session i m = Some s" "ty_output s \<noteq> []"
proof -
  obtain s xs where "sort_by (\<lambda>l r. older_terminal (snd l) (snd r)) (filter (\<lambda>(i, s). ty_output s \<noteq> []) (listed_sessions m)) = (i, s) # xs"
    using assms by (auto simp: oldest_with_output_def split: list.splits)
  then have "(i, s) \<in> set (filter (\<lambda>(i, s). ty_output s \<noteq> []) (listed_sessions m))"
    by (metis list.set_intros(1) sort_by_set)
  then show thesis using that by (auto simp: listed_found)
qed

lemma no_oldest: "oldest_with_output m = None \<longleftrightarrow> (\<forall>(i, s) \<in> set (listed_sessions m). ty_output s = [])"
proof -
  have "oldest_with_output m = None \<longleftrightarrow> filter (\<lambda>(i, s). ty_output s \<noteq> []) (listed_sessions m) = []"
    unfolding oldest_with_output_def by (metis (no_types, lifting) list.exhaust list.simps(4,5) option.distinct(1) old.prod.exhaust
        prod.simps(2) sort_by_empty)
  then show ?thesis by (auto simp: filter_empty_conv)
qed

lemma dropOutput_aggregate:
  assumes "find_session i m = Some s"
  shows "ty_aggregate (dropOutput i requested m) = ty_aggregate m - int (dropped_bytes requested (ty_output s))"
  using assms by (simp add: dropOutput_def put_session_def Let_def)

lemma drop_shrinks:
  assumes "oldest_with_output m = Some i" and "0 < requested"
  shows "ty_aggregate (dropOutput i requested m) < ty_aggregate m"
proof -
  from assms(1) obtain s where s: "find_session i m = Some s" "ty_output s \<noteq> []" by (rule oldest_listed)
  then have "0 < min (nat requested) (length (ty_output s))" using assms(2) by simp
  then have "0 < dropped_bytes requested (ty_output s)" using dropped_bytes_ge by (rule order.strict_trans2)
  then show ?thesis using s by (simp add: dropOutput_aggregate)
qed

text \<open>The loop that trims until the budget for all terminals is kept, or nothing is left to trim.\<close>

function trim_aggregate :: "pty_limits \<Rightarrow> pty_manager \<Rightarrow> pty_manager" where
  "trim_aggregate lim m =
     (if ty_aggregate m \<le> int (yl_maxAggregateOutputBytes lim) then m
      else (case oldest_with_output m of
          None \<Rightarrow> m
        | Some i \<Rightarrow> trim_aggregate lim (dropOutput i (ty_aggregate m - int (yl_maxAggregateOutputBytes lim)) m)))"
  by auto
termination
  by (relation "measure (\<lambda>(lim, m). nat (ty_aggregate m - int (yl_maxAggregateOutputBytes lim)))") (auto dest!: drop_shrinks)

declare trim_aggregate.simps [simp del]

definition append_terminal :: "pty_limits \<Rightarrow> string \<Rightarrow> nat list \<Rightarrow> pty_manager \<Rightarrow> pty_manager" where
  "append_terminal lim i data m = (case find_session i m of
       None \<Rightarrow> m
     | Some s \<Rightarrow>
         if data = [] then m
         else
           (let s1 = s\<lparr>ty_output := ty_output s @ data, ty_totalOutput := ty_totalOutput s + length data\<rparr>;
                m1 = (put_session i s1 m)\<lparr>ty_aggregate := ty_aggregate m + int (length data)\<rparr>;
                m2 = dropOutput i (max (int (length (ty_output s1)) - int (yl_maxOutputBytes lim)) 0) m1
            in notify_readers i (trim_aggregate lim m2)))"

section \<open>The end of a terminal\<close>

definition deleteSession :: "string \<Rightarrow> pty_manager \<Rightarrow> pty_manager" where
  "deleteSession i m = (case find_session i m of
       None \<Rightarrow> m
     | Some s \<Rightarrow>
         if i \<notin> set (ty_listed m) \<or> terminal_running s then m
         else (put_session i (s\<lparr>ty_cleanupTimer := None, ty_output := [], ty_notify := []\<rparr>) m)
                \<lparr>ty_aggregate := max 0 (ty_aggregate m - int (length (ty_output s))), ty_listed := removeAll i (ty_listed m)\<rparr>)"

definition finished_before :: "(string \<Rightarrow> string \<Rightarrow> bool) \<Rightarrow> string \<times> pty_session \<Rightarrow> string \<times> pty_session \<Rightarrow> bool" where
  "finished_before before l r = (case (ty_finishedAt (snd l), ty_finishedAt (snd r)) of
       (Some a, Some b) \<Rightarrow> a < b \<or> a = b \<and> before (ty_id (snd l)) (ty_id (snd r))
     | _ \<Rightarrow> True)"

definition completed_terminals :: "pty_limits \<Rightarrow> pty_manager \<Rightarrow> string list" where
  "completed_terminals lim m = map fst (sort_by (finished_before (yl_localeBefore lim))
     (filter (\<lambda>(i, s). \<not> terminal_running s) (listed_sessions m)))"

definition pruneTerminals :: "pty_limits \<Rightarrow> pty_manager \<Rightarrow> pty_manager" where
  "pruneTerminals lim m = (let completed = completed_terminals lim m
     in fold deleteSession (take (length completed - yl_maxCompletedTerminals lim) completed) m)"

definition complete_terminal :: "pty_limits \<Rightarrow> string \<Rightarrow> int \<Rightarrow> int option \<Rightarrow> string option \<Rightarrow> pty_manager \<Rightarrow> pty_manager" where
  "complete_terminal lim i now code sig m = (case find_session i m of
       None \<Rightarrow> m
     | Some s \<Rightarrow>
         if \<not> terminal_running s then m
         else
           (let s1 = s\<lparr>ty_finishedAt := Some now,
                  ty_exitCode := (case code of None \<Rightarrow> ty_exitCode s | Some c \<Rightarrow> Some c),
                  ty_signal := (case sig of None \<Rightarrow> ty_signal s | Some c \<Rightarrow> Some c)\<rparr>;
                m1 = notify_readers i (put_session i s1 m);
                m2 = change_session i (\<lambda>s. s\<lparr>ty_cleanupTimer := Some (now + yl_completedTtlMs lim)\<rparr>) m1
            in pruneTerminals lim m2))"

section \<open>The protocol of the helper\<close>

definition settle_ready :: "ready_state \<Rightarrow> pty_session \<Rightarrow> pty_session" where
  "settle_ready r s = (if ty_ready s = ReadyPending then s\<lparr>ty_ready := r\<rparr> else s)"

definition protocol_error :: "string \<Rightarrow> pty_session \<Rightarrow> pty_session" where
  "protocol_error e s = s\<lparr>ty_protocolError := Some e\<rparr>"

text \<open>One line, when it is JSON.\<close>

datatype helper_event = HelperReady | HelperOutput "nat list" | HelperError string | HelperExit "int option" "string option"
  | HelperOther | HelperInvalid

definition text_field :: "string \<Rightarrow> (string \<times> json) list \<Rightarrow> string option" where
  "text_field k fs = (case map_of fs k of Some (JString d) \<Rightarrow> Some d | _ \<Rightarrow> None)"

definition helper_event :: "(string \<Rightarrow> nat list) \<Rightarrow> json option \<Rightarrow> helper_event" where
  "helper_event b64 parsed = (case parsed of
       None \<Rightarrow> HelperInvalid
     | Some JNull \<Rightarrow> HelperInvalid
     | Some (JObject fs) \<Rightarrow>
         (case (text_field ''type'' fs, text_field ''data'' fs, text_field ''message'' fs) of
            (Some type, data, message) \<Rightarrow>
              if type = ''ready'' then HelperReady
              else if type = ''output'' \<and> data \<noteq> None then HelperOutput (b64 (the data))
              else if type = ''error'' \<and> message \<noteq> None then HelperError (the message)
              else if type = ''exit''
              then HelperExit (case map_of fs ''code'' of Some (JNumber n) \<Rightarrow> Some n | _ \<Rightarrow> None) (text_field ''signal'' fs)
              else HelperOther
          | _ \<Rightarrow> HelperOther)
     | Some _ \<Rightarrow> HelperOther)"

definition helper_line ::
  "pty_limits \<Rightarrow> (string \<Rightarrow> nat list) \<Rightarrow> (nat list \<Rightarrow> json option) \<Rightarrow> string \<Rightarrow> int \<Rightarrow> nat list \<Rightarrow> pty_manager \<Rightarrow> pty_manager"
where
  "helper_line lim b64 parse i now line m = (case helper_event b64 (parse line) of
       HelperReady \<Rightarrow> change_session i (settle_ready Ready) m
     | HelperOutput data \<Rightarrow> append_terminal lim i data m
     | HelperError message \<Rightarrow> change_session i (protocol_error message) m
     | HelperExit code sig \<Rightarrow> complete_terminal lim i now code sig m
     | HelperOther \<Rightarrow> m
     | HelperInvalid \<Rightarrow> change_session i (protocol_error ''PTY helper returned invalid JSON.'') m)"

text \<open>The complete lines of a buffer, without their newlines, and what follows the last of them.\<close>

function protocol_lines :: "nat list \<Rightarrow> nat list list \<times> nat list" where
  "protocol_lines b = (if 10 \<notin> set b then ([], b)
     else (let (ls, rest) = protocol_lines (drop 1 (dropWhile (\<lambda>v. v \<noteq> 10) b)) in (takeWhile (\<lambda>v. v \<noteq> 10) b # ls, rest)))"
  by auto
termination
proof (relation "measure length")
  fix b :: "nat list"
  assume "\<not> 10 \<notin> set b"
  moreover have "length (dropWhile (\<lambda>v. v \<noteq> 10) b) \<le> length b" by (rule length_dropWhile_le)
  ultimately show "(drop 1 (dropWhile (\<lambda>v. v \<noteq> 10) b), b) \<in> measure length"
    by (cases b) (auto simp: less_Suc_eq_le length_dropWhile_le intro: le_trans [OF diff_le_self])
qed simp

declare protocol_lines.simps [simp del]

text \<open>What the manager does with a chunk of the helper's standard output, and whether it begins to close
  the terminal by force.\<close>

definition helper_output ::
  "pty_limits \<Rightarrow> (string \<Rightarrow> nat list) \<Rightarrow> (nat list \<Rightarrow> json option) \<Rightarrow> string \<Rightarrow> int \<Rightarrow> nat list \<Rightarrow> pty_manager
     \<Rightarrow> pty_manager \<times> bool"
where
  "helper_output lim b64 parse i now chunk m = (case find_session i m of
       None \<Rightarrow> (m, False)
     | Some s \<Rightarrow>
         (let buffer = ty_protocolBuffer s @ chunk;
              m1 = change_session i (\<lambda>s. s\<lparr>ty_protocolBuffer := buffer\<rparr>) m
          in if length buffer > MAX_PROTOCOL_LINE_BYTES
             then (change_session i (protocol_error ''PTY helper returned an oversized protocol line.'') m1, True)
             else
               (let (ls, rest) = protocol_lines buffer
                in (fold (helper_line lim b64 parse i now) ls (change_session i (\<lambda>s. s\<lparr>ty_protocolBuffer := rest\<rparr>) m1), False))))"

section \<open>Opening a terminal\<close>

definition terminal_limit :: qubicl_error where "terminal_limit = QubiclError ''terminal_limit'' 429"

definition open_terminal ::
  "pty_limits \<Rightarrow> string \<Rightarrow> string \<Rightarrow> terminal_lifecycle \<Rightarrow> lease_proof \<Rightarrow> nat option \<Rightarrow> int \<Rightarrow> pty_manager \<Rightarrow> pty_manager \<times> unit outcome"
where
  "open_terminal lim i label lifecycle owner pid now m =
     (if runningCount m \<ge> yl_maxTerminals lim then (m, Inl terminal_limit)
      else ((put_session i \<lparr>ty_id = i, ty_label = label, ty_lifecycle = lifecycle, ty_owner = owner, ty_pid = pid,
               ty_startedAt = now, ty_finishedAt = None, ty_exitCode = None, ty_signal = None, ty_output = [],
               ty_outputOffset = 0, ty_totalOutput = 0, ty_protocolBuffer = [], ty_protocolError = None,
               ty_ready = ReadyPending, ty_notify = [], ty_cleanupTimer = None\<rparr> m)\<lparr>ty_listed := ty_listed m @ [i]\<rparr>, Inr ()))"

definition child_error :: "pty_limits \<Rightarrow> string \<Rightarrow> int \<Rightarrow> string \<Rightarrow> pty_manager \<Rightarrow> pty_manager" where
  "child_error lim i now message m = complete_terminal lim i now None None
     (change_session i (\<lambda>s. settle_ready (ReadyRejected message) (protocol_error message s)) m)"

definition ready_timeout :: "string \<Rightarrow> pty_manager \<Rightarrow> pty_manager" where
  "ready_timeout i m = change_session i (settle_ready (ReadyRejected ''PTY helper did not become ready.'')) m"

section \<open>What the clients see\<close>

record pty_summary =
  yu_terminalId :: string
  yu_label :: string
  yu_lifecycle :: terminal_lifecycle
  yu_running :: bool
  yu_startedAt :: int
  yu_finishedAt :: "int option"
  yu_exitCode :: "int option"
  yu_signal :: "string option"
  yu_outputOffset :: nat
  yu_outputBytes :: nat

definition terminal_summary :: "pty_session \<Rightarrow> pty_summary" where
  "terminal_summary s = \<lparr>yu_terminalId = ty_id s, yu_label = ty_label s, yu_lifecycle = ty_lifecycle s,
     yu_running = terminal_running s, yu_startedAt = ty_startedAt s, yu_finishedAt = ty_finishedAt s, yu_exitCode = ty_exitCode s,
     yu_signal = ty_signal s, yu_outputOffset = ty_outputOffset s, yu_outputBytes = ty_totalOutput s\<rparr>"

text \<open>The dates are printed in ISO format, whose order is the order of the times.\<close>

definition list_terminals :: "pty_manager \<Rightarrow> pty_summary list" where
  "list_terminals m = sort_by (\<lambda>a b. yu_startedAt a \<le> yu_startedAt b) (map (\<lambda>(i, s). terminal_summary s) (listed_sessions m))"

datatype managed_status = TerminalRunning | TerminalExited | TerminalSignaled

record managed_terminal =
  yg_id :: string
  yg_pid :: "nat option"
  yg_status :: managed_status
  yg_startedAt :: int
  yg_finishedAt :: "int option"
  yg_label :: string
  yg_lifecycle :: terminal_lifecycle
  yg_ownedByAgent :: bool
  yg_ownerGeneration :: nat
  yg_exitCode :: "int option"
  yg_signal :: "string option"

definition managed_terminal_of :: "pty_session \<Rightarrow> managed_terminal" where
  "managed_terminal_of s = \<lparr>yg_id = ty_id s, yg_pid = (if terminal_running s then ty_pid s else None),
     yg_status = (if terminal_running s then TerminalRunning else if ty_signal s \<noteq> None \<and> ty_signal s \<noteq> Some [] then TerminalSignaled
       else TerminalExited),
     yg_startedAt = ty_startedAt s, yg_finishedAt = ty_finishedAt s, yg_label = ty_label s, yg_lifecycle = ty_lifecycle s,
     yg_ownedByAgent = (ty_lifecycle s = SessionTerminal), yg_ownerGeneration = proof_generation (ty_owner s),
     yg_exitCode = ty_exitCode s, yg_signal = (if ty_signal s = Some [] then None else ty_signal s)\<rparr>"

definition terminals_for_management :: "pty_manager \<Rightarrow> managed_terminal list" where
  "terminals_for_management m = map (\<lambda>(i, s). managed_terminal_of s) (listed_sessions m)"

definition terminal_not_found :: qubicl_error where "terminal_not_found = QubiclError ''terminal_not_found'' 404"
definition stale_terminal_owner :: qubicl_error where "stale_terminal_owner = QubiclError ''stale_terminal_owner'' 409"
definition terminal_not_running :: qubicl_error where "terminal_not_running = QubiclError ''terminal_not_running'' 409"

definition owned_terminal :: "string \<Rightarrow> lease_proof \<Rightarrow> pty_manager \<Rightarrow> pty_session outcome" where
  "owned_terminal i owner m = (if i \<notin> set (ty_listed m) then Inl terminal_not_found
     else (case find_session i m of
         None \<Rightarrow> Inl terminal_not_found
       | Some s \<Rightarrow> if ty_lifecycle s = SessionTerminal \<and> \<not> sameProof (ty_owner s) owner then Inl stale_terminal_owner else Inr s))"

definition running_terminal :: "string \<Rightarrow> lease_proof \<Rightarrow> pty_manager \<Rightarrow> pty_session outcome" where
  "running_terminal i owner m = rbind (owned_terminal i owner m) (\<lambda>s.
     if \<not> terminal_running s then Inl terminal_not_running else Inr s)"

section \<open>Reading\<close>

datatype page_encoding = PageUtf8 | PageBase64

record pty_page =
  yp_summary :: pty_summary
  yp_offset :: nat
  yp_nextOffset :: nat
  yp_truncated :: bool
  yp_encoding :: page_encoding
  yp_data :: "nat list"

text \<open>A read waits, as reader \<open>reader\<close>, when nothing is there beyond its offset; it goes on when it is
  notified or its time is up, in the state of that moment. The time being up withdraws the reader.\<close>

definition read_begin :: "string \<Rightarrow> lease_proof \<Rightarrow> nat \<Rightarrow> int \<Rightarrow> nat \<Rightarrow> pty_manager \<Rightarrow> pty_manager \<times> bool outcome" where
  "read_begin i owner offset waitMs reader m = (case owned_terminal i owner m of
       Inl e \<Rightarrow> (m, Inl e)
     | Inr s \<Rightarrow>
         if terminal_running s \<and> offset \<ge> ty_totalOutput s \<and> waitMs > 0
         then (change_session i (\<lambda>s. s\<lparr>ty_notify := ty_notify s @ [reader]\<rparr>) m, Inr True)
         else (m, Inr False))"

definition read_timeout :: "string \<Rightarrow> nat \<Rightarrow> pty_manager \<Rightarrow> pty_manager" where
  "read_timeout i reader m = change_session i (\<lambda>s. s\<lparr>ty_notify := removeAll reader (ty_notify s)\<rparr>) m"

definition terminal_page :: "page_encoding \<Rightarrow> pty_session \<Rightarrow> nat \<Rightarrow> nat \<Rightarrow> utf8_page" where
  "terminal_page encoding s local maxBytes = (case encoding of
       PageUtf8 \<Rightarrow> utf8Page (ty_output s) local maxBytes (\<not> terminal_running s)
     | PageBase64 \<Rightarrow> \<lparr>up_offset = local, up_nextOffset = min (length (ty_output s)) (local + maxBytes),
         up_data = take maxBytes (drop local (ty_output s))\<rparr>)"

definition read_end :: "string \<Rightarrow> lease_proof \<Rightarrow> nat \<Rightarrow> nat \<Rightarrow> page_encoding \<Rightarrow> pty_manager \<Rightarrow> pty_page outcome" where
  "read_end i owner offset maxBytes encoding m = rbind (owned_terminal i owner m) (\<lambda>s.
     (let requested = min offset (ty_totalOutput s);
          start = max requested (ty_outputOffset s);
          page = terminal_page encoding s (start - ty_outputOffset s) maxBytes;
          actual = ty_outputOffset s + up_offset page; next = ty_outputOffset s + up_nextOffset page
      in Inr \<lparr>yp_summary = terminal_summary s, yp_offset = actual, yp_nextOffset = next,
           yp_truncated = (requested < ty_outputOffset s \<or> next < ty_totalOutput s), yp_encoding = encoding, yp_data = up_data page\<rparr>))"

section \<open>Input and control\<close>

datatype helper_command = HelperInput "nat list" | HelperResize nat nat | HelperSignal string | HelperClose | KillChild

text \<open>The standard input of the child when a command is sent: closed or not, the bytes that wait, and
  whether the write fails.\<close>

record child_stdin =
  ci_closed :: bool
  ci_queued :: nat
  ci_fails :: bool

definition send_command :: "child_stdin \<Rightarrow> helper_command \<Rightarrow> helper_command list \<times> unit outcome" where
  "send_command c command =
     (if ci_closed c then ([], Inl terminal_not_running)
      else if ci_queued c > 256000 then ([], Inl (QubiclError ''terminal_backpressure'' 429))
      else ([command], if ci_fails c then Inl (QubiclError ''terminal_input_failed'' 409) else Inr ()))"

definition write_terminal :: "string \<Rightarrow> lease_proof \<Rightarrow> nat list \<Rightarrow> child_stdin \<Rightarrow> pty_manager \<Rightarrow> helper_command list \<times> nat outcome" where
  "write_terminal i owner data c m = (case running_terminal i owner m of
       Inl e \<Rightarrow> ([], Inl e)
     | Inr s \<Rightarrow>
         if length data > MAX_TERMINAL_INPUT_BYTES then ([], Inl (QubiclError ''terminal_input_too_large'' 413))
         else (let (sent, r) = send_command c (HelperInput data) in (sent, rbind r (\<lambda>_. Inr (length data)))))"

definition resize_terminal :: "string \<Rightarrow> lease_proof \<Rightarrow> nat \<Rightarrow> nat \<Rightarrow> child_stdin \<Rightarrow> pty_manager \<Rightarrow> helper_command list \<times> unit outcome" where
  "resize_terminal i owner rows columns c m = (case running_terminal i owner m of
       Inl e \<Rightarrow> ([], Inl e)
     | Inr s \<Rightarrow> send_command c (HelperResize rows columns))"

definition signal_terminal :: "string \<Rightarrow> lease_proof \<Rightarrow> string \<Rightarrow> child_stdin \<Rightarrow> pty_manager \<Rightarrow> helper_command list \<times> unit outcome" where
  "signal_terminal i owner sig c m = (case running_terminal i owner m of
       Inl e \<Rightarrow> ([], Inl e)
     | Inr s \<Rightarrow> send_command c (HelperSignal sig))"

section \<open>Closing\<close>

text \<open>Closing looks at the session three times: when it begins, after the wait for the helper and, when it
  had to kill the child, after the wait for the child. \<open>closing\<close> gives the states of the manager then.\<close>

record closing =
  cg_begin :: pty_manager
  cg_waited :: pty_manager
  cg_killed :: pty_manager
  cg_stdin :: child_stdin

definition is_finished :: "string \<Rightarrow> pty_manager \<Rightarrow> bool" where
  "is_finished i m = (case find_session i m of None \<Rightarrow> False | Some s \<Rightarrow> \<not> terminal_running s)"

definition terminal_fencing_failed :: qubicl_error where "terminal_fencing_failed = QubiclError ''terminal_fencing_failed'' 500"

definition closeSession :: "string \<Rightarrow> bool \<Rightarrow> closing \<Rightarrow> helper_command list \<times> unit outcome" where
  "closeSession i force c =
     (if is_finished i (cg_begin c) then ([], Inr ())
      else
        (let sent = fst (send_command (cg_stdin c) (if force then HelperSignal ''SIGKILL'' else HelperClose))
         in if is_finished i (cg_waited c) then (sent, Inr ())
            else (sent @ [KillChild], if is_finished i (cg_killed c) then Inr () else Inl terminal_fencing_failed)))"

definition close_terminal :: "string \<Rightarrow> lease_proof \<Rightarrow> bool \<Rightarrow> closing \<Rightarrow> helper_command list \<times> unit outcome" where
  "close_terminal i owner force c = (case owned_terminal i owner (cg_begin c) of
       Inl e \<Rightarrow> ([], Inl e)
     | Inr s \<Rightarrow> closeSession i force c)"

definition closeForManagement :: "string \<Rightarrow> closing \<Rightarrow> helper_command list \<times> bool outcome" where
  "closeForManagement i c =
     (if i \<notin> set (ty_listed (cg_begin c)) then ([], Inr False)
      else (let (sent, r) = closeSession i True c in (sent, rbind r (\<lambda>_. Inr True))))"

text \<open>\<open>Promise.all\<close>: every session is closed on its own, and the result is that of all.\<close>

fun close_all :: "string list \<Rightarrow> (string \<Rightarrow> closing) \<Rightarrow> unit outcome" where
  "close_all [] c = Inr ()"
| "close_all (i # is) c = rbind (snd (closeSession i True (c i))) (\<lambda>_. close_all is c)"

definition terminal_matches :: "lease_proof option \<Rightarrow> pty_session \<Rightarrow> bool" where
  "terminal_matches owner s = (ty_lifecycle s = SessionTerminal
     \<and> (case owner of None \<Rightarrow> True | Some p \<Rightarrow> sameProof (ty_owner s) p))"

definition owner_terminals :: "lease_proof option \<Rightarrow> pty_manager \<Rightarrow> string list" where
  "owner_terminals owner m = map fst (filter (\<lambda>(i, s). terminal_matches owner s) (listed_sessions m))"

definition terminateOwner_terminals :: "lease_proof option \<Rightarrow> pty_manager \<Rightarrow> (string \<Rightarrow> closing) \<Rightarrow> nat outcome" where
  "terminateOwner_terminals owner m c =
     (let matches = owner_terminals owner m in rbind (close_all matches c) (\<lambda>_. Inr (length matches)))"

definition shutdown_terminals :: "pty_manager \<Rightarrow> (string \<Rightarrow> closing) \<Rightarrow> unit outcome" where
  "shutdown_terminals m c = close_all (map fst (listed_sessions m)) c"

text \<open>The end of opening: when the helper became ready the summary is returned, otherwise the terminal is
  closed by force and the request fails.\<close>

definition open_end :: "string \<Rightarrow> closing \<Rightarrow> pty_summary outcome option" where
  "open_end i c = (case find_session i (cg_begin c) of
       None \<Rightarrow> None
     | Some s \<Rightarrow>
         (case ty_ready s of
            ReadyPending \<Rightarrow> None
          | Ready \<Rightarrow> Some (Inr (terminal_summary s))
          | ReadyRejected e \<Rightarrow> Some (rbind (snd (closeSession i True c)) (\<lambda>_. Inl (QubiclError ''terminal_start_failed'' 500)))))"

end
