(* ===== verification/Terminal_Events.thy ===== *)
theory Terminal_Events
  imports Terminals
begin

text \<open>What can happen to the terminals of Terminals: the requests, the output and the end of the child
  processes and the timers, in any order. The locale \<open>terminal_invariant\<close> reduces the invariants of all
  reachable states to those of the manager's own operations.\<close>

section \<open>Events\<close>

datatype pty_event =
    TerminalOpened string string terminal_lifecycle lease_proof "nat option" int
  | HelperChunk string int "nat list"
  | HelperStderr string "nat list"
  | HelperFailed string int string
  | HelperClosed string int "int option" "string option"
  | ReadyTimeout string
  | CleanupDue string
  | ReadBegun string lease_proof nat int nat
  | ReadTimeout string nat

definition pty_event_step ::
  "pty_limits \<Rightarrow> (string \<Rightarrow> nat list) \<Rightarrow> (nat list \<Rightarrow> json option) \<Rightarrow> pty_event \<Rightarrow> pty_manager \<Rightarrow> pty_manager"
where
  "pty_event_step lim b64 parse e m = (case e of
       TerminalOpened i label lifecycle owner pid now \<Rightarrow> fst (open_terminal lim i label lifecycle owner pid now m)
     | HelperChunk i now chunk \<Rightarrow> fst (helper_output lim b64 parse i now chunk m)
     | HelperStderr i chunk \<Rightarrow> append_terminal lim i chunk m
     | HelperFailed i now message \<Rightarrow> child_error lim i now message m
     | HelperClosed i now code sig \<Rightarrow> complete_terminal lim i now code sig m
     | ReadyTimeout i \<Rightarrow> ready_timeout i m
     | CleanupDue i \<Rightarrow> deleteSession i m
     | ReadBegun i owner offset waitMs reader \<Rightarrow> fst (read_begin i owner offset waitMs reader m)
     | ReadTimeout i reader \<Rightarrow> read_timeout i reader m)"

text \<open>The output of a terminal that an event delivers.\<close>

definition line_bytes :: "(string \<Rightarrow> nat list) \<Rightarrow> (nat list \<Rightarrow> json option) \<Rightarrow> nat list list \<Rightarrow> nat list" where
  "line_bytes b64 parse ls = concat (map (\<lambda>l. case helper_event b64 (parse l) of HelperOutput d \<Rightarrow> d | _ \<Rightarrow> []) ls)"

definition chunk_bytes :: "(string \<Rightarrow> nat list) \<Rightarrow> (nat list \<Rightarrow> json option) \<Rightarrow> string \<Rightarrow> nat list \<Rightarrow> pty_manager \<Rightarrow> nat list" where
  "chunk_bytes b64 parse i chunk m = (case find_session i m of
       None \<Rightarrow> []
     | Some s \<Rightarrow>
         (let buffer = ty_protocolBuffer s @ chunk
          in if length buffer > MAX_PROTOCOL_LINE_BYTES then [] else line_bytes b64 parse (fst (protocol_lines buffer))))"

text \<open>What each terminal has received since it was opened, after an event.\<close>

definition received_after ::
  "(string \<Rightarrow> nat list) \<Rightarrow> (nat list \<Rightarrow> json option) \<Rightarrow> pty_event \<Rightarrow> pty_manager \<Rightarrow> (string \<Rightarrow> nat list) \<Rightarrow> string \<Rightarrow> nat list"
where
  "received_after b64 parse e m st = (case e of
       TerminalOpened i _ _ _ _ _ \<Rightarrow> st(i := [])
     | HelperChunk i _ chunk \<Rightarrow> st(i := st i @ chunk_bytes b64 parse i chunk m)
     | HelperStderr i chunk \<Rightarrow> st(i := st i @ chunk)
     | _ \<Rightarrow> st)"

text \<open>The states that come later, with what has been received. A new identifier is fresh.\<close>

definition event_allowed :: "pty_event \<Rightarrow> pty_manager \<Rightarrow> bool" where
  "event_allowed e m = (case e of TerminalOpened i _ _ _ _ _ \<Rightarrow> find_session i m = None | _ \<Rightarrow> True)"

inductive terminals_later ::
  "pty_limits \<Rightarrow> (string \<Rightarrow> nat list) \<Rightarrow> (nat list \<Rightarrow> json option) \<Rightarrow> pty_manager \<times> (string \<Rightarrow> nat list)
     \<Rightarrow> pty_manager \<times> (string \<Rightarrow> nat list) \<Rightarrow> bool"
  for lim b64 parse
where
  now: "terminals_later lim b64 parse x x"
| event: "terminals_later lim b64 parse x (m, st) \<Longrightarrow> event_allowed e m \<Longrightarrow>
    terminals_later lim b64 parse x (pty_event_step lim b64 parse e m, received_after b64 parse e m st)"

definition terminals_reach ::
  "pty_limits \<Rightarrow> (string \<Rightarrow> nat list) \<Rightarrow> (nat list \<Rightarrow> json option) \<Rightarrow> pty_manager \<Rightarrow> (string \<Rightarrow> nat list) \<Rightarrow> bool"
where
  "terminals_reach lim b64 parse m st = terminals_later lim b64 parse (new_pty_manager, \<lambda>_. []) (m, st)"

section \<open>Looking up sessions\<close>

lemma find_put [simp]: "find_session j (put_session i s m) = (if j = i then Some s else find_session j m)"
  by (simp add: find_session_def put_session_def)

lemma find_aggregate [simp]: "find_session i (m\<lparr>ty_aggregate := a\<rparr>) = find_session i m"
  by (simp add: find_session_def)

lemma find_resumed [simp]: "find_session i (m\<lparr>ty_resumed := r\<rparr>) = find_session i m"
  by (simp add: find_session_def)

lemma find_listed [simp]: "find_session i (m\<lparr>ty_listed := l\<rparr>) = find_session i m"
  by (simp add: find_session_def)

lemma put_fields [simp]:
  "ty_listed (put_session i s m) = ty_listed m" "ty_aggregate (put_session i s m) = ty_aggregate m"
  "ty_resumed (put_session i s m) = ty_resumed m"
  by (simp_all add: put_session_def)

section \<open>Invariants of the manager\<close>

text \<open>A change that touches neither the output of a session nor whether it has ended.\<close>

definition quiet_session :: "pty_session \<Rightarrow> pty_session \<Rightarrow> bool" where
  "quiet_session s s' = (ty_id s' = ty_id s \<and> ty_output s' = ty_output s \<and> ty_outputOffset s' = ty_outputOffset s
     \<and> ty_totalOutput s' = ty_totalOutput s \<and> ty_finishedAt s' = ty_finishedAt s \<and> ty_owner s' = ty_owner s
     \<and> ty_lifecycle s' = ty_lifecycle s)"

locale terminal_steps =
  fixes lim :: pty_limits and inv :: "(string \<Rightarrow> nat list) \<Rightarrow> pty_manager \<Rightarrow> bool"
  assumes quiet: "inv st m \<Longrightarrow> find_session i m = Some s \<Longrightarrow> quiet_session s s' \<Longrightarrow> inv st (put_session i s' m)"
    and appended: "inv st m \<Longrightarrow> inv (st(i := st i @ d)) (append_terminal lim i d m)"
    and completed: "inv st m \<Longrightarrow> inv st (complete_terminal lim i now code sig m)"
    and deleted: "inv st m \<Longrightarrow> inv st (deleteSession i m)"
    and opened: "inv st m \<Longrightarrow> find_session i m = None \<Longrightarrow>
      inv (st(i := [])) (fst (open_terminal lim i label lifecycle owner pid now m))"
begin

lemma change_quiet: "inv st m \<Longrightarrow> (\<And>s. quiet_session s (f s)) \<Longrightarrow> inv st (change_session i f m)"
  by (auto simp: change_session_def intro: quiet split: option.split)

lemma settle_quiet: "inv st m \<Longrightarrow> inv st (change_session i (settle_ready r) m)"
  by (rule change_quiet) (simp_all add: quiet_session_def settle_ready_def)

lemma error_quiet: "inv st m \<Longrightarrow> inv st (change_session i (protocol_error e) m)"
  by (rule change_quiet) (simp_all add: quiet_session_def protocol_error_def)

lemma line_inv:
  assumes "inv st m"
  shows "inv (st(i := st i @ line_bytes b64 parse [l])) (helper_line lim b64 parse i now l m)"
  using assms by (simp add: helper_line_def line_bytes_def settle_quiet error_quiet appended completed split: helper_event.split)

lemma lines_inv: "inv st m \<Longrightarrow> inv (st(i := st i @ line_bytes b64 parse ls)) (fold (helper_line lim b64 parse i now) ls m)"
proof (induction ls arbitrary: st m)
  case (Cons l ls)
  let ?st = "st(i := st i @ line_bytes b64 parse [l])"
  have "line_bytes b64 parse (l # ls) = line_bytes b64 parse [l] @ line_bytes b64 parse ls" by (simp add: line_bytes_def)
  then have "st(i := st i @ line_bytes b64 parse (l # ls)) = ?st(i := ?st i @ line_bytes b64 parse ls)" by (simp add: fun_eq_iff)
  with Cons.IH [OF line_inv [OF Cons.prems, of i b64 parse l now]] show ?case by (metis fold_Cons comp_apply)
qed (simp add: line_bytes_def)

lemma helper_output_inv:
  assumes "inv st m"
  shows "inv (st(i := st i @ chunk_bytes b64 parse i chunk m)) (fst (helper_output lim b64 parse i now chunk m))"
proof (cases "find_session i m")
  case (Some s)
  have buffer: "inv st (change_session i (\<lambda>s. s\<lparr>ty_protocolBuffer := x\<rparr>) m')" if "inv st m'" for x m'
    using that by (rule change_quiet) (simp add: quiet_session_def)
  obtain ls rest where lines: "protocol_lines (ty_protocolBuffer s @ chunk) = (ls, rest)" by force
  show ?thesis
    using lines_inv [OF buffer [OF buffer [OF assms]]] error_quiet [OF buffer [OF assms]]
    by (simp add: helper_output_def chunk_bytes_def Some Let_def lines)
qed (simp add: helper_output_def chunk_bytes_def assms)

lemma event_inv:
  assumes "inv st m" and "event_allowed e m"
  shows "inv (received_after b64 parse e m st) (pty_event_step lim b64 parse e m)"
proof (cases e)
  case (ReadBegun i owner offset waitMs reader)
  then show ?thesis using assms(1)
    by (auto simp: pty_event_step_def received_after_def read_begin_def quiet_session_def intro!: change_quiet split: sum.split)
next
  case (ReadTimeout i reader)
  then show ?thesis using assms(1)
    by (auto simp: pty_event_step_def received_after_def read_timeout_def quiet_session_def intro!: change_quiet)
next
  case (HelperFailed i now message)
  have "quiet_session s (settle_ready (ReadyRejected message) (protocol_error message s))" for s
    by (simp add: quiet_session_def settle_ready_def protocol_error_def)
  then show ?thesis using HelperFailed assms(1)
    by (simp add: pty_event_step_def received_after_def child_error_def completed change_quiet)
next
  case (TerminalOpened i label lifecycle owner pid now)
  then show ?thesis using assms by (simp add: pty_event_step_def received_after_def event_allowed_def opened)
qed (simp_all add: pty_event_step_def received_after_def assms helper_output_inv appended completed deleted
    ready_timeout_def settle_quiet)

lemma later_inv: "terminals_later lim b64 parse (m, st) (m', st') \<Longrightarrow> inv st m \<Longrightarrow> inv st' m'"
  by (induction "(m, st)" "(m', st')" arbitrary: m' st' rule: terminals_later.induct) (simp_all add: event_inv)

end

locale terminal_invariant = terminal_steps +
  assumes initial: "inv (\<lambda>_. []) new_pty_manager"
begin

lemma reachable_inv: "terminals_reach lim b64 parse m st \<Longrightarrow> inv st m"
  unfolding terminals_reach_def using initial by (rule later_inv [rotated])

end

end
