(* ===== verification/Terminal_Properties.thy ===== *)
theory Terminal_Properties
  imports Terminal_Events
begin

text \<open>What holds of the terminals in every reachable state: the budgets for their number and their
  output, and that what is kept of each terminal is the latest of what it has put out.\<close>

section \<open>Sums over terminals\<close>

definition session_weight :: "(pty_session \<Rightarrow> int) \<Rightarrow> pty_manager \<Rightarrow> string \<Rightarrow> int" where
  "session_weight f m i = (case find_session i m of None \<Rightarrow> 0 | Some s \<Rightarrow> f s)"

definition object_keys_of :: "pty_manager \<Rightarrow> string set" where
  "object_keys_of m = fst ` set (ty_objects m)"

abbreviation output_size :: "pty_session \<Rightarrow> int" where
  "output_size s \<equiv> int (length (ty_output s))"

abbreviation running_weight :: "pty_session \<Rightarrow> int" where
  "running_weight s \<equiv> of_bool (terminal_running s)"

abbreviation ended_weight :: "pty_session \<Rightarrow> int" where
  "ended_weight s \<equiv> of_bool (\<not> terminal_running s)"

lemma finite_keys [simp]: "finite (object_keys_of m)"
  by (simp add: object_keys_of_def)

lemma key_found: "i \<in> object_keys_of m \<longleftrightarrow> find_session i m \<noteq> None"
  by (auto simp: object_keys_of_def find_session_def map_of_eq_None_iff)

lemma weight_simps [simp]:
  "find_session i m = Some s \<Longrightarrow> session_weight f m i = f s"
  "find_session i m = None \<Longrightarrow> session_weight f m i = 0"
  by (simp_all add: session_weight_def)

lemma weight_put: "session_weight f (put_session i s m) j = (if j = i then f s else session_weight f m j)"
  by (simp add: session_weight_def)

lemma weight_cong: "(\<And>i. find_session i m = find_session i m') \<Longrightarrow> session_weight f m = session_weight f m'"
  by (simp add: session_weight_def fun_eq_iff)

lemma weight_updates [simp]:
  "session_weight f (m\<lparr>ty_aggregate := a\<rparr>) = session_weight f m" "session_weight f (m\<lparr>ty_resumed := r\<rparr>) = session_weight f m"
  "session_weight f (m\<lparr>ty_listed := l\<rparr>) = session_weight f m"
  by (rule weight_cong, simp)+

lemma keys_put: "object_keys_of (put_session i s m) = insert i (object_keys_of m)"
  by (auto simp: key_found split: if_splits)

lemma keys_updates [simp]:
  "object_keys_of (m\<lparr>ty_aggregate := a\<rparr>) = object_keys_of m" "object_keys_of (m\<lparr>ty_resumed := r\<rparr>) = object_keys_of m"
  "object_keys_of (m\<lparr>ty_listed := l\<rparr>) = object_keys_of m"
  by (simp_all add: object_keys_of_def)

lemma sum_put:
  assumes "finite A"
  shows "sum (session_weight f (put_session i s m)) A = sum (session_weight f m) A + (if i \<in> A then f s - session_weight f m i else 0)"
proof (cases "i \<in> A")
  case True
  have "sum (session_weight f (put_session i s m)) (A - {i}) = sum (session_weight f m) (A - {i})"
    by (rule sum.cong) (auto simp: weight_put)
  with True show ?thesis
    using sum.remove [OF assms True, of "session_weight f (put_session i s m)"] sum.remove [OF assms True, of "session_weight f m"]
    by (simp add: weight_put)
next
  case False
  then have "sum (session_weight f (put_session i s m)) A = sum (session_weight f m) A"
    by (intro sum.cong) (auto simp: weight_put)
  with False show ?thesis by simp
qed

lemma sum_nonneg_weight: "(\<And>s. 0 \<le> f s) \<Longrightarrow> 0 \<le> sum (session_weight f m) A"
  by (intro sum_nonneg) (simp add: session_weight_def split: option.split)

text \<open>The counts of the code are such sums.\<close>

lemma listed_count:
  assumes "distinct (ty_listed m)"
  shows "int (length (filter (\<lambda>(i, s). p s) (listed_sessions m))) = sum (session_weight (\<lambda>s. of_bool (p s)) m) (set (ty_listed m))"
proof -
  have "int (length (filter (\<lambda>(i, s). p s) (concat (map (\<lambda>i. case find_session i m of None \<Rightarrow> [] | Some s \<Rightarrow> [(i, s)]) is))))
      = sum_list (map (session_weight (\<lambda>s. of_bool (p s)) m) is)" for "is"
    by (induction "is") (simp_all add: session_weight_def split: option.split)
  then show ?thesis by (simp add: listed_sessions_def sum_list_distinct_conv_sum_set assms)
qed

section \<open>The ledger\<close>

text \<open>The table lists known objects once, an object outside it has ended, and the counter of all output is
  the output of all objects.\<close>

definition ledger :: "pty_manager \<Rightarrow> bool" where
  "ledger m \<longleftrightarrow> distinct (ty_listed m) \<and> set (ty_listed m) \<subseteq> object_keys_of m
     \<and> (\<forall>i s. find_session i m = Some s \<longrightarrow> i \<notin> set (ty_listed m) \<longrightarrow> \<not> terminal_running s)
     \<and> ty_aggregate m = sum (session_weight output_size m) (object_keys_of m)"

definition listed_sum :: "(pty_session \<Rightarrow> int) \<Rightarrow> pty_manager \<Rightarrow> int" where
  "listed_sum f m = sum (session_weight f m) (set (ty_listed m))"

lemma ledger_put:
  assumes "ledger m" and "find_session i m = Some s" and "terminal_running s' \<Longrightarrow> terminal_running s"
  shows "ledger ((put_session i s' m)\<lparr>ty_aggregate := ty_aggregate m + output_size s' - output_size s\<rparr>)"
proof -
  have "i \<in> object_keys_of m" using assms(2) by (simp add: key_found)
  then show ?thesis using assms by (auto simp: ledger_def keys_put insert_absorb sum_put)
qed

lemma ledger_put_same:
  assumes "ledger m" and "find_session i m = Some s" and "terminal_running s' \<Longrightarrow> terminal_running s" and "ty_output s' = ty_output s"
  shows "ledger (put_session i s' m)"
  using ledger_put [OF assms(1,2), of s'] assms(3,4) by (simp add: ledger_def)

lemma ledger_resumed [simp]: "ledger (m\<lparr>ty_resumed := r\<rparr>) = ledger m"
  by (simp add: ledger_def)

lemma listed_sum_put:
  "find_session i m = Some s \<Longrightarrow> listed_sum f (put_session i s' m) = listed_sum f m + (if i \<in> set (ty_listed m) then f s' - f s else 0)"
  by (simp add: listed_sum_def sum_put)

lemma listed_sum_updates [simp]:
  "listed_sum f (m\<lparr>ty_aggregate := a\<rparr>) = listed_sum f m" "listed_sum f (m\<lparr>ty_resumed := r\<rparr>) = listed_sum f m"
  by (simp_all add: listed_sum_def)

lemma listed_output_le_aggregate: "ledger m \<Longrightarrow> listed_sum output_size m \<le> ty_aggregate m"
  unfolding ledger_def listed_sum_def by (simp add: sum_mono2 session_weight_def split: option.split)

section \<open>Trimming\<close>

text \<open>A session that only lost the oldest of its output.\<close>

definition shrunk :: "pty_session \<Rightarrow> pty_session \<Rightarrow> bool" where
  "shrunk s s' \<longleftrightarrow> (\<exists>k \<le> length (ty_output s). s' = s\<lparr>ty_output := drop k (ty_output s), ty_outputOffset := ty_outputOffset s + k\<rparr>)"

definition trimmed :: "pty_manager \<Rightarrow> pty_manager \<Rightarrow> bool" where
  "trimmed m m' \<longleftrightarrow> ty_listed m' = ty_listed m \<and> (\<forall>i. rel_option shrunk (find_session i m) (find_session i m'))"

lemma shrunk_refl [simp]: "shrunk s s"
  by (auto simp: shrunk_def intro!: exI [of _ 0])

lemma shrunk_trans: "shrunk a b \<Longrightarrow> shrunk b c \<Longrightarrow> shrunk a c"
proof -
  assume "shrunk a b" "shrunk b c"
  then obtain k l where "k \<le> length (ty_output a)" "b = a\<lparr>ty_output := drop k (ty_output a), ty_outputOffset := ty_outputOffset a + k\<rparr>"
    "l \<le> length (ty_output b)" "c = b\<lparr>ty_output := drop l (ty_output b), ty_outputOffset := ty_outputOffset b + l\<rparr>"
    by (auto simp: shrunk_def)
  then have "k + l \<le> length (ty_output a)"
    "c = a\<lparr>ty_output := drop (k + l) (ty_output a), ty_outputOffset := ty_outputOffset a + (k + l)\<rparr>" by (auto simp: add.commute)
  then show ?thesis unfolding shrunk_def by blast
qed

lemma trimmed_refl [simp]: "trimmed m m"
  by (simp add: trimmed_def option.rel_refl)

lemma trimmed_trans: "trimmed a b \<Longrightarrow> trimmed b c \<Longrightarrow> trimmed a c"
proof -
  assume ab: "trimmed a b" and bc: "trimmed b c"
  have "rel_option shrunk (find_session i a) (find_session i c)" for i
    using ab bc by (cases "find_session i a"; cases "find_session i b"; cases "find_session i c")
      (auto simp: trimmed_def dest!: spec [of _ i] intro: shrunk_trans)
  with ab bc show ?thesis by (simp add: trimmed_def)
qed

lemma dropOutput_trimmed: "trimmed m (dropOutput i r m)"
proof (cases "find_session i m")
  case (Some s)
  then have "rel_option shrunk (find_session j m) (find_session j (dropOutput i r m))" for j
    by (auto simp: dropOutput_def Let_def shrunk_def option.rel_refl dropped_bytes_le
        intro!: exI [of _ "dropped_bytes r (ty_output s)"])
  with Some show ?thesis by (simp add: trimmed_def dropOutput_def Let_def)
qed (simp add: dropOutput_def)

lemma dropped_output:
  "find_session i m = Some s \<Longrightarrow> find_session i (dropOutput i r m) = Some s2 \<Longrightarrow>
    ty_output s2 = drop (dropped_bytes r (ty_output s)) (ty_output s)"
  by (auto simp: dropOutput_def Let_def split: if_splits)

lemma dropOutput_ledger: "ledger m \<Longrightarrow> ledger (dropOutput i r m)"
proof (cases "find_session i m")
  case (Some s)
  assume "ledger m"
  have "ledger ((put_session i (s\<lparr>ty_output := drop k (ty_output s), ty_outputOffset := ty_outputOffset s + k\<rparr>) m)
      \<lparr>ty_aggregate := ty_aggregate m - int k\<rparr>)" if "k \<le> length (ty_output s)" for k
  proof -
    have "ty_aggregate m + int (length (drop k (ty_output s))) - output_size s = ty_aggregate m - int k" using that by simp
    with ledger_put [OF \<open>ledger m\<close> Some, of "s\<lparr>ty_output := drop k (ty_output s), ty_outputOffset := ty_outputOffset s + k\<rparr>"]
    show ?thesis by (simp add: terminal_running_def)
  qed
  then show ?thesis using \<open>ledger m\<close> dropped_bytes_le [of r "ty_output s"] by (simp add: dropOutput_def Some Let_def)
qed (simp add: dropOutput_def)

lemma trim_aggregate_trimmed: "trimmed m (trim_aggregate lim m)"
proof (induction lim m rule: trim_aggregate.induct)
  case (1 lim m)
  then show ?case
    by (subst trim_aggregate.simps) (auto split: option.split intro: trimmed_trans [OF dropOutput_trimmed])
qed

lemma trim_aggregate_ledger: "ledger m \<Longrightarrow> ledger (trim_aggregate lim m)"
proof (induction lim m rule: trim_aggregate.induct)
  case (1 lim m)
  then show ?case
    by (subst trim_aggregate.simps) (auto split: option.split intro: dropOutput_ledger)
qed

lemma trim_aggregate_bound:
  "ledger m \<Longrightarrow> listed_sum output_size (trim_aggregate lim m) \<le> int (yl_maxAggregateOutputBytes lim)"
proof (induction lim m rule: trim_aggregate.induct)
  case (1 lim m)
  show ?case
  proof (cases "ty_aggregate m \<le> int (yl_maxAggregateOutputBytes lim)")
    case True
    then show ?thesis using listed_output_le_aggregate [OF 1(2)] by (subst trim_aggregate.simps) simp
  next
    case False
    show ?thesis
    proof (cases "oldest_with_output m")
      case None
      then have "listed_sum output_size m = 0"
        unfolding listed_sum_def by (intro sum.neutral) (auto simp: no_oldest listed_found session_weight_def split: option.split)
      then show ?thesis using False None by (subst trim_aggregate.simps) simp
    next
      case (Some i)
      from 1(1) [OF False Some dropOutput_ledger [OF 1(2)]] show ?thesis
        using False Some by (subst trim_aggregate.simps) simp
    qed
  qed
qed

lemma trimmed_sum:
  assumes "trimmed m m'" and "\<And>s s'. shrunk s s' \<Longrightarrow> f s' = f s"
  shows "listed_sum f m' = listed_sum f m"
proof -
  have "session_weight f m' i = session_weight f m i" for i
    using assms by (cases "find_session i m"; cases "find_session i m'") (auto simp: trimmed_def session_weight_def dest!: spec [of _ i])
  then show ?thesis using assms(1) by (simp add: listed_sum_def trimmed_def)
qed

lemma trimmed_found:
  assumes "trimmed m m'" and "find_session i m' = Some s'"
  obtains s where "find_session i m = Some s" "shrunk s s'"
  using assms by (cases "find_session i m") (auto simp: trimmed_def dest!: spec [of _ i])

section \<open>Operations\<close>

lemma notify_shape:
  obtains "notify_readers i m = m"
    | s s' r where "find_session i m = Some s" "quiet_session s s'" "notify_readers i m = (put_session i s' m)\<lparr>ty_resumed := r\<rparr>"
proof (cases "find_session i m")
  case None
  then show thesis using that(1) by (simp add: notify_readers_def)
next
  case (Some s)
  have "quiet_session s (s\<lparr>ty_notify := []\<rparr>)" by (simp add: quiet_session_def)
  with Some that(2) show thesis by (simp add: notify_readers_def)
qed

text \<open>Appending: the bytes are added, then output is trimmed until the budgets hold again.\<close>

lemma append_shape:
  assumes "find_session i m = Some s" and "d \<noteq> []"
  obtains m1 where
    "append_terminal lim i d m = notify_readers i m1"
    "trimmed ((put_session i (s\<lparr>ty_output := ty_output s @ d, ty_totalOutput := ty_totalOutput s + length d\<rparr>) m)
       \<lparr>ty_aggregate := ty_aggregate m + int (length d)\<rparr>) m1"
    "ledger m \<Longrightarrow> ledger m1"
    "ledger m \<Longrightarrow> listed_sum output_size m1 \<le> int (yl_maxAggregateOutputBytes lim)"
    "\<And>s1. find_session i m1 = Some s1 \<Longrightarrow> length (ty_output s1) \<le> yl_maxOutputBytes lim"
proof -
  let ?s = "s\<lparr>ty_output := ty_output s @ d, ty_totalOutput := ty_totalOutput s + length d\<rparr>"
  let ?m = "(put_session i ?s m)\<lparr>ty_aggregate := ty_aggregate m + int (length d)\<rparr>"
  let ?r = "max (int (length (ty_output ?s)) - int (yl_maxOutputBytes lim)) 0"
  let ?m2 = "dropOutput i ?r ?m"
  have ledger2: "ledger ?m2" if "ledger m"
  proof (rule dropOutput_ledger)
    show "ledger ?m" using ledger_put [OF that assms(1), of ?s] by (simp add: terminal_running_def)
  qed
  have len2: "length (ty_output s2) \<le> yl_maxOutputBytes lim" if "find_session i ?m2 = Some s2" for s2
  proof -
    define k where "k = dropped_bytes ?r (ty_output ?s)"
    have "min (nat ?r) (length (ty_output ?s)) \<le> k" unfolding k_def by (rule dropped_bytes_ge)
    moreover have "ty_output s2 = drop k (ty_output ?s)"
      unfolding k_def by (rule dropped_output [OF _ that]) simp
    ultimately show ?thesis by simp
  qed
  show thesis
  proof (rule that [of "trim_aggregate lim ?m2"])
    show "append_terminal lim i d m = notify_readers i (trim_aggregate lim ?m2)"
      using assms by (simp add: append_terminal_def Let_def)
    show "trimmed ?m (trim_aggregate lim ?m2)" by (rule trimmed_trans [OF dropOutput_trimmed trim_aggregate_trimmed])
    show "ledger (trim_aggregate lim ?m2)" if "ledger m" using ledger2 [OF that] by (rule trim_aggregate_ledger)
    show "listed_sum output_size (trim_aggregate lim ?m2) \<le> int (yl_maxAggregateOutputBytes lim)" if "ledger m"
      using ledger2 [OF that] by (rule trim_aggregate_bound)
    show "length (ty_output s1) \<le> yl_maxOutputBytes lim" if found: "find_session i (trim_aggregate lim ?m2) = Some s1" for s1
    proof -
      obtain s2 where "find_session i ?m2 = Some s2" "shrunk s2 s1" by (rule trimmed_found [OF trim_aggregate_trimmed found])
      with len2 show ?thesis by (fastforce simp: shrunk_def)
    qed
  qed
qed

text \<open>Removing an ended terminal from the table.\<close>

lemma deleteSession_shape:
  assumes "ledger m" and "i \<in> set (ty_listed m)" and "find_session i m = Some s" and "\<not> terminal_running s"
  obtains s' where "\<not> terminal_running s'" "ty_output s' = []"
    "deleteSession i m = (put_session i s' m)\<lparr>ty_aggregate := ty_aggregate m - output_size s, ty_listed := removeAll i (ty_listed m)\<rparr>"
    "ledger (deleteSession i m)"
    "listed_sum f (deleteSession i m) = listed_sum f m - f s"
proof -
  let ?s = "s\<lparr>ty_cleanupTimer := None, ty_output := [], ty_notify := []\<rparr>"
  let ?m = "(put_session i ?s m)\<lparr>ty_aggregate := ty_aggregate m - output_size s, ty_listed := removeAll i (ty_listed m)\<rparr>"
  have key: "i \<in> object_keys_of m" using assms(3) by (simp add: key_found)
  have "session_weight output_size m i \<le> sum (session_weight output_size m) (object_keys_of m)"
    using key by (intro member_le_sum) (simp_all add: session_weight_def split: option.split)
  then have "output_size s \<le> ty_aggregate m" using assms(1,3) by (simp add: ledger_def)
  then have shape: "deleteSession i m = ?m" using assms by (simp add: deleteSession_def)
  have "ledger ?m" using assms key by (auto simp: ledger_def keys_put insert_absorb sum_put terminal_running_def distinct_removeAll split: if_splits)
  moreover have "listed_sum f ?m = listed_sum f m - f s"
  proof -
    have "sum (session_weight f (put_session i ?s m)) (set (ty_listed m) - {i}) = sum (session_weight f m) (set (ty_listed m) - {i})"
      by (rule sum.cong) (auto simp: weight_put)
    then show ?thesis using sum.remove [OF _ assms(2), of "session_weight f m"] assms(3) by (simp add: listed_sum_def)
  qed
  ultimately show thesis using that [of ?s] shape assms(4) by (simp add: terminal_running_def)
qed

text \<open>Removing some of the ended terminals of the table.\<close>

lemma delete_ended:
  assumes "ledger m" and "distinct is" and "\<forall>i \<in> set is. i \<in> set (ty_listed m) \<and> is_finished i m"
  shows "ledger (fold deleteSession is m)
    \<and> listed_sum ended_weight (fold deleteSession is m) = listed_sum ended_weight m - int (length is)
    \<and> listed_sum running_weight (fold deleteSession is m) = listed_sum running_weight m
    \<and> listed_sum output_size (fold deleteSession is m) \<le> listed_sum output_size m"
  using assms
proof (induction "is" arbitrary: m)
  case (Cons i "is")
  obtain s where s: "find_session i m = Some s" "\<not> terminal_running s"
    using Cons.prems(3) by (auto simp: is_finished_def split: option.splits)
  have listed: "i \<in> set (ty_listed m)" using Cons.prems(3) by simp
  note shape = deleteSession_shape [OF Cons.prems(1) listed s]
  have ledger: "ledger (deleteSession i m)" by (rule shape)
  have sum: "listed_sum f (deleteSession i m) = listed_sum f m - f s" for f by (rule shape)
  from shape obtain s' where "deleteSession i m
      = (put_session i s' m)\<lparr>ty_aggregate := ty_aggregate m - output_size s, ty_listed := removeAll i (ty_listed m)\<rparr>" by blast
  then have "\<forall>j \<in> set is. j \<in> set (ty_listed (deleteSession i m)) \<and> is_finished j (deleteSession i m)"
    using Cons.prems(2,3) by (auto simp: is_finished_def)
  from Cons.IH [OF ledger _ this] show ?case
    using Cons.prems(2) s(2) sum [of ended_weight] sum [of running_weight] sum [of output_size] by simp
qed simp

text \<open>A change after which every listed terminal still has its output, and an object outside the table has
  what it had or nothing.\<close>

definition same_output :: "pty_session \<Rightarrow> pty_session \<Rightarrow> bool" where
  "same_output s s' \<longleftrightarrow> ty_output s' = ty_output s \<and> ty_outputOffset s' = ty_outputOffset s \<and> ty_totalOutput s' = ty_totalOutput s"

definition settled :: "pty_manager \<Rightarrow> pty_manager \<Rightarrow> bool" where
  "settled m m' \<longleftrightarrow> set (ty_listed m') \<subseteq> set (ty_listed m) \<and> (\<forall>j s'. find_session j m' = Some s' \<longrightarrow>
     (\<exists>s. find_session j m = Some s \<and> (same_output s s' \<or> ty_output s' = [] \<and> j \<notin> set (ty_listed m'))))"

lemma same_output_refl [simp]: "same_output s s"
  by (simp add: same_output_def)

lemma settled_refl [simp]: "settled m m"
  by (auto simp: settled_def)

lemma settled_trans [trans]: "settled a b \<Longrightarrow> settled b c \<Longrightarrow> settled a c"
proof -
  assume ab: "settled a b" and bc: "settled b c"
  have sub: "set (ty_listed c) \<subseteq> set (ty_listed b)" "set (ty_listed b) \<subseteq> set (ty_listed a)" using ab bc by (simp_all add: settled_def)
  have "\<exists>s. find_session j a = Some s \<and> (same_output s u \<or> ty_output u = [] \<and> j \<notin> set (ty_listed c))"
    if found: "find_session j c = Some u" for j u
  proof -
    obtain t where t: "find_session j b = Some t" "same_output t u \<or> ty_output u = [] \<and> j \<notin> set (ty_listed c)"
      using bc found unfolding settled_def by blast
    obtain s where s: "find_session j a = Some s" "same_output s t \<or> ty_output t = [] \<and> j \<notin> set (ty_listed b)"
      using ab t(1) unfolding settled_def by blast
    show ?thesis using s t(2) sub by (auto simp: same_output_def)
  qed
  with sub show ?thesis by (auto simp: settled_def)
qed

lemma settled_put: "find_session i m = Some s \<Longrightarrow> same_output s s' \<Longrightarrow> settled m (put_session i s' m)"
  by (auto simp: settled_def)

lemma settled_resumed [simp]: "settled m (m'\<lparr>ty_resumed := r\<rparr>) = settled m m'"
  by (simp add: settled_def)

lemma settled_notify [simp]: "settled m (notify_readers i m)"
  by (cases i m rule: notify_shape) (auto simp: quiet_session_def same_output_def intro: settled_put)

lemma settled_change: "(\<And>s. same_output s (f s)) \<Longrightarrow> settled m (change_session i f m)"
  by (auto simp: change_session_def intro: settled_put split: option.split)

lemma settled_delete [simp]: "settled m (deleteSession i m)"
  by (auto simp: settled_def deleteSession_def split: option.split)

lemma settled_prune [simp]: "settled m (pruneTerminals lim m)"
proof -
  have "settled m (fold deleteSession is m)" for "is"
    by (induction "is" arbitrary: m) (simp_all, metis settled_delete settled_trans)
  then show ?thesis by (simp add: pruneTerminals_def Let_def)
qed

lemma settled_complete: "settled m (complete_terminal lim i now code sig m)"
proof (cases "find_session i m")
  case (Some s)
  let ?s = "s\<lparr>ty_finishedAt := Some now, ty_exitCode := (case code of None \<Rightarrow> ty_exitCode s | Some c \<Rightarrow> Some c),
     ty_signal := (case sig of None \<Rightarrow> ty_signal s | Some c \<Rightarrow> Some c)\<rparr>"
  have "settled m (put_session i ?s m)" by (rule settled_put [OF Some]) (simp add: same_output_def)
  also have "settled (put_session i ?s m) (notify_readers i (put_session i ?s m))" by simp
  also have "settled (notify_readers i (put_session i ?s m))
      (change_session i (\<lambda>s. s\<lparr>ty_cleanupTimer := Some (now + yl_completedTtlMs lim)\<rparr>) (notify_readers i (put_session i ?s m)))"
    by (rule settled_change) (simp add: same_output_def)
  also note settled_prune
  finally show ?thesis by (simp add: complete_terminal_def Some Let_def)
qed (simp add: complete_terminal_def)

section \<open>The budgets\<close>

definition terminal_budgets :: "pty_limits \<Rightarrow> pty_manager \<Rightarrow> bool" where
  "terminal_budgets lim m \<longleftrightarrow> ledger m
     \<and> (\<forall>i s. find_session i m = Some s \<longrightarrow> length (ty_output s) \<le> yl_maxOutputBytes lim)
     \<and> listed_sum output_size m \<le> int (yl_maxAggregateOutputBytes lim)
     \<and> listed_sum running_weight m \<le> int (yl_maxTerminals lim)
     \<and> listed_sum ended_weight m \<le> int (yl_maxCompletedTerminals lim)"

lemma settled_lengths:
  "settled m m' \<Longrightarrow> \<forall>i s. find_session i m = Some s \<longrightarrow> length (ty_output s) \<le> n \<Longrightarrow>
    find_session i m' = Some s' \<Longrightarrow> length (ty_output s') \<le> n"
  by (fastforce simp: settled_def same_output_def)

lemma budgets_quiet:
  assumes "terminal_budgets lim m" and "find_session i m = Some s" and "quiet_session s s'"
  shows "terminal_budgets lim (put_session i s' m)"
proof -
  have "listed_sum f (put_session i s' m) = listed_sum f m" if "f s' = f s" for f
    using listed_sum_put [OF assms(2)] that by simp
  moreover have "ledger (put_session i s' m)"
    using assms by (intro ledger_put_same) (auto simp: terminal_budgets_def quiet_session_def terminal_running_def)
  ultimately show ?thesis using assms by (auto simp: terminal_budgets_def quiet_session_def terminal_running_def)
qed

lemma budgets_resumed [simp]: "terminal_budgets lim (m\<lparr>ty_resumed := r\<rparr>) = terminal_budgets lim m"
  by (simp add: terminal_budgets_def)

lemma budgets_notify: "terminal_budgets lim m \<Longrightarrow> terminal_budgets lim (notify_readers i m)"
  by (cases i m rule: notify_shape) (auto intro: budgets_quiet)

lemma budgets_append:
  assumes "terminal_budgets lim m"
  shows "terminal_budgets lim (append_terminal lim i d m)"
proof (cases "find_session i m = None \<or> d = []")
  case True
  then show ?thesis using assms by (auto simp: append_terminal_def split: option.split)
next
  case False
  then obtain s where s: "find_session i m = Some s" and d: "d \<noteq> []" by auto
  have ok: "ledger m" using assms by (simp add: terminal_budgets_def)
  let ?s = "s\<lparr>ty_output := ty_output s @ d, ty_totalOutput := ty_totalOutput s + length d\<rparr>"
  let ?m = "(put_session i ?s m)\<lparr>ty_aggregate := ty_aggregate m + int (length d)\<rparr>"
  from append_shape [OF s d, of lim] obtain m1 where m1: "append_terminal lim i d m = notify_readers i m1" "trimmed ?m m1"
    "ledger m1" "listed_sum output_size m1 \<le> int (yl_maxAggregateOutputBytes lim)"
    "\<And>s1. find_session i m1 = Some s1 \<Longrightarrow> length (ty_output s1) \<le> yl_maxOutputBytes lim"
    using ok by blast
  have sums: "listed_sum f m1 = listed_sum f m" if "\<And>s s'. shrunk s s' \<Longrightarrow> f s' = f s" "f ?s = f s" for f
    using trimmed_sum [OF m1(2), of f] that listed_sum_put [OF s, of f ?s] by simp
  have "length (ty_output s1) \<le> yl_maxOutputBytes lim" if "find_session j m1 = Some s1" for j s1
  proof (cases "j = i")
    case False
    from m1(2) that obtain s2 where "find_session j ?m = Some s2" "shrunk s2 s1" by (rule trimmed_found)
    then show ?thesis using False assms by (fastforce simp: terminal_budgets_def shrunk_def)
  qed (use that m1(5) in simp)
  moreover have "listed_sum running_weight m1 = listed_sum running_weight m" "listed_sum ended_weight m1 = listed_sum ended_weight m"
    by (rule sums; auto simp: shrunk_def terminal_running_def)+
  ultimately have "terminal_budgets lim m1" using m1(3,4) assms by (simp add: terminal_budgets_def)
  then show ?thesis unfolding m1(1) by (rule budgets_notify)
qed

lemma completed_list:
  assumes "ledger m"
  shows "distinct (completed_terminals lim m)" "\<forall>i \<in> set (completed_terminals lim m). i \<in> set (ty_listed m) \<and> is_finished i m"
    "int (length (completed_terminals lim m)) = listed_sum ended_weight m"
proof -
  have dist: "distinct (ty_listed m)" using assms by (simp add: ledger_def)
  have "distinct (map fst (concat (map (\<lambda>i. case find_session i m of None \<Rightarrow> [] | Some s \<Rightarrow> [(i, s)]) is)))"
    if "distinct is" for "is"
    using that by (induction "is") (auto split: option.splits)
  then have "distinct (map fst (listed_sessions m))" using dist by (simp add: listed_sessions_def)
  then have "distinct (map fst (filter (\<lambda>(i, s). \<not> terminal_running s) (listed_sessions m)))" by (rule distinct_map_filter)
  moreover have "mset (completed_terminals lim m) = mset (map fst (filter (\<lambda>(i, s). \<not> terminal_running s) (listed_sessions m)))"
    by (simp add: completed_terminals_def)
  ultimately show "distinct (completed_terminals lim m)" by (metis mset_eq_imp_distinct_iff)
  show "\<forall>i \<in> set (completed_terminals lim m). i \<in> set (ty_listed m) \<and> is_finished i m"
    by (auto simp: completed_terminals_def listed_found is_finished_def)
  show "int (length (completed_terminals lim m)) = listed_sum ended_weight m"
    using listed_count [OF dist, of "\<lambda>s. \<not> terminal_running s"] by (simp add: completed_terminals_def listed_sum_def)
qed

lemma budgets_complete:
  assumes "terminal_budgets lim m"
  shows "terminal_budgets lim (complete_terminal lim i now code sig m)"
proof (cases "find_session i m")
  case (Some s)
  show ?thesis
  proof (cases "terminal_running s")
    case True
    have ok: "ledger m" using assms by (simp add: terminal_budgets_def)
    have listed: "i \<in> set (ty_listed m)" using ok Some True by (auto simp: ledger_def)
    let ?s = "s\<lparr>ty_finishedAt := Some now, ty_exitCode := (case code of None \<Rightarrow> ty_exitCode s | Some c \<Rightarrow> Some c),
       ty_signal := (case sig of None \<Rightarrow> ty_signal s | Some c \<Rightarrow> Some c)\<rparr>"
    have ended: "\<not> terminal_running ?s" by (simp add: terminal_running_def)
    define m1 where "m1 = put_session i ?s m"
    define m2 where "m2 = change_session i (\<lambda>s. s\<lparr>ty_cleanupTimer := Some (now + yl_completedTtlMs lim)\<rparr>) (notify_readers i m1)"
    have "ledger m1" unfolding m1_def by (rule ledger_put_same [OF ok Some]) (simp_all add: ended)
    have sums: "listed_sum output_size m1 = listed_sum output_size m" "listed_sum running_weight m1 = listed_sum running_weight m - 1"
      "listed_sum ended_weight m1 = listed_sum ended_weight m + 1"
      using listed listed_sum_put [OF Some] True ended by (simp_all add: m1_def)
    have quiet: "ledger n' \<and> listed_sum output_size n' = listed_sum output_size n \<and> listed_sum running_weight n' = listed_sum running_weight n
        \<and> listed_sum ended_weight n' = listed_sum ended_weight n"
      if "ledger n" "find_session i n = Some t" "quiet_session t t'" "n' = put_session i t' n" for n n' t t'
      using that listed_sum_put [OF that(2)] by (auto simp: quiet_session_def terminal_running_def intro!: ledger_put_same)
    have n1: "ledger (notify_readers i m1) \<and> listed_sum output_size (notify_readers i m1) = listed_sum output_size m1
        \<and> listed_sum running_weight (notify_readers i m1) = listed_sum running_weight m1
        \<and> listed_sum ended_weight (notify_readers i m1) = listed_sum ended_weight m1"
      using \<open>ledger m1\<close> by (cases i m1 rule: notify_shape) (auto dest: quiet)
    have "quiet_session t (t\<lparr>ty_cleanupTimer := x\<rparr>)" for t x by (simp add: quiet_session_def)
    then have m2: "ledger m2 \<and> listed_sum output_size m2 = listed_sum output_size m \<and> listed_sum running_weight m2 = listed_sum running_weight m - 1
        \<and> listed_sum ended_weight m2 = listed_sum ended_weight m + 1"
      using n1 sums quiet [of "notify_readers i m1"] by (simp add: m2_def change_session_def split: option.split)
    have all: "complete_terminal lim i now code sig m = pruneTerminals lim m2"
      using True by (simp add: complete_terminal_def Some Let_def m1_def m2_def)
    let ?is = "take (length (completed_terminals lim m2) - yl_maxCompletedTerminals lim) (completed_terminals lim m2)"
    have "distinct ?is" "\<forall>i \<in> set ?is. i \<in> set (ty_listed m2) \<and> is_finished i m2"
      using completed_list [of m2 lim] m2 by (auto dest: in_set_takeD)
    from delete_ended [OF _ this] m2 have "ledger (pruneTerminals lim m2)
      \<and> listed_sum ended_weight (pruneTerminals lim m2) = listed_sum ended_weight m2 - int (length ?is)
      \<and> listed_sum running_weight (pruneTerminals lim m2) = listed_sum running_weight m2
      \<and> listed_sum output_size (pruneTerminals lim m2) \<le> listed_sum output_size m2"
      by (simp add: pruneTerminals_def Let_def)
    moreover have "listed_sum ended_weight m2 - int (length ?is) \<le> int (yl_maxCompletedTerminals lim)"
      using completed_list(3) [of m2 lim] m2 by simp
    moreover have "length (ty_output u) \<le> yl_maxOutputBytes lim"
      if "find_session j (complete_terminal lim i now code sig m) = Some u" for j u
      using settled_lengths [OF settled_complete _ that] assms by (simp add: terminal_budgets_def)
    ultimately show ?thesis using m2 assms by (simp add: terminal_budgets_def all)
  qed (use assms Some in \<open>simp add: complete_terminal_def\<close>)
qed (use assms in \<open>simp add: complete_terminal_def\<close>)

lemma budgets_delete:
  assumes "terminal_budgets lim m"
  shows "terminal_budgets lim (deleteSession i m)"
proof (cases "i \<in> set (ty_listed m) \<and> is_finished i m")
  case True
  with assms delete_ended [of m "[i]"] have "ledger (deleteSession i m)
      \<and> listed_sum ended_weight (deleteSession i m) = listed_sum ended_weight m - 1
      \<and> listed_sum running_weight (deleteSession i m) = listed_sum running_weight m
      \<and> listed_sum output_size (deleteSession i m) \<le> listed_sum output_size m"
    by (simp add: terminal_budgets_def)
  moreover have "length (ty_output u) \<le> yl_maxOutputBytes lim" if "find_session j (deleteSession i m) = Some u" for j u
    using settled_lengths [OF settled_delete _ that] assms by (simp add: terminal_budgets_def)
  ultimately show ?thesis using assms by (simp add: terminal_budgets_def)
next
  case False
  then show ?thesis using assms by (auto simp: deleteSession_def is_finished_def split: option.split)
qed

lemma budgets_open:
  assumes "terminal_budgets lim m" and "find_session i m = None"
  shows "terminal_budgets lim (fst (open_terminal lim i label lifecycle owner pid now m))"
proof (cases "runningCount m \<ge> yl_maxTerminals lim")
  case True
  then show ?thesis using assms by (simp add: open_terminal_def)
next
  case False
  obtain s where s: "fst (open_terminal lim i label lifecycle owner pid now m) = (put_session i s m)\<lparr>ty_listed := ty_listed m @ [i]\<rparr>"
      "ty_output s = []" "terminal_running s"
    using False by (simp add: open_terminal_def terminal_running_def)
  have ok: "ledger m" using assms by (simp add: terminal_budgets_def)
  have new: "i \<notin> object_keys_of m" using assms(2) by (simp add: key_found)
  then have unlisted: "i \<notin> set (ty_listed m)" using ok by (auto simp: ledger_def)
  let ?m = "(put_session i s m)\<lparr>ty_listed := ty_listed m @ [i]\<rparr>"
  have other: "sum (session_weight f (put_session i s m)) A = sum (session_weight f m) A" if "i \<notin> A" for f and A :: "string set"
    using that by (intro sum.cong) (auto simp: weight_put)
  have "listed_sum f ?m = listed_sum f m + f s" for f
    using unlisted other [of "set (ty_listed m)" f] by (simp add: listed_sum_def weight_put [of f i s m i])
  moreover have "ledger ?m" using ok new unlisted assms(2) s(2)
    by (auto simp: ledger_def keys_put other weight_put [of _ i s m i] split: if_splits)
  moreover have "listed_sum running_weight m < int (yl_maxTerminals lim)"
    using False listed_count [of m terminal_running] ok by (simp add: runningCount_def listed_sum_def ledger_def)
  ultimately show ?thesis using assms s by (auto simp: terminal_budgets_def)
qed

interpretation budgets: terminal_invariant lim "\<lambda>st. terminal_budgets lim" for lim
proof unfold_locales
  show "terminal_budgets lim new_pty_manager"
    by (simp add: terminal_budgets_def ledger_def listed_sum_def new_pty_manager_def object_keys_of_def find_session_def)
qed (simp_all add: budgets_quiet budgets_append budgets_complete budgets_delete budgets_open)

section \<open>The latest output\<close>

definition latest_output :: "pty_session \<Rightarrow> nat list \<Rightarrow> bool" where
  "latest_output s x \<longleftrightarrow> ty_totalOutput s = length x \<and> ty_outputOffset s \<le> length x \<and> ty_output s = drop (ty_outputOffset s) x"

definition shows_latest :: "(string \<Rightarrow> nat list) \<Rightarrow> pty_manager \<Rightarrow> bool" where
  "shows_latest st m \<longleftrightarrow> (\<forall>i \<in> set (ty_listed m). \<forall>s. find_session i m = Some s \<longrightarrow> latest_output s (st i))"

lemma latest_same: "latest_output s x \<Longrightarrow> same_output s s' \<Longrightarrow> latest_output s' x"
  by (simp add: latest_output_def same_output_def)

lemma latest_shrunk: "latest_output s x \<Longrightarrow> shrunk s s' \<Longrightarrow> latest_output s' x"
  by (auto simp: latest_output_def shrunk_def add.commute)

lemma shows_latest_settled: "shows_latest st m \<Longrightarrow> settled m m' \<Longrightarrow> shows_latest st m'"
  unfolding shows_latest_def settled_def by (meson latest_same subset_iff)

lemma shows_latest_trimmed:
  assumes "shows_latest st m" and "trimmed m m'"
  shows "shows_latest st m'"
proof -
  have "latest_output s' (st i)" if "i \<in> set (ty_listed m')" and found: "find_session i m' = Some s'" for i s'
  proof -
    obtain s where "find_session i m = Some s" "shrunk s s'" by (rule trimmed_found [OF assms(2) found])
    then show ?thesis using assms that(1) latest_shrunk by (auto simp: shows_latest_def trimmed_def)
  qed
  then show ?thesis by (auto simp: shows_latest_def)
qed

lemma shows_latest_append:
  assumes "shows_latest st m"
  shows "shows_latest (st(i := st i @ d)) (append_terminal lim i d m)"
proof (cases "find_session i m = None \<or> d = []")
  case True
  then show ?thesis using assms by (auto simp: append_terminal_def shows_latest_def split: option.split)
next
  case False
  then obtain s where s: "find_session i m = Some s" and d: "d \<noteq> []" by auto
  let ?s = "s\<lparr>ty_output := ty_output s @ d, ty_totalOutput := ty_totalOutput s + length d\<rparr>"
  let ?m = "(put_session i ?s m)\<lparr>ty_aggregate := ty_aggregate m + int (length d)\<rparr>"
  have "shows_latest (st(i := st i @ d)) ?m"
    using assms s by (auto simp: shows_latest_def latest_output_def)
  moreover obtain m1 where "append_terminal lim i d m = notify_readers i m1" "trimmed ?m m1"
    using append_shape [OF s d, of lim] by metis
  ultimately show ?thesis by (metis settled_notify shows_latest_settled shows_latest_trimmed)
qed

lemma shows_latest_open:
  "shows_latest st m \<Longrightarrow> find_session i m = None \<Longrightarrow> shows_latest (st(i := [])) (fst (open_terminal lim i label lifecycle owner pid now m))"
  by (auto simp: shows_latest_def open_terminal_def latest_output_def)

interpretation latest: terminal_invariant lim shows_latest for lim
proof unfold_locales
  show "shows_latest st (put_session i s' m)"
    if "shows_latest st m" "find_session i m = Some s" "quiet_session s s'" for st m i s s'
    by (rule shows_latest_settled [OF that(1) settled_put [OF that(2)]]) (use that(3) in \<open>simp add: quiet_session_def same_output_def\<close>)
  show "shows_latest st (complete_terminal lim i now code sig m)" if "shows_latest st m" for st m i now code sig
    using that settled_complete by (rule shows_latest_settled)
  show "shows_latest st (deleteSession i m)" if "shows_latest st m" for st m i
    using that settled_delete by (rule shows_latest_settled)
  show "shows_latest (\<lambda>_. []) new_pty_manager" by (simp add: shows_latest_def new_pty_manager_def)
qed (simp_all add: shows_latest_append shows_latest_open)

section \<open>Ended terminals stay ended\<close>

lemma finished_put: "is_finished j m \<Longrightarrow> (terminal_running s \<Longrightarrow> j \<noteq> i) \<Longrightarrow> is_finished j (put_session i s m)"
  by (auto simp: is_finished_def)

lemma finished_updates [simp]:
  "is_finished j (m\<lparr>ty_aggregate := a\<rparr>) = is_finished j m" "is_finished j (m\<lparr>ty_resumed := r\<rparr>) = is_finished j m"
  "is_finished j (m\<lparr>ty_listed := l\<rparr>) = is_finished j m"
  by (simp_all add: is_finished_def)

lemma finished_quiet: "is_finished j m \<Longrightarrow> find_session i m = Some s \<Longrightarrow> ty_finishedAt s' = ty_finishedAt s \<Longrightarrow> is_finished j (put_session i s' m)"
  by (auto simp: is_finished_def terminal_running_def)

lemma finished_notify: "is_finished j m \<Longrightarrow> is_finished j (notify_readers i m)"
  by (cases i m rule: notify_shape) (auto simp: quiet_session_def intro: finished_quiet)

lemma finished_trimmed: "trimmed m m' \<Longrightarrow> is_finished j m \<Longrightarrow> is_finished j m'"
  by (cases "find_session j m"; cases "find_session j m'")
    (auto simp: trimmed_def is_finished_def shrunk_def terminal_running_def dest!: spec [of _ j])

lemma finished_append: "is_finished j m \<Longrightarrow> is_finished j (append_terminal lim i d m)"
proof (cases "find_session i m = None \<or> d = []")
  case True
  assume "is_finished j m"
  with True show ?thesis by (auto simp: append_terminal_def split: option.split)
next
  case False
  assume j: "is_finished j m"
  from False obtain s where s: "find_session i m = Some s" and d: "d \<noteq> []" by auto
  let ?m = "(put_session i (s\<lparr>ty_output := ty_output s @ d, ty_totalOutput := ty_totalOutput s + length d\<rparr>) m)
    \<lparr>ty_aggregate := ty_aggregate m + int (length d)\<rparr>"
  obtain m1 where m1: "append_terminal lim i d m = notify_readers i m1" "trimmed ?m m1"
    using append_shape [OF s d, of lim] by metis
  have "is_finished j ?m" using finished_quiet [OF j s] by simp
  with m1 show ?thesis by (simp add: finished_notify finished_trimmed)
qed

lemma finished_delete: "is_finished j m \<Longrightarrow> is_finished j (deleteSession i m)"
  by (auto simp: deleteSession_def is_finished_def terminal_running_def split: option.splits)

lemma finished_prune: "is_finished j m \<Longrightarrow> is_finished j (pruneTerminals lim m)"
proof -
  have "is_finished j m \<Longrightarrow> is_finished j (fold deleteSession is m)" for "is"
    by (induction "is" arbitrary: m) (simp_all add: finished_delete)
  then show "is_finished j m \<Longrightarrow> is_finished j (pruneTerminals lim m)" by (simp add: pruneTerminals_def Let_def)
qed

lemma finished_change:
  "is_finished j m \<Longrightarrow> (\<And>s. ty_finishedAt (f s) = ty_finishedAt s) \<Longrightarrow> is_finished j (change_session i f m)"
  by (auto simp: change_session_def intro: finished_quiet split: option.split)

lemma finished_complete:
  assumes "is_finished j m"
  shows "is_finished j (complete_terminal lim i now code sig m)"
proof (cases "find_session i m")
  case (Some s)
  have "is_finished j (put_session i (s\<lparr>ty_finishedAt := Some now, ty_exitCode := x, ty_signal := y\<rparr>) m)" for x y
    by (rule finished_put [OF assms]) (simp add: terminal_running_def)
  then show ?thesis using assms
    by (simp add: complete_terminal_def Some Let_def finished_prune finished_change finished_notify)
qed (simp add: complete_terminal_def assms)

interpretation ended: terminal_steps lim "\<lambda>st. is_finished j" for lim j
proof unfold_locales
  show "is_finished j (fst (open_terminal lim i label lifecycle owner pid now m))"
    if "is_finished j m" "find_session i m = None" for m i label lifecycle owner pid now
    using that by (auto simp: open_terminal_def is_finished_def)
qed (auto simp: quiet_session_def finished_append finished_complete finished_delete intro: finished_quiet)

section \<open>Pages\<close>

lemma back_start_le: "back_start d n \<le> n"
  by (induction d n rule: back_start.induct) auto

lemma utf8Page_slice:
  assumes "p = utf8Page d offset maxBytes complete"
  shows "up_offset p \<le> min offset (length d)" "up_offset p \<le> up_nextOffset p" "up_nextOffset p \<le> length d"
    "up_data p = take (up_nextOffset p - up_offset p) (drop (up_offset p) d)"
proof -
  define start where "start = back_start d (min offset (length d))"
  have start: "start \<le> min offset (length d)" unfolding start_def by (rule back_start_le)
  define end0 where "end0 = min (length d) (start + maxBytes)"
  have end0: "start \<le> end0" "end0 \<le> length d" using start by (auto simp: end0_def)
  define end1 where "end1 = (if end0 < length d \<and> continuation (d ! end0)
      then (let e = back_to d start end0 in if e = start then min (length d) (start + char_width (d ! start)) else e) else end0)"
  have end1: "start \<le> end1" "end1 \<le> length d"
    using end0 start back_to_le [of d start end0] back_to_ge [OF end0(1), of d] by (auto simp: end1_def Let_def)
  define end2 where "end2 = (if \<not> complete \<and> end1 = length d \<and> end1 > start
      then (let lead = back_to d start (end1 - 1) in if lead + char_width (d ! lead) > end1 then lead else end1) else end1)"
  have end2: "start \<le> end2" "end2 \<le> length d"
  proof -
    have "start \<le> back_to d start (end1 - 1)" if "end1 > start" using that by (intro back_to_ge) simp
    moreover have "back_to d start (end1 - 1) \<le> length d" using end1 back_to_le [of d start "end1 - 1"] by simp
    ultimately show "start \<le> end2" "end2 \<le> length d" using end1 by (auto simp: end2_def Let_def)
  qed
  have p: "p = \<lparr>up_offset = start, up_nextOffset = end2, up_data = take (end2 - start) (drop start d)\<rparr>"
    unfolding assms utf8Page_def start_def end0_def end1_def end2_def by (simp only: Let_def)
  show "up_offset p \<le> min offset (length d)" "up_offset p \<le> up_nextOffset p" "up_nextOffset p \<le> length d"
    "up_data p = take (up_nextOffset p - up_offset p) (drop (up_offset p) d)"
    using start end2 by (simp_all add: p)
qed

lemma terminal_page_slice:
  assumes "p = terminal_page encoding s local maxBytes" and "local \<le> length (ty_output s)"
  shows "up_offset p \<le> local" "up_offset p \<le> up_nextOffset p" "up_nextOffset p \<le> length (ty_output s)"
    "up_data p = take (up_nextOffset p - up_offset p) (drop (up_offset p) (ty_output s))"
proof -
  have "up_offset p \<le> local \<and> up_offset p \<le> up_nextOffset p \<and> up_nextOffset p \<le> length (ty_output s)
      \<and> up_data p = take (up_nextOffset p - up_offset p) (drop (up_offset p) (ty_output s))"
  proof (cases encoding)
    case PageUtf8
    then have "p = utf8Page (ty_output s) local maxBytes (\<not> terminal_running s)" using assms(1) by (simp add: terminal_page_def)
    from utf8Page_slice [OF this] show ?thesis by simp
  next
    case PageBase64
    have "take maxBytes (drop local (ty_output s)) = take (min (length (ty_output s)) (local + maxBytes) - local) (drop local (ty_output s))"
      by (cases "length (ty_output s) \<le> local + maxBytes") (simp_all add: min_def)
    then show ?thesis using PageBase64 assms by (simp add: terminal_page_def)
  qed
  then show "up_offset p \<le> local" "up_offset p \<le> up_nextOffset p" "up_nextOffset p \<le> length (ty_output s)"
    "up_data p = take (up_nextOffset p - up_offset p) (drop (up_offset p) (ty_output s))" by simp_all
qed


text \<open>C25. In every reachable state the budgets for terminals hold: at most the allowed number run, at most
  the allowed number of ended ones are listed, no terminal keeps more output than allowed for one and the
  listed ones together keep no more than allowed for all. The counter of all output is exactly the output
  held by all session objects, those outside the table included.\<close>

theorem terminal_budgets_hold:
  assumes "terminals_reach lim b64 parse m st"
  shows "runningCount m \<le> yl_maxTerminals lim
    \<and> length (filter (\<lambda>(i, s). \<not> terminal_running s) (listed_sessions m)) \<le> yl_maxCompletedTerminals lim
    \<and> (\<forall>(i, s) \<in> set (listed_sessions m). length (ty_output s) \<le> yl_maxOutputBytes lim)
    \<and> (\<Sum>(i, s) \<leftarrow> listed_sessions m. length (ty_output s)) \<le> yl_maxAggregateOutputBytes lim
    \<and> ty_aggregate m = (\<Sum>i \<in> fst ` set (ty_objects m). case find_session i m of None \<Rightarrow> 0 | Some s \<Rightarrow> int (length (ty_output s)))"
proof (intro conjI)
  have inv: "terminal_budgets lim m" by (rule budgets.reachable_inv [OF assms])
  have dist: "distinct (ty_listed m)" using inv by (simp add: terminal_budgets_def ledger_def)
  show "runningCount m \<le> yl_maxTerminals lim"
    using inv listed_count [OF dist, of terminal_running] by (simp add: runningCount_def terminal_budgets_def listed_sum_def)
  show "length (filter (\<lambda>(i, s). \<not> terminal_running s) (listed_sessions m)) \<le> yl_maxCompletedTerminals lim"
    using inv listed_count [OF dist, of "\<lambda>s. \<not> terminal_running s"] by (simp add: terminal_budgets_def listed_sum_def)
  show "\<forall>(i, s) \<in> set (listed_sessions m). length (ty_output s) \<le> yl_maxOutputBytes lim"
    using inv by (auto simp: listed_found terminal_budgets_def)
  have "int (\<Sum>(i, s) \<leftarrow> concat (map (\<lambda>i. case find_session i m of None \<Rightarrow> [] | Some s \<Rightarrow> [(i, s)]) is). length (ty_output s))
      = sum_list (map (session_weight output_size m) is)" for "is"
    by (induction "is") (simp_all add: session_weight_def split: option.split)
  then have "int (\<Sum>(i, s) \<leftarrow> listed_sessions m. length (ty_output s)) = listed_sum output_size m"
    by (simp add: listed_sessions_def listed_sum_def sum_list_distinct_conv_sum_set dist)
  then show "(\<Sum>(i, s) \<leftarrow> listed_sessions m. length (ty_output s)) \<le> yl_maxAggregateOutputBytes lim"
    using inv by (simp add: terminal_budgets_def)
  show "ty_aggregate m = (\<Sum>i \<in> fst ` set (ty_objects m). case find_session i m of None \<Rightarrow> 0 | Some s \<Rightarrow> int (length (ty_output s)))"
    using inv by (simp add: terminal_budgets_def ledger_def session_weight_def object_keys_of_def)
qed

section \<open>The end of an owner\<close>

lemma close_all_succeeds: "close_all is c = Inr u \<Longrightarrow> i \<in> set is \<Longrightarrow> snd (closeSession i True (c i)) = Inr ()"
  by (induction "is" arbitrary: u) (auto simp: rbind_eq_Inr)

lemma closed_finished:
  "snd (closeSession i force c) = Inr () \<Longrightarrow> is_finished i (cg_begin c) \<or> is_finished i (cg_waited c) \<or> is_finished i (cg_killed c)"
  by (auto simp: closeSession_def Let_def split: if_splits)

lemma finished_later: "terminals_later lim b64 parse (m, st) (m', st') \<Longrightarrow> is_finished i m \<Longrightarrow> is_finished i m'"
  by (rule ended.later_inv)

text \<open>C27. When the terminals of an owner are terminated and the request succeeds, it answers their number
  and every one of them has ended by then, whatever happened to the terminals while it waited for each of
  them; a terminal that could not be confirmed to have ended makes the request fail.\<close>

theorem terminated_owner_has_no_running_terminal:
  assumes "terminateOwner_terminals owner m c = Inr n"
    and "\<forall>i \<in> set (owner_terminals owner m). cg_begin (c i) = m
      \<and> (\<exists>st st1 st2 st3. terminals_later lim b64 parse (m, st) (cg_waited (c i), st1)
        \<and> terminals_later lim b64 parse (cg_waited (c i), st1) (cg_killed (c i), st2)
        \<and> terminals_later lim b64 parse (cg_killed (c i), st2) (last_m, st3))"
    and "(i, s) \<in> set (listed_sessions m)" and "terminal_matches owner s"
  shows "n = length (owner_terminals owner m) \<and> is_finished i last_m"
proof -
  have mem: "i \<in> set (owner_terminals owner m)" using assms(3,4) by (force simp: owner_terminals_def)
  from assms(1) have all: "close_all (owner_terminals owner m) c = Inr ()" "n = length (owner_terminals owner m)"
    by (auto simp: terminateOwner_terminals_def Let_def rbind_eq_Inr)
  from assms(2) mem obtain st st1 st2 st3 where steps: "cg_begin (c i) = m"
    "terminals_later lim b64 parse (m, st) (cg_waited (c i), st1)"
    "terminals_later lim b64 parse (cg_waited (c i), st1) (cg_killed (c i), st2)"
    "terminals_later lim b64 parse (cg_killed (c i), st2) (last_m, st3)" by blast
  from closed_finished [OF close_all_succeeds [OF all(1) mem]] have "is_finished i last_m"
    using steps finished_later by metis
  with all(2) show ?thesis by simp
qed

section \<open>Instances\<close>

definition demo_pty_limits :: pty_limits where
  "demo_pty_limits = \<lparr>yl_maxTerminals = 2, yl_maxOutputBytes = 4, yl_maxAggregateOutputBytes = 6, yl_completedTtlMs = 10,
     yl_maxCompletedTerminals = 1, yl_localeBefore = (\<lambda>_ _. True)\<rparr>"

definition demo_pty_owner :: lease_proof where
  "demo_pty_owner = \<lparr>proof_id = ''lease'', proof_generation = 1, proof_epoch = ''epoch''\<rparr>"

definition demo_pty_events :: "pty_event list" where
  "demo_pty_events = [TerminalOpened ''t'' ''shell'' SessionTerminal demo_pty_owner None 5, HelperStderr ''t'' [104, 105],
     HelperClosed ''t'' 9 (Some 0) None]"

definition run_pty_events :: "pty_event list \<Rightarrow> pty_manager \<times> (string \<Rightarrow> nat list) \<Rightarrow> pty_manager \<times> (string \<Rightarrow> nat list)" where
  "run_pty_events es = fold (\<lambda>e (m, st). (pty_event_step demo_pty_limits (\<lambda>_. []) (\<lambda>_. None) e m,
     received_after (\<lambda>_. []) (\<lambda>_. None) e m st)) es"

fun all_allowed :: "pty_event list \<Rightarrow> pty_manager \<times> (string \<Rightarrow> nat list) \<Rightarrow> bool" where
  "all_allowed [] x = True"
| "all_allowed (e # es) x = (event_allowed e (fst x) \<and> all_allowed es (run_pty_events [e] x))"

lemma run_later: "all_allowed es x \<Longrightarrow> terminals_later demo_pty_limits (\<lambda>_. []) (\<lambda>_. None) y x \<Longrightarrow>
  terminals_later demo_pty_limits (\<lambda>_. []) (\<lambda>_. None) y (run_pty_events es x)"
proof (induction es arbitrary: x)
  case (Cons e es)
  obtain m st where x: "x = (m, st)" by force
  have "terminals_later demo_pty_limits (\<lambda>_. []) (\<lambda>_. None) y (run_pty_events [e] x)"
    using terminals_later.event [of _ _ _ y m st e] Cons.prems x by (simp add: run_pty_events_def)
  from Cons.IH [OF _ this] Cons.prems(1) show ?case by (simp add: run_pty_events_def)
qed (simp add: run_pty_events_def)

definition demo_pty_start :: "pty_manager \<times> (string \<Rightarrow> nat list)" where
  "demo_pty_start = (new_pty_manager, \<lambda>_. [])"

lemma demo_reached:
  "terminals_reach demo_pty_limits (\<lambda>_. []) (\<lambda>_. None) (fst (run_pty_events (take n demo_pty_events) demo_pty_start))
     (snd (run_pty_events (take n demo_pty_events) demo_pty_start))" if "n \<le> 3"
proof -
  have "all_allowed (take n demo_pty_events) demo_pty_start"
    using that by (cases n; cases "n - 1"; cases "n - 2") (simp_all add: demo_pty_events_def demo_pty_start_def event_allowed_def
        new_pty_manager_def find_session_def)
  from run_later [OF this terminals_later.now] show ?thesis by (simp add: terminals_reach_def demo_pty_start_def)
qed


theorem terminal_budgets_hold_witness:
  "\<exists>m st. terminals_reach demo_pty_limits (\<lambda>_. []) (\<lambda>_. None) m st \<and> runningCount m \<le> 2 \<and> ty_listed m = [''t'']"
proof -
  let ?x = "run_pty_events (take 1 demo_pty_events) demo_pty_start"
  have reach: "terminals_reach demo_pty_limits (\<lambda>_. []) (\<lambda>_. None) (fst ?x) (snd ?x)" by (rule demo_reached) simp
  have "ty_listed (fst ?x) = [''t'']" by code_simp
  moreover have "yl_maxTerminals demo_pty_limits = 2" by (simp add: demo_pty_limits_def)
  ultimately show ?thesis using terminal_budgets_hold [OF reach] reach by metis
qed

theorem terminated_owner_has_no_running_terminal_witness:
  "\<exists>m c last_m. terminateOwner_terminals (Some demo_pty_owner) m c = Inr 1 \<and> \<not> is_finished ''t'' m \<and> is_finished ''t'' last_m"
proof -
  let ?x = "run_pty_events (take 2 demo_pty_events) demo_pty_start" and ?y = "run_pty_events demo_pty_events demo_pty_start"
  let ?c = "\<lambda>i :: string. \<lparr>cg_begin = fst ?x, cg_waited = fst ?y, cg_killed = fst ?y, cg_stdin = \<lparr>ci_closed = False, ci_queued = 0, ci_fails = False\<rparr>\<rparr>"
  have matches: "owner_terminals (Some demo_pty_owner) (fst ?x) = [''t'']" by code_simp
  have running: "\<not> is_finished ''t'' (fst ?x)" by code_simp
  have ended: "is_finished ''t'' (fst ?y)" by code_simp
  have run: "terminateOwner_terminals (Some demo_pty_owner) (fst ?x) ?c = Inr 1"
    by (simp add: terminateOwner_terminals_def Let_def matches closeSession_def running ended)
  have split: "?y = run_pty_events (drop 2 demo_pty_events) ?x" by (simp add: run_pty_events_def demo_pty_events_def)
  have "all_allowed (drop 2 demo_pty_events) ?x" by (simp add: demo_pty_events_def event_allowed_def)
  then have step: "terminals_later demo_pty_limits (\<lambda>_. []) (\<lambda>_. None) ?x ?y"
    unfolding split by (rule run_later) (rule terminals_later.now)
  have "\<forall>i \<in> set (owner_terminals (Some demo_pty_owner) (fst ?x)). cg_begin (?c i) = fst ?x
      \<and> (\<exists>st st1 st2 st3. terminals_later demo_pty_limits (\<lambda>_. []) (\<lambda>_. None) (fst ?x, st) (cg_waited (?c i), st1)
        \<and> terminals_later demo_pty_limits (\<lambda>_. []) (\<lambda>_. None) (cg_waited (?c i), st1) (cg_killed (?c i), st2)
        \<and> terminals_later demo_pty_limits (\<lambda>_. []) (\<lambda>_. None) (cg_killed (?c i), st2) (fst ?y, st3))"
    using step terminals_later.now by (metis closing.select_convs(1-3) prod.collapse)
  moreover have "list_ex (\<lambda>(i, s). i = ''t'' \<and> terminal_matches (Some demo_pty_owner) s) (listed_sessions (fst ?x))" by code_simp
  then obtain s where "(''t'', s) \<in> set (listed_sessions (fst ?x))" "terminal_matches (Some demo_pty_owner) s"
    by (auto simp: list_ex_iff)
  ultimately have "is_finished ''t'' (fst ?y)"
    using terminated_owner_has_no_running_terminal [OF run] by blast
  with run running show ?thesis by blast
qed

text \<open>Output that arrives after its terminal was removed from the table stays in the counter of all output:
  here no terminal is listed any more and 2 bytes are counted. \<open>deleteSession\<close> gives back the output of a
  session only while it is listed, and the trimming looks at listed sessions only.\<close>

lemma late_output_stays_counted:
  "let m = fst (run_pty_events (demo_pty_events @ [CleanupDue ''t'', HelperStderr ''t'' [104, 105], CleanupDue ''t'']) demo_pty_start)
   in ty_listed m = [] \<and> ty_aggregate m = 2"
  by code_simp

end
