(* ===== verification/Stable_Json.thy ===== *)
theory Stable_Json
  imports Json Sorts
begin

text \<open>The canonical text of a JSON value: \<open>stableJson\<close> of packages/cli/src/cleanup-plan.ts, whose
  digests identify a cleanup plan and the evidence of each candidate. Strings and numbers are written
  as \<open>JSON.stringify\<close> writes them; the fields of an object are sorted by their names. Two values
  have the same text exactly when they differ in the order of fields only.\<close>

section \<open>Text\<close>

definition hex_digit_char :: "nat \<Rightarrow> char" where
  "hex_digit_char n = char_of (if n < 10 then 48 + n else 87 + n)"

definition quote_char :: "char \<Rightarrow> string" where
  "quote_char c = (let n = (of_char c :: nat) in
     if n = 34 then [CHR 0x5C, CHR 0x22]
     else if n = 92 then [CHR 0x5C, CHR 0x5C]
     else if n = 8 then [CHR 0x5C, CHR ''b'']
     else if n = 9 then [CHR 0x5C, CHR ''t'']
     else if n = 10 then [CHR 0x5C, CHR ''n'']
     else if n = 12 then [CHR 0x5C, CHR ''f'']
     else if n = 13 then [CHR 0x5C, CHR ''r'']
     else if n < 32 then [CHR 0x5C, CHR ''u'', CHR ''0'', CHR ''0'', hex_digit_char (n div 16), hex_digit_char (n mod 16)]
     else [c])"

definition json_quote :: "string \<Rightarrow> string" where
  "json_quote s = CHR 0x22 # concat (map quote_char s) @ [CHR 0x22]"

definition json_number :: "int \<Rightarrow> string" where
  "json_number n = (if n < 0 then CHR ''-'' # show_nat (nat (- n)) else show_nat (nat n))"

fun print_json :: "(string \<Rightarrow> string \<Rightarrow> bool) \<Rightarrow> json \<Rightarrow> string" where
  "print_json le JNull = ''null''"
| "print_json le (JBool b) = (if b then ''true'' else ''false'')"
| "print_json le (JNumber n) = json_number n"
| "print_json le (JString s) = json_quote s"
| "print_json le (JArray xs) = CHR ''['' # join_with CHR '','' (map (print_json le) xs) @ '']''"
| "print_json le (JObject fields) = CHR ''{''
     # join_with CHR '','' (map (\<lambda>(k, v). json_quote k @ CHR '':'' # print_json le v)
         (sort_by (\<lambda>l r. le (fst l) (fst r)) fields)) @ ''}''"

definition stableJson :: "json \<Rightarrow> string" where
  "stableJson j = print_json (\<lambda>l r. compareText l r \<le> 0) j"

text \<open>The value with the fields of every object in order.\<close>

fun sort_fields :: "(string \<Rightarrow> string \<Rightarrow> bool) \<Rightarrow> json \<Rightarrow> json" where
  "sort_fields le (JArray xs) = JArray (map (sort_fields le) xs)"
| "sort_fields le (JObject fields) =
     JObject (map (\<lambda>(k, v). (k, sort_fields le v)) (sort_by (\<lambda>l r. le (fst l) (fst r)) fields))"
| "sort_fields le j = j"

section \<open>Reading the text back\<close>

text \<open>A value is followed by nothing or by one of these characters.\<close>

definition value_ends :: "string \<Rightarrow> bool" where
  "value_ends x = (x = [] \<or> hd x \<in> set '',]}'')"

lemma value_ends_simps [simp]: "value_ends []" "value_ends (c # x) \<longleftrightarrow> c \<in> set '',]}''"
  by (simp_all add: value_ends_def)

lemma of_char_eq_nat: "(of_char c :: nat) = n \<Longrightarrow> c = char_of n"
  by auto

definition hex_digit_of :: "char \<Rightarrow> nat" where
  "hex_digit_of c = (let n = of_char c in if n < 58 then n - 48 else n - 87)"

lemma hex_digit_of_char [simp]: "n < 16 \<Longrightarrow> hex_digit_of (hex_digit_char n) = n"
  by (simp add: hex_digit_of_def hex_digit_char_def)

text \<open>The character at the start of a quoted text.\<close>

definition unescape :: "char \<Rightarrow> char" where
  "unescape e = (if e = CHR ''b'' then char_of (8::nat) else if e = CHR ''t'' then char_of (9::nat)
     else if e = CHR ''n'' then char_of (10::nat) else if e = CHR ''f'' then char_of (12::nat)
     else if e = CHR ''r'' then char_of (13::nat) else e)"

fun unquote_char :: "string \<Rightarrow> (char \<times> string) option" where
  "unquote_char [] = None"
| "unquote_char (c # r) =
     (if c \<noteq> CHR 0x5C then Some (c, r)
      else (case r of
          [] \<Rightarrow> None
        | e # r' \<Rightarrow>
            if e \<noteq> CHR ''u'' then Some (unescape e, r')
            else (case r' of
                a # b # h # l # r'' \<Rightarrow> Some (char_of (16 * hex_digit_of h + hex_digit_of l), r'')
              | _ \<Rightarrow> None)))"

lemma unquote_quote: "unquote_char (quote_char c @ x) = Some (c, x)"
proof -
  define n where "n = (of_char c :: nat)"
  have c: "c = char_of n" by (simp add: n_def)
  have chars: "char_of (34::nat) = CHR 0x22" "char_of (92::nat) = CHR 0x5C" by (simp_all add: char_of_eq_iff)
  have plain: "quote_char c = [c]" "c \<noteq> CHR 0x5C" if "n \<ge> 32" "n \<noteq> 34" "n \<noteq> 92"
    using that by (auto simp: quote_char_def n_def)
  have control: "quote_char c = [CHR 0x5C, CHR ''u'', CHR ''0'', CHR ''0'', hex_digit_char (n div 16), hex_digit_char (n mod 16)]"
    if "n < 32" "n \<notin> {8, 9, 10, 12, 13}"
    using that by (simp add: quote_char_def n_def Let_def)
  consider "n = 34" | "n = 92" | "n = 8" | "n = 9" | "n = 10" | "n = 12" | "n = 13"
    | "n < 32" "n \<notin> {8, 9, 10, 12, 13}" | "n \<ge> 32" "n \<noteq> 34" "n \<noteq> 92"
    by fastforce
  then show ?thesis
  proof cases
    case 8
    have "hex_digit_of (hex_digit_char (n div 16)) = n div 16" "hex_digit_of (hex_digit_char (n mod 16)) = n mod 16"
      using 8 by simp_all
    then show ?thesis by (simp add: control [OF 8] c [symmetric])
  next
    case 9
    then show ?thesis by (simp add: plain [OF 9])
  qed (simp_all add: quote_char_def n_def [symmetric] unescape_def c chars)
qed

lemma quote_char_unique: "quote_char c @ x = quote_char d @ y \<Longrightarrow> c = d \<and> x = y"
  by (metis unquote_quote option.inject prod.inject)

lemma quote_char_head: "quote_char c @ x \<noteq> CHR 0x22 # y"
proof
  assume "quote_char c @ x = CHR 0x22 # y"
  then have "unquote_char (CHR 0x22 # y) = Some (c, x)" using unquote_quote by metis
  then have "c = CHR 0x22" by simp
  with \<open>quote_char c @ x = CHR 0x22 # y\<close> show False by (simp add: quote_char_def)
qed

lemma json_quote_unique: "json_quote s @ x = json_quote t @ y \<Longrightarrow> s = t \<and> x = y"
proof (induction s arbitrary: t)
  case Nil
  then show ?case by (cases t) (auto simp: json_quote_def quote_char_head [THEN not_sym])
next
  case (Cons c s)
  show ?case
  proof (cases t)
    case Nil
    with Cons.prems show ?thesis by (auto simp: json_quote_def quote_char_head)
  next
    case (Cons d t')
    with Cons.prems have "quote_char c @ concat (map quote_char s) @ CHR 0x22 # x
        = quote_char d @ concat (map quote_char t') @ CHR 0x22 # y"
      by (simp add: json_quote_def)
    from quote_char_unique [OF this] Cons Cons.IH [of t'] show ?thesis by (simp add: json_quote_def)
  qed
qed

lemma ends_no_digit: "value_ends x \<Longrightarrow> x = [] \<or> \<not> is_digit (hd x)"
  by (auto simp: value_ends_def is_digit_def)

lemma digits_unique:
  assumes "list_all is_digit s" and "list_all is_digit t" and "s @ x = t @ y"
    and "x = [] \<or> \<not> is_digit (hd x)" and "y = [] \<or> \<not> is_digit (hd y)"
  shows "s = t \<and> x = y"
proof -
  have "takeWhile is_digit (s @ x) = s" if "list_all is_digit s" "x = [] \<or> \<not> is_digit (hd x)" for s x
    using that by (cases x) (simp_all add: takeWhile_append2 list_all_iff takeWhile_append)
  from this [OF assms(1,4)] this [OF assms(2,5)] assms(3) show ?thesis by simp
qed

lemma show_nat_unique:
  assumes "show_nat m @ x = show_nat n @ y" and "value_ends x" and "value_ends y"
  shows "m = n \<and> x = y"
proof -
  have "list_all is_digit (show_nat k)" for k by (auto simp: list_all_iff show_nat_digits)
  from digits_unique [OF this this assms(1) ends_no_digit [OF assms(2)] ends_no_digit [OF assms(3)]]
  show ?thesis by simp
qed

lemma show_nat_minus: "show_nat n @ x \<noteq> CHR ''-'' # y"
proof
  assume "show_nat n @ x = CHR ''-'' # y"
  then have "CHR ''-'' \<in> set (show_nat n)" by (cases "show_nat n") auto
  from show_nat_digits [OF this] show False by (simp add: is_digit_def)
qed

lemma json_number_unique:
  assumes "json_number m @ x = json_number n @ y" and "value_ends x" and "value_ends y"
  shows "m = n \<and> x = y"
proof (cases "m < 0"; cases "n < 0")
  assume "m < 0" "n < 0"
  with assms show_nat_unique [of "nat (- m)" x "nat (- n)" y] show ?thesis by (auto simp: json_number_def)
next
  assume "m < 0" "\<not> n < 0"
  with assms(1) show ?thesis by (simp add: json_number_def show_nat_minus [THEN not_sym])
next
  assume "\<not> m < 0" "n < 0"
  with assms(1) show ?thesis by (simp add: json_number_def show_nat_minus)
next
  assume "\<not> m < 0" "\<not> n < 0"
  with assms show_nat_unique [of "nat m" x "nat n" y] show ?thesis by (auto simp: json_number_def)
qed

text \<open>What a value begins with tells its kind.\<close>

definition json_kind_of :: "char \<Rightarrow> nat" where
  "json_kind_of c = (if c = CHR ''n'' then 0 else if c = CHR ''t'' then 1 else if c = CHR ''f'' then 2
     else if is_digit c \<or> c = CHR ''-'' then 3 else if c = CHR 0x22 then 4 else if c = CHR ''['' then 5
     else if c = CHR ''{'' then 6 else 7)"

definition json_kind :: "json \<Rightarrow> nat" where
  "json_kind j = (case j of JNull \<Rightarrow> 0 | JBool b \<Rightarrow> (if b then 1 else 2) | JNumber _ \<Rightarrow> 3 | JString _ \<Rightarrow> 4
     | JArray _ \<Rightarrow> 5 | JObject _ \<Rightarrow> 6)"

lemma print_json_head: "\<exists>c r. print_json le j = c # r \<and> json_kind_of c = json_kind j"
proof (cases j)
  case (JNumber n)
  have digit: "\<exists>c r. show_nat k = c # r \<and> is_digit c" for k
    using show_nat_digits [of _ k] by (cases "show_nat k") auto
  have kind: "json_kind_of c = 3" if "is_digit c" for c
    using that by (auto simp: json_kind_of_def is_digit_def)
  show ?thesis
  proof (cases "n < 0")
    case True
    with JNumber show ?thesis by (simp add: json_number_def json_kind_def json_kind_of_def is_digit_def)
  next
    case False
    with JNumber digit [of "nat n"] kind show ?thesis by (auto simp: json_number_def json_kind_def)
  qed
qed (simp_all add: json_kind_def json_kind_of_def json_quote_def is_digit_def)

lemma json_kind_iff:
  "json_kind b = 0 \<longleftrightarrow> b = JNull" "json_kind b = 1 \<longleftrightarrow> b = JBool True" "json_kind b = 2 \<longleftrightarrow> b = JBool False"
  "json_kind b = 3 \<longleftrightarrow> (\<exists>n. b = JNumber n)" "json_kind b = 4 \<longleftrightarrow> (\<exists>t. b = JString t)"
  "json_kind b = 5 \<longleftrightarrow> (\<exists>xs. b = JArray xs)" "json_kind b = 6 \<longleftrightarrow> (\<exists>fs. b = JObject fs)"
  by (cases b; simp add: json_kind_def)+

lemma json_kind_simps [simp]:
  "json_kind JNull = 0" "json_kind (JBool v) = (if v then 1 else 2)" "json_kind (JNumber n) = 3"
  "json_kind (JString s) = 4" "json_kind (JArray xs) = 5" "json_kind (JObject fs) = 6"
  by (simp_all add: json_kind_def)

lemma print_json_kind: "print_json le a @ x = print_json le b @ y \<Longrightarrow> json_kind a = json_kind b"
  using print_json_head [of le a] print_json_head [of le b] by auto

lemma print_json_no_end: "print_json le j @ x \<noteq> [] \<and> hd (print_json le j @ x) \<notin> set '',]}''"
proof -
  obtain c r where c: "print_json le j = c # r" "json_kind_of c = json_kind j" using print_json_head by blast
  have "json_kind j \<noteq> 7" by (cases j) (simp_all add: json_kind_def)
  with c show ?thesis by (auto simp: json_kind_of_def is_digit_def)
qed

lemma join_unique:
  assumes "\<And>v u z w. v \<in> set vs \<Longrightarrow> u \<in> set us \<Longrightarrow> f v @ z = f u @ w \<Longrightarrow> value_ends z \<Longrightarrow> value_ends w \<Longrightarrow> g v = g u \<and> z = w"
    and "\<And>v z. f v @ z \<noteq> [] \<and> hd (f v @ z) \<notin> set '',]}''"
    and "e \<in> set '']}''"
    and "join_with CHR '','' (map f vs) @ e # x = join_with CHR '','' (map f us) @ e # y"
  shows "map g vs = map g us \<and> x = y"
  using assms(1,4)
proof (induction vs arbitrary: us)
  case Nil
  show ?case
  proof (cases us)
    case (Cons u us')
    have "\<exists>z. join_with CHR '','' (map f us) @ e # y = f u @ z"
      using Cons by (cases us') simp_all
    then obtain z where "e # x = f u @ z" using Nil.prems(2) Cons by auto
    then have "hd (f u @ z) = e" by (metis list.sel(1))
    with assms(2) [of u z] assms(3) show ?thesis by auto
  qed (use Nil in simp)
next
  case (Cons v vs)
  obtain z where z: "join_with CHR '','' (map f (v # vs)) @ e # x = f v @ z" "value_ends z"
      "z = (if vs = [] then e # x else CHR '','' # join_with CHR '','' (map f vs) @ e # x)"
    using assms(3) by (cases vs) auto
  show ?case
  proof (cases us)
    case Nil
    with Cons.prems(2) z(1) have "e # y = f v @ z" by simp
    then have "hd (f v @ z) = e" by (metis list.sel(1))
    with assms(2) [of v z] assms(3) show ?thesis by auto
  next
    case (Cons u us')
    obtain w where w: "join_with CHR '','' (map f (u # us')) @ e # y = f u @ w" "value_ends w"
        "w = (if us' = [] then e # y else CHR '','' # join_with CHR '','' (map f us') @ e # y)"
      using assms(3) by (cases us') auto
    have "f v @ z = f u @ w" using Cons.prems(2) Cons z(1) w(1) by simp
    then have eq: "g v = g u" "z = w" using Cons.prems(1) [of v u z w] Cons z(2) w(2) by auto
    show ?thesis
    proof (cases "vs = [] \<or> us' = []")
      case True
      with eq(2) z(3) w(3) assms(3) have "vs = []" "us' = []" "x = y" by (auto split: if_splits)
      with eq Cons show ?thesis by simp
    next
      case False
      with eq(2) z(3) w(3) have "join_with CHR '','' (map f vs) @ e # x = join_with CHR '','' (map f us') @ e # y" by simp
      from Cons.IH [OF _ this] Cons.prems(1) Cons eq show ?thesis by auto
    qed
  qed
qed

lemma print_json_unique:
  "print_json le a @ x = print_json le b @ y \<Longrightarrow> value_ends x \<Longrightarrow> value_ends y
     \<Longrightarrow> sort_fields le a = sort_fields le b \<and> x = y"
proof (induction le a arbitrary: b x y rule: print_json.induct)
  case (1 le)
  from print_json_kind [OF 1(1)] have "b = JNull" by (metis json_kind_iff(1) json_kind_simps(1))
  with 1 show ?case by simp
next
  case (2 le v)
  from print_json_kind [OF 2(1)] have "b = JBool v" by (cases v) (metis json_kind_iff(2,3) json_kind_simps(2))+
  with 2 show ?case by simp
next
  case (3 le n)
  from print_json_kind [OF 3(1)] obtain m where "b = JNumber m" by (metis json_kind_iff(4) json_kind_simps(3))
  with 3 json_number_unique [of n x m y] show ?case by simp
next
  case (4 le s)
  from print_json_kind [OF 4(1)] obtain t where "b = JString t" by (metis json_kind_iff(5) json_kind_simps(4))
  with 4 json_quote_unique [of s x t y] show ?case by simp
next
  case (5 le xs)
  from print_json_kind [OF 5(2)] obtain ys where b: "b = JArray ys" by (metis json_kind_iff(6) json_kind_simps(5))
  have texts: "join_with CHR '','' (map (print_json le) xs) @ CHR '']'' # x = join_with CHR '','' (map (print_json le) ys) @ CHR '']'' # y"
    using 5(2) b by simp
  have "map (sort_fields le) xs = map (sort_fields le) ys \<and> x = y"
    by (rule join_unique [OF _ print_json_no_end _ texts]) (use 5(1) in \<open>blast, simp\<close>)
  with b show ?case by simp
next
  case (6 le fields)
  from print_json_kind [OF 6(2)] obtain gs where b: "b = JObject gs" by (metis json_kind_iff(7) json_kind_simps(6))
  let ?s = "\<lambda>fs. sort_by (\<lambda>l r. le (fst l) (fst r)) fs"
  let ?f = "\<lambda>(k, v). json_quote k @ CHR '':'' # print_json le v" and ?g = "\<lambda>(k, v). (k, sort_fields le v)"
  have one: "?g p = ?g q \<and> z = w"
    if "p \<in> set (?s fields)" "?f p @ z = ?f q @ w" "value_ends z" "value_ends w" for p q z w
  proof -
    obtain k v l u where pq: "p = (k, v)" "q = (l, u)" by (cases p; cases q)
    with that(2) json_quote_unique [of k "CHR '':'' # print_json le v @ z" l "CHR '':'' # print_json le u @ w"]
    have same: "k = l" "print_json le v @ z = print_json le u @ w" by simp_all
    from 6(1) [OF that(1) pq(1) [symmetric] same(2) that(3,4)] same(1) pq show ?thesis by simp
  qed
  have texts: "join_with CHR '','' (map ?f (?s fields)) @ CHR ''}'' # x = join_with CHR '','' (map ?f (?s gs)) @ CHR ''}'' # y"
    using 6(2) b by simp
  have start: "?f p @ z \<noteq> [] \<and> hd (?f p @ z) \<notin> set '',]}''" for p z
    by (cases p) (simp add: json_quote_def)
  have "map ?g (?s fields) = map ?g (?s gs) \<and> x = y"
    by (rule join_unique [OF _ start _ texts]) (use one in \<open>blast, simp\<close>)
  with b show ?case by simp
qed

lemma print_sorted: "print_json le j = print_json (\<lambda>_ _. True) (sort_fields le j)"
proof (induction le j rule: print_json.induct)
  case (6 le fields)
  have "sort_by (\<lambda>_ _. True) xs = xs" for xs :: "(string \<times> json) list"
    by (rule sort_by_already) (simp add: sorted_wrt_true)
  with 6 show ?case by (auto simp: case_prod_beta intro!: arg_cong [of _ _ "join_with CHR '',''"])
qed (auto intro!: arg_cong [of _ _ "join_with CHR '',''"])

lemma stable_json_text:
  "stableJson a = stableJson b
     \<longleftrightarrow> sort_fields (\<lambda>l r. compareText l r \<le> 0) a = sort_fields (\<lambda>l r. compareText l r \<le> 0) b"
    (is "_ \<longleftrightarrow> sort_fields ?le a = sort_fields ?le b")
proof
  assume "stableJson a = stableJson b"
  then show "sort_fields ?le a = sort_fields ?le b"
    using print_json_unique [of ?le a "[]" b "[]"] by (simp add: stableJson_def)
next
  assume "sort_fields ?le a = sort_fields ?le b"
  then show "stableJson a = stableJson b"
    unfolding stableJson_def by (metis print_sorted)
qed

text \<open>Equal up to the order of fields: the same value in every field.\<close>

lemma sorted_fields_mset:
  assumes "sort_fields le (JObject fs) = sort_fields le (JObject gs)"
  shows "mset (map (\<lambda>(k, v). (k, sort_fields le v)) fs) = mset (map (\<lambda>(k, v). (k, sort_fields le v)) gs)"
proof -
  have "mset (map f (sort_by c xs)) = mset (map f xs)" for c and f :: "string \<times> json \<Rightarrow> string \<times> json" and xs
    by simp
  with assms show ?thesis by (metis (no_types, lifting) json.inject(5) sort_fields.simps(2))
qed

lemma sorted_fields_lookup:
  assumes "sort_fields le (JObject fs) = sort_fields le (JObject gs)"
    and "distinct (map fst fs)" and "distinct (map fst gs)"
  shows "map_option (sort_fields le) (map_of fs k) = map_option (sort_fields le) (map_of gs k)"
proof -
  let ?h = "\<lambda>fs. map (\<lambda>(k, v). (k, sort_fields le v)) fs"
  have keys: "map fst (?h xs) = map fst xs" for xs by (induction xs) auto
  have "set (?h fs) = set (?h gs)" by (metis sorted_fields_mset [OF assms(1)] set_mset_mset)
  moreover have "distinct (map fst (?h fs))" "distinct (map fst (?h gs))" unfolding keys by (fact assms(2,3))+
  ultimately have "map_of (?h fs) = map_of (?h gs)" by (simp add: map_of_inject_set)
  moreover have "map_of (?h xs) k = map_option (sort_fields le) (map_of xs k)" for xs by (induction xs) auto
  ultimately show ?thesis by metis
qed


end
