(* ===== verification/Cleanup.thy ===== *)
theory Cleanup
  imports Stable_Json
begin

text \<open>What the cleanup command may remove: packages/cli/src/cleanup-plan.ts.

  The inventory of the container runtime becomes a plan: every item is a candidate for removal or is
  preserved for a reason. A candidate carries a digest of everything that was observed of it, the plan a
  digest of its candidates and of what it preserves. The execution takes the inventory again, refuses
  when the digest of the plan has changed, and takes it once more before each removal. The hash
  function is the argument \<open>sha\<close> of the definitions.\<close>

section \<open>Inventory\<close>

datatype cleanup_kind = KContainer | KNetwork | KVolume | KImage | KCacheRecord | KEvidenceRecord

definition kind_text :: "cleanup_kind \<Rightarrow> string" where
  "kind_text k = (case k of KContainer \<Rightarrow> ''container'' | KNetwork \<Rightarrow> ''network'' | KVolume \<Rightarrow> ''volume''
     | KImage \<Rightarrow> ''image'' | KCacheRecord \<Rightarrow> ''cache-record'' | KEvidenceRecord \<Rightarrow> ''evidence-record'')"

definition KIND_ORDER :: "cleanup_kind \<Rightarrow> int" where
  "KIND_ORDER k = (case k of KContainer \<Rightarrow> 0 | KNetwork \<Rightarrow> 1 | KVolume \<Rightarrow> 2 | KImage \<Rightarrow> 3
     | KCacheRecord \<Rightarrow> 4 | KEvidenceRecord \<Rightarrow> 5)"

record cleanup_selection =
  sel_orphans :: bool
  sel_images :: bool
  sel_records :: bool

record cleanup_attachment =
  at_containerId :: string
  at_running :: bool

record named_docker_resource =
  dr_id :: string
  dr_name :: string
  dr_labels :: "(string, string) js_map"

record cleanup_container = named_docker_resource +
  dc_status :: string

record cleanup_network = named_docker_resource +
  dn_attachedContainers :: "cleanup_attachment list"

record cleanup_volume = named_docker_resource +
  dv_attachedContainers :: "cleanup_attachment list"
  dv_durableHome :: bool

record cleanup_image = named_docker_resource +
  di_references :: "string list"
  di_referencedByContainers :: "cleanup_attachment list"

record cleanup_record =
  kr_evidence :: bool \<comment> \<open>the kind: an evidence record or a cache record\<close>
  kr_id :: string
  kr_name :: string
  kr_namespace :: string
  kr_schemaVersion :: int
  kr_obsolete :: bool
  kr_referenced :: bool

datatype inventory_item =
    ItemContainer cleanup_container
  | ItemNetwork cleanup_network
  | ItemVolume cleanup_volume
  | ItemImage cleanup_image
  | ItemRecord cleanup_record

fun item_kind :: "inventory_item \<Rightarrow> cleanup_kind" where
  "item_kind (ItemContainer c) = KContainer"
| "item_kind (ItemNetwork n) = KNetwork"
| "item_kind (ItemVolume v) = KVolume"
| "item_kind (ItemImage i) = KImage"
| "item_kind (ItemRecord r) = (if kr_evidence r then KEvidenceRecord else KCacheRecord)"

fun item_id :: "inventory_item \<Rightarrow> string" where
  "item_id (ItemContainer c) = dr_id c"
| "item_id (ItemNetwork n) = dr_id n"
| "item_id (ItemVolume v) = dr_id v"
| "item_id (ItemImage i) = dr_id i"
| "item_id (ItemRecord r) = kr_id r"

fun item_name :: "inventory_item \<Rightarrow> string" where
  "item_name (ItemContainer c) = dr_name c"
| "item_name (ItemNetwork n) = dr_name n"
| "item_name (ItemVolume v) = dr_name v"
| "item_name (ItemImage i) = dr_name i"
| "item_name (ItemRecord r) = kr_name r"

record cleanup_snapshot =
  sn_installationId :: string
  sn_projectName :: string
  sn_expectedContainers :: "string list"
  sn_expectedNetworks :: "string list"
  sn_expectedVolumes :: "string list"
  sn_protectedImageReferences :: "string list"
  sn_retainedManagedImageReferences :: "string list"
  sn_items :: "inventory_item list"

datatype preservation_reason =
    NotSelected | OwnershipUnverified | CurrentManagedRuntime | RunningResource | AttachedResource
  | DurableHome | MutableIdentity | SharedGlobalImage | CurrentOrRetainedImage
  | ContainerReferencedImage | NotObsolete | RecordReferenced

definition reason_text :: "preservation_reason \<Rightarrow> string" where
  "reason_text r = (case r of NotSelected \<Rightarrow> ''not-selected'' | OwnershipUnverified \<Rightarrow> ''ownership-unverified''
     | CurrentManagedRuntime \<Rightarrow> ''current-managed-runtime'' | RunningResource \<Rightarrow> ''running-resource''
     | AttachedResource \<Rightarrow> ''attached-resource'' | DurableHome \<Rightarrow> ''durable-home''
     | MutableIdentity \<Rightarrow> ''mutable-identity'' | SharedGlobalImage \<Rightarrow> ''shared-global-image''
     | CurrentOrRetainedImage \<Rightarrow> ''current-or-retained-image''
     | ContainerReferencedImage \<Rightarrow> ''container-referenced-image'' | NotObsolete \<Rightarrow> ''not-obsolete''
     | RecordReferenced \<Rightarrow> ''record-referenced'')"

record cleanup_candidate =
  cd_kind :: cleanup_kind
  cd_id :: string
  cd_name :: string
  cd_validationDigest :: string

record preserved_item =
  pi_kind :: cleanup_kind
  pi_id :: string
  pi_name :: string
  pi_reason :: preservation_reason
  pi_detail :: string

record cleanup_plan =
  cp_reviewDigest :: string
  cp_selection :: cleanup_selection
  cp_candidates :: "cleanup_candidate list"
  cp_preserved :: "preserved_item list"

datatype cleanup_decision =
    Remove cleanup_candidate
  | Preserve preservation_reason string

section \<open>Ownership\<close>

definition cleanup_uuid_pattern :: "(char \<Rightarrow> bool) list" where
  "cleanup_uuid_pattern = replicate 8 is_hex @ [(=) CHR ''-''] @ replicate 4 is_hex @ [(=) CHR ''-'']
     @ [\<lambda>c. c \<in> set ''12345678''] @ replicate 3 is_hex @ [(=) CHR ''-'']
     @ [\<lambda>c. c \<in> set ''89abAB''] @ replicate 3 is_hex @ [(=) CHR ''-''] @ replicate 12 is_hex"

definition cleanup_uuid :: "string option \<Rightarrow> bool" where
  "cleanup_uuid v = (case v of None \<Rightarrow> False | Some s \<Rightarrow> char_pattern cleanup_uuid_pattern s)"

definition helper_roles :: "string list" where
  "helper_roles = [''computer-executor'', ''computer-egress'', ''computer-web'', ''computer-session'', ''computer-ssh'']"

definition verifiedContainerOwnership :: "string \<Rightarrow> (string, string) js_map \<Rightarrow> bool" where
  "verifiedContainerOwnership installationId labels =
     (if map_of labels ''dev.qubicl.installation'' \<noteq> Some installationId then False
      else
        (let role = map_of labels ''dev.qubicl.role'' in
         if role = Some ''gateway'' then True
         else if role = Some ''computer'' then cleanup_uuid (map_of labels ''dev.qubicl.id'')
         else if (case role of None \<Rightarrow> False | Some r \<Rightarrow> r \<in> set helper_roles)
         then cleanup_uuid (map_of labels ''dev.qubicl.computer-id'')
         else False))"

definition verifiedComposeOwnership :: "string \<Rightarrow> ('a) named_docker_resource_scheme \<Rightarrow> bool \<Rightarrow> bool" where
  "verifiedComposeOwnership projectName item volume =
     (if map_of (dr_labels item) ''com.docker.compose.project'' \<noteq> Some projectName then False
      else if map_of (dr_labels item) (''com.docker.compose.'' @ (if volume then ''volume'' else ''network'')) = None then False
      else if \<not> (dr_name item = projectName \<or> starts_with (dr_name item) (projectName @ ''-'')
        \<or> starts_with (dr_name item) (projectName @ ''_'')) then False
      else if volume \<and> \<not> ends_with (dr_name item) ''-x11'' then False
      else True)"

definition image_digest :: "string \<Rightarrow> bool" where
  "image_digest s = (starts_with s ''sha256:'' \<and> length s = 71 \<and> list_all is_lower_hex (drop 7 s))"

definition all_digits :: "string \<Rightarrow> bool" where
  "all_digits s = (s \<noteq> [] \<and> list_all is_digit s)"

definition label_or_empty :: "(string, string) js_map \<Rightarrow> string \<Rightarrow> string" where
  "label_or_empty labels k = (case map_of labels k of None \<Rightarrow> [] | Some v \<Rightarrow> v)"

definition verifiedImageOwnership :: "cleanup_image \<Rightarrow> bool" where
  "verifiedImageOwnership item =
     (let labels = dr_labels item; title = map_of labels ''org.opencontainers.image.title'' in
      if \<not> image_digest (dr_id item) then False
      else if map_of labels ''org.opencontainers.image.source'' \<noteq> Some ''https://github.com/EldanRing/qubicl'' then False
      else if map_of labels ''org.opencontainers.image.licenses'' \<noteq> Some ''Apache-2.0'' then False
      else if title = Some ''Qubicl gateway''
      then all_digits (label_or_empty labels ''dev.qubicl.gateway-protocol-version'')
      else if title \<noteq> Some ''Qubicl computer'' \<or> map_of labels ''dev.qubicl.contract-version'' \<noteq> Some ''1'' then False
      else label_or_empty labels ''dev.qubicl.preset'' \<noteq> [] \<and> label_or_empty labels ''dev.qubicl.compatibility'' \<noteq> []
        \<and> length (label_or_empty labels ''dev.qubicl.manifest-sha256'') = 64
        \<and> list_all is_lower_hex (label_or_empty labels ''dev.qubicl.manifest-sha256''))"

definition removableContainerStatus :: "string \<Rightarrow> bool" where
  "removableContainerStatus status = (status = ''exited'' \<or> status = ''created'' \<or> status = ''dead'')"

section \<open>Evidence\<close>

definition attachment_le :: "cleanup_attachment \<Rightarrow> cleanup_attachment \<Rightarrow> bool" where
  "attachment_le l r = (let c = compareText (at_containerId l) (at_containerId r) in
     (if c \<noteq> 0 then c else of_bool (at_running l) - of_bool (at_running r)) \<le> 0)"

definition attachment_json :: "cleanup_attachment \<Rightarrow> json" where
  "attachment_json a = JObject [(''containerId'', JString (at_containerId a)), (''running'', JBool (at_running a))]"

definition attachments_json :: "cleanup_attachment list \<Rightarrow> json" where
  "attachments_json xs = JArray (map attachment_json (sort_by attachment_le xs))"

definition sortedRecord :: "(string, string) js_map \<Rightarrow> json" where
  "sortedRecord labels = JObject (map (\<lambda>(k, v). (k, JString v)) (sort_by (\<lambda>l r. compareText (fst l) (fst r) \<le> 0) labels))"

definition resource_fields :: "string \<Rightarrow> 'a named_docker_resource_scheme \<Rightarrow> (string \<times> json) list" where
  "resource_fields kind item = [(''kind'', JString kind), (''id'', JString (dr_id item)), (''name'', JString (dr_name item)),
     (''labels'', sortedRecord (dr_labels item))]"

fun cleanupEvidence :: "inventory_item \<Rightarrow> json" where
  "cleanupEvidence (ItemContainer c) = JObject (resource_fields ''container'' c @ [(''status'', JString (dc_status c))])"
| "cleanupEvidence (ItemNetwork n) =
     JObject (resource_fields ''network'' n @ [(''attachedContainers'', attachments_json (dn_attachedContainers n))])"
| "cleanupEvidence (ItemVolume v) =
     JObject (resource_fields ''volume'' v @ [(''attachedContainers'', attachments_json (dv_attachedContainers v)),
       (''durableHome'', JBool (dv_durableHome v))])"
| "cleanupEvidence (ItemImage i) =
     JObject (resource_fields ''image'' i @ [(''references'', JArray (map JString (sort_by (\<lambda>l r. compareText l r \<le> 0) (di_references i)))),
       (''referencedByContainers'', attachments_json (di_referencedByContainers i))])"
| "cleanupEvidence (ItemRecord r) =
     JObject [(''kind'', JString (kind_text (item_kind (ItemRecord r)))), (''id'', JString (kr_id r)), (''name'', JString (kr_name r)),
       (''namespace'', JString (kr_namespace r)), (''schemaVersion'', JNumber (kr_schemaVersion r)),
       (''obsolete'', JBool (kr_obsolete r)), (''referenced'', JBool (kr_referenced r))]"

definition digest :: "(string \<Rightarrow> string) \<Rightarrow> json \<Rightarrow> string" where
  "digest sha j = sha (stableJson j)"

definition candidate :: "(string \<Rightarrow> string) \<Rightarrow> inventory_item \<Rightarrow> cleanup_decision" where
  "candidate sha item = Remove \<lparr>cd_kind = item_kind item, cd_id = item_id item, cd_name = item_name item,
     cd_validationDigest = digest sha (cleanupEvidence item)\<rparr>"

section \<open>Decisions\<close>

definition containerDecision :: "(string \<Rightarrow> string) \<Rightarrow> cleanup_snapshot \<Rightarrow> cleanup_container \<Rightarrow> cleanup_decision" where
  "containerDecision sha snapshot item =
     (if \<not> verifiedContainerOwnership (sn_installationId snapshot) (dr_labels item)
      then Preserve OwnershipUnverified ''Container does not have a complete Qubicl installation/role identity.''
      else if dr_name item \<in> set (sn_expectedContainers snapshot)
      then Preserve CurrentManagedRuntime ''Container belongs to the current managed runtime.''
      else if \<not> removableContainerStatus (dc_status item)
      then Preserve RunningResource (''Container status '' @ dc_status item @ '' is not safe for orphan removal.'')
      else candidate sha (ItemContainer item))"

definition networkDecision :: "(string \<Rightarrow> string) \<Rightarrow> cleanup_snapshot \<Rightarrow> cleanup_network \<Rightarrow> cleanup_decision" where
  "networkDecision sha snapshot item =
     (if \<not> verifiedComposeOwnership (sn_projectName snapshot) item False
      then Preserve OwnershipUnverified ''Network does not have the exact Qubicl Compose project/name identity.''
      else if dr_name item \<in> set (sn_expectedNetworks snapshot)
      then Preserve CurrentManagedRuntime ''Network belongs to the current managed runtime.''
      else if list_ex at_running (dn_attachedContainers item)
      then Preserve RunningResource ''Network is attached to a running container.''
      else if dn_attachedContainers item \<noteq> []
      then Preserve AttachedResource ''Network remains attached to a container.''
      else candidate sha (ItemNetwork item))"

definition volumeDecision :: "cleanup_snapshot \<Rightarrow> cleanup_volume \<Rightarrow> cleanup_decision" where
  "volumeDecision snapshot item =
     (if dv_durableHome item
      then Preserve DurableHome ''Durable computer homes are outside cleanup scope.''
      else if \<not> verifiedComposeOwnership (sn_projectName snapshot) item True
      then Preserve OwnershipUnverified ''Volume is not a verified Qubicl ephemeral X11 volume.''
      else if dr_name item \<in> set (sn_expectedVolumes snapshot)
      then Preserve CurrentManagedRuntime ''Volume belongs to the current managed runtime.''
      else if list_ex at_running (dv_attachedContainers item)
      then Preserve RunningResource ''Volume is attached to a running container.''
      else if dv_attachedContainers item \<noteq> []
      then Preserve AttachedResource ''Volume remains attached to a container.''
      else Preserve MutableIdentity ''Docker volumes have no immutable ID; preserve this orphan for explicit manual review because its name can be reused.'')"

definition imageDecision :: "cleanup_snapshot \<Rightarrow> cleanup_image \<Rightarrow> cleanup_decision" where
  "imageDecision snapshot item =
     (if \<not> verifiedImageOwnership item
      then Preserve OwnershipUnverified ''Image lacks the exact official Qubicl image contract labels.''
      else if list_ex (\<lambda>i. i \<in> set (sn_protectedImageReferences snapshot) \<or> i \<in> set (sn_retainedManagedImageReferences snapshot))
        (dr_id item # di_references item)
      then Preserve CurrentOrRetainedImage ''Image is a current exact target or is retained by managed runtime evidence.''
      else if list_ex at_running (di_referencedByContainers item)
      then Preserve RunningResource ''Image is referenced by a running container.''
      else if di_referencedByContainers item \<noteq> []
      then Preserve ContainerReferencedImage ''Image is referenced by a retained container.''
      else Preserve SharedGlobalImage ''Docker images are daemon-global and may be pinned by another Qubicl installation; OCI labels and this installation's cache do not prove exclusive ownership. Preserve for explicit manual review.'')"

definition recordDecision :: "(string \<Rightarrow> string) \<Rightarrow> cleanup_record \<Rightarrow> cleanup_decision" where
  "recordDecision sha item =
     (if kr_namespace item \<noteq> ''qubicl-runtime'' \<or> kr_schemaVersion item \<noteq> 1
      then Preserve OwnershipUnverified ''Record is outside the recognized versioned Qubicl runtime namespace.''
      else if kr_referenced item then Preserve RecordReferenced ''Record still supports current or retained runtime evidence.''
      else if \<not> kr_obsolete item then Preserve NotObsolete ''Record is not obsolete.''
      else candidate sha (ItemRecord item))"

definition cleanupDecision :: "(string \<Rightarrow> string) \<Rightarrow> cleanup_snapshot \<Rightarrow> cleanup_selection \<Rightarrow> inventory_item \<Rightarrow> cleanup_decision" where
  "cleanupDecision sha snapshot selection item =
     (if item_kind item \<in> {KContainer, KNetwork, KVolume} \<and> \<not> sel_orphans selection
      then Preserve NotSelected ''Orphan runtime cleanup was not selected.''
      else if item_kind item = KImage \<and> \<not> sel_images selection
      then Preserve NotSelected ''Image cleanup was not selected.''
      else if item_kind item \<in> {KCacheRecord, KEvidenceRecord} \<and> \<not> sel_records selection
      then Preserve NotSelected ''Cache/evidence cleanup was not selected.''
      else (case item of
          ItemContainer c \<Rightarrow> containerDecision sha snapshot c
        | ItemNetwork n \<Rightarrow> networkDecision sha snapshot n
        | ItemVolume v \<Rightarrow> volumeDecision snapshot v
        | ItemImage i \<Rightarrow> imageDecision snapshot i
        | ItemRecord r \<Rightarrow> recordDecision sha r))"

section \<open>The plan\<close>

definition kind_name_id_le :: "cleanup_kind \<times> string \<times> string \<Rightarrow> cleanup_kind \<times> string \<times> string \<Rightarrow> bool" where
  "kind_name_id_le l r =
     (let k = KIND_ORDER (fst l) - KIND_ORDER (fst r); n = compareText (fst (snd l)) (fst (snd r));
          i = compareText (snd (snd l)) (snd (snd r))
      in (if k \<noteq> 0 then k else if n \<noteq> 0 then n else i) \<le> 0)"

definition compareInventoryItems :: "inventory_item \<Rightarrow> inventory_item \<Rightarrow> bool" where
  "compareInventoryItems l r = kind_name_id_le (item_kind l, item_name l, item_id l) (item_kind r, item_name r, item_id r)"

definition compareCandidates :: "cleanup_candidate \<Rightarrow> cleanup_candidate \<Rightarrow> bool" where
  "compareCandidates l r = kind_name_id_le (cd_kind l, cd_name l, cd_id l) (cd_kind r, cd_name r, cd_id r)"

definition comparePreserved :: "preserved_item \<Rightarrow> preserved_item \<Rightarrow> bool" where
  "comparePreserved l r = kind_name_id_le (pi_kind l, pi_name l, pi_id l) (pi_kind r, pi_name r, pi_id r)"

definition selection_json :: "cleanup_selection \<Rightarrow> json" where
  "selection_json s = JObject [(''orphans'', JBool (sel_orphans s)), (''images'', JBool (sel_images s)), (''records'', JBool (sel_records s))]"

definition candidate_json :: "cleanup_candidate \<Rightarrow> json" where
  "candidate_json c = JObject [(''kind'', JString (kind_text (cd_kind c))), (''id'', JString (cd_id c)), (''name'', JString (cd_name c)),
     (''validationDigest'', JString (cd_validationDigest c))]"

definition preserved_json :: "preserved_item \<Rightarrow> json" where
  "preserved_json p = JObject [(''kind'', JString (kind_text (pi_kind p))), (''id'', JString (pi_id p)), (''name'', JString (pi_name p)),
     (''reason'', JString (reason_text (pi_reason p))), (''detail'', JString (pi_detail p))]"

definition digest_input :: "cleanup_selection \<Rightarrow> cleanup_candidate list \<Rightarrow> preserved_item list \<Rightarrow> json" where
  "digest_input selection candidates preserved = JObject [(''schemaVersion'', JNumber 1), (''selection'', selection_json selection),
     (''candidates'', JArray (map candidate_json candidates)), (''preserved'', JArray (map preserved_json preserved))]"

definition item_key :: "inventory_item \<Rightarrow> string" where
  "item_key item = kind_text (item_kind item) @ char_of (0::nat) # item_id item"

fun validate_items :: "string list \<Rightarrow> inventory_item list \<Rightarrow> string + unit" where
  "validate_items keys [] = Inr ()"
| "validate_items keys (item # rest) =
     (if item_id item = [] \<or> item_name item = [] then Inl ''Cleanup inventory IDs and names must be non-empty.''
      else if item_key item \<in> set keys
      then Inl (''Cleanup inventory contains duplicate '' @ kind_text (item_kind item) @ '' ID '' @ item_id item @ ''.'')
      else validate_items (item_key item # keys) rest)"

definition validateSnapshot :: "cleanup_snapshot \<Rightarrow> string + unit" where
  "validateSnapshot snapshot =
     (if \<not> cleanup_uuid (Some (sn_installationId snapshot)) then Inl ''Cleanup snapshot installation ID must be a UUID.''
      else if sn_projectName snapshot = [] then Inl ''Cleanup snapshot project name must be non-empty.''
      else validate_items [] (sn_items snapshot))"

definition preserved_from :: "inventory_item \<Rightarrow> preservation_reason \<Rightarrow> string \<Rightarrow> preserved_item" where
  "preserved_from item reason detail = \<lparr>pi_kind = item_kind item, pi_id = item_id item, pi_name = item_name item,
     pi_reason = reason, pi_detail = detail\<rparr>"

fun decide_items ::
  "(string \<Rightarrow> string) \<Rightarrow> cleanup_snapshot \<Rightarrow> cleanup_selection \<Rightarrow> inventory_item list \<Rightarrow> cleanup_candidate list \<times> preserved_item list"
where
  "decide_items sha snapshot selection [] = ([], [])"
| "decide_items sha snapshot selection (item # rest) =
     (let (cs, ps) = decide_items sha snapshot selection rest
      in case cleanupDecision sha snapshot selection item of
           Remove c \<Rightarrow> (c # cs, ps)
         | Preserve reason detail \<Rightarrow> (cs, preserved_from item reason detail # ps))"

definition buildCleanupPlan :: "(string \<Rightarrow> string) \<Rightarrow> cleanup_snapshot \<Rightarrow> cleanup_selection \<Rightarrow> string + cleanup_plan" where
  "buildCleanupPlan sha snapshot selection =
     rbind (validateSnapshot snapshot) (\<lambda>_.
       let (cs, ps) = decide_items sha snapshot selection (sort_by compareInventoryItems (sn_items snapshot));
           candidates = sort_by compareCandidates cs; preserved = sort_by comparePreserved ps
       in Inr \<lparr>cp_reviewDigest = digest sha (digest_input selection candidates preserved), cp_selection = selection,
            cp_candidates = candidates, cp_preserved = preserved\<rparr>)"

section \<open>The execution\<close>

text \<open>The dependencies of the execution: a new plan from a fresh inventory, and the removal of a candidate.
  Both act on the host \<open>'w\<close>, which may change by itself as well. The log holds for every call of
  \<open>remove\<close> the plan that was made immediately before it and the host it was called on.\<close>

record 'w removal_attempt =
  ra_plan :: cleanup_plan
  ra_candidate :: cleanup_candidate
  ra_host :: 'w

record cleanup_result =
  cr_removed :: "cleanup_candidate list"
  cr_preserved :: "(cleanup_candidate \<times> string) list"
  cr_failed :: "(cleanup_candidate \<times> string) list"

definition sameCandidate :: "cleanup_candidate \<Rightarrow> cleanup_candidate \<Rightarrow> bool" where
  "sameCandidate l r = (cd_kind l = cd_kind r \<and> cd_id l = cd_id r \<and> cd_name l = cd_name r
     \<and> cd_validationDigest l = cd_validationDigest r)"

definition revalidation_failed :: string where
  "revalidation_failed = ''Candidate changed, became referenced/running/current, or disappeared during immediate revalidation.''"

definition inventory_changed :: string where
  "inventory_changed = ''Cleanup inventory changed after preview; review the new exact candidate list before deletion.''"

fun execute_candidates ::
  "('w \<Rightarrow> 'w \<times> (string + cleanup_plan)) \<Rightarrow> (cleanup_candidate \<Rightarrow> 'w \<Rightarrow> 'w \<times> (string + unit))
     \<Rightarrow> cleanup_candidate list \<Rightarrow> cleanup_result \<Rightarrow> 'w removal_attempt list \<Rightarrow> 'w
     \<Rightarrow> 'w \<times> 'w removal_attempt list \<times> (string + cleanup_result)"
where
  "execute_candidates replan remove [] result log w = (w, log, Inr result)"
| "execute_candidates replan remove (c # cs) result log w = (case replan w of
       (w1, Inl e) \<Rightarrow> (w1, log, Inl e)
     | (w1, Inr plan) \<Rightarrow>
         (case List.find (\<lambda>d. sameCandidate d c) (cp_candidates plan) of
            None \<Rightarrow> execute_candidates replan remove cs
              (result\<lparr>cr_preserved := cr_preserved result @ [(c, revalidation_failed)]\<rparr>) log w1
          | Some d \<Rightarrow>
              (let log1 = log @ [\<lparr>ra_plan = plan, ra_candidate = c, ra_host = w1\<rparr>]
               in case remove c w1 of
                    (w2, Inr u) \<Rightarrow> execute_candidates replan remove cs
                      (result\<lparr>cr_removed := cr_removed result @ [c]\<rparr>) log1 w2
                  | (w2, Inl e) \<Rightarrow> execute_candidates replan remove cs
                      (result\<lparr>cr_failed := cr_failed result @ [(c, e)]\<rparr>) log1 w2)))"

definition executeCleanupPlan ::
  "('w \<Rightarrow> 'w \<times> (string + cleanup_plan)) \<Rightarrow> (cleanup_candidate \<Rightarrow> 'w \<Rightarrow> 'w \<times> (string + unit))
     \<Rightarrow> cleanup_plan \<Rightarrow> 'w \<Rightarrow> 'w \<times> 'w removal_attempt list \<times> (string + cleanup_result)"
where
  "executeCleanupPlan replan remove reviewed w = (case replan w of
       (w1, Inl e) \<Rightarrow> (w1, [], Inl e)
     | (w1, Inr current) \<Rightarrow>
         if cp_reviewDigest current \<noteq> cp_reviewDigest reviewed then (w1, [], Inl inventory_changed)
         else execute_candidates replan remove (cp_candidates reviewed)
                \<lparr>cr_removed = [], cr_preserved = [], cr_failed = []\<rparr> [] w1)"

section \<open>What is removed\<close>

text \<open>What makes an item removable, said of the item and the inventory: an ended container that carries
  this installation's identity, a network of this project that nothing is attached to, a record of this
  runtime that nothing refers to; never a volume and never an image.\<close>

fun removable :: "cleanup_snapshot \<Rightarrow> cleanup_selection \<Rightarrow> inventory_item \<Rightarrow> bool" where
  "removable s sel (ItemContainer c) = (sel_orphans sel \<and> verifiedContainerOwnership (sn_installationId s) (dr_labels c)
     \<and> dr_name c \<notin> set (sn_expectedContainers s) \<and> dc_status c \<in> {''exited'', ''created'', ''dead''})"
| "removable s sel (ItemNetwork n) = (sel_orphans sel \<and> verifiedComposeOwnership (sn_projectName s) n False
     \<and> dr_name n \<notin> set (sn_expectedNetworks s) \<and> dn_attachedContainers n = [])"
| "removable s sel (ItemVolume v) = False"
| "removable s sel (ItemImage i) = False"
| "removable s sel (ItemRecord r) = (sel_records sel \<and> kr_namespace r = ''qubicl-runtime'' \<and> kr_schemaVersion r = 1
     \<and> \<not> kr_referenced r \<and> kr_obsolete r)"

definition candidate_of :: "(string \<Rightarrow> string) \<Rightarrow> inventory_item \<Rightarrow> cleanup_candidate" where
  "candidate_of sha item = \<lparr>cd_kind = item_kind item, cd_id = item_id item, cd_name = item_name item,
     cd_validationDigest = digest sha (cleanupEvidence item)\<rparr>"

lemma candidate_eq [simp]: "candidate sha item = Remove (candidate_of sha item)"
  by (simp add: candidate_def candidate_of_def)

lemma decision_removes:
  "cleanupDecision sha s sel item = Remove c \<longleftrightarrow> removable s sel item \<and> c = candidate_of sha item"
proof (cases item)
  case (ItemContainer k)
  then show ?thesis by (auto simp: cleanupDecision_def containerDecision_def removableContainerStatus_def)
next
  case (ItemNetwork n)
  have "\<not> list_ex at_running []" by simp
  with ItemNetwork show ?thesis by (auto simp: cleanupDecision_def networkDecision_def)
next
  case (ItemVolume v)
  then show ?thesis by (simp add: cleanupDecision_def volumeDecision_def)
next
  case (ItemImage i)
  then show ?thesis by (simp add: cleanupDecision_def imageDecision_def)
next
  case (ItemRecord r)
  then show ?thesis by (auto simp: cleanupDecision_def recordDecision_def)
qed

lemma decide_candidates: "fst (decide_items sha s sel items) = map (candidate_of sha) (filter (removable s sel) items)"
  and decide_preserved: "map (\<lambda>p. (pi_kind p, pi_id p, pi_name p)) (snd (decide_items sha s sel items))
     = map (\<lambda>i. (item_kind i, item_id i, item_name i)) (filter (\<lambda>i. \<not> removable s sel i) items)"
proof (induction items)
  case (Cons item items)
  obtain cs ps where d: "decide_items sha s sel items = (cs, ps)" by force
  {
    case 1
    show ?case using Cons d decision_removes [of sha s sel item]
      by (cases "cleanupDecision sha s sel item") auto
  next
    case 2
    show ?case using Cons d decision_removes [of sha s sel item]
      by (cases "cleanupDecision sha s sel item") (auto simp: preserved_from_def)
  }
qed simp_all

lemma plan_candidates:
  assumes "buildCleanupPlan sha s sel = Inr plan"
  shows "c \<in> set (cp_candidates plan) \<longleftrightarrow> (\<exists>item \<in> set (sn_items s). removable s sel item \<and> c = candidate_of sha item)"
proof -
  obtain cs ps where d: "decide_items sha s sel (sort_by compareInventoryItems (sn_items s)) = (cs, ps)" by force
  have "cs = map (candidate_of sha) (filter (removable s sel) (sort_by compareInventoryItems (sn_items s)))"
    using decide_candidates [of sha s sel "sort_by compareInventoryItems (sn_items s)"] d by simp
  then show ?thesis using assms d by (auto simp: buildCleanupPlan_def rbind_eq_Inr Let_def)
qed

section \<open>What is called\<close>

definition plan_made :: "('w \<Rightarrow> 'w \<times> (string + cleanup_plan)) \<Rightarrow> 'w removal_attempt \<Rightarrow> bool" where
  "plan_made replan a = (\<exists>w0. replan w0 = (ra_host a, Inr (ra_plan a)))"

lemma sameCandidate_eq [simp]: "sameCandidate l r \<longleftrightarrow> l = r"
  by (cases l; cases r) (auto simp: sameCandidate_def)

lemma execute_candidates_attempts:
  assumes "execute_candidates replan remove cs result log w = (w', log', r)"
    and "\<forall>a \<in> set log. ra_candidate a \<in> C \<and> ra_candidate a \<in> set (cp_candidates (ra_plan a)) \<and> plan_made replan a"
    and "set cs \<subseteq> C"
  shows "\<forall>a \<in> set log'. ra_candidate a \<in> C \<and> ra_candidate a \<in> set (cp_candidates (ra_plan a)) \<and> plan_made replan a"
  using assms
proof (induction replan remove cs result log w arbitrary: w' log' r rule: execute_candidates.induct)
  case (2 replan remove c cs result log w)
  obtain w1 p where p: "replan w = (w1, p)" by force
  show ?case
  proof (cases p)
    case (Inl e)
    with 2(4,5) p show ?thesis by simp
  next
    case (Inr plan)
    show ?thesis
    proof (cases "List.find (\<lambda>d. sameCandidate d c) (cp_candidates plan)")
      case None
      from 2(1) [OF p [symmetric] Inr None _ 2(5)] 2(4,6) p Inr None show ?thesis by simp
    next
      case (Some d)
      then have "c \<in> set (cp_candidates plan)" by (auto simp: find_Some_iff)
      then have log: "\<forall>a \<in> set (log @ [\<lparr>ra_plan = plan, ra_candidate = c, ra_host = w1\<rparr>]).
          ra_candidate a \<in> C \<and> ra_candidate a \<in> set (cp_candidates (ra_plan a)) \<and> plan_made replan a"
        using 2(5,6) p Inr by (auto simp: plan_made_def)
      obtain w2 q where q: "remove c w1 = (w2, q)" by force
      show ?thesis
      proof (cases q)
        case (Inl e)
        from 2(2) [OF p [symmetric] \<open>p = Inr plan\<close> Some refl q [symmetric] Inl _ log] 2(4,6) p \<open>p = Inr plan\<close> Some q Inl
        show ?thesis by (simp add: Let_def)
      next
        case (Inr u)
        from 2(3) [OF p [symmetric] \<open>p = Inr plan\<close> Some refl q [symmetric] Inr _ log] 2(4,6) p \<open>p = Inr plan\<close> Some q Inr
        show ?thesis by (simp add: Let_def)
      qed
    qed
  qed
qed simp

lemma execute_attempts:
  assumes "executeCleanupPlan replan remove reviewed w = (w', log, r)" and "a \<in> set log"
  shows "ra_candidate a \<in> set (cp_candidates reviewed) \<and> ra_candidate a \<in> set (cp_candidates (ra_plan a)) \<and> plan_made replan a"
proof -
  obtain w1 p where p: "replan w = (w1, p)" by force
  with assms obtain current where "p = Inr current"
    "execute_candidates replan remove (cp_candidates reviewed) \<lparr>cr_removed = [], cr_preserved = [], cr_failed = []\<rparr> [] w1 = (w', log, r)"
    by (auto simp: executeCleanupPlan_def split: sum.splits if_splits)
  from execute_candidates_attempts [OF this(2), of "set (cp_candidates reviewed)"] assms(2) show ?thesis by auto
qed

section \<open>What a digest stands for\<close>

text \<open>Two observations that agree in everything but the order of labels, attachments and references.\<close>

definition same_resource :: "'a named_docker_resource_scheme \<Rightarrow> 'b named_docker_resource_scheme \<Rightarrow> bool" where
  "same_resource a b = (dr_id a = dr_id b \<and> dr_name a = dr_name b \<and> mset (dr_labels a) = mset (dr_labels b))"

fun same_observation :: "inventory_item \<Rightarrow> inventory_item \<Rightarrow> bool" where
  "same_observation (ItemContainer a) (ItemContainer b) = (same_resource a b \<and> dc_status a = dc_status b)"
| "same_observation (ItemNetwork a) (ItemNetwork b) =
     (same_resource a b \<and> mset (dn_attachedContainers a) = mset (dn_attachedContainers b))"
| "same_observation (ItemVolume a) (ItemVolume b) = (same_resource a b
     \<and> mset (dv_attachedContainers a) = mset (dv_attachedContainers b) \<and> dv_durableHome a = dv_durableHome b)"
| "same_observation (ItemImage a) (ItemImage b) = (same_resource a b \<and> mset (di_references a) = mset (di_references b)
     \<and> mset (di_referencedByContainers a) = mset (di_referencedByContainers b))"
| "same_observation (ItemRecord a) (ItemRecord b) = (a = b)"
| "same_observation _ _ = False"

lemma kind_text_inject [simp]: "kind_text k = kind_text l \<longleftrightarrow> k = l"
  by (cases k; cases l) (simp_all add: kind_text_def)

lemma labels_equal:
  assumes "sort_fields le (sortedRecord a) = sort_fields le (sortedRecord b)"
  shows "mset a = mset b"
proof -
  let ?f = "\<lambda>(k :: string, v). (k, JString v)" and ?g = "\<lambda>(k :: string, j). (k, case j of JString v \<Rightarrow> v | _ \<Rightarrow> [])"
  have "(\<lambda>(k, v). (k, sort_fields le v)) \<circ> ?f = ?f" by auto
  with sorted_fields_mset [OF assms [unfolded sortedRecord_def]] have "image_mset ?f (mset a) = image_mset ?f (mset b)" by simp
  then have "image_mset ?g (image_mset ?f (mset a)) = image_mset ?g (image_mset ?f (mset b))" by simp
  then show ?thesis by (simp add: image_mset.compositionality comp_def case_prod_beta)
qed

lemma attachments_equal:
  assumes "sort_fields le (attachments_json a) = sort_fields le (attachments_json b)"
  shows "mset a = mset b"
proof -
  have one: "x = y" if "sort_fields le (attachment_json x) = sort_fields le (attachment_json y)" for x y
    using sorted_fields_lookup [OF that [unfolded attachment_json_def], of "''containerId''"]
      sorted_fields_lookup [OF that [unfolded attachment_json_def], of "''running''"]
    by simp
  have "map (\<lambda>x. sort_fields le (attachment_json x)) (sort_by attachment_le a) = map (\<lambda>x. sort_fields le (attachment_json x)) (sort_by attachment_le b)"
    using assms by (simp add: attachments_json_def comp_def)
  then have "sort_by attachment_le a = sort_by attachment_le b"
    by (rule map_injective) (auto simp: inj_def dest: one)
  then show ?thesis by (metis sort_by_mset)
qed

lemma references_equal:
  assumes "sort_fields le (JArray (map JString (sort_by c a))) = sort_fields le (JArray (map JString (sort_by c b)))"
  shows "mset a = mset b"
proof -
  have "sort_fields le \<circ> JString = JString" by auto
  with assms have "map JString (sort_by c a) = map JString (sort_by c b)" by simp
  then have "sort_by c a = sort_by c b" by (rule map_injective) (simp add: inj_def)
  then show ?thesis by (metis sort_by_mset)
qed

lemma evidence_fields:
  "\<exists>fs. cleanupEvidence i = JObject fs \<and> distinct (map fst fs)
     \<and> map_of fs ''kind'' = Some (JString (kind_text (item_kind i)))"
  by (cases i) (simp_all add: resource_fields_def kind_text_def)

lemma evidence_identifies:
  assumes "sort_fields le (cleanupEvidence a) = sort_fields le (cleanupEvidence b)"
  shows "same_observation a b"
proof -
  obtain fs gs where fs: "cleanupEvidence a = JObject fs" "distinct (map fst fs)" "map_of fs ''kind'' = Some (JString (kind_text (item_kind a)))"
    and gs: "cleanupEvidence b = JObject gs" "distinct (map fst gs)" "map_of gs ''kind'' = Some (JString (kind_text (item_kind b)))"
    using evidence_fields [of a] evidence_fields [of b] by blast
  note look = sorted_fields_lookup [OF assms [unfolded fs(1) gs(1)] fs(2) gs(2)]
  from look [of "''kind''"] fs(3) gs(3) have kind: "item_kind a = item_kind b" by simp
  note name = look [of "''name''"] and id = look [of "''id''"] and labels = look [of "''labels''"]
  show ?thesis
  proof (cases a)
    case (ItemContainer x)
    with kind obtain y where b: "b = ItemContainer y" by (cases b) (auto split: if_splits)
    show ?thesis using name id labels look [of "''status''"] fs(1) gs(1) ItemContainer b
      by (auto simp: resource_fields_def same_resource_def dest!: labels_equal)
  next
    case (ItemNetwork x)
    with kind obtain y where b: "b = ItemNetwork y" by (cases b) (auto split: if_splits)
    show ?thesis using name id labels look [of "''attachedContainers''"] fs(1) gs(1) ItemNetwork b
      by (auto simp: resource_fields_def same_resource_def dest!: labels_equal attachments_equal)
  next
    case (ItemVolume x)
    with kind obtain y where b: "b = ItemVolume y" by (cases b) (auto split: if_splits)
    show ?thesis using name id labels look [of "''attachedContainers''"] look [of "''durableHome''"] fs(1) gs(1) ItemVolume b
      by (auto simp: resource_fields_def same_resource_def dest!: labels_equal attachments_equal)
  next
    case (ItemImage x)
    with kind obtain y where b: "b = ItemImage y" by (cases b) (auto split: if_splits)
    show ?thesis using name id labels look [of "''references''"] look [of "''referencedByContainers''"] fs(1) gs(1) ItemImage b
      by (auto simp: resource_fields_def same_resource_def simp del: sort_fields.simps(1)
          dest!: labels_equal attachments_equal references_equal)
  next
    case (ItemRecord x)
    with kind obtain y where b: "b = ItemRecord y" by (cases b) (auto split: if_splits)
    show ?thesis using name id kind look [of "''namespace''"] look [of "''schemaVersion''"] look [of "''obsolete''"]
        look [of "''referenced''"] fs(1) gs(1) ItemRecord b
      by (cases x; cases y) (auto split: if_splits)
  qed
qed

lemma same_hash_same_observation:
  assumes "candidate_of sha a = candidate_of sha b"
  shows "same_observation a b \<or> stableJson (cleanupEvidence a) \<noteq> stableJson (cleanupEvidence b)
    \<and> sha (stableJson (cleanupEvidence a)) = sha (stableJson (cleanupEvidence b))"
proof -
  have "sha (stableJson (cleanupEvidence a)) = sha (stableJson (cleanupEvidence b))"
    using assms by (simp add: candidate_of_def digest_def)
  then show ?thesis using evidence_identifies stable_json_text by blast
qed

end
