(* ===== verification/Runtime_Names.thy ===== *)
theory Runtime_Names
  imports Stable_Json
begin

text \<open>The names of the containers, networks and volumes of an installation, the set of them that is
  expected to exist, and the cache of image contracts: packages/cli/src/runtime.ts and
  packages/cli/src/runtime-inventory.ts. The names must fit the 63 characters of a host label of the
  embedded DNS of the container runtime.\<close>

section \<open>Names\<close>

definition INSTALLATION_FINGERPRINT_LENGTH :: nat where "INSTALLATION_FINGERPRINT_LENGTH = 20"
definition COMPUTER_FINGERPRINT_LENGTH :: nat where "COMPUTER_FINGERPRINT_LENGTH = 24"
definition LEGACY_SPLIT_CONTROL_PROTOCOL_VERSION :: int where "LEGACY_SPLIT_CONTROL_PROTOCOL_VERSION = 9"

text \<open>The hexadecimal digits of an identifier.\<close>

definition bare_id :: "string \<Rightarrow> string" where
  "bare_id i = to_lower (filter (\<lambda>c. c \<noteq> CHR ''-'') i)"

definition bare_id_ok :: "string \<Rightarrow> bool" where
  "bare_id_ok s = (length s = 32 \<and> list_all is_lower_hex s)"

definition runtimeNamespace :: "string \<Rightarrow> string + string" where
  "runtimeNamespace installationId =
     (let suffix = bare_id installationId in
      if \<not> bare_id_ok suffix then Inl (''Invalid Qubicl installation ID '' @ json_quote installationId @ ''.'')
      else Inr (''qubicl-'' @ take INSTALLATION_FINGERPRINT_LENGTH suffix))"

definition computerFingerprint :: "string \<Rightarrow> string + string" where
  "computerFingerprint i =
     (let suffix = bare_id i in
      if \<not> bare_id_ok suffix then Inl (''Invalid Qubicl computer ID '' @ json_quote i @ ''.'')
      else Inr (take COMPUTER_FINGERPRINT_LENGTH suffix))"

definition projectName :: "string \<Rightarrow> string + string" where
  "projectName installationId = runtimeNamespace installationId"

definition suffixed :: "string + string \<Rightarrow> string \<Rightarrow> string + string" where
  "suffixed r suffix = rbind r (\<lambda>s. Inr (s @ suffix))"

definition gatewayContainerName :: "string \<Rightarrow> string + string" where
  "gatewayContainerName installationId = suffixed (runtimeNamespace installationId) ''-gateway''"

definition gatewayNetworkName :: "string \<Rightarrow> string + string" where
  "gatewayNetworkName installationId = suffixed (runtimeNamespace installationId) ''-gateway''"

definition serviceName :: "string \<Rightarrow> string" where
  "serviceName i = ''computer_'' @ filter (\<lambda>c. c \<noteq> CHR ''-'') i"

text \<open>The namespace and the fingerprint of the computer.\<close>

definition computer_namespace :: "string \<Rightarrow> string \<Rightarrow> string + string" where
  "computer_namespace installationId i =
     rbind (runtimeNamespace installationId) (\<lambda>n. rbind (computerFingerprint i) (\<lambda>f. Inr (n @ ''-'' @ f)))"

definition containerName :: "string \<Rightarrow> string \<Rightarrow> string option \<Rightarrow> string + string" where
  "containerName installationId i runtimeName = (case runtimeName of
       Some n \<Rightarrow> Inr n
     | None \<Rightarrow> computer_namespace installationId i)"

record named_computer =
  nc_id :: string
  nc_runtimeName :: "string option"
  nc_capabilities :: "string list"
  nc_controlProtocolVersion :: "int option"
  nc_sshEnabled :: bool

definition computerContainerName :: "string \<Rightarrow> named_computer \<Rightarrow> string + string" where
  "computerContainerName installationId c = containerName installationId (nc_id c) (nc_runtimeName c)"

definition usesUnifiedComputerRuntime :: "named_computer \<Rightarrow> bool" where
  "usesUnifiedComputerRuntime c = (case nc_controlProtocolVersion c of
       None \<Rightarrow> False
     | Some v \<Rightarrow> v > LEGACY_SPLIT_CONTROL_PROTOCOL_VERSION)"

definition helper_suffixes :: "named_computer \<Rightarrow> string list" where
  "helper_suffixes c = [[], ''-executor'', ''-egress'']
     @ (if nc_controlProtocolVersion c = Some LEGACY_SPLIT_CONTROL_PROTOCOL_VERSION then [''-web''] else [])
     @ (if ''viewer'' \<in> set (nc_capabilities c) then [''-session''] else [])
     @ (if nc_sshEnabled c then [''-ssh''] else [])"

definition computerRuntimeContainerNames :: "string \<Rightarrow> named_computer \<Rightarrow> string + string list" where
  "computerRuntimeContainerNames installationId c =
     rbind (computerContainerName installationId c) (\<lambda>n.
       if usesUnifiedComputerRuntime c then Inr [n] else Inr (map (\<lambda>s. n @ s) (helper_suffixes c)))"

definition drop_dots :: "string \<Rightarrow> string" where
  "drop_dots s = rev (dropWhile (\<lambda>c. c \<in> set ''.-'') (rev s))"

definition readableContainerName :: "string \<Rightarrow> string \<Rightarrow> string \<Rightarrow> string + string" where
  "readableContainerName installationId i computerName =
     (let installation = bare_id installationId; computer = bare_id i in
      if \<not> bare_id_ok installation then Inl (''Invalid Qubicl installation ID '' @ json_quote installationId @ ''.'')
      else if \<not> bare_id_ok computer then Inl (''Invalid Qubicl computer ID '' @ json_quote i @ ''.'')
      else
        (let suffix = ''-'' @ take 8 computer @ ''-'' @ take 8 installation;
             readable = drop_dots (take (63 - length ''qubicl-'' - length suffix) computerName)
         in Inr (''qubicl-'' @ readable @ suffix)))"

definition controlNetwork :: "string \<Rightarrow> string \<Rightarrow> string + string" where
  "controlNetwork installationId i = suffixed (computer_namespace installationId i) ''-control''"

definition workspaceNetwork :: "string \<Rightarrow> string \<Rightarrow> string + string" where
  "workspaceNetwork installationId i = suffixed (computer_namespace installationId i) ''-workspace''"

definition displaySocketVolume :: "string \<Rightarrow> string \<Rightarrow> string + string" where
  "displaySocketVolume installationId i = suffixed (computer_namespace installationId i) ''-x11''"

definition dashboardContainerName :: "string \<Rightarrow> string + string" where
  "dashboardContainerName installationId = suffixed (runtimeNamespace installationId) ''.dashboard''"

definition dashboardAssetNetworkName :: "string \<Rightarrow> string + string" where
  "dashboardAssetNetworkName installationId = suffixed (runtimeNamespace installationId) ''-dashboard-assets''"

section \<open>What is expected to exist\<close>

fun all_right :: "('a \<Rightarrow> 'e + 'b) \<Rightarrow> 'a list \<Rightarrow> 'e + 'b list" where
  "all_right f [] = Inr []"
| "all_right f (x # xs) = rbind (f x) (\<lambda>y. rbind (all_right f xs) (\<lambda>ys. Inr (y # ys)))"

record expected_resources =
  er_containers :: "string list"
  er_networks :: "string list"
  er_volumes :: "string list"

definition computer_networks :: "string \<Rightarrow> named_computer \<Rightarrow> string + string list" where
  "computer_networks installationId c =
     rbind (controlNetwork installationId (nc_id c)) (\<lambda>control.
       if usesUnifiedComputerRuntime c then Inr [control]
       else rbind (workspaceNetwork installationId (nc_id c)) (\<lambda>workspace. Inr [control, workspace]))"

definition expectedRuntimeResources :: "string \<Rightarrow> named_computer list \<Rightarrow> string option \<Rightarrow> string + expected_resources" where
  "expectedRuntimeResources installationId computers dashboard =
     (if dashboard \<noteq> None \<and> dashboard \<noteq> Some installationId
      then Inl ''Dashboard installation identity does not match core state.''
      else
        rbind (gatewayContainerName installationId) (\<lambda>gateway.
        rbind (all_right (computerRuntimeContainerNames installationId) computers) (\<lambda>containers.
        rbind (case dashboard of Some d \<Rightarrow> (if d \<noteq> [] then rbind (dashboardContainerName d) (\<lambda>n. Inr [n]) else Inr []) | None \<Rightarrow> Inr []) (\<lambda>dash.
        rbind (gatewayNetworkName installationId) (\<lambda>gatewayNetwork.
        rbind (all_right (computer_networks installationId) computers) (\<lambda>networks.
        rbind (case dashboard of Some d \<Rightarrow> (if d \<noteq> [] then rbind (dashboardAssetNetworkName d) (\<lambda>n. Inr [n]) else Inr []) | None \<Rightarrow> Inr []) (\<lambda>dashNetwork.
        rbind (all_right (\<lambda>c. displaySocketVolume installationId (nc_id c))
            (filter (\<lambda>c. ''viewer'' \<in> set (nc_capabilities c) \<and> \<not> usesUnifiedComputerRuntime c) computers)) (\<lambda>volumes.
        Inr \<lparr>er_containers = gateway # concat containers @ dash, er_networks = gatewayNetwork # concat networks @ dashNetwork,
             er_volumes = volumes\<rparr>))))))))"

section \<open>The cache of image contracts\<close>

text \<open>The file as \<open>lstat\<close> and \<open>JSON.parse\<close> deliver it.\<close>

datatype contracts_file = ContractsAbsent | ContractsUnsafe | ContractsInvalidJson | ContractsJson json

definition GATEWAY_PROTOCOL_VERSION :: int where "GATEWAY_PROTOCOL_VERSION = 3"
definition FIRST_AUTHENTICATED_VIEWER_GATEWAY_PROTOCOL_VERSION :: int where
  "FIRST_AUTHENTICATED_VIEWER_GATEWAY_PROTOCOL_VERSION = 2"

definition content_id :: "string \<Rightarrow> bool" where
  "content_id s = (starts_with s ''sha256:'' \<and> length s = 71 \<and> list_all is_lower_hex (drop 7 s))"

text \<open>A contract is valid for the key it is stored under.\<close>

definition contract_valid :: "string \<Rightarrow> json \<Rightarrow> bool" where
  "contract_valid contentId contract = (case contract of
       JObject fs \<Rightarrow>
         (let get = map_of fs; auth = get ''viewerAuthentication'';
              legacy = (auth = Some (JString ''legacy''));
              validComputer = (get ''kind'' = Some (JString ''computer'') \<and> get ''gatewayProtocolVersion'' = None
                \<and> get ''gatewayExposureProtocol'' = None);
              validGateway = (get ''kind'' = Some (JString ''gateway'') \<and>
                (if legacy then get ''gatewayProtocolVersion'' = None \<and> get ''gatewayExposureProtocol'' = None
                 else (case get ''gatewayProtocolVersion'' of
                     Some (JNumber v) \<Rightarrow> v \<ge> FIRST_AUTHENTICATED_VIEWER_GATEWAY_PROTOCOL_VERSION \<and> v \<le> GATEWAY_PROTOCOL_VERSION
                       \<and> (get ''gatewayExposureProtocol'' = None \<or> get ''gatewayExposureProtocol'' = Some (JString ''direct-tls-v1''))
                   | _ \<Rightarrow> False)))
          in content_id contentId \<and> get ''contentId'' = Some (JString contentId)
             \<and> (legacy \<or> auth = Some (JString ''header-v1'')) \<and> (validComputer \<or> validGateway))
     | _ \<Rightarrow> False)"

fun contract_entries :: "(string \<times> json) list \<Rightarrow> string + (string, json) js_map" where
  "contract_entries [] = Inr []"
| "contract_entries ((k, c) # rest) =
     (if \<not> contract_valid k c then Inl (''Runtime image contract '' @ json_quote k @ '' is invalid.'')
      else rbind (contract_entries rest) (\<lambda>images. Inr ((k, c) # images)))"

definition readRuntimeImageContracts :: "contracts_file \<Rightarrow> string + (string, json) js_map" where
  "readRuntimeImageContracts f = (case f of
       ContractsAbsent \<Rightarrow> Inr []
     | ContractsUnsafe \<Rightarrow> Inl ''Runtime image contracts must be a regular file with mode 0600.''
     | ContractsInvalidJson \<Rightarrow> Inl ''Unexpected token in JSON''
     | ContractsJson (JObject fs) \<Rightarrow>
         (case (map_of fs ''version'', map_of fs ''images'') of
            (Some (JNumber v), Some (JObject images)) \<Rightarrow>
              if v = 1 then contract_entries images else Inl ''Runtime image contracts are invalid.''
          | _ \<Rightarrow> Inl ''Runtime image contracts are invalid.'')
     | ContractsJson j \<Rightarrow> Inl ''Runtime image contracts are invalid.'')"

definition contracts_document :: "(string, json) js_map \<Rightarrow> contracts_file" where
  "contracts_document images = ContractsJson (JObject [(''version'', JNumber 1), (''images'', JObject images)])"

definition recordRuntimeImageContracts :: "(string \<times> json) list \<Rightarrow> contracts_file \<Rightarrow> contracts_file \<times> (string + unit)" where
  "recordRuntimeImageContracts contracts f = (case readRuntimeImageContracts f of
       Inl e \<Rightarrow> (f, Inl e)
     | Inr images \<Rightarrow> (contracts_document (fold (\<lambda>(k, c). AList.update k c) contracts images), Inr ()))"

fun remove_contracts :: "string list \<Rightarrow> (string, json) js_map \<Rightarrow> nat \<Rightarrow> string + ((string, json) js_map \<times> nat)" where
  "remove_contracts [] images removed = Inr (images, removed)"
| "remove_contracts (k # ks) images removed =
     (if \<not> content_id k then Inl (''Invalid runtime image-contract record ID '' @ json_quote k @ ''.'')
      else if map_of images k \<noteq> None then remove_contracts ks (AList.delete k images) (Suc removed)
      else remove_contracts ks images removed)"

definition removeRuntimeImageContractRecords :: "string list \<Rightarrow> contracts_file \<Rightarrow> contracts_file \<times> (string + nat)" where
  "removeRuntimeImageContractRecords ids f = (case readRuntimeImageContracts f of
       Inl e \<Rightarrow> (f, Inl e)
     | Inr images \<Rightarrow> (case remove_contracts (dedup_by id ids) images 0 of
           Inl e \<Rightarrow> (f, Inl e)
         | Inr (images', removed) \<Rightarrow> (if removed > 0 then contracts_document images' else f, Inr removed)))"

section \<open>The length of the names\<close>

lemma namespace_length: "runtimeNamespace i = Inr n \<Longrightarrow> length n = 27"
  by (auto simp: runtimeNamespace_def Let_def bare_id_ok_def INSTALLATION_FINGERPRINT_LENGTH_def split: if_splits)

lemma computer_namespace_length: "computer_namespace j i = Inr n \<Longrightarrow> length n = 52"
  by (auto simp: computer_namespace_def rbind_eq_Inr computerFingerprint_def Let_def bare_id_ok_def
      COMPUTER_FINGERPRINT_LENGTH_def dest!: namespace_length split: if_splits)

lemma drop_dots_length: "length (drop_dots s) \<le> length s"
  by (simp add: drop_dots_def) (metis length_dropWhile_le length_rev)

lemma readable_length: "readableContainerName j i name = Inr n \<Longrightarrow> length n \<le> 63"
proof -
  assume a: "readableContainerName j i name = Inr n"
  let ?suffix = "''-'' @ take 8 (bare_id i) @ ''-'' @ take 8 (bare_id j)"
  have "length ?suffix \<le> 18" by simp
  moreover have "length (drop_dots (take (63 - length ''qubicl-'' - length ?suffix) name)) \<le> 63 - 7 - length ?suffix"
    using drop_dots_length [of "take (63 - length ''qubicl-'' - length ?suffix) name"] by (simp del: length_append)
  moreover have "n = ''qubicl-'' @ drop_dots (take (63 - length ''qubicl-'' - length ?suffix) name) @ ?suffix"
    using a by (simp add: readableContainerName_def Let_def split: if_splits)
  ultimately show ?thesis by (simp, linarith)
qed

text \<open>A computer as the program creates it: with a readable name and the unified runtime, or, when it is
  older, without a name of its own.\<close>

definition created_computer :: "string \<Rightarrow> named_computer \<Rightarrow> bool" where
  "created_computer installationId c = (case nc_runtimeName c of
       None \<Rightarrow> True
     | Some n \<Rightarrow> usesUnifiedComputerRuntime c \<and> length n \<le> 63)"

lemma helper_suffix_length: "s \<in> set (helper_suffixes c) \<Longrightarrow> length s \<le> 9"
  by (auto simp: helper_suffixes_def split: if_splits)

lemma container_names_length:
  assumes "created_computer j c" and "computerRuntimeContainerNames j c = Inr ns" and "n \<in> set ns"
  shows "length n \<le> 63"
proof (cases "nc_runtimeName c")
  case (Some r)
  with assms show ?thesis
    by (auto simp: created_computer_def computerRuntimeContainerNames_def computerContainerName_def containerName_def)
next
  case None
  then obtain b where b: "computer_namespace j (nc_id c) = Inr b"
    using assms(2) by (auto simp: computerRuntimeContainerNames_def computerContainerName_def containerName_def rbind_eq_Inr)
  then have "length b = 52" by (rule computer_namespace_length)
  with None b assms(2,3) helper_suffix_length [of _ c] show ?thesis
    by (fastforce simp: computerRuntimeContainerNames_def computerContainerName_def containerName_def split: if_splits)
qed

lemma all_right_set: "all_right f xs = Inr ys \<Longrightarrow> y \<in> set ys \<Longrightarrow> \<exists>x \<in> set xs. f x = Inr y"
  by (induction xs arbitrary: ys) (fastforce simp: rbind_eq_Inr)+

lemma suffixed_length: "suffixed r s = Inr n \<Longrightarrow> \<exists>b. r = Inr b \<and> length n = length b + length s"
  by (auto simp: suffixed_def rbind_eq_Inr)

lemma computer_networks_length: "computer_networks j c = Inr ns \<Longrightarrow> n \<in> set ns \<Longrightarrow> length n \<le> 63"
  by (fastforce simp: computer_networks_def rbind_eq_Inr controlNetwork_def workspaceNetwork_def split: if_splits
      dest!: suffixed_length computer_namespace_length)

lemma dashboard_name_length:
  assumes "(case d of Some d \<Rightarrow> (if d \<noteq> [] then rbind (suffixed (runtimeNamespace d) suffix) (\<lambda>n. Inr [n]) else Inr []) | None \<Rightarrow> Inr []) = Inr ns"
    and "n \<in> set ns" and "length suffix \<le> 36"
  shows "length n \<le> 63"
proof (cases d)
  case (Some i)
  with assms(1,2) have "suffixed (runtimeNamespace i) suffix = Inr n" by (auto simp: rbind_eq_Inr split: if_splits)
  from suffixed_length [OF this] assms(3) show ?thesis by (auto dest: namespace_length)
qed (use assms in simp)


definition demo_installation :: string where
  "demo_installation = ''0f8fad5b-d9cb-469f-a165-70867728950e''"

definition demo_named :: named_computer where
  "demo_named = \<lparr>nc_id = ''7c9e6679-7425-40de-944b-e07fc1f90ae7'', nc_runtimeName = None, nc_capabilities = [''viewer''],
     nc_controlProtocolVersion = Some 9, nc_sshEnabled = True\<rparr>"


end
