(* ===== verification/Cleanup_Command.thy ===== *)
theory Cleanup_Command
  imports Cleanup Runtime_Names
begin

text \<open>The cleanup command: packages/cli/src/cleanup-command.ts.

  It reads the inventory from the container runtime, makes the plan, and when it was approved executes
  it. The container runtime is an argument: \<open>ask\<close> answers the read-only commands of one inventory,
  \<open>run\<close> is a command that changes something. \<open>parse\<close> is \<open>JSON.parse\<close>.\<close>

section \<open>Reading the inventory\<close>

type_synonym docker_answers = "string list \<Rightarrow> string + string"

definition text_le :: "string \<Rightarrow> string \<Rightarrow> bool" where
  "text_le l r = (compareText l r \<le> 0)"

definition parseIdentifierLines :: "string \<Rightarrow> string \<Rightarrow> (string \<Rightarrow> bool) \<Rightarrow> string + string list" where
  "parseIdentifierLines lines subject pattern =
     (let values = filter (\<lambda>v. v \<noteq> []) (map js_trim (split_on (char_of (10::nat)) lines)) in
      if length values > 4096 then Inl (subject @ '' exceeded the bounded item count.'')
      else (case List.find (\<lambda>v. \<not> pattern v) values of
          Some v \<Rightarrow> Inl (subject @ '' returned invalid identifier '' @ json_quote v @ ''.'')
        | None \<Rightarrow>
            if \<not> distinct values then Inl (subject @ '' returned duplicate identifiers.'')
            else Inr (sort_by text_le values)))"

definition hex64 :: "string \<Rightarrow> bool" where
  "hex64 s = (length s = 64 \<and> list_all is_lower_hex s)"

definition volume_name :: "string \<Rightarrow> bool" where
  "volume_name s = (s \<noteq> [] \<and> length s \<le> 128 \<and> is_alnum (hd s) \<and> list_all (\<lambda>c. is_alnum c \<or> c \<in> set ''_.-'') (tl s))"

definition json_get :: "string \<Rightarrow> json option \<Rightarrow> json option" where
  "json_get k j = (case j of Some (JObject fs) \<Rightarrow> map_of fs k | _ \<Rightarrow> None)"

definition requiredString :: "json option \<Rightarrow> string \<Rightarrow> string + string" where
  "requiredString v subject = (case v of
       Some (JString s) \<Rightarrow> if s = [] then Inl (subject @ '' is missing.'') else Inr s
     | _ \<Rightarrow> Inl (subject @ '' is missing.''))"

text \<open>Labels that are absent, or not an object, are no labels.\<close>

definition stringRecord :: "json option \<Rightarrow> string + (string, string) js_map" where
  "stringRecord v = (case v of
       Some (JObject fs) \<Rightarrow> all_right (\<lambda>(k, j). case j of
            JString s \<Rightarrow> Inr (k, s)
          | _ \<Rightarrow> Inl (''Docker label '' @ k @ '' is not a string.'')) fs
     | _ \<Rightarrow> Inr [])"

text \<open>An inspection returns exactly the identities that were asked for.\<close>

definition inspection_identity :: "string \<Rightarrow> json \<Rightarrow> string + string" where
  "inspection_identity kind inspection = (case inspection of
       JObject fs \<Rightarrow> (case map_of fs (if kind = ''volume'' then ''Name'' else ''Id'') of
            Some (JString s) \<Rightarrow> if s = [] then Inl (''Docker '' @ kind @ '' inspection omitted its exact identity.'') else Inr s
          | _ \<Rightarrow> Inl (''Docker '' @ kind @ '' inspection omitted its exact identity.''))
     | _ \<Rightarrow> Inl (''Docker '' @ kind @ '' inspection returned a non-object entry.''))"

definition assertExactInspectionIdentitySet :: "string \<Rightarrow> string list \<Rightarrow> json list \<Rightarrow> string + unit" where
  "assertExactInspectionIdentitySet kind requested inspections =
     rbind (all_right (inspection_identity kind) inspections) (\<lambda>actual.
       if \<not> distinct actual then Inl (''Docker '' @ kind @ '' inspection returned duplicate identities.'')
       else if sort_by text_le requested \<noteq> sort_by text_le actual
       then Inl (''Docker '' @ kind @ '' inspection substituted, omitted, or added an identity.'')
       else Inr ())"

definition inspectMany :: "(string \<Rightarrow> json option) \<Rightarrow> docker_answers \<Rightarrow> string \<Rightarrow> string list \<Rightarrow> string + json list" where
  "inspectMany parse ask kind ids =
     (if ids = [] then Inr []
      else rbind (ask ([kind, ''inspect''] @ ids)) (\<lambda>text.
        case parse text of
          Some (JArray values) \<Rightarrow> rbind (assertExactInspectionIdentitySet kind ids values) (\<lambda>_. Inr values)
        | Some _ \<Rightarrow> Inl (''Docker '' @ kind @ '' inspection did not return the complete reviewed inventory.'')
        | None \<Rightarrow> Inl ''Unexpected token in JSON''))"

definition containerStatusMap :: "(string \<Rightarrow> json option) \<Rightarrow> docker_answers \<Rightarrow> string list \<Rightarrow> string + (string, string) js_map" where
  "containerStatusMap parse ask ids =
     rbind (inspectMany parse ask ''container'' (sort_by text_le ids)) (\<lambda>inspections.
     all_right (\<lambda>v. rbind (requiredString (json_get ''Id'' (Some v)) ''Docker container ID'') (\<lambda>i.
        rbind (requiredString (json_get ''Status'' (json_get ''State'' (Some v))) ''Docker container status'') (\<lambda>s.
        Inr (i, s)))) inspections)"

definition running_status :: "string \<Rightarrow> bool" where
  "running_status s = (s = ''running'' \<or> s = ''paused'' \<or> s = ''restarting'')"

definition attachments :: "string list \<Rightarrow> (string, string) js_map \<Rightarrow> string + cleanup_attachment list" where
  "attachments ids statuses =
     all_right (\<lambda>i. case map_of statuses i of
         Some s \<Rightarrow> if s = [] then Inl (''Docker did not return status for attached container '' @ i @ ''.'')
           else Inr \<lparr>at_containerId = i, at_running = running_status s\<rparr>
       | None \<Rightarrow> Inl (''Docker did not return status for attached container '' @ i @ ''.'')) (sort_by text_le ids)"

definition drop_slash :: "string \<Rightarrow> string" where
  "drop_slash s = (if starts_with s ''/'' then tl s else s)"

definition containerInventoryItem :: "json \<Rightarrow> string + inventory_item" where
  "containerInventoryItem v =
     rbind (requiredString (json_get ''Id'' (Some v)) ''Docker container ID'') (\<lambda>i.
     rbind (requiredString (json_get ''Name'' (Some v)) ''Docker container name'') (\<lambda>n.
     rbind (stringRecord (json_get ''Labels'' (json_get ''Config'' (Some v)))) (\<lambda>labels.
     rbind (requiredString (json_get ''Status'' (json_get ''State'' (Some v))) ''Docker container status'') (\<lambda>s.
     Inr (ItemContainer \<lparr>dr_id = i, dr_name = drop_slash n, dr_labels = labels, dc_status = s\<rparr>)))))"

definition object_keys :: "json option \<Rightarrow> string list" where
  "object_keys j = (case j of Some (JObject fs) \<Rightarrow> map fst fs | _ \<Rightarrow> [])"

definition json_strings :: "json option \<Rightarrow> string list" where
  "json_strings j = (case j of Some (JArray xs) \<Rightarrow> List.map_filter (\<lambda>x. as_string (Some x)) xs | _ \<Rightarrow> [])"

definition networkInventoryItem :: "(string, string) js_map \<Rightarrow> json \<Rightarrow> string + inventory_item" where
  "networkInventoryItem statuses v =
     rbind (requiredString (json_get ''Id'' (Some v)) ''Docker network ID'') (\<lambda>i.
     rbind (requiredString (json_get ''Name'' (Some v)) ''Docker network name'') (\<lambda>n.
     rbind (stringRecord (json_get ''Labels'' (Some v))) (\<lambda>labels.
     rbind (attachments (object_keys (json_get ''Containers'' (Some v))) statuses) (\<lambda>attached.
     Inr (ItemNetwork \<lparr>dr_id = i, dr_name = n, dr_labels = labels, dn_attachedContainers = attached\<rparr>)))))"

definition volumeInventoryItem :: "(string \<Rightarrow> json option) \<Rightarrow> docker_answers \<Rightarrow> json \<Rightarrow> string + inventory_item" where
  "volumeInventoryItem parse ask v =
     rbind (requiredString (json_get ''Name'' (Some v)) ''Docker volume name'') (\<lambda>n.
     rbind (ask [''ps'', ''--all'', ''--no-trunc'', ''--format'', ''{{.ID}}'', ''--filter'', ''volume='' @ n]) (\<lambda>text.
     rbind (parseIdentifierLines text (''containers attached to volume '' @ n) hex64) (\<lambda>ids.
     rbind (containerStatusMap parse ask ids) (\<lambda>statuses.
     rbind (stringRecord (json_get ''Labels'' (Some v))) (\<lambda>labels.
     rbind (attachments ids statuses) (\<lambda>attached.
     Inr (ItemVolume \<lparr>dr_id = n, dr_name = n, dr_labels = labels, dv_attachedContainers = attached,
       dv_durableHome = (\<not> ends_with n ''-x11'')\<rparr>)))))))"

definition imageInventoryItem :: "(string \<Rightarrow> json option) \<Rightarrow> docker_answers \<Rightarrow> json \<Rightarrow> string + inventory_item" where
  "imageInventoryItem parse ask v =
     rbind (requiredString (json_get ''Id'' (Some v)) ''Docker image ID'') (\<lambda>i.
     rbind (ask [''ps'', ''--all'', ''--no-trunc'', ''--format'', ''{{.ID}}'', ''--filter'', ''ancestor='' @ i]) (\<lambda>text.
     rbind (parseIdentifierLines text (''containers referencing image '' @ i) hex64) (\<lambda>ids.
     rbind (containerStatusMap parse ask ids) (\<lambda>statuses.
     let references = sort_by text_le (dedup_by id (json_strings (json_get ''RepoDigests'' (Some v)) @ json_strings (json_get ''RepoTags'' (Some v))))
     in rbind (stringRecord (json_get ''Labels'' (json_get ''Config'' (Some v)))) (\<lambda>labels.
        rbind (attachments ids statuses) (\<lambda>attached.
        Inr (ItemImage \<lparr>dr_id = i, dr_name = (case references of [] \<Rightarrow> i | r # rs \<Rightarrow> r), dr_labels = labels,
          di_references = references, di_referencedByContainers = attached\<rparr>)))))))"

section \<open>The snapshot\<close>

record image_reference =
  ir_requested :: string
  ir_resolved :: string
  ir_contentId :: "string option"

text \<open>What the command reads of the state of the installation; the presets and the catalog belong to the
  core package.\<close>

record cleanup_state =
  ks_installationId :: string
  ks_computers :: "named_computer list"
  ks_dashboard :: "string option"
  ks_gatewayImage :: image_reference
  ks_defaultImage :: image_reference
  ks_defaultPreset :: string
  ks_computerImages :: "(image_reference \<times> string) list" \<comment> \<open>image and preset of each computer\<close>
  ks_contracts :: contracts_file

record image_catalog =
  ct_gateway :: image_reference
  ct_preset :: "string \<Rightarrow> image_reference"

definition image_references :: "image_reference \<Rightarrow> string list" where
  "image_references i = [ir_requested i, ir_resolved i]
     @ (case ir_contentId i of Some c \<Rightarrow> if c = [] then [] else [c] | None \<Rightarrow> [])"

definition configuredAndTargetImageReferences :: "image_catalog \<Rightarrow> cleanup_state \<Rightarrow> string list" where
  "configuredAndTargetImageReferences catalog st =
     concat (map image_references ([ks_gatewayImage st, ks_defaultImage st] @ map fst (ks_computerImages st)
       @ [ct_gateway catalog]
       @ (if ks_defaultPreset st \<noteq> ''custom'' then [ct_preset catalog (ks_defaultPreset st)] else [])
       @ map (\<lambda>(i, preset). ct_preset catalog preset) (filter (\<lambda>(i, preset). preset \<noteq> ''custom'') (ks_computerImages st))))"

definition cacheRecordItem :: "string list \<Rightarrow> string \<Rightarrow> inventory_item" where
  "cacheRecordItem references contentId =
     ItemRecord \<lparr>kr_evidence = False, kr_id = contentId, kr_name = contentId, kr_namespace = ''qubicl-runtime'',
       kr_schemaVersion = 1, kr_obsolete = (contentId \<notin> set references), kr_referenced = (contentId \<in> set references)\<rparr>"

definition collectCleanupSnapshot ::
  "(string \<Rightarrow> json option) \<Rightarrow> image_catalog \<Rightarrow> cleanup_state \<Rightarrow> docker_answers \<Rightarrow> string + cleanup_snapshot"
where
  "collectCleanupSnapshot parse catalog st ask =
     rbind (projectName (ks_installationId st)) (\<lambda>project.
     rbind (expectedRuntimeResources (ks_installationId st) (ks_computers st) (ks_dashboard st)) (\<lambda>expected.
     rbind (ask [''ps'', ''--all'', ''--no-trunc'', ''--format'', ''{{.ID}}'', ''--filter'',
         ''label=dev.qubicl.installation='' @ ks_installationId st]) (\<lambda>t1.
     rbind (parseIdentifierLines t1 ''Qubicl container inventory'' hex64) (\<lambda>containerIds.
     rbind (inspectMany parse ask ''container'' containerIds) (\<lambda>containers.
     rbind (all_right containerInventoryItem containers) (\<lambda>containerItems.
     let retained = filter (\<lambda>i. i \<noteq> []) (json_strings (Some (JArray
           (List.map_filter (\<lambda>c. json_get ''Image'' (Some c)) containers)))) in
     rbind (ask [''network'', ''ls'', ''--no-trunc'', ''--format'', ''{{.ID}}'', ''--filter'',
         ''label=com.docker.compose.project='' @ project]) (\<lambda>t2.
     rbind (parseIdentifierLines t2 ''Qubicl network inventory'' hex64) (\<lambda>networkIds.
     rbind (inspectMany parse ask ''network'' networkIds) (\<lambda>networks.
     rbind (containerStatusMap parse ask
         (dedup_by id (concat (map (\<lambda>n. object_keys (json_get ''Containers'' (Some n))) networks)))) (\<lambda>statuses.
     rbind (all_right (networkInventoryItem statuses) networks) (\<lambda>networkItems.
     rbind (ask [''volume'', ''ls'', ''--format'', ''{{.Name}}'', ''--filter'',
         ''label=com.docker.compose.project='' @ project]) (\<lambda>t3.
     rbind (parseIdentifierLines t3 ''Qubicl volume inventory'' volume_name) (\<lambda>volumeNames.
     rbind (inspectMany parse ask ''volume'' volumeNames) (\<lambda>volumes.
     rbind (all_right (volumeInventoryItem parse ask) volumes) (\<lambda>volumeItems.
     rbind (ask [''image'', ''ls'', ''--no-trunc'', ''--format'', ''{{.ID}}'', ''--filter'',
         ''label=org.opencontainers.image.source=https://github.com/EldanRing/qubicl'']) (\<lambda>t4.
     rbind (parseIdentifierLines t4 ''Qubicl image inventory'' image_digest) (\<lambda>imageIds.
     rbind (inspectMany parse ask ''image'' imageIds) (\<lambda>images.
     rbind (all_right (imageInventoryItem parse ask) images) (\<lambda>imageItems.
     let protected = configuredAndTargetImageReferences catalog st in
     rbind (readRuntimeImageContracts (ks_contracts st)) (\<lambda>cache.
     Inr \<lparr>sn_installationId = ks_installationId st, sn_projectName = project,
       sn_expectedContainers = er_containers expected, sn_expectedNetworks = er_networks expected,
       sn_expectedVolumes = er_volumes expected, sn_protectedImageReferences = protected,
       sn_retainedManagedImageReferences = retained,
       sn_items = containerItems @ networkItems @ volumeItems @ imageItems
         @ map (cacheRecordItem (protected @ retained)) (sort_by text_le (map fst cache))\<rparr>))))))))))))))))))))"

section \<open>Removing a candidate\<close>

datatype cleanup_call = DockerRun "string list" | RemoveContractRecord string

definition volume_removal_disabled :: "cleanup_candidate \<Rightarrow> string" where
  "volume_removal_disabled c = ''Automatic volume deletion is disabled because Docker volume name '' @ cd_name c
     @ '' is not an immutable identity.''"

definition image_removal_disabled :: "cleanup_candidate \<Rightarrow> string" where
  "image_removal_disabled c = ''Automatic image deletion is disabled because Docker image '' @ cd_id c
     @ '' may be shared by another Qubicl installation.''"

text \<open>The call a candidate is removed by.\<close>

definition removal_call :: "cleanup_candidate \<Rightarrow> string + cleanup_call" where
  "removal_call c = (case cd_kind c of
       KContainer \<Rightarrow> Inr (DockerRun [''rm'', cd_id c])
     | KNetwork \<Rightarrow> Inr (DockerRun [''network'', ''rm'', cd_id c])
     | KVolume \<Rightarrow> Inl (volume_removal_disabled c)
     | KImage \<Rightarrow> Inl (image_removal_disabled c)
     | KCacheRecord \<Rightarrow> Inr (RemoveContractRecord (cd_id c))
     | KEvidenceRecord \<Rightarrow> Inl (''Unsupported cleanup evidence record '' @ cd_id c @ ''; it was preserved.''))"

text \<open>The host: how it answers, what it becomes while the inventory is read, and what a command does.\<close>

record 'w cleanup_host =
  ho_state :: "'w \<Rightarrow> string + cleanup_state"
  ho_ask :: "'w \<Rightarrow> docker_answers"
  ho_later :: "'w \<Rightarrow> 'w"
  ho_run :: "cleanup_call \<Rightarrow> 'w \<Rightarrow> 'w \<times> (string + nat)"

definition removeCleanupCandidate :: "'w cleanup_host \<Rightarrow> cleanup_candidate \<Rightarrow> 'w \<Rightarrow> 'w \<times> (string + unit)" where
  "removeCleanupCandidate h c w = (case removal_call c of
       Inl e \<Rightarrow> (w, Inl e)
     | Inr call \<Rightarrow> (case ho_run h call w of
           (w', Inl e) \<Rightarrow> (w', Inl e)
         | (w', Inr n) \<Rightarrow>
             if (case call of RemoveContractRecord _ \<Rightarrow> n \<noteq> 1 | DockerRun _ \<Rightarrow> False)
             then (w', Inl (''Runtime cache record '' @ cd_id c @ '' disappeared before deletion.''))
             else (w', Inr ())))"

section \<open>The command\<close>

definition build_plan ::
  "(string \<Rightarrow> string) \<Rightarrow> (string \<Rightarrow> json option) \<Rightarrow> image_catalog \<Rightarrow> cleanup_selection \<Rightarrow> 'w cleanup_host \<Rightarrow> 'w
     \<Rightarrow> 'w \<times> (string + cleanup_plan)"
where
  "build_plan sha parse catalog selection h w =
     (ho_later h w, rbind (ho_state h w) (\<lambda>st. rbind (collectCleanupSnapshot parse catalog st (ho_ask h w)) (\<lambda>snapshot.
        buildCleanupPlan sha snapshot selection)))"

definition assertCleanupSucceeded :: "cleanup_result \<Rightarrow> string + unit" where
  "assertCleanupSucceeded r =
     (if cr_failed r \<noteq> [] then Inl (''Cleanup was partial: Docker preserved '' @ show_nat (length (cr_failed r))
        @ '' reviewed item'' @ (if length (cr_failed r) = 1 then [] else ''s'') @ '' after removal failed. Review the exact results above.'')
      else Inr ())"

text \<open>The outcome: the plan that was shown, and what the execution did when it was approved.\<close>

definition cleanupCommand ::
  "(string \<Rightarrow> string) \<Rightarrow> (string \<Rightarrow> json option) \<Rightarrow> image_catalog \<Rightarrow> bool \<Rightarrow> bool \<Rightarrow> bool \<Rightarrow> bool \<Rightarrow> 'w cleanup_host \<Rightarrow> 'w
     \<Rightarrow> 'w \<times> 'w removal_attempt list \<times> (string + cleanup_plan \<times> cleanup_result option)"
where
  "cleanupCommand sha parse catalog orphans images yes pending h w =
     (let selection = \<lparr>sel_orphans = orphans, sel_images = images, sel_records = images\<rparr> in
      if \<not> orphans \<and> \<not> images then (w, [], Inl ''Cleanup requires --orphans and/or --images.'')
      else if pending then (w, [], Inl ''Cleanup is blocked while a lifecycle transaction is pending; recover it before reviewing deletion candidates.'')
      else (case build_plan sha parse catalog selection h w of
          (w1, Inl e) \<Rightarrow> (w1, [], Inl e)
        | (w1, Inr reviewed) \<Rightarrow>
            if \<not> yes then (w1, [], Inr (reviewed, None))
            else (case executeCleanupPlan (build_plan sha parse catalog selection h) (removeCleanupCandidate h) reviewed w1 of
                (w2, log, Inl e) \<Rightarrow> (w2, log, Inl e)
              | (w2, log, Inr result) \<Rightarrow>
                  (case assertCleanupSucceeded result of
                     Inl e \<Rightarrow> (w2, log, Inl e)
                   | Inr _ \<Rightarrow> (w2, log, Inr (reviewed, Some result))))))"

section \<open>What the command removes\<close>

text \<open>What an inventory taken at a moment \<open>w\<close> shows of a candidate.\<close>

definition shows_removable ::
  "(string \<Rightarrow> string) \<Rightarrow> (string \<Rightarrow> json option) \<Rightarrow> image_catalog \<Rightarrow> cleanup_selection \<Rightarrow> 'w cleanup_host \<Rightarrow> 'w \<Rightarrow> cleanup_candidate
     \<Rightarrow> inventory_item \<Rightarrow> bool"
where
  "shows_removable sha parse catalog sel h w c item =
     (case rbind (ho_state h w) (\<lambda>st. collectCleanupSnapshot parse catalog st (ho_ask h w)) of
        Inl e \<Rightarrow> False
      | Inr snapshot \<Rightarrow> item \<in> set (sn_items snapshot) \<and> removable snapshot sel item \<and> c = candidate_of sha item)"

lemma plan_shows:
  assumes "snd (build_plan sha parse catalog sel h w) = Inr plan" and "c \<in> set (cp_candidates plan)"
  shows "\<exists>item. shows_removable sha parse catalog sel h w c item"
proof -
  from assms(1) obtain st snapshot where *: "ho_state h w = Inr st"
    "collectCleanupSnapshot parse catalog st (ho_ask h w) = Inr snapshot" "buildCleanupPlan sha snapshot sel = Inr plan"
    by (auto simp: build_plan_def rbind_eq_Inr)
  from plan_candidates [OF *(3)] assms(2) * show ?thesis by (auto simp: shows_removable_def)
qed

lemma command_attempts:
  assumes "cleanupCommand sha parse catalog orphans images yes pending h w = (w', log, r)" and "a \<in> set log"
    and "sel = \<lparr>sel_orphans = orphans, sel_images = images, sel_records = images\<rparr>"
  shows "yes \<and> \<not> pending \<and> (\<exists>item. shows_removable sha parse catalog sel h w (ra_candidate a) item)
     \<and> (\<exists>w0 item. ra_host a = ho_later h w0 \<and> shows_removable sha parse catalog sel h w0 (ra_candidate a) item)"
proof -
  obtain w1 p where p: "build_plan sha parse catalog sel h w = (w1, p)" by force
  from assms p obtain reviewed w2 r' where *: "yes" "\<not> pending" "p = Inr reviewed"
    "executeCleanupPlan (build_plan sha parse catalog sel h) (removeCleanupCandidate h) reviewed w1 = (w2, log, r')"
    by (auto simp: cleanupCommand_def Let_def split: sum.splits if_splits prod.splits)
  from execute_attempts [OF *(4) assms(2)] have att: "ra_candidate a \<in> set (cp_candidates reviewed)"
    "ra_candidate a \<in> set (cp_candidates (ra_plan a))" "plan_made (build_plan sha parse catalog sel h) a" by auto
  from att(3) obtain w0 where w0: "build_plan sha parse catalog sel h w0 = (ra_host a, Inr (ra_plan a))" by (auto simp: plan_made_def)
  then have "ra_host a = ho_later h w0" by (simp add: build_plan_def)
  with plan_shows [of sha parse catalog sel h w0, OF _ att(2)] plan_shows [of sha parse catalog sel h w, OF _ att(1)] w0 p *
  show ?thesis by auto
qed

lemma removable_call:
  assumes "removable snapshot sel item" and "c = candidate_of sha item"
  shows "removal_call c \<in> {Inr (DockerRun [''rm'', item_id item]), Inr (DockerRun [''network'', ''rm'', item_id item]),
     Inr (RemoveContractRecord (item_id item))} \<or> (\<exists>r. item = ItemRecord r \<and> kr_evidence r)"
  using assms by (cases item) (auto simp: removal_call_def candidate_of_def)

text \<open>C21. Cleanup removes orphans only: whatever the host answers and however it changes meanwhile, every
  removal the command makes was approved, happens outside of transactions, and right before it an
  inventory showed the very item as removable: an ended container of this installation or an unattached
  network of its project that no configured computer expects, or an unreferenced record of the cache,
  never a volume or an image.\<close>

theorem cleanup_removes_only_orphans:
  assumes "cleanupCommand sha parse catalog orphans images yes pending h w = (w', log, r)"
  shows "list_all (\<lambda>a. yes \<and> \<not> pending
     \<and> (\<exists>w0 item. ra_host a = ho_later h w0
        \<and> shows_removable sha parse catalog \<lparr>sel_orphans = orphans, sel_images = images, sel_records = images\<rparr> h w0 (ra_candidate a) item
        \<and> (case item of
             ItemContainer c \<Rightarrow> orphans \<and> dc_status c \<in> {''exited'', ''created'', ''dead''}
               \<and> removal_call (ra_candidate a) = Inr (DockerRun [''rm'', dr_id c])
           | ItemNetwork n \<Rightarrow> orphans \<and> dn_attachedContainers n = []
               \<and> removal_call (ra_candidate a) = Inr (DockerRun [''network'', ''rm'', dr_id n])
           | ItemVolume v \<Rightarrow> False
           | ItemImage i \<Rightarrow> False
           | ItemRecord k \<Rightarrow> images \<and> \<not> kr_referenced k))) log"
proof -
  have "(case item of
             ItemContainer c \<Rightarrow> orphans \<and> dc_status c \<in> {''exited'', ''created'', ''dead''}
               \<and> removal_call x = Inr (DockerRun [''rm'', dr_id c])
           | ItemNetwork n \<Rightarrow> orphans \<and> dn_attachedContainers n = []
               \<and> removal_call x = Inr (DockerRun [''network'', ''rm'', dr_id n])
           | ItemVolume v \<Rightarrow> False
           | ItemImage i \<Rightarrow> False
           | ItemRecord k \<Rightarrow> images \<and> \<not> kr_referenced k)"
    if "shows_removable sha parse catalog \<lparr>sel_orphans = orphans, sel_images = images, sel_records = images\<rparr> h w0 x item" for w0 x item
    using that by (cases item) (auto simp: shows_removable_def candidate_of_def removal_call_def split: sum.splits)
  with command_attempts [OF assms _ refl] show ?thesis unfolding list_all_iff by blast
qed

text \<open>C22. What is removed is what was reviewed: for every removal, the item the inventory shows right before it
  is the item the reviewed inventory showed, the same in every observed field, or two different
  observations with the same hash have been found.\<close>

theorem cleanup_removes_what_was_reviewed:
  assumes "cleanupCommand sha parse catalog orphans images yes pending h w = (w', log, r)"
  shows "list_all (\<lambda>a. \<exists>reviewed w0 current.
        shows_removable sha parse catalog \<lparr>sel_orphans = orphans, sel_images = images, sel_records = images\<rparr> h w (ra_candidate a) reviewed
        \<and> ra_host a = ho_later h w0
        \<and> shows_removable sha parse catalog \<lparr>sel_orphans = orphans, sel_images = images, sel_records = images\<rparr> h w0 (ra_candidate a) current
        \<and> (same_observation reviewed current
           \<or> stableJson (cleanupEvidence reviewed) \<noteq> stableJson (cleanupEvidence current)
             \<and> sha (stableJson (cleanupEvidence reviewed)) = sha (stableJson (cleanupEvidence current)))) log"
proof -
  have "same_observation x y \<or> stableJson (cleanupEvidence x) \<noteq> stableJson (cleanupEvidence y)
      \<and> sha (stableJson (cleanupEvidence x)) = sha (stableJson (cleanupEvidence y))"
    if "shows_removable sha parse catalog sel h w c x" "shows_removable sha parse catalog sel h w0 c y" for sel w0 c x y
    using that same_hash_same_observation [of sha x y] by (auto simp: shows_removable_def split: sum.splits)
  with command_attempts [OF assms _ refl] show ?thesis unfolding list_all_iff by blast
qed

section \<open>A host with one orphan\<close>

definition demo_container_id :: string where "demo_container_id = replicate 64 CHR ''a''"

definition demo_container_json :: json where
  "demo_container_json = JObject [(''Id'', JString demo_container_id), (''Name'', JString ''/old-gateway''),
     (''State'', JObject [(''Status'', JString ''exited'')]),
     (''Config'', JObject [(''Labels'', JObject [(''dev.qubicl.installation'', JString demo_installation),
        (''dev.qubicl.role'', JString ''gateway'')])])]"

definition demo_image :: image_reference where
  "demo_image = \<lparr>ir_requested = ''g'', ir_resolved = ''g'', ir_contentId = None\<rparr>"

definition demo_catalog :: image_catalog where
  "demo_catalog = \<lparr>ct_gateway = demo_image, ct_preset = (\<lambda>_. demo_image)\<rparr>"

definition demo_cleanup_state :: cleanup_state where
  "demo_cleanup_state = \<lparr>ks_installationId = demo_installation, ks_computers = [], ks_dashboard = None,
     ks_gatewayImage = demo_image, ks_defaultImage = demo_image, ks_defaultPreset = ''custom'', ks_computerImages = [],
     ks_contracts = ContractsAbsent\<rparr>"

text \<open>The listing of containers names the orphan until it is removed; the text of its inspection is short
  here, the parser knows it.\<close>

definition demo_parse :: "string \<Rightarrow> json option" where
  "demo_parse t = Some (JArray [demo_container_json])"

definition demo_host :: "bool cleanup_host" where
  "demo_host = \<lparr>ho_state = (\<lambda>w. Inr demo_cleanup_state),
     ho_ask = (\<lambda>w args. if hd args = ''ps'' \<and> w then Inr demo_container_id else Inr []),
     ho_later = (\<lambda>w. w), ho_run = (\<lambda>call w. (False, Inr 0))\<rparr>"

definition demo_selection :: cleanup_selection where
  "demo_selection = \<lparr>sel_orphans = True, sel_images = False, sel_records = False\<rparr>"

definition demo_candidate :: cleanup_candidate where
  "demo_candidate = candidate_of (\<lambda>s. s) (ItemContainer \<lparr>dr_id = demo_container_id, dr_name = ''old-gateway'',
     dr_labels = [(''dev.qubicl.installation'', demo_installation), (''dev.qubicl.role'', ''gateway'')], dc_status = ''exited''\<rparr>)"

definition demo_plan :: cleanup_plan where
  "demo_plan = \<lparr>cp_reviewDigest = digest (\<lambda>s. s) (digest_input demo_selection [demo_candidate] []), cp_selection = demo_selection,
     cp_candidates = [demo_candidate], cp_preserved = []\<rparr>"

lemma demo_snapshot:
  "rbind (collectCleanupSnapshot demo_parse demo_catalog demo_cleanup_state (ho_ask demo_host True))
     (\<lambda>s. Inr (sn_installationId s, sn_expectedContainers s, sn_items s, sn_projectName s))
   = Inr (demo_installation, [''qubicl-0f8fad5bd9cb469fa165-gateway''],
       [ItemContainer \<lparr>dr_id = demo_container_id, dr_name = ''old-gateway'',
          dr_labels = [(''dev.qubicl.installation'', demo_installation), (''dev.qubicl.role'', ''gateway'')], dc_status = ''exited''\<rparr>],
       ''qubicl-0f8fad5bd9cb469fa165'')"
  by code_simp

lemma demo_valid: "cleanup_uuid (Some demo_installation)"
  by code_simp

lemma demo_build: "build_plan (\<lambda>s. s) demo_parse demo_catalog demo_selection demo_host True = (True, Inr demo_plan)"
proof -
  have host: "ho_state demo_host True = Inr demo_cleanup_state" "ho_later demo_host True = True"
    by (simp_all add: demo_host_def)
  obtain s where s: "collectCleanupSnapshot demo_parse demo_catalog demo_cleanup_state (ho_ask demo_host True) = Inr s"
    "sn_installationId s = demo_installation" "sn_expectedContainers s = [''qubicl-0f8fad5bd9cb469fa165-gateway'']"
    "sn_items s = [ItemContainer \<lparr>dr_id = demo_container_id, dr_name = ''old-gateway'',
       dr_labels = [(''dev.qubicl.installation'', demo_installation), (''dev.qubicl.role'', ''gateway'')], dc_status = ''exited''\<rparr>]"
    "sn_projectName s = ''qubicl-0f8fad5bd9cb469fa165''"
    using demo_snapshot by (auto simp: rbind_eq_Inr)
  have "demo_container_id \<noteq> []" by (simp add: demo_container_id_def)
  then have "buildCleanupPlan (\<lambda>s. s) s demo_selection = Inr demo_plan"
    by (simp add: buildCleanupPlan_def validateSnapshot_def s demo_valid item_key_def sort_by_def cleanupDecision_def
        containerDecision_def verifiedContainerOwnership_def removableContainerStatus_def demo_selection_def demo_plan_def
        demo_candidate_def candidate_of_def Let_def)
  then show ?thesis by (simp add: build_plan_def host s)
qed

lemma demo_removed: "removeCleanupCandidate demo_host demo_candidate True = (False, Inr ())"
  by (simp add: removeCleanupCandidate_def removal_call_def demo_candidate_def candidate_of_def demo_host_def)

lemma demo_executed:
  "executeCleanupPlan (build_plan (\<lambda>s. s) demo_parse demo_catalog demo_selection demo_host) (removeCleanupCandidate demo_host) demo_plan True
   = (False, [\<lparr>ra_plan = demo_plan, ra_candidate = demo_candidate, ra_host = True\<rparr>],
      Inr \<lparr>cr_removed = [demo_candidate], cr_preserved = [], cr_failed = []\<rparr>)"
proof -
  have plan: "cp_candidates demo_plan = [demo_candidate]" by (simp add: demo_plan_def)
  have found: "List.find (\<lambda>d. sameCandidate d demo_candidate) [demo_candidate] = Some demo_candidate"
    by (simp add: sameCandidate_def)
  show ?thesis by (simp add: executeCleanupPlan_def demo_build plan found demo_removed)
qed

lemma demo_cleanup_run:
  "\<exists>w a r. cleanupCommand (\<lambda>s. s) demo_parse demo_catalog True False True False demo_host True = (w, [a], r)"
  by (simp add: cleanupCommand_def demo_selection_def [symmetric] demo_build demo_executed assertCleanupSucceeded_def ex_bool_eq)

theorem cleanup_removes_only_orphans_witness:
  "\<exists>w a r. cleanupCommand (\<lambda>s. s) demo_parse demo_catalog True False True False demo_host True = (w, [a], r)
     \<and> (\<exists>w0 item. shows_removable (\<lambda>s. s) demo_parse demo_catalog \<lparr>sel_orphans = True, sel_images = False, sel_records = False\<rparr>
          demo_host w0 (ra_candidate a) item)"
proof -
  obtain w a r where run: "cleanupCommand (\<lambda>s. s) demo_parse demo_catalog True False True False demo_host True = (w, [a], r)"
    using demo_cleanup_run by blast
  from cleanup_removes_only_orphans [OF run] have "\<exists>w0 item. shows_removable (\<lambda>s. s) demo_parse demo_catalog
      \<lparr>sel_orphans = True, sel_images = False, sel_records = False\<rparr> demo_host w0 (ra_candidate a) item"
    unfolding list.pred_inject by blast
  with run show ?thesis by blast
qed

theorem cleanup_removes_what_was_reviewed_witness:
  "\<exists>w a r. cleanupCommand (\<lambda>s. s) demo_parse demo_catalog True False True False demo_host True = (w, [a], r)
     \<and> (\<exists>reviewed current. same_observation reviewed current
          \<and> shows_removable (\<lambda>s. s) demo_parse demo_catalog \<lparr>sel_orphans = True, sel_images = False, sel_records = False\<rparr>
              demo_host True (ra_candidate a) reviewed)"
proof -
  obtain w a r where run: "cleanupCommand (\<lambda>s. s) demo_parse demo_catalog True False True False demo_host True = (w, [a], r)"
    using demo_cleanup_run by blast
  from cleanup_removes_what_was_reviewed [OF run] have "\<exists>reviewed current. same_observation reviewed current
      \<and> shows_removable (\<lambda>s. s) demo_parse demo_catalog \<lparr>sel_orphans = True, sel_images = False, sel_records = False\<rparr>
          demo_host True (ra_candidate a) reviewed"
    unfolding list.pred_inject by blast
  with run show ?thesis by blast
qed

end
