(* ===== verification/Dashboard_Auth.thy ===== *)
theory Dashboard_Auth
  imports Fencing
begin

text \<open>
  \<^verbatim>\<open>packages/cli/src/dashboard/auth.ts\<close>: administrator sessions of the dashboard, the
  limits on failed passwords and the queue of password derivations.

  The clock is an argument (milliseconds), read as often as the code reads it. SHA-256 of a token
  is the argument \<open>th\<close>; random tokens and identifiers are arguments. Signing in and
  reauthenticating wait for the key derivation: each is a beginning that returns what the code
  keeps across the await, and an end that takes the outcome of the verification, so that other
  calls come in between. A session record is identified by its random \<open>id\<close>.
\<close>

section \<open>Passwords\<close>

definition DASHBOARD_PASSWORD_MIN_CODE_POINTS :: nat where "DASHBOARD_PASSWORD_MIN_CODE_POINTS = 15"
definition DASHBOARD_PASSWORD_MAX_CODE_POINTS :: nat where "DASHBOARD_PASSWORD_MAX_CODE_POINTS = 128"
definition MAX_KDF_QUEUE :: nat where "MAX_KDF_QUEUE = 8"
definition MAX_SESSIONS :: nat where "MAX_SESSIONS = 128"
definition MAX_RATE_BUCKETS :: nat where "MAX_RATE_BUCKETS = 1024"
definition RATE_WINDOW_MS :: int where "RATE_WINDOW_MS = 5 * 60 * 1000"
definition PEER_FAILURE_LIMIT :: nat where "PEER_FAILURE_LIMIT = 5"
definition GLOBAL_FAILURE_LIMIT :: nat where "GLOBAL_FAILURE_LIMIT = 20"

lemmas auth_limits = DASHBOARD_PASSWORD_MIN_CODE_POINTS_def DASHBOARD_PASSWORD_MAX_CODE_POINTS_def
  MAX_KDF_QUEUE_def MAX_SESSIONS_def MAX_RATE_BUCKETS_def RATE_WINDOW_MS_def PEER_FAILURE_LIMIT_def
  GLOBAL_FAILURE_LIMIT_def

definition BLOCKED_PASSWORDS :: "string list" where
  "BLOCKED_PASSWORDS = [''123456789012345'', ''correcthorsebatterystaple'', ''letmeinletmeinletmein'',
     ''passwordpassword'', ''qubicladministrator'', ''qubicl-dashboard'', ''qubiclpassword'']"

text \<open>What NFKC normalisation, lower-casing and the removal of everything but \<open>a\<close>-\<open>z\<close> and
  \<open>0\<close>-\<open>9\<close> leave of one character below 256. Beyond ASCII only the ordinal indicators, the
  superscript digits and the fractions have a compatibility form with letters or digits.\<close>

definition comparable_char :: "char \<Rightarrow> string" where
  "comparable_char c = (let n = (of_char c :: nat) in
     if 97 \<le> n \<and> n \<le> 122 \<or> 48 \<le> n \<and> n \<le> 57 then [c]
     else if 65 \<le> n \<and> n \<le> 90 then [char_of (n + 32)]
     else if n = 170 then ''a'' else if n = 186 then ''o''
     else if n = 178 then ''2'' else if n = 179 then ''3'' else if n = 185 then ''1''
     else if n = 188 then ''14'' else if n = 189 then ''12'' else if n = 190 then ''34''
     else [])"

definition comparable_password :: "string \<Rightarrow> string" where
  "comparable_password p = concat (map comparable_char p)"

fun contains_text :: "string \<Rightarrow> string \<Rightarrow> bool" where
  "contains_text [] t = (t = [])"
| "contains_text (c # s) t = (starts_with (c # s) t \<or> contains_text s t)"

datatype password_error = PasswordTooShort | PasswordTooLong | PasswordCommon

definition validateDashboardPassword :: "string \<Rightarrow> password_error + unit" where
  "validateDashboardPassword p =
     (if length p < DASHBOARD_PASSWORD_MIN_CODE_POINTS then Inl PasswordTooShort
      else if length p > DASHBOARD_PASSWORD_MAX_CODE_POINTS then Inl PasswordTooLong
      else if comparable_password p \<in> set BLOCKED_PASSWORDS
           \<or> contains_text (comparable_password p) ''qubiclpassword'' then Inl PasswordCommon
      else Inr ())"

section \<open>The queue of derivations\<close>

text \<open>\<open>SingleKdfQueue\<close>; a piece of work is a number.\<close>

record kdf_queue =
  kdf_active :: "nat option"
  kdf_pending :: "nat list"

datatype dashboard_error = DashboardAuthError (dash_code: string) (dash_status: nat)
  (dash_retryAfterSeconds: "int option")

definition kdf_drain :: "kdf_queue \<Rightarrow> kdf_queue" where
  "kdf_drain q = (if kdf_active q \<noteq> None then q
     else (case kdf_pending q of [] \<Rightarrow> q
       | w # ws \<Rightarrow> q\<lparr>kdf_active := Some w, kdf_pending := ws\<rparr>))"

definition kdf_schedule :: "nat \<Rightarrow> kdf_queue \<Rightarrow> kdf_queue \<times> (dashboard_error + unit)" where
  "kdf_schedule w q =
     (if length (kdf_pending q) \<ge> MAX_KDF_QUEUE
      then (q, Inl (DashboardAuthError ''server_busy'' 503 (Some 1)))
      else (kdf_drain (q\<lparr>kdf_pending := kdf_pending q @ [w]\<rparr>), Inr ()))"

definition kdf_finished :: "kdf_queue \<Rightarrow> kdf_queue" where
  "kdf_finished q = (if kdf_active q = None then q else kdf_drain (q\<lparr>kdf_active := None\<rparr>))"

datatype kdf_event = KdfSchedule nat | KdfFinished

fun kdf_step :: "kdf_event \<Rightarrow> kdf_queue \<Rightarrow> kdf_queue" where
  "kdf_step (KdfSchedule w) q = fst (kdf_schedule w q)"
| "kdf_step KdfFinished q = kdf_finished q"

definition kdf_empty :: kdf_queue where
  "kdf_empty = \<lparr>kdf_active = None, kdf_pending = []\<rparr>"

section \<open>Sessions and rate buckets\<close>

record password_verifier =
  v_salt :: string
  v_hash :: string

record session_record =
  sr_id :: string
  sr_tokenHash :: string
  sr_csrfToken :: string
  sr_createdAt :: int
  sr_lastActivityAt :: int
  sr_absoluteExpiresAt :: int
  sr_reauthenticatedUntil :: "int option"

record rate_bucket =
  rb_failures :: nat
  rb_resetsAt :: int

record session_view =
  sv_id :: string
  sv_createdAt :: int
  sv_lastActivityAt :: int
  sv_idleExpiresAt :: int
  sv_absoluteExpiresAt :: int
  sv_reauthenticatedUntil :: "int option"

record authenticated_session =
  as_actorId :: string
  as_csrfToken :: string
  as_reauthenticated :: bool
  as_view :: session_view

record dashboard_auth =
  sessionsByHash :: "(string, session_record) js_map"
  peerFailures :: "(string, rate_bucket) js_map"
  globalFailures :: rate_bucket
  da_verifier :: "password_verifier option"
  authorizationGeneration :: nat
  da_idleMs :: int
  da_absoluteMs :: int
  da_reauthenticationMs :: int

definition new_dashboard_auth :: "password_verifier option \<Rightarrow> int \<Rightarrow> int \<Rightarrow> int \<Rightarrow> dashboard_auth" where
  "new_dashboard_auth v idle absolute reauth =
     \<lparr>sessionsByHash = [], peerFailures = [], globalFailures = \<lparr>rb_failures = 0, rb_resetsAt = 0\<rparr>,
      da_verifier = v, authorizationGeneration = 0, da_idleMs = idle, da_absoluteMs = absolute,
      da_reauthenticationMs = reauth\<rparr>"

definition session_expired :: "dashboard_auth \<Rightarrow> session_record \<Rightarrow> int \<Rightarrow> bool" where
  "session_expired a r now =
     (now \<ge> sr_absoluteExpiresAt r \<or> now - sr_lastActivityAt r \<ge> da_idleMs a)"

definition sessionView :: "session_record \<Rightarrow> int \<Rightarrow> session_view" where
  "sessionView r idleMs =
     \<lparr>sv_id = sr_id r, sv_createdAt = sr_createdAt r, sv_lastActivityAt = sr_lastActivityAt r,
      sv_idleExpiresAt = min (sr_lastActivityAt r + idleMs) (sr_absoluteExpiresAt r),
      sv_absoluteExpiresAt = sr_absoluteExpiresAt r,
      sv_reauthenticatedUntil =
        (case sr_reauthenticatedUntil r of None \<Rightarrow> None | Some t \<Rightarrow> if t = 0 then None else Some t)\<rparr>"

definition toAuthenticated :: "dashboard_auth \<Rightarrow> session_record \<Rightarrow> int \<Rightarrow> authenticated_session" where
  "toAuthenticated a r now =
     \<lparr>as_actorId = sr_id r, as_csrfToken = sr_csrfToken r,
      as_reauthenticated = ((case sr_reauthenticatedUntil r of None \<Rightarrow> 0 | Some t \<Rightarrow> t) > now),
      as_view = sessionView r (da_idleMs a)\<rparr>"

definition activeBucket :: "rate_bucket option \<Rightarrow> int \<Rightarrow> rate_bucket" where
  "activeBucket b now = (case b of
       None \<Rightarrow> \<lparr>rb_failures = 0, rb_resetsAt = now + RATE_WINDOW_MS\<rparr>
     | Some b \<Rightarrow> if rb_resetsAt b \<le> now
                 then \<lparr>rb_failures = 0, rb_resetsAt = now + RATE_WINDOW_MS\<rparr> else b)"

definition auth_prune :: "int \<Rightarrow> dashboard_auth \<Rightarrow> dashboard_auth" where
  "auth_prune now a =
     a\<lparr>sessionsByHash := filter (\<lambda>(h, r). \<not> session_expired a r now) (sessionsByHash a),
       peerFailures := filter (\<lambda>(p, b). \<not> rb_resetsAt b \<le> now) (peerFailures a),
       globalFailures := (if rb_resetsAt (globalFailures a) \<le> now
          then \<lparr>rb_failures = 0, rb_resetsAt = now + RATE_WINDOW_MS\<rparr> else globalFailures a)\<rparr>"

definition ceil_seconds :: "int \<Rightarrow> int" where
  "ceil_seconds ms = (ms + 999) div 1000"

definition assertAttemptAllowed :: "string \<Rightarrow> int \<Rightarrow> dashboard_auth \<Rightarrow> dashboard_auth \<times> (dashboard_error + unit)"
where
  "assertAttemptAllowed peer now a0 =
     (let a = auth_prune now a0; peerBucket = map_of (peerFailures a) peer
      in if (case peerBucket of None \<Rightarrow> 0 | Some b \<Rightarrow> rb_failures b) \<ge> PEER_FAILURE_LIMIT
            \<or> rb_failures (globalFailures a) \<ge> GLOBAL_FAILURE_LIMIT
         then (a, Inl (DashboardAuthError ''rate_limited'' 429 (Some
                (max 1 (ceil_seconds
                  (max (case peerBucket of None \<Rightarrow> now | Some b \<Rightarrow> rb_resetsAt b)
                     (rb_resetsAt (globalFailures a)) - now))))))
         else (a, Inr ()))"

text \<open>\<open>if (oldest) delete\<close>: an empty key, which is falsy, is not removed.\<close>

fun drop_oldest :: "(string, 'v) js_map \<Rightarrow> (string, 'v) js_map" where
  "drop_oldest [] = []"
| "drop_oldest ((k, v) # m) = (if k = [] then (k, v) # m else m)"

definition recordFailure :: "string \<Rightarrow> int \<Rightarrow> dashboard_auth \<Rightarrow> dashboard_auth" where
  "recordFailure peer now a =
     (let m = (if map_of (peerFailures a) peer = None \<and> length (peerFailures a) \<ge> MAX_RATE_BUCKETS
               then drop_oldest (peerFailures a) else peerFailures a);
          b = activeBucket (map_of m peer) now;
          g = activeBucket (Some (globalFailures a)) now
      in a\<lparr>peerFailures := AList.update peer (b\<lparr>rb_failures := rb_failures b + 1\<rparr>) m,
           globalFailures := g\<lparr>rb_failures := rb_failures g + 1\<rparr>\<rparr>)"

definition clearPeerFailures :: "string \<Rightarrow> dashboard_auth \<Rightarrow> dashboard_auth" where
  "clearPeerFailures peer a = a\<lparr>peerFailures := AList.delete peer (peerFailures a)\<rparr>"

section \<open>Changing the verifier\<close>

definition revokeAll :: "dashboard_auth \<Rightarrow> dashboard_auth" where
  "revokeAll a = a\<lparr>authorizationGeneration := authorizationGeneration a + 1, sessionsByHash := []\<rparr>"

definition replacePasswordVerifier :: "password_verifier \<Rightarrow> dashboard_auth \<Rightarrow> dashboard_auth" where
  "replacePasswordVerifier v a = revokeAll (a\<lparr>da_verifier := Some v\<rparr>)"

definition refreshPasswordVerifier :: "password_verifier \<Rightarrow> dashboard_auth \<Rightarrow> dashboard_auth \<times> bool" where
  "refreshPasswordVerifier v a =
     (if da_verifier a = Some v then (a, False)
      else (revokeAll (a\<lparr>da_verifier := Some v\<rparr>), True))"

definition removePasswordVerifier :: "dashboard_auth \<Rightarrow> dashboard_auth" where
  "removePasswordVerifier a = revokeAll (a\<lparr>da_verifier := None\<rparr>)"

section \<open>Signing in\<close>

text \<open>What \<open>login\<close> and \<open>reauthenticate\<close> hold while the password is verified.\<close>

record pending_attempt =
  pa_peer :: string
  pa_now :: int
  pa_verifier :: password_verifier
  pa_generation :: nat
  pa_session :: "(string \<times> string) option" \<comment> \<open>token hash and identity of the record\<close>

text \<open>The outcome of the verification: the password is not text or too long, the derivation queue
  is full, or the derived key was compared at the given time.\<close>

datatype attempt_outcome = AttemptMalformed | AttemptBusy dashboard_error | AttemptChecked bool int

definition verifyDashboardPassword ::
  "(string \<Rightarrow> string \<Rightarrow> string) \<Rightarrow> string \<Rightarrow> password_verifier \<Rightarrow> bool"
where
  "verifyDashboardPassword derive password v =
     (length password \<le> DASHBOARD_PASSWORD_MAX_CODE_POINTS \<and> derive password (v_salt v) = v_hash v)"

definition verifyAttempt ::
  "attempt_outcome \<Rightarrow> string \<Rightarrow> int \<Rightarrow> dashboard_auth \<Rightarrow> dashboard_auth \<times> (dashboard_error + bool)"
where
  "verifyAttempt outcome peer now a = (case outcome of
       AttemptMalformed \<Rightarrow> (recordFailure peer now a, Inr False)
     | AttemptBusy e \<Rightarrow> (a, Inl e)
     | AttemptChecked ok at \<Rightarrow> (if ok then a else recordFailure peer at a, Inr ok))"

definition invalid_credentials :: dashboard_error where
  "invalid_credentials = DashboardAuthError ''invalid_credentials'' 401 None"

definition login_begin ::
  "string \<Rightarrow> int \<Rightarrow> dashboard_auth \<Rightarrow> dashboard_auth \<times> (dashboard_error + pending_attempt)"
where
  "login_begin peer now a0 =
     (case assertAttemptAllowed peer now a0 of
        (a, Inl e) \<Rightarrow> (a, Inl e)
      | (a, Inr _) \<Rightarrow>
          (case da_verifier a of
             None \<Rightarrow> (a, Inl (DashboardAuthError ''password_unavailable'' 503 None))
           | Some v \<Rightarrow> (a, Inr \<lparr>pa_peer = peer, pa_now = now, pa_verifier = v,
                pa_generation = authorizationGeneration a, pa_session = None\<rparr>)))"

definition login_end ::
  "(string \<Rightarrow> string) \<Rightarrow> string \<Rightarrow> string \<Rightarrow> string \<Rightarrow> pending_attempt \<Rightarrow> attempt_outcome
     \<Rightarrow> dashboard_auth \<Rightarrow> dashboard_auth \<times> (dashboard_error + string \<times> authenticated_session)"
where
  "login_end th token sid csrf pa outcome a0 =
     (case verifyAttempt outcome (pa_peer pa) (pa_now pa) a0 of
        (a, Inl e) \<Rightarrow> (a, Inl e)
      | (a, Inr ok) \<Rightarrow>
          if \<not> ok then (a, Inl invalid_credentials)
          else if pa_generation pa \<noteq> authorizationGeneration a \<or> da_verifier a \<noteq> Some (pa_verifier pa)
          then (a, Inl invalid_credentials)
          else
            (let a1 = auth_prune (pa_now pa) (clearPeerFailures (pa_peer pa) a)
             in if length (sessionsByHash a1) \<ge> MAX_SESSIONS
                then (a1, Inl (DashboardAuthError ''server_busy'' 503 None))
                else
                  (let r = \<lparr>sr_id = sid, sr_tokenHash = th token, sr_csrfToken = csrf,
                            sr_createdAt = pa_now pa, sr_lastActivityAt = pa_now pa,
                            sr_absoluteExpiresAt = pa_now pa + da_absoluteMs a1,
                            sr_reauthenticatedUntil = None\<rparr>
                   in (a1\<lparr>sessionsByHash := AList.update (th token) r (sessionsByHash a1)\<rparr>,
                       Inr (token, toAuthenticated a1 r (pa_now pa))))))"

section \<open>Using a session\<close>

definition activeRecord ::
  "(string \<Rightarrow> string) \<Rightarrow> string \<Rightarrow> int \<Rightarrow> dashboard_auth \<Rightarrow> dashboard_auth \<times> session_record option"
where
  "activeRecord th token now a =
     (case map_of (sessionsByHash a) (th token) of
        None \<Rightarrow> (a, None)
      | Some r \<Rightarrow>
          if session_expired a r now
          then (a\<lparr>sessionsByHash := AList.delete (th token) (sessionsByHash a)\<rparr>, None)
          else (a, Some r))"

definition authenticate ::
  "(string \<Rightarrow> string) \<Rightarrow> string option \<Rightarrow> int \<Rightarrow> dashboard_auth \<Rightarrow> dashboard_auth \<times> authenticated_session option"
where
  "authenticate th token now a =
     (case token of
        None \<Rightarrow> (a, None)
      | Some t \<Rightarrow>
          if t = [] then (a, None)
          else (case activeRecord th t now a of
              (a', None) \<Rightarrow> (a', None)
            | (a', Some r) \<Rightarrow> (a', Some (toAuthenticated a' r now))))"

definition hasValidCsrf ::
  "(string \<Rightarrow> string) \<Rightarrow> string \<Rightarrow> string option \<Rightarrow> int \<Rightarrow> dashboard_auth \<Rightarrow> dashboard_auth \<times> bool"
where
  "hasValidCsrf th token supplied now a =
     (case supplied of
        None \<Rightarrow> (a, False)
      | Some s \<Rightarrow>
          if s = [] then (a, False)
          else (case activeRecord th token now a of
              (a', None) \<Rightarrow> (a', False)
            | (a', Some r) \<Rightarrow> (a', sr_csrfToken r = s)))"

definition recordActivity ::
  "(string \<Rightarrow> string) \<Rightarrow> string \<Rightarrow> int \<Rightarrow> int \<Rightarrow> dashboard_auth \<Rightarrow> dashboard_auth \<times> authenticated_session option"
where
  "recordActivity th token now1 now2 a =
     (case activeRecord th token now1 a of
        (a', None) \<Rightarrow> (a', None)
      | (a', Some r) \<Rightarrow>
          (let r' = r\<lparr>sr_lastActivityAt := now2\<rparr>
           in (a'\<lparr>sessionsByHash := AList.update (th token) r' (sessionsByHash a')\<rparr>,
               Some (toAuthenticated a' r' now2))))"

definition reauthenticate_begin ::
  "(string \<Rightarrow> string) \<Rightarrow> string \<Rightarrow> string \<Rightarrow> int \<Rightarrow> int \<Rightarrow> dashboard_auth
     \<Rightarrow> dashboard_auth \<times> (dashboard_error + pending_attempt)"
where
  "reauthenticate_begin th token peer now1 now a0 =
     (case activeRecord th token now1 a0 of
        (a, None) \<Rightarrow> (a, Inl invalid_credentials)
      | (a, Some r) \<Rightarrow>
          (case assertAttemptAllowed peer now a of
             (b, Inl e) \<Rightarrow> (b, Inl e)
           | (b, Inr _) \<Rightarrow>
               (case da_verifier b of
                  None \<Rightarrow> (b, Inl invalid_credentials)
                | Some v \<Rightarrow> (b, Inr \<lparr>pa_peer = peer, pa_now = now, pa_verifier = v,
                     pa_generation = authorizationGeneration b,
                     pa_session = Some (sr_tokenHash r, sr_id r)\<rparr>))))"

definition reauthenticate_end ::
  "(string \<Rightarrow> string) \<Rightarrow> string \<Rightarrow> string \<Rightarrow> pending_attempt \<Rightarrow> attempt_outcome
     \<Rightarrow> dashboard_auth \<Rightarrow> dashboard_auth \<times> (dashboard_error + string \<times> authenticated_session)"
where
  "reauthenticate_end th rotated csrf pa outcome a0 =
     (case verifyAttempt outcome (pa_peer pa) (pa_now pa) a0 of
        (a, Inl e) \<Rightarrow> (a, Inl e)
      | (a, Inr ok) \<Rightarrow>
          if \<not> ok then (a, Inl invalid_credentials)
          else (case pa_session pa of
              None \<Rightarrow> (a, Inl invalid_credentials)
            | Some (h, i) \<Rightarrow>
                (case map_of (sessionsByHash a) h of
                   None \<Rightarrow> (a, Inl invalid_credentials)
                 | Some r \<Rightarrow>
                     if pa_generation pa \<noteq> authorizationGeneration a
                        \<or> da_verifier a \<noteq> Some (pa_verifier pa)
                        \<or> sr_id r \<noteq> i \<or> sr_tokenHash r \<noteq> h
                     then (a, Inl invalid_credentials)
                     else
                       (let a1 = clearPeerFailures (pa_peer pa) a;
                            m = AList.delete h (sessionsByHash a1);
                            r' = r\<lparr>sr_tokenHash := th rotated, sr_csrfToken := csrf,
                                   sr_lastActivityAt := pa_now pa,
                                   sr_reauthenticatedUntil := Some (min (pa_now pa + da_reauthenticationMs a1)
                                     (sr_absoluteExpiresAt r))\<rparr>
                        in (a1\<lparr>sessionsByHash := AList.update (th rotated) r' m\<rparr>,
                            Inr (rotated, toAuthenticated a1 r' (pa_now pa)))))))"

definition logout :: "(string \<Rightarrow> string) \<Rightarrow> string \<Rightarrow> dashboard_auth \<Rightarrow> dashboard_auth \<times> bool" where
  "logout th token a =
     (a\<lparr>sessionsByHash := AList.delete (th token) (sessionsByHash a)\<rparr>,
      map_of (sessionsByHash a) (th token) \<noteq> None)"

definition revoke_session :: "string \<Rightarrow> int \<Rightarrow> dashboard_auth \<Rightarrow> dashboard_auth \<times> bool" where
  "revoke_session sid now a0 =
     (let a = auth_prune now a0
      in (case List.find (\<lambda>(h, r). sr_id r = sid) (sessionsByHash a) of
            None \<Rightarrow> (a, False)
          | Some (h, r) \<Rightarrow> (a\<lparr>sessionsByHash := AList.delete h (sessionsByHash a)\<rparr>, True)))"

definition list_sessions :: "int \<Rightarrow> dashboard_auth \<Rightarrow> dashboard_auth \<times> session_view list" where
  "list_sessions now a0 =
     (let a = auth_prune now a0
      in (a, sort_key (\<lambda>v. - sv_lastActivityAt v)
               (map (\<lambda>(h, r). sessionView r (da_idleMs a)) (sessionsByHash a))))"

section \<open>The manager as a state machine\<close>

datatype auth_event =
    LoginBegin string int
  | LoginEnd string string string pending_attempt attempt_outcome
  | Authenticate "string option" int
  | HasValidCsrf string "string option" int
  | RecordActivity string int int
  | ReauthenticateBegin string string int int
  | ReauthenticateEnd string string pending_attempt attempt_outcome
  | Logout string
  | RevokeSession string int
  | RevokeAll
  | ListSessions int
  | ReplaceVerifier password_verifier
  | RefreshVerifier password_verifier
  | RemoveVerifier

fun auth_step :: "(string \<Rightarrow> string) \<Rightarrow> auth_event \<Rightarrow> dashboard_auth \<Rightarrow> dashboard_auth" where
  "auth_step th (LoginBegin peer now) a = fst (login_begin peer now a)"
| "auth_step th (LoginEnd token sid csrf pa out) a = fst (login_end th token sid csrf pa out a)"
| "auth_step th (Authenticate token now) a = fst (authenticate th token now a)"
| "auth_step th (HasValidCsrf token s now) a = fst (hasValidCsrf th token s now a)"
| "auth_step th (RecordActivity token now1 now2) a = fst (recordActivity th token now1 now2 a)"
| "auth_step th (ReauthenticateBegin token peer now1 now) a =
     fst (reauthenticate_begin th token peer now1 now a)"
| "auth_step th (ReauthenticateEnd token csrf pa out) a = fst (reauthenticate_end th token csrf pa out a)"
| "auth_step th (Logout token) a = fst (logout th token a)"
| "auth_step th (RevokeSession sid now) a = fst (revoke_session sid now a)"
| "auth_step th RevokeAll a = revokeAll a"
| "auth_step th (ListSessions now) a = fst (list_sessions now a)"
| "auth_step th (ReplaceVerifier v) a = replacePasswordVerifier v a"
| "auth_step th (RefreshVerifier v) a = fst (refreshPasswordVerifier v a)"
| "auth_step th RemoveVerifier a = removePasswordVerifier a"

text \<open>The peer is the remote address or a placeholder and never empty.\<close>

fun event_peer :: "auth_event \<Rightarrow> string option" where
  "event_peer (LoginBegin peer now) = Some peer"
| "event_peer (LoginEnd token sid csrf pa out) = Some (pa_peer pa)"
| "event_peer (ReauthenticateBegin token peer now1 now) = Some peer"
| "event_peer (ReauthenticateEnd token csrf pa out) = Some (pa_peer pa)"
| "event_peer _ = None"

inductive auth_reachable :: "(string \<Rightarrow> string) \<Rightarrow> dashboard_auth \<Rightarrow> bool" for th where
  auth_start: "auth_reachable th (new_dashboard_auth v idle absolute reauth)"
| auth_next: "auth_reachable th a \<Longrightarrow> event_peer e \<noteq> Some [] \<Longrightarrow> auth_reachable th (auth_step th e a)"

section \<open>Invariant\<close>

definition session_ok :: "int \<Rightarrow> string \<times> session_record \<Rightarrow> bool" where
  "session_ok absolute e = (case e of (h, r) \<Rightarrow> sr_tokenHash r = h
     \<and> sr_absoluteExpiresAt r = sr_createdAt r + absolute
     \<and> (case sr_reauthenticatedUntil r of None \<Rightarrow> True | Some t \<Rightarrow> t \<le> sr_absoluteExpiresAt r))"

definition sessions_ok :: "dashboard_auth \<Rightarrow> bool" where
  "sessions_ok a = (list_all (session_ok (da_absoluteMs a)) (sessionsByHash a)
     \<and> distinct (map fst (sessionsByHash a)) \<and> length (sessionsByHash a) \<le> MAX_SESSIONS)"

definition buckets_ok :: "dashboard_auth \<Rightarrow> bool" where
  "buckets_ok a = ([] \<notin> fst ` set (peerFailures a) \<and> length (peerFailures a) \<le> MAX_RATE_BUCKETS
     \<and> distinct (map fst (peerFailures a)))"

lemma delete_set_subset: "set (AList.delete k m) \<subseteq> set m"
  by (auto simp: AList.delete_eq)

lemma delete_length_le: "length (AList.delete k m) \<le> length m"
  by (simp add: AList.delete_eq)

lemma delete_length_less: "map_of m k = Some v \<Longrightarrow> length (AList.delete k m) < length m"
  by (induction m) (auto simp: AList.delete_eq less_Suc_eq_le)

lemma update_set_subset: "set (AList.update k v m) \<subseteq> insert (k, v) (set m)"
  by (induction m) auto

lemma distinct_fst_filter: "distinct (map fst m) \<Longrightarrow> distinct (map fst (filter P m))"
  by (simp add: distinct_map_filter)

lemma sessions_ok_shrink:
  assumes "sessions_ok a" and "set (sessionsByHash a') \<subseteq> set (sessionsByHash a)"
    and "distinct (map fst (sessionsByHash a'))" and "length (sessionsByHash a') \<le> length (sessionsByHash a)"
    and "da_absoluteMs a' = da_absoluteMs a"
  shows "sessions_ok a'"
  using assms by (auto simp: sessions_ok_def list_all_iff)

lemma sessions_ok_prune [inv_intros]: "sessions_ok a \<Longrightarrow> sessions_ok (auth_prune now a)"
  by (rule sessions_ok_shrink) (auto simp: auth_prune_def sessions_ok_def distinct_fst_filter)

lemma sessions_ok_delete [inv_intros]:
  "sessions_ok a \<Longrightarrow> sessions_ok (a\<lparr>sessionsByHash := AList.delete h (sessionsByHash a)\<rparr>)"
  by (rule sessions_ok_shrink)
    (auto simp: sessions_ok_def delete_length_le distinct_delete dest: subsetD [OF delete_set_subset])

lemma sessions_ok_update:
  assumes "sessions_ok a" and "session_ok (da_absoluteMs a) (h, r)"
    and "map_of (sessionsByHash a) h \<noteq> None \<or> length (sessionsByHash a) < MAX_SESSIONS"
  shows "sessions_ok (a\<lparr>sessionsByHash := AList.update h r (sessionsByHash a)\<rparr>)"
proof -
  have "length (AList.update h r (sessionsByHash a)) \<le> MAX_SESSIONS"
  proof (cases "map_of (sessionsByHash a) h = None")
    case True
    with assms(3) show ?thesis
      using update_length_le [of h r "sessionsByHash a"] by simp
  next
    case False
    then have "h \<in> fst ` set (sessionsByHash a)" by (simp add: map_of_eq_None_iff)
    with assms(1) show ?thesis by (simp add: update_length_mem sessions_ok_def)
  qed
  then show ?thesis
    using assms(1,2) update_set_subset [of h r "sessionsByHash a"]
    by (auto simp: sessions_ok_def list_all_iff distinct_update)
qed

lemma sessions_ok_other [simp]:
  "sessions_ok (a\<lparr>peerFailures := x\<rparr>) = sessions_ok a"
  "sessions_ok (a\<lparr>peerFailures := x, globalFailures := y\<rparr>) = sessions_ok a"
  "sessions_ok (a\<lparr>da_verifier := v\<rparr>) = sessions_ok a"
  by (simp_all add: sessions_ok_def)

lemma sessions_ok_lookup:
  "sessions_ok a \<Longrightarrow> map_of (sessionsByHash a) h = Some r \<Longrightarrow> session_ok (da_absoluteMs a) (h, r)"
  by (auto simp: sessions_ok_def list_all_iff dest: map_of_SomeD)

section \<open>What the parts keep\<close>

lemma prune_frame [simp]:
  "da_verifier (auth_prune now a) = da_verifier a" "da_absoluteMs (auth_prune now a) = da_absoluteMs a"
  "da_idleMs (auth_prune now a) = da_idleMs a"
  "authorizationGeneration (auth_prune now a) = authorizationGeneration a"
  "sessionsByHash (auth_prune now a) = filter (\<lambda>(h, r). \<not> session_expired a r now) (sessionsByHash a)"
  by (simp_all add: auth_prune_def)

lemma recordFailure_frame [simp]:
  "da_verifier (recordFailure p now a) = da_verifier a" "da_absoluteMs (recordFailure p now a) = da_absoluteMs a"
  "da_idleMs (recordFailure p now a) = da_idleMs a"
  "authorizationGeneration (recordFailure p now a) = authorizationGeneration a"
  "sessionsByHash (recordFailure p now a) = sessionsByHash a"
  "sessions_ok (recordFailure p now a) = sessions_ok a"
  by (simp_all add: recordFailure_def Let_def)

lemma clearPeerFailures_frame [simp]:
  "da_verifier (clearPeerFailures p a) = da_verifier a" "da_absoluteMs (clearPeerFailures p a) = da_absoluteMs a"
  "da_idleMs (clearPeerFailures p a) = da_idleMs a"
  "da_reauthenticationMs (clearPeerFailures p a) = da_reauthenticationMs a"
  "authorizationGeneration (clearPeerFailures p a) = authorizationGeneration a"
  "sessionsByHash (clearPeerFailures p a) = sessionsByHash a"
  "sessions_ok (clearPeerFailures p a) = sessions_ok a"
  by (simp_all add: clearPeerFailures_def)

lemma fst_assertAttemptAllowed [simp]: "fst (assertAttemptAllowed p now a) = auth_prune now a"
  by (simp add: assertAttemptAllowed_def Let_def)

lemma assertAttemptAllowed_eq: "assertAttemptAllowed p now a = (b, r) \<Longrightarrow> b = auth_prune now a"
  using fst_assertAttemptAllowed [of p now a] by (simp del: fst_assertAttemptAllowed)

lemma fst_login_begin [simp]: "fst (login_begin p now a) = auth_prune now a"
  by (auto simp: login_begin_def dest!: assertAttemptAllowed_eq split: prod.splits sum.splits option.splits)

lemma verifyAttempt_cases:
  assumes "verifyAttempt out p now a = (b, r)"
  obtains "b = a" | t where "b = recordFailure p t a"
  using assms by (cases out) (auto simp: verifyAttempt_def split: if_splits)

lemma activeRecord_cases:
  obtains (absent) "activeRecord th t now a = (a, None)" "map_of (sessionsByHash a) (th t) = None"
  | (dead) r where "activeRecord th t now a = (a\<lparr>sessionsByHash := AList.delete (th t) (sessionsByHash a)\<rparr>, None)"
      "map_of (sessionsByHash a) (th t) = Some r" "session_expired a r now"
  | (alive) r where "activeRecord th t now a = (a, Some r)" "map_of (sessionsByHash a) (th t) = Some r"
      "\<not> session_expired a r now"
proof (cases "map_of (sessionsByHash a) (th t)")
  case None
  then show ?thesis by (intro absent) (simp_all add: activeRecord_def)
next
  case (Some r)
  then show ?thesis
    using dead [of r] alive [of r] by (cases "session_expired a r now") (simp_all add: activeRecord_def)
qed

lemma verifyAttempt_sessions:
  assumes "verifyAttempt out p now a = (b, r)"
  shows "sessions_ok b = sessions_ok a \<and> sessionsByHash b = sessionsByHash a
    \<and> da_absoluteMs b = da_absoluteMs a \<and> authorizationGeneration b = authorizationGeneration a
    \<and> da_verifier b = da_verifier a \<and> da_idleMs b = da_idleMs a"
  using assms by (rule verifyAttempt_cases) auto

lemma sessions_ok_activeRecord:
  "sessions_ok a \<Longrightarrow> activeRecord th t now a = (b, r) \<Longrightarrow> sessions_ok b"
  by (rule activeRecord_cases [of th t now a]) (auto intro: sessions_ok_delete)

lemma sessions_ok_login_end:
  assumes "sessions_ok a"
  shows "sessions_ok (fst (login_end th token sid csrf pa out a))"
proof -
  obtain b r where v: "verifyAttempt out (pa_peer pa) (pa_now pa) a = (b, r)" by fastforce
  then have b: "sessions_ok b" using assms verifyAttempt_sessions by blast
  let ?c = "auth_prune (pa_now pa) (clearPeerFailures (pa_peer pa) b)"
  from b have c: "sessions_ok ?c" by (simp add: sessions_ok_prune)
  have "session_ok (da_absoluteMs b) (h, \<lparr>sr_id = i, sr_tokenHash = h, sr_csrfToken = x, sr_createdAt = n,
     sr_lastActivityAt = n, sr_absoluteExpiresAt = n + da_absoluteMs b, sr_reauthenticatedUntil = None\<rparr>)"
    for h i x n by (simp add: session_ok_def)
  then show ?thesis
    using b c v sessions_ok_update [OF c, of "th token", simplified]
    by (auto simp: login_end_def Let_def split: sum.split)
qed

lemma sessions_ok_rotate:
  assumes ok: "sessions_ok a" and m: "map_of (sessionsByHash a) h = Some r"
    and r': "session_ok (da_absoluteMs a) (h', r')"
  shows "sessions_ok (a\<lparr>sessionsByHash := AList.update h' r' (AList.delete h (sessionsByHash a))\<rparr>)"
proof -
  let ?b = "a\<lparr>sessionsByHash := AList.delete h (sessionsByHash a)\<rparr>"
  have "length (sessionsByHash ?b) < MAX_SESSIONS"
    using delete_length_less [OF m] ok by (simp add: sessions_ok_def)
  then have "sessions_ok (?b\<lparr>sessionsByHash := AList.update h' r' (sessionsByHash ?b)\<rparr>)"
    using r' sessions_ok_delete [OF ok] by (intro sessions_ok_update) auto
  then show ?thesis by simp
qed

lemma sessions_ok_reauthenticate_end:
  assumes "sessions_ok a"
  shows "sessions_ok (fst (reauthenticate_end th token csrf pa out a))"
proof -
  obtain b r where v: "verifyAttempt out (pa_peer pa) (pa_now pa) a = (b, r)" by fastforce
  then have b: "sessions_ok b" using assms verifyAttempt_sessions by blast
  let ?c = "clearPeerFailures (pa_peer pa) b"
  from b have c: "sessions_ok ?c" by simp
  have *: "session_ok (da_absoluteMs b) (h', r\<lparr>sr_tokenHash := h', sr_csrfToken := x, sr_lastActivityAt := n,
       sr_reauthenticatedUntil := Some (min y (sr_absoluteExpiresAt r))\<rparr>)"
    if "map_of (sessionsByHash b) h = Some r" for h r h' x n y
    using sessions_ok_lookup [OF b that] by (simp add: session_ok_def)
  show ?thesis
    using b v sessions_ok_rotate [OF c, simplified] *
    by (auto simp: reauthenticate_end_def Let_def split: sum.split option.split)
qed

lemma sessions_ok_recordActivity:
  assumes "sessions_ok a"
  shows "sessions_ok (fst (recordActivity th t n1 n2 a))"
proof (rule activeRecord_cases [of th t n1 a])
  fix r assume r: "activeRecord th t n1 a = (a, Some r)" "map_of (sessionsByHash a) (th t) = Some r"
  have "session_ok (da_absoluteMs a) (th t, r\<lparr>sr_lastActivityAt := n2\<rparr>)"
    using sessions_ok_lookup [OF assms r(2)] by (auto simp: session_ok_def split: option.splits)
  then show ?thesis using r assms by (simp add: recordActivity_def Let_def sessions_ok_update)
qed (use assms in \<open>auto simp: recordActivity_def intro: sessions_ok_delete\<close>)

lemma sessions_ok_revokeAll [simp]: "sessions_ok (revokeAll a)"
  by (simp add: revokeAll_def sessions_ok_def)

lemma reauthenticate_begin_state:
  "\<exists>b. fst (reauthenticate_begin th t p n1 n a) = b
    \<and> (b = fst (activeRecord th t n1 a) \<or> b = auth_prune n (fst (activeRecord th t n1 a)))"
  by (rule activeRecord_cases [of th t n1 a])
    (auto simp: reauthenticate_begin_def dest!: assertAttemptAllowed_eq
      split: prod.splits sum.splits option.splits)

lemma sessions_ok_step: "sessions_ok a \<Longrightarrow> sessions_ok (auth_step th e a)"
proof (cases e)
  case (Authenticate token now)
  assume "sessions_ok a"
  then show ?thesis unfolding Authenticate
    by (auto simp: authenticate_def split: option.split prod.split dest: sessions_ok_activeRecord)
next
  case (HasValidCsrf token s now)
  assume "sessions_ok a"
  then show ?thesis unfolding HasValidCsrf
    by (auto simp: hasValidCsrf_def split: option.split prod.split dest: sessions_ok_activeRecord)
next
  case (ReauthenticateBegin t p n1 n)
  assume a: "sessions_ok a"
  obtain b r where "activeRecord th t n1 a = (b, r)" by fastforce
  with a have "sessions_ok b" by (rule sessions_ok_activeRecord)
  with \<open>activeRecord th t n1 a = (b, r)\<close> show ?thesis unfolding ReauthenticateBegin
    using reauthenticate_begin_state [of th t p n1 n a] by (auto intro: sessions_ok_prune)
next
  case (RevokeSession sid now)
  assume "sessions_ok a"
  then show ?thesis unfolding RevokeSession
    by (auto simp: revoke_session_def Let_def intro!: sessions_ok_prune sessions_ok_delete
        simp del: prune_frame split: option.split)
qed (auto simp: sessions_ok_login_end sessions_ok_reauthenticate_end sessions_ok_recordActivity
    sessions_ok_prune sessions_ok_delete logout_def list_sessions_def Let_def
    replacePasswordVerifier_def refreshPasswordVerifier_def removePasswordVerifier_def)

section \<open>Rate buckets\<close>

lemma buckets_ok_prune [inv_intros]: "buckets_ok a \<Longrightarrow> buckets_ok (auth_prune now a)"
  by (auto simp: buckets_ok_def auth_prune_def distinct_fst_filter intro: le_trans [OF length_filter_le])

lemma drop_oldest_tl: "[] \<notin> fst ` set m \<Longrightarrow> drop_oldest m = tl m"
  by (cases m rule: drop_oldest.cases) auto

lemma buckets_ok_recordFailure [inv_intros]:
  assumes a: "buckets_ok a" and p: "p \<noteq> []"
  shows "buckets_ok (recordFailure p now a)"
proof -
  define m where "m = (if map_of (peerFailures a) p = None \<and> length (peerFailures a) \<ge> MAX_RATE_BUCKETS
    then tl (peerFailures a) else peerFailures a)"
  have m: "[] \<notin> fst ` set m"
    using a by (cases "peerFailures a") (auto simp: m_def buckets_ok_def)
  have len: "length (AList.update p b m) \<le> MAX_RATE_BUCKETS" for b
  proof (cases "map_of (peerFailures a) p = None")
    case True
    with a have "length m < MAX_RATE_BUCKETS"
      by (auto simp: m_def buckets_ok_def MAX_RATE_BUCKETS_def)
    then show ?thesis using update_length_le [of p b m] by simp
  next
    case False
    then have "p \<in> fst ` set m" by (simp add: m_def map_of_eq_None_iff)
    with a False show ?thesis by (auto simp: update_length_mem m_def buckets_ok_def)
  qed
  have "[] \<notin> fst ` set (AList.update p b m)" for b
    using m p by (simp add: dom_update)
  moreover have "distinct (map fst (AList.update p b m))" for b
    using a by (auto simp: m_def buckets_ok_def distinct_tl map_tl intro!: distinct_update)
  moreover have "\<exists>b. peerFailures (recordFailure p now a) = AList.update p b m"
    using a by (auto simp: recordFailure_def Let_def drop_oldest_tl m_def buckets_ok_def)
  ultimately show ?thesis
    using len unfolding buckets_ok_def by metis
qed

lemma buckets_ok_clear [inv_intros]: "buckets_ok a \<Longrightarrow> buckets_ok (clearPeerFailures p a)"
  using keys_delete_subset [of p "peerFailures a"]
  by (auto simp: buckets_ok_def clearPeerFailures_def distinct_delete intro: le_trans [OF delete_length_le])

lemma buckets_ok_other [simp]:
  "buckets_ok (a\<lparr>sessionsByHash := x\<rparr>) = buckets_ok a" "buckets_ok (a\<lparr>da_verifier := v\<rparr>) = buckets_ok a"
  "buckets_ok (revokeAll a) = buckets_ok a"
  by (simp_all add: buckets_ok_def revokeAll_def)

lemma buckets_ok_verifyAttempt:
  "buckets_ok a \<Longrightarrow> p \<noteq> [] \<Longrightarrow> verifyAttempt out p now a = (b, r) \<Longrightarrow> buckets_ok b"
  by (erule verifyAttempt_cases) (auto intro: buckets_ok_recordFailure)

lemma buckets_ok_activeRecord: "activeRecord th t now a = (b, r) \<Longrightarrow> buckets_ok b = buckets_ok a"
  by (rule activeRecord_cases [of th t now a]) auto

lemma buckets_ok_sessions:
  "peerFailures b = peerFailures a \<Longrightarrow> buckets_ok b = buckets_ok a"
  by (simp add: buckets_ok_def)

lemma buckets_ok_login_end:
  assumes "buckets_ok a" and "pa_peer pa \<noteq> []"
  shows "buckets_ok (fst (login_end th token sid csrf pa out a))"
proof -
  obtain b r where v: "verifyAttempt out (pa_peer pa) (pa_now pa) a = (b, r)" by fastforce
  with assms have b: "buckets_ok b" by (metis buckets_ok_verifyAttempt)
  then show ?thesis
    using v buckets_ok_prune [OF buckets_ok_clear [OF b]]
    by (auto simp: login_end_def Let_def split: sum.split)
qed

lemma buckets_ok_reauthenticate_end:
  assumes "buckets_ok a" and "pa_peer pa \<noteq> []"
  shows "buckets_ok (fst (reauthenticate_end th token csrf pa out a))"
proof -
  obtain b r where v: "verifyAttempt out (pa_peer pa) (pa_now pa) a = (b, r)" by fastforce
  with assms have b: "buckets_ok b" by (metis buckets_ok_verifyAttempt)
  then show ?thesis
    using v buckets_ok_clear [OF b]
    by (auto simp: reauthenticate_end_def Let_def split: sum.split option.split)
qed

lemma buckets_ok_step:
  "buckets_ok a \<Longrightarrow> event_peer e \<noteq> Some [] \<Longrightarrow> buckets_ok (auth_step th e a)"
proof (cases e)
  case (ReauthenticateBegin t p n1 n)
  assume "buckets_ok a"
  moreover obtain b r where "activeRecord th t n1 a = (b, r)" by fastforce
  ultimately show ?thesis unfolding ReauthenticateBegin
    using reauthenticate_begin_state [of th t p n1 n a] buckets_ok_activeRecord [of th t n1 a b r]
    by (auto intro: buckets_ok_prune)
qed (auto simp: buckets_ok_login_end buckets_ok_reauthenticate_end buckets_ok_prune
    logout_def list_sessions_def revoke_session_def Let_def authenticate_def hasValidCsrf_def
    recordActivity_def replacePasswordVerifier_def refreshPasswordVerifier_def
    removePasswordVerifier_def buckets_ok_activeRecord split: option.split prod.split)

lemma auth_reachable_ok: "auth_reachable th a \<Longrightarrow> sessions_ok a \<and> buckets_ok a"
proof (induction rule: auth_reachable.induct)
  case (auth_start v idle absolute reauth)
  show ?case by (simp add: sessions_ok_def buckets_ok_def new_dashboard_auth_def)
qed (simp add: sessions_ok_step buckets_ok_step)

section \<open>Generations\<close>

lemma activeRecord_generation:
  "activeRecord th t now a = (b, r) \<Longrightarrow> authorizationGeneration b = authorizationGeneration a"
  by (rule activeRecord_cases [of th t now a]) auto

definition attempt_current :: "dashboard_auth \<Rightarrow> pending_attempt \<Rightarrow> bool" where
  "attempt_current a pa = (pa_generation pa = authorizationGeneration a)"

lemma generation_login_end:
  "authorizationGeneration (fst (login_end th token sid csrf pa out a)) = authorizationGeneration a"
proof -
  obtain b r where v: "verifyAttempt out (pa_peer pa) (pa_now pa) a = (b, r)" by fastforce
  then show ?thesis
    using verifyAttempt_sessions [OF v] by (auto simp: login_end_def Let_def split: sum.split)
qed

lemma generation_reauthenticate_end:
  "authorizationGeneration (fst (reauthenticate_end th token csrf pa out a)) = authorizationGeneration a"
proof -
  obtain b r where v: "verifyAttempt out (pa_peer pa) (pa_now pa) a = (b, r)" by fastforce
  then show ?thesis
    using verifyAttempt_sessions [OF v]
    by (auto simp: reauthenticate_end_def Let_def split: sum.split option.split)
qed

lemma generation_step: "authorizationGeneration a \<le> authorizationGeneration (auth_step th e a)"
proof (cases e)
  case (ReauthenticateBegin t p n1 n)
  obtain b r where b: "activeRecord th t n1 a = (b, r)" by fastforce
  show ?thesis unfolding ReauthenticateBegin
    using reauthenticate_begin_state [of th t p n1 n a] activeRecord_generation [OF b] b by auto
qed (auto simp: generation_login_end generation_reauthenticate_end revokeAll_def
    logout_def list_sessions_def revoke_session_def Let_def authenticate_def hasValidCsrf_def
    recordActivity_def replacePasswordVerifier_def refreshPasswordVerifier_def
    removePasswordVerifier_def activeRecord_generation split: option.split prod.split)

text \<open>A password attempt in flight is a token stamped with the generation it began in.\<close>

interpretation attempt_fence: fencing "auth_step th" "\<lambda>_. ()" authorizationGeneration attempt_current
    "\<lambda>_. ()" pa_generation "\<lambda>_. None" "\<lambda>_. True" for th
  by unfold_locales
    (use generation_step in \<open>auto simp: attempt_current_def not_less intro!: antisym\<close>)

lemma stale_login_rejected:
  "\<not> attempt_current a pa \<Longrightarrow> is_error (snd (login_end th token sid csrf pa out a))
    \<and> sessionsByHash (fst (login_end th token sid csrf pa out a)) = sessionsByHash a"
proof -
  obtain b r where v: "verifyAttempt out (pa_peer pa) (pa_now pa) a = (b, r)" by fastforce
  assume "\<not> attempt_current a pa"
  then show ?thesis
    using v verifyAttempt_sessions [OF v]
    by (auto simp: login_end_def attempt_current_def split: sum.split)
qed

lemma stale_reauthentication_rejected:
  "\<not> attempt_current a pa \<Longrightarrow> is_error (snd (reauthenticate_end th token csrf pa out a))
    \<and> sessionsByHash (fst (reauthenticate_end th token csrf pa out a)) = sessionsByHash a"
proof -
  obtain b r where v: "verifyAttempt out (pa_peer pa) (pa_now pa) a = (b, r)" by fastforce
  assume "\<not> attempt_current a pa"
  then show ?thesis
    using v verifyAttempt_sessions [OF v]
    by (auto simp: reauthenticate_end_def attempt_current_def split: sum.split option.split)
qed

section \<open>Where sessions come from\<close>

definition same_session :: "session_record \<Rightarrow> session_record \<Rightarrow> bool" where
  "same_session r q = (sr_id r = sr_id q \<and> sr_createdAt r = sr_createdAt q
     \<and> sr_absoluteExpiresAt r = sr_absoluteExpiresAt q)"

lemma same_session_refl [simp]: "same_session r r"
  by (simp add: same_session_def)

definition sessions_from :: "dashboard_auth \<Rightarrow> dashboard_auth \<Rightarrow> bool" where
  "sessions_from b a =
     (\<forall>e \<in> set (sessionsByHash b). \<exists>f \<in> set (sessionsByHash a). same_session (snd e) (snd f))"

lemma sessions_from_subset: "set (sessionsByHash b) \<subseteq> set (sessionsByHash a) \<Longrightarrow> sessions_from b a"
  by (auto simp: sessions_from_def same_session_def)

lemma sessions_from_trans: "sessions_from c b \<Longrightarrow> sessions_from b a \<Longrightarrow> sessions_from c a"
  unfolding sessions_from_def same_session_def by metis

lemma sessions_from_update:
  assumes "set m \<subseteq> set (sessionsByHash a)" and "map_of (sessionsByHash a) h = Some q" and "same_session r q"
    and "sessionsByHash b = AList.update h' r m"
  shows "sessions_from b a"
proof -
  have "\<exists>f \<in> set (sessionsByHash a). same_session (snd e) (snd f)"
    if "e \<in> set (AList.update h' r m)" for e
  proof -
    from that update_set_subset [of h' r m] assms(1) consider "e = (h', r)" | "e \<in> set (sessionsByHash a)"
      by auto
    then show ?thesis
    proof cases
      case 1
      with assms(3) show ?thesis using map_of_SomeD [OF assms(2)] by (intro bexI [of _ "(h, q)"]) simp_all
    next
      case 2
      then show ?thesis by (intro bexI [of _ e]) simp_all
    qed
  qed
  then show ?thesis by (simp add: sessions_from_def assms(4))
qed

lemma activeRecord_subset:
  "activeRecord th t now a = (b, r) \<Longrightarrow> set (sessionsByHash b) \<subseteq> set (sessionsByHash a)"
  by (rule activeRecord_cases [of th t now a]) (auto dest: subsetD [OF delete_set_subset])

lemma reauthenticate_end_shape:
  obtains (rejected) "is_error (snd (reauthenticate_end th rotated csrf pa out a))"
      "sessionsByHash (fst (reauthenticate_end th rotated csrf pa out a)) = sessionsByHash a"
  | (rotated) h r r' s where "map_of (sessionsByHash a) h = Some r" "pa_session pa = Some (h, sr_id r)"
      "sr_tokenHash r = h" "attempt_current a pa" "same_session r' r" "sr_tokenHash r' = th rotated"
      "sr_reauthenticatedUntil r' = Some (min (pa_now pa + da_reauthenticationMs a) (sr_absoluteExpiresAt r))"
      "sessionsByHash (fst (reauthenticate_end th rotated csrf pa out a))
         = AList.update (th rotated) r' (AList.delete h (sessionsByHash a))"
      "snd (reauthenticate_end th rotated csrf pa out a) = Inr (rotated, s)"
proof -
  obtain b v where v: "verifyAttempt out (pa_peer pa) (pa_now pa) a = (b, v)" by fastforce
  note eq = verifyAttempt_sessions [OF v]
  have reauth: "da_reauthenticationMs b = da_reauthenticationMs a"
    using v by (rule verifyAttempt_cases) (auto simp: recordFailure_def Let_def)
  show ?thesis
  proof (cases "is_error (snd (reauthenticate_end th rotated csrf pa out a))")
    case True
    with v eq show ?thesis
      by (intro rejected) (auto simp: reauthenticate_end_def Let_def split: sum.splits option.splits if_splits)
  next
    case False
    with v eq obtain h r where m: "v = Inr True" "map_of (sessionsByHash a) h = Some r"
        "pa_session pa = Some (h, sr_id r)" "sr_tokenHash r = h" "pa_generation pa = authorizationGeneration a"
        "da_verifier a = Some (pa_verifier pa)"
      by (auto simp: reauthenticate_end_def Let_def split: sum.splits option.splits if_splits)
    show ?thesis
      by (rule rotated [OF m(2,3,4) _ _ _ _ _])
        (use m v eq reauth in \<open>auto simp: reauthenticate_end_def Let_def attempt_current_def same_session_def\<close>)
  qed
qed

lemma sessions_from_step:
  assumes "\<forall>token sid csrf pa out. e \<noteq> LoginEnd token sid csrf pa out"
  shows "sessions_from (auth_step th e a) a"
proof (cases e)
  case (LoginEnd token sid csrf pa out)
  with assms show ?thesis by simp
next
  case (Authenticate token now)
  then show ?thesis
    by (auto simp: authenticate_def split: option.split prod.split
        intro!: sessions_from_subset dest: activeRecord_subset)
next
  case (HasValidCsrf token s now)
  then show ?thesis
    by (auto simp: hasValidCsrf_def split: option.split prod.split
        intro!: sessions_from_subset dest: activeRecord_subset)
next
  case (RecordActivity t n1 n2)
  show ?thesis
  proof (rule activeRecord_cases [of th t n1 a])
    fix r assume "activeRecord th t n1 a = (a, Some r)" "map_of (sessionsByHash a) (th t) = Some r"
    then show ?thesis unfolding RecordActivity
      by (intro sessions_from_update [OF subset_refl])
        (auto simp: recordActivity_def Let_def same_session_def)
  qed (auto simp: RecordActivity recordActivity_def intro!: sessions_from_subset
      dest: subsetD [OF delete_set_subset])
next
  case (ReauthenticateBegin t p n1 n)
  obtain b r where b: "activeRecord th t n1 a = (b, r)" by fastforce
  show ?thesis unfolding ReauthenticateBegin
    using reauthenticate_begin_state [of th t p n1 n a] activeRecord_subset [OF b] b
    by (auto intro!: sessions_from_subset)
next
  case (ReauthenticateEnd token csrf pa out)
  show ?thesis unfolding ReauthenticateEnd
    by (rule reauthenticate_end_shape [of th token csrf pa out a])
      (auto intro: sessions_from_subset sessions_from_update [OF delete_set_subset])
next
  case (RevokeSession sid now)
  then show ?thesis
    by (auto simp: revoke_session_def Let_def split: option.split intro!: sessions_from_subset
        dest!: subsetD [OF delete_set_subset])
qed (auto simp: logout_def list_sessions_def Let_def replacePasswordVerifier_def
    refreshPasswordVerifier_def removePasswordVerifier_def revokeAll_def
    intro!: sessions_from_subset dest: subsetD [OF delete_set_subset])

section \<open>Properties\<close>

text \<open>C34. In every reachable state there are at most 128 sessions under distinct token hashes and
  at most 1024 rate buckets; every session is filed under the hash of its token, its absolute
  expiry is its creation plus the configured lifetime, and its reauthentication never outlives it.\<close>

theorem dashboard_tables_bounded:
  assumes "auth_reachable th a"
  shows "length (sessionsByHash a) \<le> 128 \<and> distinct (map fst (sessionsByHash a))
    \<and> length (peerFailures a) \<le> 1024
    \<and> (\<forall>(h, r) \<in> set (sessionsByHash a). sr_tokenHash r = h
        \<and> sr_absoluteExpiresAt r = sr_createdAt r + da_absoluteMs a
        \<and> (\<forall>t. sr_reauthenticatedUntil r = Some t \<longrightarrow> t \<le> sr_absoluteExpiresAt r))"
  using auth_reachable_ok [OF assms]
  by (auto simp: sessions_ok_def buckets_ok_def list_all_iff session_ok_def MAX_SESSIONS_def
      MAX_RATE_BUCKETS_def split: option.splits)

definition demo_verifier :: password_verifier where
  "demo_verifier = \<lparr>v_salt = ''s'', v_hash = ''h''\<rparr>"

definition demo_attempt :: pending_attempt where
  "demo_attempt = \<lparr>pa_peer = ''p'', pa_now = 1000, pa_verifier = demo_verifier, pa_generation = 0,
     pa_session = None\<rparr>"

definition demo_auth :: dashboard_auth where
  "demo_auth = auth_step (\<lambda>t. t) (LoginEnd ''tok'' ''id'' ''c'' demo_attempt (AttemptChecked True 1100))
     (auth_step (\<lambda>t. t) (LoginBegin ''p'' 1000) (new_dashboard_auth (Some demo_verifier) 1800000 43200000 300000))"

lemma demo_auth_reachable: "auth_reachable (\<lambda>t. t) demo_auth"
  unfolding demo_auth_def by (intro auth_reachable.intros) (simp_all add: demo_attempt_def)

lemma demo_auth_sessions:
  "sessionsByHash demo_auth = [(''tok'', \<lparr>sr_id = ''id'', sr_tokenHash = ''tok'', sr_csrfToken = ''c'',
     sr_createdAt = 1000, sr_lastActivityAt = 1000, sr_absoluteExpiresAt = 43201000,
     sr_reauthenticatedUntil = None\<rparr>)]"
  "authorizationGeneration demo_auth = 0" "da_idleMs demo_auth = 1800000"
  by (simp_all add: demo_auth_def login_end_def verifyAttempt_def demo_attempt_def
      new_dashboard_auth_def auth_prune_def clearPeerFailures_def MAX_SESSIONS_def Let_def)

theorem dashboard_tables_bounded_witness: "length (sessionsByHash demo_auth) \<le> 128"
  using dashboard_tables_bounded [OF demo_auth_reachable] by simp

text \<open>A token that authenticates is the token of a session within both of its lifetimes: less
  than the idle limit since its last activity and less than the absolute limit since its creation,
  which is what the view tells the client.\<close>

theorem authenticated_within_lifetimes:
  assumes "auth_reachable th a" and "authenticate th (Some t) now a = (b, Some s)"
  shows "now < sv_createdAt (as_view s) + da_absoluteMs a \<and> now < sv_lastActivityAt (as_view s) + da_idleMs a
    \<and> now < sv_idleExpiresAt (as_view s) \<and> b = a
    \<and> (\<exists>r. map_of (sessionsByHash a) (th t) = Some r \<and> s = toAuthenticated a r now)"
proof (rule activeRecord_cases [of th t now a])
  fix r assume r: "activeRecord th t now a = (a, Some r)" "map_of (sessionsByHash a) (th t) = Some r"
    "\<not> session_expired a r now"
  from r(2) have "sr_absoluteExpiresAt r = sr_createdAt r + da_absoluteMs a"
    using auth_reachable_ok [OF assms(1)] sessions_ok_lookup by (fastforce simp: session_ok_def)
  with r assms(2) show ?thesis
    by (auto simp: authenticate_def toAuthenticated_def sessionView_def session_expired_def split: if_splits)
qed (use assms(2) in \<open>auto simp: authenticate_def split: if_splits\<close>)

theorem authenticated_within_lifetimes_witness:
  "\<exists>b s. authenticate (\<lambda>t. t) (Some ''tok'') 2000 demo_auth = (b, Some s) \<and> 2000 < sv_idleExpiresAt (as_view s)"
proof -
  have "\<exists>b s. authenticate (\<lambda>t. t) (Some ''tok'') 2000 demo_auth = (b, Some s)"
    by (simp add: authenticate_def activeRecord_def demo_auth_sessions session_expired_def)
  then show ?thesis
    using authenticated_within_lifetimes [OF demo_auth_reachable, of "''tok''" 2000] by blast
qed

text \<open>No operation but a successful sign-in creates a session, and none extends the absolute
  lifetime of one: whatever happens between, a session that is there afterwards was there before
  with the same identity, creation and absolute expiry.\<close>

theorem only_sign_in_creates_sessions:
  assumes "\<forall>e \<in> set es. \<forall>token sid csrf pa out. e \<noteq> LoginEnd token sid csrf pa out"
    and "(h, r) \<in> set (sessionsByHash (run_steps (auth_step th) es a))"
  shows "\<exists>h' q. (h', q) \<in> set (sessionsByHash a) \<and> sr_id q = sr_id r \<and> sr_createdAt q = sr_createdAt r
    \<and> sr_absoluteExpiresAt q = sr_absoluteExpiresAt r"
proof -
  have "sessions_from (run_steps (auth_step th) es a) a"
    using assms(1)
  proof (induction es arbitrary: a)
    case (Cons e es)
    then have "sessions_from (run_steps (auth_step th) es (auth_step th e a)) (auth_step th e a)"
      and "sessions_from (auth_step th e a) a" by (simp_all add: sessions_from_step)
    then show ?case using sessions_from_trans by (simp only: run_steps.simps)
  qed (simp add: sessions_from_subset)
  with assms(2) show ?thesis by (fastforce simp: sessions_from_def same_session_def)
qed

theorem only_sign_in_creates_sessions_witness:
  "\<exists>h' q. (h', q) \<in> set (sessionsByHash demo_auth) \<and> sr_absoluteExpiresAt q = 43201000"
proof -
  let ?r = "\<lparr>sr_id = ''id'', sr_tokenHash = ''tok'', sr_csrfToken = ''c'', sr_createdAt = 1000,
     sr_lastActivityAt = 2000, sr_absoluteExpiresAt = 43201000, sr_reauthenticatedUntil = None\<rparr>"
  have "(''tok'', ?r) \<in> set (sessionsByHash (run_steps (auth_step (\<lambda>t. t)) [RecordActivity ''tok'' 2000 2000] demo_auth))"
    by (simp add: recordActivity_def activeRecord_def demo_auth_sessions session_expired_def Let_def)
  from only_sign_in_creates_sessions [OF _ this] show ?thesis by auto
qed

definition ends_all_sessions :: "auth_event \<Rightarrow> bool" where
  "ends_all_sessions e = (case e of RevokeAll \<Rightarrow> True | ReplaceVerifier _ \<Rightarrow> True | RemoveVerifier \<Rightarrow> True | _ \<Rightarrow> False)"

fun began_by :: "nat \<Rightarrow> auth_event \<Rightarrow> bool" where
  "began_by g (LoginEnd token sid csrf pa out) = (pa_generation pa \<le> g)"
| "began_by g _ = True"

lemma no_sessions_step:
  assumes "sessionsByHash a = []" and "g < authorizationGeneration a" and "began_by g e"
  shows "sessionsByHash (auth_step th e a) = []"
proof (cases "\<forall>token sid csrf pa out. e \<noteq> LoginEnd token sid csrf pa out")
  case True
  from sessions_from_step [OF this, of th a] assms(1) show ?thesis
    by (cases "sessionsByHash (auth_step th e a)") (fastforce simp: sessions_from_def)+
next
  case False
  then obtain token sid csrf pa out where e: "e = LoginEnd token sid csrf pa out" by blast
  with assms have "\<not> attempt_current a pa" by (simp add: attempt_current_def)
  from stale_login_rejected [OF this] assms(1) show ?thesis by (simp add: e)
qed

text \<open>C18. Replacing or removing the administrator password, or revoking all sessions, signs
  everybody out, and it also defeats the attempts in flight: as long as the only sign-ins that
  complete afterwards are ones that began before, there is no session at all, whatever else happens.\<close>

theorem revocation_defeats_attempts_in_flight:
  assumes "ends_all_sessions e" and "\<forall>f \<in> set es. began_by (authorizationGeneration a) f"
  shows "sessionsByHash (run_steps (auth_step th) (e # es) a) = []
    \<and> snd (authenticate th token now (run_steps (auth_step th) (e # es) a)) = None"
proof -
  let ?a = "auth_step th e a"
  have start: "sessionsByHash ?a = []" "authorizationGeneration a < authorizationGeneration ?a"
    using assms(1) by (auto simp: ends_all_sessions_def revokeAll_def replacePasswordVerifier_def
        removePasswordVerifier_def split: auth_event.splits)
  have "sessionsByHash (run_steps (auth_step th) es b) = []"
    if "sessionsByHash b = []" "authorizationGeneration a < authorizationGeneration b" for b
    using that assms(2)
  proof (induction es arbitrary: b)
    case (Cons f es)
    then show ?case
      using no_sessions_step [of b "authorizationGeneration a" f th] generation_step [of b th f]
      by (simp add: Cons.IH)
  qed simp
  from this [OF start] show ?thesis
    by (auto simp: authenticate_def activeRecord_def split: option.split)
qed

theorem revocation_defeats_attempts_in_flight_witness:
  "sessionsByHash (run_steps (auth_step (\<lambda>t. t))
     [RemoveVerifier, LoginEnd ''t2'' ''i2'' ''c'' demo_attempt (AttemptChecked True 3000)] demo_auth) = []"
  using revocation_defeats_attempts_in_flight [of RemoveVerifier
      "[LoginEnd ''t2'' ''i2'' ''c'' demo_attempt (AttemptChecked True 3000)]" demo_auth]
  by (simp add: ends_all_sessions_def demo_attempt_def demo_auth_sessions)

text \<open>A password attempt that has become stale, because the verifier was changed or all
  sessions were revoked after it began, is rejected at its end and changes no session, however
  many operations come in between: an attempt never becomes current again.\<close>

theorem stale_attempt_rejected_forever:
  assumes "attempt_current a pa" and "\<not> attempt_current (run_steps (auth_step th) es a) pa"
  shows "let b = run_steps (auth_step th) fs (run_steps (auth_step th) es a)
    in is_error (snd (login_end th token sid csrf pa out b))
      \<and> sessionsByHash (fst (login_end th token sid csrf pa out b)) = sessionsByHash b
      \<and> is_error (snd (reauthenticate_end th token csrf pa out b))
      \<and> sessionsByHash (fst (reauthenticate_end th token csrf pa out b)) = sessionsByHash b"
proof -
  have "\<not> attempt_current (run_steps (auth_step th) fs (run_steps (auth_step th) es a)) pa"
    using assms by (intro attempt_fence.never_again) auto
  then show ?thesis
    using stale_login_rejected stale_reauthentication_rejected by (simp add: Let_def)
qed

theorem stale_attempt_rejected_forever_witness:
  "is_error (snd (login_end (\<lambda>t. t) ''t2'' ''i2'' ''c'' demo_attempt (AttemptChecked True 3000)
     (run_steps (auth_step (\<lambda>t. t)) [ReplaceVerifier demo_verifier] (run_steps (auth_step (\<lambda>t. t)) [RevokeAll] demo_auth))))"
  using stale_attempt_rejected_forever [of demo_auth demo_attempt "\<lambda>t. t" "[RevokeAll]" "[ReplaceVerifier demo_verifier]"
      "''t2''" "''i2''" "''c''" "AttemptChecked True 3000"]
  by (simp add: attempt_current_def demo_attempt_def demo_auth_sessions revokeAll_def Let_def)

text \<open>A successful reauthentication rotates the token: the new token authenticates, is
  reauthenticated until the configured time or the absolute expiry, whichever comes first, and the
  old token authenticates no more.\<close>

theorem reauthentication_rotates_token:
  assumes "reauthenticate_end th rotated csrf pa out a = (b, Inr (t, s))"
    and "pa_session pa = Some (th old, i)" and "th rotated \<noteq> th old"
  shows "t = rotated \<and> map_of (sessionsByHash b) (th old) = None
    \<and> snd (authenticate th (Some old) now b) = None
    \<and> (\<exists>r. map_of (sessionsByHash b) (th rotated) = Some r \<and> sr_id r = i
        \<and> sr_reauthenticatedUntil r
            = Some (min (pa_now pa + da_reauthenticationMs a) (sr_absoluteExpiresAt r)))"
proof (rule reauthenticate_end_shape [of th rotated csrf pa out a])
  fix h r r' s
  assume "map_of (sessionsByHash a) h = Some r" "pa_session pa = Some (h, sr_id r)" "same_session r' r"
    "sr_reauthenticatedUntil r' = Some (min (pa_now pa + da_reauthenticationMs a) (sr_absoluteExpiresAt r))"
    "sessionsByHash (fst (reauthenticate_end th rotated csrf pa out a))
       = AList.update (th rotated) r' (AList.delete h (sessionsByHash a))"
    "snd (reauthenticate_end th rotated csrf pa out a) = Inr (rotated, s)"
  with assms show ?thesis
    by (auto simp: authenticate_def activeRecord_def same_session_def split: if_splits)
qed (use assms in simp)

definition demo_reauthentication :: pending_attempt where
  "demo_reauthentication = \<lparr>pa_peer = ''p'', pa_now = 2000, pa_verifier = demo_verifier, pa_generation = 0,
     pa_session = Some (''tok'', ''id'')\<rparr>"

theorem reauthentication_rotates_token_witness:
  "snd (authenticate (\<lambda>t. t) (Some ''tok'') 3000
     (fst (reauthenticate_end (\<lambda>t. t) ''new'' ''c2'' demo_reauthentication (AttemptChecked True 2100) demo_auth))) = None"
proof -
  have "da_verifier demo_auth = Some demo_verifier"
    by (simp add: demo_auth_def login_end_def verifyAttempt_def demo_attempt_def
        new_dashboard_auth_def auth_prune_def clearPeerFailures_def MAX_SESSIONS_def Let_def)
  then obtain t s where "reauthenticate_end (\<lambda>t. t) ''new'' ''c2'' demo_reauthentication (AttemptChecked True 2100) demo_auth
      = (fst (reauthenticate_end (\<lambda>t. t) ''new'' ''c2'' demo_reauthentication (AttemptChecked True 2100) demo_auth), Inr (t, s))"
    by (simp add: reauthenticate_end_def verifyAttempt_def demo_reauthentication_def demo_auth_sessions Let_def)
  from reauthentication_rotates_token [OF this, of "''tok''" "''id''"] show ?thesis
    by (simp add: demo_reauthentication_def)
qed

section \<open>Limits on failed attempts\<close>

lemma map_of_filter_Some: "map_of m k = Some v \<Longrightarrow> P (k, v) \<Longrightarrow> map_of (filter P m) k = Some v"
  by (induction m) (auto split: if_splits)

lemma map_of_filter_None:
  "distinct (map fst m) \<Longrightarrow> (\<And>v. map_of m k = Some v \<Longrightarrow> \<not> P (k, v)) \<Longrightarrow> map_of (filter P m) k = None"
  by (auto simp: map_of_eq_None_iff dest: map_of_is_SomeI)

lemma ceil_seconds_covers: "ms \<le> 1000 * ceil_seconds ms"
  by (simp add: ceil_seconds_def)

text \<open>A client that waits for the advertised number of seconds after it was refused for too
  many failures is let through: nothing but further failures can refuse it again.\<close>

theorem retry_after_suffices:
  assumes "auth_reachable th a" and "assertAttemptAllowed peer now a = (b, Inl e)"
  shows "\<exists>r. e = DashboardAuthError ''rate_limited'' 429 (Some r) \<and> 1 \<le> r
    \<and> (\<forall>later. now + 1000 * r \<le> later \<longrightarrow> snd (assertAttemptAllowed peer later b) = Inr ())"
proof -
  let ?p = "auth_prune now a"
  define R where "R = max (case map_of (peerFailures ?p) peer of None \<Rightarrow> now | Some b \<Rightarrow> rb_resetsAt b)
     (rb_resetsAt (globalFailures ?p))"
  from assms(2) have b: "b = ?p" and e: "e = DashboardAuthError ''rate_limited'' 429 (Some (max 1 (ceil_seconds (R - now))))"
    by (auto simp: assertAttemptAllowed_def Let_def R_def split: if_splits)
  have distinct: "distinct (map fst (peerFailures ?p))"
    using auth_reachable_ok [OF assms(1)] buckets_ok_prune by (auto simp: buckets_ok_def)
  have "snd (assertAttemptAllowed peer later b) = Inr ()"
    if "now + 1000 * max 1 (ceil_seconds (R - now)) \<le> later" for later
  proof -
    have "R \<le> later"
      using that ceil_seconds_covers [of "R - now"] by linarith
    then have peer: "\<And>v. map_of (peerFailures ?p) peer = Some v \<Longrightarrow> rb_resetsAt v \<le> later"
      and global: "rb_resetsAt (globalFailures ?p) \<le> later"
      by (auto simp: R_def split: option.splits)
    have "map_of (peerFailures (auth_prune later ?p)) peer = None"
      using map_of_filter_None [OF distinct, where P = "\<lambda>(p, b). \<not> rb_resetsAt b \<le> later"] peer
      by (simp add: auth_prune_def)
    moreover have "rb_failures (globalFailures (auth_prune later ?p)) = 0"
      using global by (simp add: auth_prune_def)
    ultimately show ?thesis
      by (simp add: assertAttemptAllowed_def b Let_def PEER_FAILURE_LIMIT_def GLOBAL_FAILURE_LIMIT_def)
  qed
  with e show ?thesis by auto
qed

lemma recordFailure_counts:
  assumes "map_of (peerFailures a) p = Some \<lparr>rb_failures = k, rb_resetsAt = R\<rparr>" and "t < R"
  shows "map_of (peerFailures (recordFailure p t a)) p = Some \<lparr>rb_failures = k + 1, rb_resetsAt = R\<rparr>"
  using assms by (simp add: recordFailure_def Let_def activeBucket_def)

lemma failed_logins_count:
  assumes "map_of (peerFailures a) (pa_peer pa) = Some \<lparr>rb_failures = k, rb_resetsAt = R\<rparr>"
    and "\<forall>t \<in> set ts. t < R"
  shows "map_of (peerFailures (run_steps (auth_step th)
      (map (\<lambda>t. LoginEnd token sid csrf pa (AttemptChecked False t)) ts) a)) (pa_peer pa)
    = Some \<lparr>rb_failures = k + length ts, rb_resetsAt = R\<rparr>"
  using assms
proof (induction ts arbitrary: a k)
  case (Cons t ts)
  have "auth_step th (LoginEnd token sid csrf pa (AttemptChecked False t)) a = recordFailure (pa_peer pa) t a"
    by (simp add: login_end_def verifyAttempt_def)
  with Cons show ?case
    using recordFailure_counts [OF Cons.prems(1), of t] by simp
qed simp

text \<open>After five failed sign-ins of one peer within a window of five minutes that starts with
  the first, every attempt of that peer until the end of the window is refused with status 429,
  whatever else the manager holds.\<close>

theorem five_failures_lock_the_peer:
  assumes "map_of (peerFailures a) (pa_peer pa) = None" and "length ts \<ge> 4"
    and "\<forall>t \<in> set (now # ts). t < t0 + 300000"
  shows "\<exists>r. snd (login_begin (pa_peer pa) now (run_steps (auth_step th)
      (map (\<lambda>t. LoginEnd token sid csrf pa (AttemptChecked False t)) (t0 # ts)) a))
    = Inl (DashboardAuthError ''rate_limited'' 429 (Some r)) \<and> 1 \<le> r"
proof -
  let ?b = "auth_step th (LoginEnd token sid csrf pa (AttemptChecked False t0)) a"
  let ?es = "map (\<lambda>t. LoginEnd token sid csrf pa (AttemptChecked False t)) ts"
  have "?b = recordFailure (pa_peer pa) t0 a" by (simp add: login_end_def verifyAttempt_def)
  moreover have "map_of (drop_oldest m) p = None" if "map_of m p = None" for m :: "(string, rate_bucket) js_map" and p
    using that by (cases m rule: drop_oldest.cases) (auto split: if_splits)
  ultimately have "map_of (peerFailures ?b) (pa_peer pa) = Some \<lparr>rb_failures = 1, rb_resetsAt = t0 + 300000\<rparr>"
    using assms(1) by (simp add: recordFailure_def Let_def activeBucket_def RATE_WINDOW_MS_def)
  from failed_logins_count [OF this, of ts th token sid csrf] assms(3)
  have "map_of (peerFailures (run_steps (auth_step th) ?es ?b)) (pa_peer pa)
      = Some \<lparr>rb_failures = 1 + length ts, rb_resetsAt = t0 + 300000\<rparr>" by simp
  then have "map_of (peerFailures (auth_prune now (run_steps (auth_step th) ?es ?b))) (pa_peer pa)
      = Some \<lparr>rb_failures = 1 + length ts, rb_resetsAt = t0 + 300000\<rparr>"
    using assms(3) by (simp add: auth_prune_def map_of_filter_Some)
  then show ?thesis
    using assms(2) by (auto simp: login_begin_def assertAttemptAllowed_def Let_def PEER_FAILURE_LIMIT_def)
qed

definition demo_locked :: dashboard_auth where
  "demo_locked = run_steps (auth_step (\<lambda>t. t))
     (map (\<lambda>t. LoginEnd ''t'' ''i'' ''c'' demo_attempt (AttemptChecked False t)) (1000 # [1001, 1002, 1003, 1004]))
     (new_dashboard_auth (Some demo_verifier) 1800000 43200000 300000)"

theorem five_failures_lock_the_peer_witness:
  "is_error (snd (login_begin ''p'' 2000 demo_locked))"
  using five_failures_lock_the_peer [of "new_dashboard_auth (Some demo_verifier) 1800000 43200000 300000" demo_attempt
      "[1001, 1002, 1003, 1004]" 2000 1000 "\<lambda>t. t" "''t''" "''i''" "''c''"]
  by (auto simp: demo_locked_def demo_attempt_def new_dashboard_auth_def)

lemma auth_reachable_run:
  "auth_reachable th a \<Longrightarrow> \<forall>e \<in> set es. event_peer e \<noteq> Some [] \<Longrightarrow> auth_reachable th (run_steps (auth_step th) es a)"
  by (induction es arbitrary: a) (auto intro: auth_next)

lemma demo_locked_reachable: "auth_reachable (\<lambda>t. t) demo_locked"
  unfolding demo_locked_def by (intro auth_reachable_run auth_start) (auto simp: demo_attempt_def)

theorem retry_after_suffices_witness:
  "\<exists>r. snd (assertAttemptAllowed ''p'' 2000 demo_locked) = Inl (DashboardAuthError ''rate_limited'' 429 (Some r))
    \<and> snd (assertAttemptAllowed ''p'' (2000 + 1000 * r) (fst (assertAttemptAllowed ''p'' 2000 demo_locked))) = Inr ()"
proof -
  have "is_error (snd (assertAttemptAllowed ''p'' 2000 demo_locked))"
    by (simp add: demo_locked_def demo_attempt_def login_end_def verifyAttempt_def new_dashboard_auth_def
        recordFailure_def activeBucket_def auth_prune_def Let_def assertAttemptAllowed_def auth_limits)
  then obtain b e where be: "assertAttemptAllowed ''p'' 2000 demo_locked = (b, Inl e)"
    by (cases "assertAttemptAllowed ''p'' 2000 demo_locked"; cases "snd (assertAttemptAllowed ''p'' 2000 demo_locked)") auto
  from retry_after_suffices [OF demo_locked_reachable this] be show ?thesis by auto
qed

section \<open>The derivation queue is first in, first out\<close>

definition kdf_waiting :: "kdf_queue \<Rightarrow> nat list" where
  "kdf_waiting q = (case kdf_active q of None \<Rightarrow> [] | Some w \<Rightarrow> [w]) @ kdf_pending q"

text \<open>The work that a run finishes, and the work it accepts, in order.\<close>

fun kdf_done :: "kdf_event list \<Rightarrow> kdf_queue \<Rightarrow> nat list" where
  "kdf_done [] q = []"
| "kdf_done (e # es) q = (case (e, kdf_active q) of (KdfFinished, Some w) \<Rightarrow> [w] | _ \<Rightarrow> [])
     @ kdf_done es (kdf_step e q)"

fun kdf_accepted :: "kdf_event list \<Rightarrow> kdf_queue \<Rightarrow> nat list" where
  "kdf_accepted [] q = []"
| "kdf_accepted (e # es) q = (case e of KdfSchedule w \<Rightarrow>
       (case snd (kdf_schedule w q) of Inl _ \<Rightarrow> [] | Inr _ \<Rightarrow> [w]) | KdfFinished \<Rightarrow> [])
     @ kdf_accepted es (kdf_step e q)"

definition kdf_ok :: "kdf_queue \<Rightarrow> bool" where
  "kdf_ok q = (length (kdf_pending q) \<le> MAX_KDF_QUEUE \<and> (kdf_active q = None \<longrightarrow> kdf_pending q = []))"

lemma kdf_ok_step: "kdf_ok q \<Longrightarrow> kdf_ok (kdf_step e q)"
  by (cases e) (auto simp: kdf_ok_def kdf_schedule_def kdf_finished_def kdf_drain_def MAX_KDF_QUEUE_def
      split: list.splits)

lemma kdf_step_order:
  "kdf_ok q \<Longrightarrow> (case (e, kdf_active q) of (KdfFinished, Some w) \<Rightarrow> [w] | _ \<Rightarrow> []) @ kdf_waiting (kdf_step e q)
    = kdf_waiting q @ (case e of KdfSchedule w \<Rightarrow>
        (case snd (kdf_schedule w q) of Inl _ \<Rightarrow> [] | Inr _ \<Rightarrow> [w]) | KdfFinished \<Rightarrow> [])"
  by (cases e; cases "kdf_active q")
    (auto simp: kdf_ok_def kdf_schedule_def kdf_finished_def kdf_drain_def kdf_waiting_def split: list.splits)

text \<open>At most one derivation runs and at most eight wait; none waits while the queue is idle;
  and what was accepted is run to its end in the order of acceptance, nothing lost and nothing twice.\<close>

theorem kdf_queue_in_order:
  "kdf_accepted es kdf_empty = kdf_done es kdf_empty @ kdf_waiting (run_steps kdf_step es kdf_empty)
    \<and> length (kdf_pending (run_steps kdf_step es kdf_empty)) \<le> 8
    \<and> (kdf_pending (run_steps kdf_step es kdf_empty) \<noteq> [] \<longrightarrow> kdf_active (run_steps kdf_step es kdf_empty) \<noteq> None)"
proof -
  have "kdf_waiting q @ kdf_accepted es q = kdf_done es q @ kdf_waiting (run_steps kdf_step es q)"
    if "kdf_ok q" for q
    using that
  proof (induction es arbitrary: q)
    case (Cons e es)
    note step = kdf_step_order [OF Cons.prems, of e]
    have "kdf_waiting q @ kdf_accepted (e # es) q
        = (kdf_waiting q @ (case e of KdfSchedule w \<Rightarrow>
            (case snd (kdf_schedule w q) of Inl _ \<Rightarrow> [] | Inr _ \<Rightarrow> [w]) | KdfFinished \<Rightarrow> []))
          @ kdf_accepted es (kdf_step e q)" by (simp only: kdf_accepted.simps append.assoc)
    also have "\<dots> = (case (e, kdf_active q) of (KdfFinished, Some w) \<Rightarrow> [w] | _ \<Rightarrow> [])
          @ kdf_waiting (kdf_step e q) @ kdf_accepted es (kdf_step e q)"
      by (simp only: step [symmetric] append.assoc)
    also have "\<dots> = kdf_done (e # es) q @ kdf_waiting (run_steps kdf_step (e # es) q)"
      by (simp only: Cons.IH [OF kdf_ok_step [OF Cons.prems]] kdf_done.simps run_steps.simps append.assoc)
    finally show ?case .
  qed simp
  moreover have ok: "kdf_ok kdf_empty" and "kdf_waiting kdf_empty = []"
    by (simp_all add: kdf_ok_def kdf_empty_def kdf_waiting_def)
  ultimately have "kdf_accepted es kdf_empty
      = kdf_done es kdf_empty @ kdf_waiting (run_steps kdf_step es kdf_empty)"
    by (metis append_Nil)
  moreover have "kdf_ok (run_steps kdf_step es kdf_empty)"
    by (rule run_steps_invariant [where P = kdf_ok, OF kdf_ok_step ok])
  ultimately show ?thesis
    unfolding kdf_ok_def MAX_KDF_QUEUE_def by blast
qed

theorem kdf_queue_in_order_witness:
  "length (kdf_pending (run_steps kdf_step [KdfSchedule 1, KdfSchedule 2, KdfFinished] kdf_empty)) \<le> 8"
  using kdf_queue_in_order [of "[KdfSchedule 1, KdfSchedule 2, KdfFinished]"] by (elim conjE)

end
