(* ===== verification/Egress.thy ===== *)
theory Egress
  imports Network_Address
begin

text \<open>
  \<^verbatim>\<open>packages/control/src/egress.ts\<close> and the rules of \<^verbatim>\<open>packages/cli/src/network-policy.ts\<close>:
  which outbound connections the shared gateway makes, for whom, to which address, and what of a
  brokered response reaches the caller.

  Instants are milliseconds (\<open>Date.parse\<close> has been applied to the stored texts). DNS is the
  argument \<open>lookup\<close>, base64 decoding the argument \<open>b64\<close>, decompression the argument
  \<open>inflate\<close>; a parsed base URL is a record. Bodies and texts are lists of bytes.
\<close>

section \<open>Policies\<close>

datatype network_profile = Developer | WebOnly | Offline | Custom

record temporary_approval =
  ap_domain :: string
  ap_expiresAt :: int

record network_policy =
  np_profile :: network_profile
  np_allowDomains :: "string list"
  np_denyDomains :: "string list"
  np_allowCidrs :: "string list"
  np_allowTcpPorts :: "nat list"
  np_temporaryApprovals :: "temporary_approval list"

definition developer_policy :: network_policy where
  "developer_policy = \<lparr>np_profile = Developer, np_allowDomains = [], np_denyDomains = [],
     np_allowCidrs = [], np_allowTcpPorts = [], np_temporaryApprovals = []\<rparr>"

section \<open>Host names\<close>

text \<open>\<open>new URL('http://[...]/').hostname\<close>: the shortest form, the first longest run of at least
  two zero groups compressed.\<close>

fun bytes_words :: "nat list \<Rightarrow> nat list" where
  "bytes_words (a # b # bs) = (a * 256 + b) # bytes_words bs"
| "bytes_words _ = []"

definition zero_run :: "nat list \<Rightarrow> nat" where
  "zero_run ws = length (takeWhile (\<lambda>w. w = 0) ws)"

fun best_run :: "nat list \<Rightarrow> nat \<times> nat" where
  "best_run [] = (0, 0)"
| "best_run (w # ws) = (let (i, n) = best_run ws; m = zero_run (w # ws) in if m \<ge> n then (0, m) else (Suc i, n))"

definition serialize_ipv6 :: "nat list \<Rightarrow> string" where
  "serialize_ipv6 bytes =
     (let ws = bytes_words bytes; (i, n) = best_run ws in
      if n < 2 then join_with CHR '':'' (map show_hex ws)
      else join_with CHR '':'' (map show_hex (take i ws)) @ ''::''
        @ join_with CHR '':'' (map show_hex (drop (i + n) ws)))"

definition strip_final_dot :: "string \<Rightarrow> string" where
  "strip_final_dot s = (if s \<noteq> [] \<and> last s = CHR ''.'' then butlast s else s)"

definition normalizeEgressHostname :: "string \<Rightarrow> string" where
  "normalizeEgressHostname host =
     (let normalized = strip_final_dot (to_lower host);
          inner = butlast (tl normalized);
          bare = (if length normalized \<ge> 2 \<and> hd normalized = CHR ''['' \<and> last normalized = CHR '']'' \<and> isIP inner = 6
                  then inner else normalized)
      in if isIP bare = 6 \<and> CHR ''%'' \<notin> set bare
         then (case parseIpv6 bare of None \<Rightarrow> bare | Some bytes \<Rightarrow> serialize_ipv6 bytes)
         else bare)"

definition pattern_matches :: "string \<Rightarrow> string \<Rightarrow> bool" where
  "pattern_matches host normalized =
     (if starts_with normalized ''*.''
      then ends_with host (drop 1 normalized) \<and> host \<noteq> drop 2 normalized
      else host = normalized)"

definition domainMatches :: "string \<Rightarrow> string \<Rightarrow> bool" where
  "domainMatches host pattern = pattern_matches host (normalizeEgressHostname pattern)"

section \<open>Address lists\<close>

definition after_last_slash :: "string \<Rightarrow> string" where
  "after_last_slash s = rev (takeWhile (\<lambda>c. c \<noteq> CHR ''/'') (rev s))"

definition before_last_slash :: "string \<Rightarrow> string" where
  "before_last_slash s = rev (tl (dropWhile (\<lambda>c. c \<noteq> CHR ''/'') (rev s)))"

definition ip_bytes :: "string \<Rightarrow> nat list option" where
  "ip_bytes s = (if isIPv4 s then Some (map read_nat (split_on CHR ''.'' s)) else parseIpv6 s)"

text \<open>One subnet of a \<open>BlockList\<close>. \<open>addSubnet\<close> throws on a prefix that is no number or too
  large; the stored CIDRs have been validated, and such an entry counts as one that matches nothing.\<close>

definition subnet_contains :: "string \<Rightarrow> string \<Rightarrow> nat \<Rightarrow> bool" where
  "subnet_contains base address bits =
     (case (ip_bytes base, ip_bytes address) of
        (Some b, Some a) \<Rightarrow> bits \<le> 8 * length b \<and> in_network a (b, bits)
      | _ \<Rightarrow> False)"

definition addressAllowedByCidrs :: "string \<Rightarrow> string list \<Rightarrow> bool" where
  "addressAllowedByCidrs address cidrs =
     (isIP address \<noteq> 0 \<and>
      list_ex (\<lambda>cidr. isIP (before_last_slash cidr) = isIP address
        \<and> (case digits_value (after_last_slash cidr) of
             None \<Rightarrow> False
           | Some bits \<Rightarrow> subnet_contains (before_last_slash cidr) address bits)) cidrs)"

section \<open>The decision\<close>

datatype network_decision = NetAllowed "int option" | NetDenied string

definition active_approvals :: "string \<Rightarrow> int \<Rightarrow> network_policy \<Rightarrow> int list" where
  "active_approvals normalized now policy =
     filter (\<lambda>t. t > now)
       (map ap_expiresAt (filter (\<lambda>e. domainMatches normalized (ap_domain e)) (np_temporaryApprovals policy)))"

definition latest :: "int list \<Rightarrow> int option" where
  "latest ts = (if ts = [] then None else Some (Max (set ts)))"

definition policyAllows :: "string \<Rightarrow> nat \<Rightarrow> int \<Rightarrow> network_policy \<Rightarrow> network_decision" where
  "policyAllows host port now policy =
     (let normalized = normalizeEgressHostname host in
      if np_profile policy = Offline then NetDenied ''offline''
      else if np_profile policy = WebOnly \<and> port \<noteq> 80 \<and> port \<noteq> 443 then NetDenied ''port''
      else if np_profile policy = Custom \<and> port \<noteq> 80 \<and> port \<noteq> 443 \<and> port \<notin> set (np_allowTcpPorts policy)
      then NetDenied ''port''
      else
        (let temporary = latest (active_approvals normalized now policy);
             explicitAddress = (isIP normalized \<noteq> 0 \<and> addressAllowedByCidrs normalized (np_allowCidrs policy));
             explicitlyDenied = list_ex (domainMatches normalized) (np_denyDomains policy);
             outsideCustomScope = (np_profile policy = Custom \<and> \<not> explicitAddress
               \<and> \<not> list_ex (domainMatches normalized) (np_allowDomains policy))
         in if explicitlyDenied \<or> outsideCustomScope
            then (case temporary of
                None \<Rightarrow> NetDenied (if outsideCustomScope then ''scope'' else ''denied'')
              | Some t \<Rightarrow> NetAllowed (Some t))
            else NetAllowed None))"

definition network_policy_denied :: qubicl_error where
  "network_policy_denied = QubiclError ''network_policy_denied'' 403"

definition address_permitted :: "network_policy \<Rightarrow> string \<Rightarrow> bool" where
  "address_permitted policy address =
     (np_profile policy = Developer \<or> isGloballyRoutableIp address
      \<or> addressAllowedByCidrs address (np_allowCidrs policy))"

definition authorizeTarget ::
  "(string \<Rightarrow> string list) \<Rightarrow> string \<Rightarrow> nat \<Rightarrow> int \<Rightarrow> network_policy \<Rightarrow> (string \<times> int option) outcome"
where
  "authorizeTarget lookup host port now policy =
     (let normalized = normalizeEgressHostname host in
      case policyAllows normalized port now policy of
        NetDenied reason \<Rightarrow> Inl network_policy_denied
      | NetAllowed expiresAt \<Rightarrow>
          (let addresses = (if isIP normalized \<noteq> 0 then [normalized] else lookup normalized) in
           if addresses = [] then Inl network_policy_denied
           else (case List.find (address_permitted policy) addresses of
               None \<Rightarrow> Inl network_policy_denied
             | Some address \<Rightarrow> Inr (address, expiresAt))))"

section \<open>Who is asking\<close>

record egress_configuration =
  eg_id :: string
  eg_policy :: network_policy
  eg_proxyKey :: string
  eg_brokerKey :: string

definition secretMatches :: "string option \<Rightarrow> string \<Rightarrow> bool" where
  "secretMatches value expected = (value = Some expected)"

text \<open>What follows the first colon; without one, the whole text.\<close>

definition after_first_colon :: "string \<Rightarrow> string" where
  "after_first_colon s = (if CHR '':'' \<in> set s then tl (dropWhile (\<lambda>c. c \<noteq> CHR '':'') s) else s)"

definition proxyConfiguration ::
  "(string \<Rightarrow> string) \<Rightarrow> string option \<Rightarrow> egress_configuration list \<Rightarrow> egress_configuration option"
where
  "proxyConfiguration b64 value configurations =
     (case value of
        None \<Rightarrow> None
      | Some v \<Rightarrow>
          if \<not> starts_with v ''Basic '' then None
          else List.find (\<lambda>c. secretMatches (Some (after_first_colon (b64 (drop 6 v)))) (eg_proxyKey c)) configurations)"

definition brokerConfiguration :: "string option \<Rightarrow> egress_configuration list \<Rightarrow> egress_configuration option" where
  "brokerConfiguration value configurations = List.find (\<lambda>c. secretMatches value (eg_brokerKey c)) configurations"

definition strip_brackets :: "string \<Rightarrow> string" where
  "strip_brackets s =
     (let a = (if s \<noteq> [] \<and> hd s = CHR ''['' then tl s else s)
      in if a \<noteq> [] \<and> last a = CHR '']'' then butlast a else a)"

definition before_last_colon :: "string \<Rightarrow> string" where
  "before_last_colon s =
     (if CHR '':'' \<in> set s then rev (tl (dropWhile (\<lambda>c. c \<noteq> CHR '':'') (rev s))) else butlast s)"

text \<open>The port is read as decimal digits; that \<open>Number\<close> also reads other notations of a number is
  left out.\<close>

definition connectTarget :: "string \<Rightarrow> (string \<times> nat) outcome" where
  "connectTarget value =
     (let host = strip_brackets (before_last_colon value) in
      case digits_value (after_last_colon value) of
        None \<Rightarrow> Inl network_policy_denied
      | Some port \<Rightarrow>
          if host = [] \<or> port < 1 \<or> port > 65535 then Inl network_policy_denied else Inr (host, port))"

section \<open>Tunnels\<close>

text \<open>A CONNECT tunnel: opened to the pinned address, closed by the timer of a temporary approval,
  by the check of the current policy every second, or by an end of it.\<close>

record egress_tunnel =
  tn_configuration :: string
  tn_host :: string
  tn_port :: nat
  tn_address :: string
  tn_expiresAt :: "int option"
  tn_open :: bool

definition openTunnel ::
  "(string \<Rightarrow> string) \<Rightarrow> (string \<Rightarrow> string list) \<Rightarrow> string option \<Rightarrow> string \<Rightarrow> int
     \<Rightarrow> egress_configuration list \<Rightarrow> egress_tunnel outcome"
where
  "openTunnel b64 lookup authorization url now configurations =
     (case proxyConfiguration b64 authorization configurations of
        None \<Rightarrow> Inl (QubiclError ''proxy_authentication_required'' 407)
      | Some c \<Rightarrow>
          rbind (connectTarget url) (\<lambda>(host, port).
            rbind (authorizeTarget lookup host port now (eg_policy c)) (\<lambda>(address, expiresAt).
              Inr \<lparr>tn_configuration = eg_id c, tn_host = host, tn_port = port, tn_address = address,
                   tn_expiresAt = expiresAt, tn_open = True\<rparr>)))"

definition tunnel_deadline :: "egress_tunnel \<Rightarrow> int \<Rightarrow> int option" where
  "tunnel_deadline t openedAt =
     (case tn_expiresAt t of None \<Rightarrow> None | Some e \<Rightarrow> Some (openedAt + max 1 (e - openedAt + 1)))"

fun is_allowed :: "network_decision \<Rightarrow> bool" where
  "is_allowed (NetAllowed _) = True"
| "is_allowed (NetDenied _) = False"

definition policyTick :: "int \<Rightarrow> egress_configuration list \<Rightarrow> egress_tunnel \<Rightarrow> egress_tunnel" where
  "policyTick now configurations t =
     (case List.find (\<lambda>c. eg_id c = tn_configuration t) configurations of
        None \<Rightarrow> t\<lparr>tn_open := False\<rparr>
      | Some c \<Rightarrow>
          if is_allowed (policyAllows (tn_host t) (tn_port t) now (eg_policy c)) then t
          else t\<lparr>tn_open := False\<rparr>)"

section \<open>Headers\<close>

type_synonym headers = "(string, string) js_map"

definition sanitizedForwardHeaders :: "headers \<Rightarrow> string \<Rightarrow> headers" where
  "sanitizedForwardHeaders headers host =
     AList.delete ''proxy-connection'' (AList.delete ''proxy-authorization'' (AList.update ''host'' host headers))"

definition sanitizedResponseHeaders :: "headers \<Rightarrow> bool \<Rightarrow> headers" where
  "sanitizedResponseHeaders headers broker =
     filter (\<lambda>(name, v). name \<noteq> ''proxy-authenticate'' \<and> (\<not> broker \<or> name \<noteq> ''set-cookie'')) headers"

section \<open>Paths of the broker\<close>

record parsed_url =
  url_protocol :: string
  url_username :: string
  url_password :: string
  url_host :: string
  url_port :: string
  url_search :: string
  url_hash :: string

definition credential_scope_denied :: qubicl_error where
  "credential_scope_denied = QubiclError ''credential_scope_denied'' 403"

definition raw_path :: "string \<Rightarrow> string" where
  "raw_path value = takeWhile (\<lambda>c. c \<noteq> CHR ''?'') value"

definition is_control :: "char \<Rightarrow> bool" where
  "is_control c = ((of_char c :: nat) < 32 \<or> (of_char c :: nat) = 127)"

fun has_double_slash :: "string \<Rightarrow> bool" where
  "has_double_slash (a # b # s) = (a = CHR ''/'' \<and> b = CHR ''/'' \<or> has_double_slash (b # s))"
| "has_double_slash s = False"

text \<open>The escapes \<open>%2e\<close>, \<open>%2f\<close> and \<open>%5c\<close>, in either case.\<close>

fun has_hidden_separator :: "string \<Rightarrow> bool" where
  "has_hidden_separator (a # b # c # s) =
     (a = CHR ''%'' \<and> to_lower [b, c] \<in> {''2e'', ''2f'', ''5c''} \<or> has_hidden_separator (b # c # s))"
| "has_hidden_separator s = False"

definition canonical_path :: "string \<Rightarrow> bool" where
  "canonical_path value =
     (let rawPath = raw_path value in
      starts_with rawPath ''/'' \<and> CHR 0x5C \<notin> set rawPath \<and> CHR ''#'' \<notin> set value
      \<and> \<not> list_ex is_control rawPath \<and> \<not> has_double_slash rawPath \<and> \<not> has_hidden_separator rawPath
      \<and> list_all (\<lambda>segment. segment \<noteq> ''.'' \<and> segment \<noteq> ''..'') (split_on CHR ''/'' rawPath))"

text \<open>\<open>new URL(value, base)\<close> for a canonical absolute path: trailing spaces are dropped when the
  path ends the text, and the characters of the path percent-encode set are escaped byte by byte.\<close>

definition upper_hex_char :: "nat \<Rightarrow> char" where
  "upper_hex_char n = ''0123456789ABCDEF'' ! n"

definition percent_byte :: "nat \<Rightarrow> string" where
  "percent_byte b = [CHR ''%'', upper_hex_char (b div 16), upper_hex_char (b mod 16)]"

definition encode_path_char :: "char \<Rightarrow> string" where
  "encode_path_char c = (let n = (of_char c :: nat) in
     if n \<ge> 128 then percent_byte (192 + n div 64) @ percent_byte (128 + n mod 64)
     else if n \<le> 32 \<or> n = 127 \<or> c \<in> {CHR 0x22, CHR ''#'', CHR ''<'', CHR ''>'', CHR ''?'', CHR ''^'', CHR 0x60, CHR ''{'', CHR ''}''}
     then percent_byte n else [c])"

definition drop_trailing_spaces :: "string \<Rightarrow> string" where
  "drop_trailing_spaces s = rev (dropWhile (\<lambda>c. (of_char c :: nat) \<le> 32) (rev s))"

definition resolved_pathname :: "string \<Rightarrow> string" where
  "resolved_pathname value = concat (map encode_path_char (raw_path (drop_trailing_spaces value)))"

definition resolved_search :: "string \<Rightarrow> string" where
  "resolved_search value =
     (let q = dropWhile (\<lambda>c. c \<noteq> CHR ''?'') (drop_trailing_spaces value) in if length q \<le> 1 then [] else q)"

definition pathWithinPrefix :: "string \<Rightarrow> string \<Rightarrow> bool" where
  "pathWithinPrefix path prefix =
     (let normalized = (if ends_with prefix ''/'' then prefix else prefix @ ''/'')
      in path = prefix \<or> starts_with path normalized)"

definition canonicalBrokerTarget ::
  "parsed_url option \<Rightarrow> string \<Rightarrow> string \<Rightarrow> (string \<times> string) outcome"
where
  "canonicalBrokerTarget base requestedPath configuredPrefix =
     (case base of
        None \<Rightarrow> Inl credential_scope_denied
      | Some b \<Rightarrow>
          if url_protocol b \<noteq> ''https:'' \<or> url_username b \<noteq> [] \<or> url_password b \<noteq> []
             \<or> url_search b \<noteq> [] \<or> url_hash b \<noteq> []
          then Inl credential_scope_denied
          else if \<not> canonical_path requestedPath \<or> \<not> canonical_path configuredPrefix
          then Inl credential_scope_denied
          else if resolved_search configuredPrefix \<noteq> [] then Inl credential_scope_denied
          else if \<not> pathWithinPrefix (resolved_pathname requestedPath) (resolved_pathname configuredPrefix)
          then Inl credential_scope_denied
          else Inr (resolved_pathname requestedPath, resolved_search requestedPath))"

section \<open>Brokered requests\<close>

record broker_credential =
  bc_id :: string
  bc_baseUrl :: "parsed_url option"
  bc_pathPrefix :: string
  bc_methods :: "string list"
  bc_header :: string
  bc_value :: string
  bc_expiresAt :: "int option"

record broker_body =
  bb_credentialId :: string
  bb_method :: string
  bb_path :: string
  bb_headers :: headers

record broker_outgoing =
  bo_address :: string
  bo_port :: nat
  bo_method :: string
  bo_path :: string
  bo_headers :: headers
  bo_expiresAt :: "int option"

definition hop_headers :: "string list" where
  "hop_headers = [''authorization'', ''cookie'', ''host'', ''connection'', ''proxy-authorization'',
     ''proxy-connection'', ''te'', ''trailer'', ''transfer-encoding'', ''upgrade'']"

definition delete_all :: "string list \<Rightarrow> headers \<Rightarrow> headers" where
  "delete_all names headers = filter (\<lambda>(name, v). name \<notin> set names) headers"

definition to_upper_char :: "char \<Rightarrow> char" where
  "to_upper_char c = (let n = (of_char c :: nat) in if 97 \<le> n \<and> n \<le> 122 then char_of (n - 32) else c)"

definition brokerRequest ::
  "(string \<Rightarrow> string list) \<Rightarrow> int \<Rightarrow> network_policy \<Rightarrow> broker_credential list option \<Rightarrow> broker_body
     \<Rightarrow> broker_outgoing outcome"
where
  "brokerRequest lookup now policy credentials body =
     (if np_profile policy = Offline then Inl network_policy_denied
      else (case credentials of
          None \<Rightarrow> Inl (QubiclError ''broker_unconfigured'' 404)
        | Some cs \<Rightarrow>
            (case List.find (\<lambda>c. bc_id c = bb_credentialId body) cs of
               None \<Rightarrow> Inl (QubiclError ''credential_unavailable'' 404)
             | Some c \<Rightarrow>
                 if (case bc_expiresAt c of None \<Rightarrow> False | Some e \<Rightarrow> e \<le> now)
                 then Inl (QubiclError ''credential_unavailable'' 404)
                 else
                   (let method = map to_upper_char (bb_method body) in
                    if method \<notin> set (bc_methods c) then Inl credential_scope_denied
                    else rbind (canonicalBrokerTarget (bc_baseUrl c) (bb_path body) (bc_pathPrefix c))
                      (\<lambda>(pathname, search).
                        (let base = the (bc_baseUrl c);
                             port = (if url_port base = [] then 443 else read_nat (url_port base))
                         in rbind (authorizeTarget lookup (url_host base) port now policy)
                              (\<lambda>(address, expiresAt).
                                Inr \<lparr>bo_address = address, bo_port = port, bo_method = method,
                                     bo_path = pathname @ search,
                                     bo_headers = AList.update (bc_header c) (bc_value c)
                                       (AList.update ''host'' (url_host base)
                                         (delete_all (hop_headers @ [to_lower (bc_header c)]) (bb_headers body))),
                                     bo_expiresAt = expiresAt\<rparr>)))))))"

section \<open>Redaction\<close>

definition MAX_BROKER_RESPONSE_BYTES :: nat where
  "MAX_BROKER_RESPONSE_BYTES = 2000000"

text \<open>\<open>replaceAll\<close> with a text that is not empty.\<close>

function replace_all :: "string \<Rightarrow> string \<Rightarrow> string \<Rightarrow> string" where
  "replace_all needle replacement [] = []"
| "replace_all needle replacement (c # s) =
     (if needle \<noteq> [] \<and> starts_with (c # s) needle
      then replacement @ replace_all needle replacement (drop (length needle) (c # s))
      else c # replace_all needle replacement s)"
  by pat_completeness auto
termination
proof (relation "measure (\<lambda>(n, r, s). length s)")
  show "wf (measure (\<lambda>(n :: string, r :: string, s :: string). length s))" by simp
next
  fix needle replacement c s
  assume "needle \<noteq> [] \<and> starts_with (c # s) needle"
  then have "length needle > 0" by simp
  then show "((needle, replacement, drop (length needle) (c # s)), needle, replacement, c # s)
      \<in> measure (\<lambda>(n :: string, r :: string, s :: string). length s)" by simp
qed simp

definition redacted_text :: string where
  "redacted_text = ''[REDACTED]''"

definition redactCredentialText :: "string \<Rightarrow> string \<Rightarrow> string" where
  "redactCredentialText value credential =
     (if credential = [] then value else replace_all credential redacted_text value)"

text \<open>\<open>indexOf\<close> from an offset.\<close>

fun index_of :: "string \<Rightarrow> string \<Rightarrow> nat option" where
  "index_of [] needle = (if needle = [] then Some 0 else None)"
| "index_of (c # s) needle = (if starts_with (c # s) needle then Some 0 else map_option Suc (index_of s needle))"

definition broker_response_too_large :: qubicl_error where
  "broker_response_too_large = QubiclError ''broker_response_too_large'' 502"

lemma starts_with_length: "starts_with s p \<Longrightarrow> length p \<le> length s"
  by (auto simp: starts_with_iff)

lemma index_of_Some_length: "index_of s needle = Some i \<Longrightarrow> i + length needle \<le> length s"
  by (induction s needle arbitrary: i rule: index_of.induct)
    (auto split: if_splits dest: starts_with_length)

text \<open>The loop over the occurrences: the rest of the value, the size so far and the output so far.\<close>

function redact_loop :: "string \<Rightarrow> string \<Rightarrow> nat \<Rightarrow> string \<Rightarrow> string outcome" where
  "redact_loop needle rest sz out =
     (if needle = [] then Inr (out @ rest)
      else (case index_of rest needle of
          None \<Rightarrow> Inr (out @ rest)
        | Some index \<Rightarrow>
            (let total = sz + length redacted_text - length needle in
             if total > MAX_BROKER_RESPONSE_BYTES then Inl broker_response_too_large
             else redact_loop needle (drop (index + length needle) rest) total (out @ take index rest @ redacted_text))))"
  by pat_completeness auto
termination
  by (relation "measure (\<lambda>(n, r, z, out). length r)") (auto dest!: index_of_Some_length
    simp: length_greater_0_conv [symmetric] simp del: length_greater_0_conv)

declare redact_loop.simps [simp del]

definition redactCredentialBuffer :: "string \<Rightarrow> string \<Rightarrow> string outcome" where
  "redactCredentialBuffer value credential =
     (if credential = [] \<or> index_of value credential = None then Inr value
      else redact_loop credential value (length value) [])"

section \<open>Brokered responses\<close>

definition digest_headers :: "string list" where
  "digest_headers = [''etag'', ''content-md5'', ''digest'', ''content-digest'', ''repr-digest'']"

text \<open>Decoding in the reverse of the order the encodings were applied in.\<close>

fun decode_all :: "(string \<Rightarrow> string \<Rightarrow> string outcome) \<Rightarrow> string list \<Rightarrow> string \<Rightarrow> string outcome" where
  "decode_all inflate [] data = Inr data"
| "decode_all inflate (e # es) data =
     (if e \<notin> {''gzip'', ''x-gzip'', ''deflate'', ''br''} then Inl (QubiclError ''broker_encoding_unsupported'' 502)
      else rbind (inflate e data) (decode_all inflate es))"

record broker_response =
  br_headers :: headers
  br_body :: string
  br_sourceContentEncoding :: "string option"

definition trim_spaces :: "string \<Rightarrow> string" where
  "trim_spaces s = rev (dropWhile (\<lambda>c. (of_char c :: nat) \<le> 32) (rev (dropWhile (\<lambda>c. (of_char c :: nat) \<le> 32) s)))"

definition source_encoding :: "headers \<Rightarrow> string" where
  "source_encoding headers =
     to_lower (trim_spaces (case map_of headers ''content-encoding'' of None \<Rightarrow> [] | Some v \<Rightarrow> v))"

definition content_encodings :: "headers \<Rightarrow> string list" where
  "content_encodings headers =
     filter (\<lambda>v. v \<noteq> [] \<and> v \<noteq> ''identity'') (map trim_spaces (split_on CHR '','' (source_encoding headers)))"

definition safe_headers :: "headers \<Rightarrow> string \<Rightarrow> bool \<Rightarrow> nat \<Rightarrow> headers" where
  "safe_headers headers credential changed n =
     (let redacted = map (\<lambda>(k, v). (k, redactCredentialText v credential)) (sanitizedResponseHeaders headers True);
          h1 = AList.delete ''transfer-encoding'' (AList.delete ''content-encoding'' redacted);
          h2 = (if changed then delete_all digest_headers h1 else h1)
      in AList.update ''content-length'' (show_nat n) h2)"

definition decodeBrokerResponse ::
  "(string \<Rightarrow> string \<Rightarrow> string outcome) \<Rightarrow> headers \<Rightarrow> string \<Rightarrow> string \<Rightarrow> broker_response outcome"
where
  "decodeBrokerResponse inflate headers data credential =
     (if length data > MAX_BROKER_RESPONSE_BYTES then Inl broker_response_too_large
      else
        (let encodings = content_encodings headers in
         rbind (decode_all inflate (rev encodings) data) (\<lambda>decoded.
         rbind (redactCredentialBuffer decoded credential) (\<lambda>safeData.
           Inr \<lparr>br_headers = safe_headers headers credential (encodings \<noteq> [] \<or> safeData \<noteq> data) (length safeData),
                br_body = safeData,
                br_sourceContentEncoding = (if encodings = [] then None
                  else Some (redactCredentialText (source_encoding headers) credential))\<rparr>))))"

section \<open>The rules as the command line explains them\<close>

definition explainNetworkPolicy :: "network_policy \<Rightarrow> string \<Rightarrow> nat \<Rightarrow> int \<Rightarrow> bool" where
  "explainNetworkPolicy policy host port now =
     (let temporary = list_ex (\<lambda>e. pattern_matches host (ap_domain e) \<and> ap_expiresAt e > now) (np_temporaryApprovals policy);
          denied = list_ex (pattern_matches host) (np_denyDomains policy);
          domainAllowed = list_ex (pattern_matches host) (np_allowDomains policy);
          addressAllowed = (isIP host \<noteq> 0 \<and> addressAllowedByCidrs host (np_allowCidrs policy));
          portAllowed = (port = 80 \<or> port = 443 \<or> port \<in> set (np_allowTcpPorts policy));
          allowed = (case np_profile policy of
              Developer \<Rightarrow> True
            | Offline \<Rightarrow> False
            | WebOnly \<Rightarrow> port = 80 \<or> port = 443
            | Custom \<Rightarrow> portAllowed \<and> (domainAllowed \<or> addressAllowed \<or> temporary))
      in if np_profile policy \<noteq> Developer \<and> denied \<and> \<not> temporary then False else allowed)"

definition approveDomain :: "string \<Rightarrow> int \<Rightarrow> int \<Rightarrow> network_policy \<Rightarrow> network_policy option" where
  "approveDomain domain0 seconds now policy =
     (let domain = to_lower domain0 in
      if seconds < 60 \<or> seconds > 86400 then None
      else Some (policy\<lparr>np_temporaryApprovals :=
          filter (\<lambda>e. ap_domain e \<noteq> domain \<and> ap_expiresAt e > now) (np_temporaryApprovals policy)
          @ [\<lparr>ap_domain = domain, ap_expiresAt = now + seconds * 1000\<rparr>]\<rparr>))"

definition revokeDomain :: "string \<Rightarrow> network_policy \<Rightarrow> network_policy \<times> bool" where
  "revokeDomain domain0 policy =
     (let domain = to_lower domain0;
          remaining = filter (\<lambda>e. ap_domain e \<noteq> domain) (np_temporaryApprovals policy)
      in (policy\<lparr>np_temporaryApprovals := remaining\<rparr>,
          length remaining \<noteq> length (np_temporaryApprovals policy)))"

section \<open>Occurrences of a text\<close>

definition occurs :: "string \<Rightarrow> string \<Rightarrow> bool" where
  "occurs needle s = (index_of s needle \<noteq> None)"

lemma occurs_Nil [simp]: "needle \<noteq> [] \<Longrightarrow> \<not> occurs needle []"
  by (simp add: occurs_def)

lemma occurs_Cons: "needle \<noteq> [] \<Longrightarrow> occurs needle (c # s) \<longleftrightarrow> starts_with (c # s) needle \<or> occurs needle s"
  by (auto simp: occurs_def)

lemma occurs_iff: "needle \<noteq> [] \<Longrightarrow> occurs needle s \<longleftrightarrow> (\<exists>a b. s = a @ needle @ b)"
proof (induction s)
  case (Cons c s)
  show ?case
  proof
    assume "occurs needle (c # s)"
    with Cons have "(\<exists>b. c # s = [] @ needle @ b) \<or> (\<exists>a b. c # s = (c # a) @ needle @ b)"
      by (auto simp: occurs_Cons starts_with_iff)
    then show "\<exists>a b. c # s = a @ needle @ b" by blast
  next
    assume "\<exists>a b. c # s = a @ needle @ b"
    then obtain a b where ab: "c # s = a @ needle @ b" by blast
    show "occurs needle (c # s)"
    proof (cases a)
      case Nil
      with ab have "starts_with (c # s) needle" by (auto simp: starts_with_iff)
      then show ?thesis by (simp add: occurs_def)
    next
      case (Cons x a')
      with ab have "s = a' @ needle @ b" by simp
      with Cons.IH Cons.prems show ?thesis by (auto simp: occurs_Cons)
    qed
  qed
qed simp

lemma starts_with_before: "d \<notin> set needle \<Longrightarrow> starts_with (x @ d # y) needle \<Longrightarrow> starts_with x needle"
  by (induction x needle rule: starts_with.induct) (auto elim: starts_with.elims)

lemma occurs_separated:
  assumes "needle \<noteq> []" and "d \<notin> set needle"
  shows "occurs needle (x @ d # y) \<Longrightarrow> occurs needle x \<or> occurs needle y"
proof (induction x)
  case Nil
  then have "starts_with (d # y) needle \<or> occurs needle y" using assms(1) by (simp add: occurs_Cons)
  moreover have "\<not> starts_with (d # y) needle" using assms by (cases needle) auto
  ultimately show ?case by simp
next
  case (Cons c x)
  then have "starts_with ((c # x) @ d # y) needle \<or> occurs needle (x @ d # y)"
    using assms(1) by (simp add: occurs_Cons)
  then show ?case
    using Cons.IH starts_with_before [OF assms(2), of "c # x" y] assms(1)
    by (auto simp: occurs_Cons)
qed

lemma replace_all_starts:
  assumes "CHR ''['' \<notin> set p"
  shows "starts_with (replace_all needle redacted_text s) p \<Longrightarrow> starts_with s p"
  using assms
proof (induction needle redacted_text s arbitrary: p rule: replace_all.induct)
  case (2 needle c s)
  then show ?case
    by (cases p) (auto simp: redacted_text_def split: if_splits)
qed simp

lemma replace_all_clean:
  assumes "needle \<noteq> []" and "CHR ''['' \<notin> set needle" and "CHR '']'' \<notin> set needle"
    and "\<not> occurs needle ''REDACTED''"
  shows "\<not> occurs needle (replace_all needle redacted_text s)"
  using assms
proof (induction needle redacted_text s rule: replace_all.induct)
  case (2 needle c s)
  show ?case
  proof (cases "starts_with (c # s) needle")
    case True
    let ?rest = "replace_all needle redacted_text (drop (length needle) (c # s))"
    have "\<not> occurs needle ?rest" using 2(1) True 2(3-6) by simp
    with 2(6) have "\<not> (occurs needle ''REDACTED'' \<or> occurs needle ?rest)" by simp
    then have "\<not> occurs needle (''REDACTED'' @ CHR '']'' # ?rest)"
      by (rule contrapos_nn) (rule occurs_separated [OF 2(3,5)])
    with occurs_Nil [OF 2(3)] have "\<not> (occurs needle [] \<or> occurs needle (''REDACTED'' @ CHR '']'' # ?rest))"
      by simp
    then have "\<not> occurs needle ([] @ CHR ''['' # ''REDACTED'' @ CHR '']'' # ?rest)"
      by (rule contrapos_nn) (rule occurs_separated [OF 2(3,4)])
    then show ?thesis using True 2(3) by (simp add: redacted_text_def)
  next
    case False
    have "\<not> starts_with (c # replace_all needle redacted_text s) needle"
    proof
      assume *: "starts_with (c # replace_all needle redacted_text s) needle"
      then obtain n' where n': "needle = c # n'" using 2(3) by (cases needle) auto
      with 2(4) have "CHR ''['' \<notin> set n'" by simp
      from replace_all_starts [OF this, of needle s] * have "starts_with s n'" by (simp add: n')
      with n' False show False by simp
    qed
    with 2 False show ?thesis by (simp add: occurs_Cons)
  qed
qed simp

section \<open>The loop computes the replacement\<close>

lemma replace_all_no_occurrence:
  "needle \<noteq> [] \<Longrightarrow> index_of s needle = None \<Longrightarrow> replace_all needle r s = s"
  by (induction needle r s rule: replace_all.induct) (auto split: if_splits)

lemma replace_all_occurrence:
  "needle \<noteq> [] \<Longrightarrow> index_of s needle = Some i \<Longrightarrow>
    replace_all needle r s = take i s @ r @ replace_all needle r (drop (i + length needle) s)"
proof (induction s arbitrary: i)
  case (Cons c s)
  then show ?case by (cases i) (auto split: if_splits)
qed simp

lemma replace_all_longer:
  "length needle \<le> length r \<Longrightarrow> length s \<le> length (replace_all needle r s)"
proof (induction needle r s rule: replace_all.induct)
  case (2 needle r c s)
  show ?case
  proof (cases "needle \<noteq> [] \<and> starts_with (c # s) needle")
    case True
    with 2(1) [OF True 2(3)] 2(3) show ?thesis by simp
  next
    case False
    with 2 show ?thesis by auto
  qed
qed simp

lemma redact_loop_replace:
  "needle \<noteq> [] \<Longrightarrow> sz = length out + length rest \<Longrightarrow> sz \<le> MAX_BROKER_RESPONSE_BYTES \<Longrightarrow>
    redact_loop needle rest sz out =
      (let final = out @ replace_all needle redacted_text rest
       in if length final \<le> MAX_BROKER_RESPONSE_BYTES then Inr final else Inl broker_response_too_large)"
proof (induction needle rest sz out rule: redact_loop.induct)
  case (1 needle rest sz out)
  show ?case
  proof (cases "index_of rest needle")
    case None
    with 1(2-4) show ?thesis
      by (simp add: redact_loop.simps [of needle rest] replace_all_no_occurrence)
  next
    case (Some i)
    let ?rest = "drop (i + length needle) rest"
    let ?out = "out @ take i rest @ redacted_text"
    let ?total = "sz + length redacted_text - length needle"
    have i: "i + length needle \<le> length rest" using Some by (rule index_of_Some_length)
    have total: "?total = length ?out + length ?rest" using i 1(3) by simp
    have final: "out @ replace_all needle redacted_text rest = ?out @ replace_all needle redacted_text ?rest"
      using replace_all_occurrence [OF 1(2) Some] by simp
    show ?thesis
    proof (cases "?total > MAX_BROKER_RESPONSE_BYTES")
      case True
      with 1(4) have "length needle \<le> length redacted_text" by simp
      from replace_all_longer [OF this, of ?rest] total
      have "?total \<le> length (?out @ replace_all needle redacted_text ?rest)" by simp
      with True show ?thesis
        unfolding final Let_def by (simp add: redact_loop.simps [of needle rest] Some 1(2))
    next
      case False
      then have "redact_loop needle rest sz out = redact_loop needle ?rest ?total ?out"
        by (simp add: redact_loop.simps [of needle rest] Some 1(2))
      also have "\<dots> = (let final = ?out @ replace_all needle redacted_text ?rest
         in if length final \<le> MAX_BROKER_RESPONSE_BYTES then Inr final else Inl broker_response_too_large)"
        using False by (intro 1(1) [OF 1(2) Some refl _ 1(2) total]) simp_all
      finally show ?thesis unfolding final .
    qed
  qed
qed

lemma redactCredentialBuffer_replace:
  assumes "length value \<le> MAX_BROKER_RESPONSE_BYTES"
  shows "redactCredentialBuffer value credential =
    (let final = redactCredentialText value credential
     in if length final \<le> MAX_BROKER_RESPONSE_BYTES then Inr final else Inl broker_response_too_large)"
  using redact_loop_replace [of credential "length value" "[]" "value"] assms
  by (auto simp: redactCredentialBuffer_def redactCredentialText_def replace_all_no_occurrence Let_def)

section \<open>Properties\<close>

lemma latest_SomeD: "latest ts = Some t \<Longrightarrow> t \<in> set ts \<and> (\<forall>u \<in> set ts. u \<le> t)"
  using Max_in [of "set ts"] by (auto simp: latest_def split: if_splits)

lemma latest_None: "latest ts = None \<longleftrightarrow> ts = []"
  by (simp add: latest_def)

text \<open>C9. Whatever DNS answers, an authorised target is pinned to an address the policy permits:
  outside the developer profile it is globally routable or in an approved CIDR, it is the literal
  address asked for or one of the answers, the profile is not offline and its port rule holds,
  and a temporary approval that was needed has not expired.\<close>

theorem authorized_address_is_permitted:
  assumes "authorizeTarget lookup host port now policy = Inr (address, expiresAt)"
  shows "(np_profile policy = Developer \<or> isGloballyRoutableIp address
      \<or> addressAllowedByCidrs address (np_allowCidrs policy))
    \<and> np_profile policy \<noteq> Offline
    \<and> (np_profile policy = WebOnly \<longrightarrow> port = 80 \<or> port = 443)
    \<and> (np_profile policy = Custom \<longrightarrow> port = 80 \<or> port = 443 \<or> port \<in> set (np_allowTcpPorts policy))
    \<and> (address = normalizeEgressHostname host \<or> address \<in> set (lookup (normalizeEgressHostname host)))
    \<and> (\<forall>t. expiresAt = Some t \<longrightarrow> now < t)"
proof -
  let ?n = "normalizeEgressHostname host"
  from assms obtain e where allowed: "policyAllows ?n port now policy = NetAllowed e" and "e = expiresAt"
    and found: "List.find (address_permitted policy) (if isIP ?n \<noteq> 0 then [?n] else lookup ?n) = Some address"
    by (auto simp: authorizeTarget_def Let_def split: network_decision.splits if_splits option.splits)
  have "address_permitted policy address" "address \<in> set (if isIP ?n \<noteq> 0 then [?n] else lookup ?n)"
    using found by (auto simp: find_Some_iff)
  moreover have "latest (active_approvals h now policy) = Some t \<Longrightarrow> now < t" for h t
    by (drule latest_SomeD) (simp add: active_approvals_def)
  ultimately show ?thesis
    using allowed \<open>e = expiresAt\<close>
    by (auto simp: policyAllows_def Let_def address_permitted_def split: if_splits option.splits)
qed

lemmas host_eval = normalizeEgressHostname_def strip_final_dot_def to_lower_def to_lower_char_def isIP_def
  isIPv4_def isIPv6_def ipv4_part_def ipv6_part_def colon_parts_def is_digit_def is_hex_def Let_def

definition demo_policy :: network_policy where
  "demo_policy = \<lparr>np_profile = Custom, np_allowDomains = [''*.b.io''], np_denyDomains = [''x.b.io''],
     np_allowCidrs = [], np_allowTcpPorts = [], np_temporaryApprovals = [\<lparr>ap_domain = ''x.b.io'', ap_expiresAt = 5000\<rparr>]\<rparr>"

lemma demo_hosts:
  "normalizeEgressHostname ''X.b.io'' = ''x.b.io''" "normalizeEgressHostname ''x.b.io'' = ''x.b.io''"
  "normalizeEgressHostname ''*.b.io'' = ''*.b.io''" "isIP ''x.b.io'' = 0"
  by (simp_all add: host_eval)

lemma demo_addresses: "isIP ''10.0.0.1'' = 4" "isIP ''1.2.3.4'' = 4"
  "\<not> isGloballyRoutableIp ''10.0.0.1''" "isGloballyRoutableIp ''1.2.3.4''"
proof -
  show "isIP ''10.0.0.1'' = 4" "isIP ''1.2.3.4'' = 4"
    by (simp_all add: isIP_def isIPv4_def ipv4_part_def is_digit_def read_nat_def digit_value_def)
  then show "\<not> isGloballyRoutableIp ''10.0.0.1''" "isGloballyRoutableIp ''1.2.3.4''"
    by (simp_all add: isGloballyRoutableIp_def isGloballyRoutableIpv4_def digits_value_def is_digit_def
        read_nat_def digit_value_def routable_octets_def)
qed

lemma demo_authorized:
  "authorizeTarget (\<lambda>_. [''10.0.0.1'', ''1.2.3.4'']) ''X.b.io'' 443 1000 demo_policy = Inr (''1.2.3.4'', Some 5000)"
  by (simp add: authorizeTarget_def policyAllows_def demo_policy_def domainMatches_def pattern_matches_def
      active_approvals_def latest_def address_permitted_def addressAllowedByCidrs_def demo_hosts demo_addresses)

theorem authorized_address_is_permitted_witness:
  "isGloballyRoutableIp ''1.2.3.4'' \<or> addressAllowedByCidrs ''1.2.3.4'' []"
  using authorized_address_is_permitted [OF demo_authorized] by (simp add: demo_policy_def)

lemma decode_all_length:
  assumes "\<And>e d d'. inflate e d = Inr d' \<Longrightarrow> length d' \<le> n"
  shows "decode_all inflate es data = Inr decoded \<Longrightarrow> length data \<le> n \<Longrightarrow> length decoded \<le> n"
  by (induction es arbitrary: data) (auto simp: rbind_eq_Inr assms split: if_splits)

lemma safe_headers_clean:
  assumes "credential \<noteq> []" and "CHR ''['' \<notin> set credential" and "CHR '']'' \<notin> set credential"
    and "\<not> occurs credential ''REDACTED''" and "(name, v) \<in> set (safe_headers headers credential changed n)"
  shows "name = ''content-length'' \<or> \<not> occurs credential v"
proof -
  have update: "set (AList.update k v m) \<subseteq> insert (k, v) (set m)" for k v and m :: headers
    by (induction m) auto
  show ?thesis
    using assms(5) replace_all_clean [OF assms(1-4)] assms(1)
    unfolding safe_headers_def Let_def redactCredentialText_def
    by (auto dest!: subsetD [OF update] simp: AList.delete_eq delete_all_def split: if_splits)
qed


definition demo_inflate :: "string \<Rightarrow> string \<Rightarrow> string outcome" where
  "demo_inflate e d = Inl broker_response_too_large"



definition demo_credential :: broker_credential where
  "demo_credential = \<lparr>bc_id = ''k'', bc_baseUrl = Some \<lparr>url_protocol = ''https:'', url_username = [], url_password = [],
     url_host = ''1.2.3.4'', url_port = [], url_search = [], url_hash = []\<rparr>, bc_pathPrefix = ''/v1'', bc_methods = [''GET''],
     bc_header = ''authorization'', bc_value = ''secret'', bc_expiresAt = None\<rparr>"


text \<open>Outside the developer profile the explanation on the command line says what the proxy does:
  for a host in normal form and normalised domain rules, the target is explained as allowed exactly
  when the proxy's policy allows it.\<close>

theorem explanation_agrees_with_proxy:
  assumes "np_profile policy \<noteq> Developer" and "normalizeEgressHostname host = host"
    and "\<forall>d \<in> set (np_allowDomains policy) \<union> set (np_denyDomains policy)
      \<union> set (map ap_domain (np_temporaryApprovals policy)). normalizeEgressHostname d = d"
  shows "explainNetworkPolicy policy host port now \<longleftrightarrow> is_allowed (policyAllows host port now policy)"
proof -
  have lists: "list_ex (domainMatches host) ds = list_ex (pattern_matches host) ds"
    if "\<forall>d \<in> set ds. normalizeEgressHostname d = d" for ds
    using that by (auto simp: list_ex_iff domainMatches_def)
  have deny: "list_ex (domainMatches host) (np_denyDomains policy) = list_ex (pattern_matches host) (np_denyDomains policy)"
    and allow: "list_ex (domainMatches host) (np_allowDomains policy) = list_ex (pattern_matches host) (np_allowDomains policy)"
    using assms(3) by (auto intro!: lists)
  have "active_approvals host now policy \<noteq> [] \<longleftrightarrow>
      list_ex (\<lambda>e. pattern_matches host (ap_domain e) \<and> ap_expiresAt e > now) (np_temporaryApprovals policy)"
    using assms(3) by (auto simp: active_approvals_def filter_empty_conv list_ex_iff domainMatches_def)
  then have live: "list_ex (\<lambda>e. pattern_matches host (ap_domain e) \<and> ap_expiresAt e > now) (np_temporaryApprovals policy)
      \<longleftrightarrow> latest (active_approvals host now policy) \<noteq> None"
    by (simp add: latest_None)
  show ?thesis
    unfolding explainNetworkPolicy_def policyAllows_def assms(2) Let_def deny allow live
    using assms(1) by (cases "np_profile policy") (auto split: option.split)
qed

theorem explanation_agrees_with_proxy_witness:
  "explainNetworkPolicy demo_policy ''x.b.io'' 443 1000 \<longleftrightarrow> is_allowed (policyAllows ''x.b.io'' 443 1000 demo_policy)"
  by (rule explanation_agrees_with_proxy) (auto simp: demo_policy_def demo_hosts)

text \<open>A temporary approval opens exactly its window: from the moment it is granted until its
  duration has passed, every web target that the domain covers is allowed in any online profile,
  the tunnel it opens carries a deadline inside the window, and after the approval is revoked no
  approval of that domain is left, so a denied host is refused again.\<close>

theorem approval_window:
  assumes "approveDomain domain seconds now policy = Some policy'"
    and "np_profile policy \<noteq> Offline" and "port = 80 \<or> port = 443"
    and "domainMatches (normalizeEgressHostname host) (to_lower domain)"
  shows "(\<forall>t. now \<le> t \<and> t < now + 1000 * seconds \<longrightarrow> is_allowed (policyAllows host port t policy'))
    \<and> 60 \<le> seconds \<and> seconds \<le> 86400
    \<and> (\<forall>e \<in> set (np_temporaryApprovals (fst (revokeDomain domain policy'))). ap_domain e \<noteq> to_lower domain)
    \<and> snd (revokeDomain domain policy')"
proof -
  from assms(1) have s: "60 \<le> seconds" "seconds \<le> 86400" and p': "policy' = policy\<lparr>np_temporaryApprovals :=
      filter (\<lambda>e. ap_domain e \<noteq> to_lower domain \<and> ap_expiresAt e > now) (np_temporaryApprovals policy)
      @ [\<lparr>ap_domain = to_lower domain, ap_expiresAt = now + seconds * 1000\<rparr>]\<rparr>"
    by (auto simp: approveDomain_def Let_def split: if_splits)
  have "is_allowed (policyAllows host port t policy')" if "now \<le> t" "t < now + 1000 * seconds" for t
  proof -
    have "latest (active_approvals (normalizeEgressHostname host) t policy') \<noteq> None"
      using that assms(4) by (simp add: p' active_approvals_def latest_None)
    then show ?thesis
      using assms(2,3) by (auto simp: policyAllows_def Let_def p' split: option.split)
  qed
  moreover have "snd (revokeDomain domain policy')"
    using length_filter_le [of "\<lambda>e. ap_domain e \<noteq> to_lower domain"
        "filter (\<lambda>e. ap_domain e \<noteq> to_lower domain \<and> ap_expiresAt e > now) (np_temporaryApprovals policy)"]
    by (simp add: revokeDomain_def Let_def p')
  ultimately show ?thesis using s by (simp add: revokeDomain_def Let_def)
qed

theorem approval_window_witness:
  "\<exists>p'. approveDomain ''X.b.io'' 60 1000 demo_policy = Some p' \<and> is_allowed (policyAllows ''x.b.io'' 443 2000 p')"
proof -
  obtain p' where p': "approveDomain ''X.b.io'' 60 1000 demo_policy = Some p'"
    by (simp add: approveDomain_def Let_def)
  have "domainMatches (normalizeEgressHostname ''x.b.io'') (to_lower ''X.b.io'')"
    by (simp add: demo_hosts to_lower_def to_lower_char_def domainMatches_def pattern_matches_def)
  with approval_window [OF p', of 443 "''x.b.io''"] p' show ?thesis by (simp add: demo_policy_def)
qed

text \<open>A CONNECT tunnel that a temporary approval let through is cut one millisecond after the
  latest approval that covers the host, and a tunnel that survives a check of the policy is one
  that the configuration of its computer, still present, allows at that instant.\<close>

theorem tunnels_follow_the_policy:
  assumes "openTunnel b64 lookup authorization url now configurations = Inr t"
  shows "tn_open t
    \<and> (\<exists>c \<in> set configurations. eg_id c = tn_configuration t \<and> proxyConfiguration b64 authorization configurations = Some c
        \<and> address_permitted (eg_policy c) (tn_address t)
        \<and> (\<forall>e. tn_expiresAt t = Some e \<longrightarrow> tunnel_deadline t now = Some (e + 1) \<and> now < e))
    \<and> (\<forall>later cs. tn_open (policyTick later cs t) \<longrightarrow>
        (\<exists>c \<in> set cs. eg_id c = tn_configuration t \<and> is_allowed (policyAllows (tn_host t) (tn_port t) later (eg_policy c))))"
proof -
  from assms obtain c host port address expiresAt where c: "proxyConfiguration b64 authorization configurations = Some c"
    and auth: "authorizeTarget lookup host port now (eg_policy c) = Inr (address, expiresAt)"
    and t: "t = \<lparr>tn_configuration = eg_id c, tn_host = host, tn_port = port, tn_address = address,
      tn_expiresAt = expiresAt, tn_open = True\<rparr>"
    by (auto simp: openTunnel_def rbind_eq_Inr split: option.splits)
  from c have "c \<in> set configurations"
    by (auto simp: proxyConfiguration_def find_Some_iff split: option.splits if_splits)
  let ?n = "normalizeEgressHostname host"
  from auth have "List.find (address_permitted (eg_policy c)) (if isIP ?n \<noteq> 0 then [?n] else lookup ?n) = Some address"
    and pol: "policyAllows ?n port now (eg_policy c) = NetAllowed expiresAt"
    by (auto simp: authorizeTarget_def Let_def split: network_decision.splits if_splits option.splits)
  then have "address_permitted (eg_policy c) address" by (auto simp: find_Some_iff)
  moreover have "now < e" if "expiresAt = Some e" for e
    using pol that by (auto simp: policyAllows_def Let_def active_approvals_def
        dest!: latest_SomeD split: if_splits option.splits)
  moreover have "\<exists>c \<in> set cs. eg_id c = tn_configuration t \<and> is_allowed (policyAllows (tn_host t) (tn_port t) later (eg_policy c))"
    if "tn_open (policyTick later cs t)" for later cs
    using that by (auto simp: policyTick_def find_Some_iff split: option.splits if_splits)
  ultimately show ?thesis
    using c \<open>c \<in> set configurations\<close> by (auto simp: t tunnel_deadline_def)
qed

definition demo_configuration :: egress_configuration where
  "demo_configuration = \<lparr>eg_id = ''c1'', eg_policy = developer_policy, eg_proxyKey = ''key'', eg_brokerKey = ''b''\<rparr>"

theorem tunnels_follow_the_policy_witness:
  "\<exists>t. openTunnel (\<lambda>s. s) (\<lambda>_. []) (Some ''Basic u:key'') ''1.2.3.4:22'' 0 [demo_configuration] = Inr t
    \<and> \<not> tn_open (policyTick 5 [] t) \<and> tn_open t"
proof -
  have n: "normalizeEgressHostname ''1.2.3.4'' = ''1.2.3.4''"
    by (simp add: normalizeEgressHostname_def strip_final_dot_def to_lower_def to_lower_char_def demo_addresses Let_def)
  then obtain t where t: "openTunnel (\<lambda>s. s) (\<lambda>_. []) (Some ''Basic u:key'') ''1.2.3.4:22'' 0 [demo_configuration] = Inr t"
    by (simp add: openTunnel_def proxyConfiguration_def secretMatches_def after_first_colon_def demo_configuration_def
        connectTarget_def before_last_colon_def after_last_colon_def strip_brackets_def digits_value_def is_digit_def
        read_nat_def digit_value_def authorizeTarget_def policyAllows_def developer_policy_def demo_addresses
        address_permitted_def Let_def)
  from tunnels_follow_the_policy [OF t] t show ?thesis by (metis empty_iff list.set(1))
qed

end
