(* ===== verification/Process_Output.thy ===== *)
theory Process_Output
  imports Utf8 Lease "HOL-Library.Multiset"
begin

text \<open>
  The output of managed processes, \<^verbatim>\<open>packages/control/src/processes.ts\<close>: the record of a
  managed process, the two streams kept in memory with their budget, the journal on disk with its
  records, and the pages a client reads.

  A timer is the time it is due at, when it is armed; a child of a process is known by its number,
  since a restarted service has several. A chunk of output is a list of bytes. The counters that the code subtracts from are integers. The
  log file is part of the record of its process: its content, or \<open>None\<close> once it is removed. A write
  to it succeeds or fails after some bytes, which is an argument.
\<close>

section \<open>Managed processes\<close>

datatype stream_type = Stdout | Stderr

record output_chunk =
  ck_data :: "nat list"
  ck_sequence :: nat

record retained_stream =
  rs_chunks :: "output_chunk list"
  rs_bytes :: int
  rs_truncated :: bool

record journal_record =
  jr_type :: stream_type
  jr_offset :: nat
  jr_length :: nat

datatype process_lifecycle = LSession | LTask | LService
datatype output_mode = Combined | Split
datatype termination_reason = StopReason | TimeoutReason | LifetimeReason | LeaseRevokedReason
datatype service_phase = SQueued | SStarting | SReady | SUnhealthy | SExited | SUnverified

record restart_policy =
  rp_maxAttempts :: int
  rp_backoffMs :: "int option"

record service_probe =
  pb_http :: bool
  pb_port :: int
  pb_host :: "string option"
  pb_path :: "string option"
  pb_expectedStatus :: "int option"
  pb_timeoutMs :: "int option"
  pb_intervalMs :: "int option"
  pb_probeTimeoutMs :: "int option"

record service_options =
  so_readiness :: "service_probe option"
  so_restart :: "restart_policy option"

record service_state =
  ss_state :: service_phase
  ss_restartAttempts :: nat
  ss_nextRestartAt :: "int option"
  ss_lastExitCode :: "int option"
  ss_lastError :: "string option"
  ss_lastCheckedAt :: "int option"

record managed_process =
  mp_id :: string
  mp_label :: string
  mp_lifecycle :: process_lifecycle
  mp_command :: string
  mp_cwd :: string
  mp_sessionId :: "string option"
  mp_compatibilitySession :: bool
  mp_startedAt :: int
  mp_finishedAt :: "int option"
  mp_child :: nat
  mp_pid :: "nat option"
  mp_owner :: lease_proof
  mp_stdout :: retained_stream
  mp_stderr :: retained_stream
  mp_outputBytes :: int
  mp_exitCode :: "int option"
  mp_signal :: "string option"
  mp_maxOutputBytes :: nat
  mp_outputMode :: output_mode
  mp_completed :: bool
  mp_outputFileClosed :: bool
  mp_fullOutputBytes :: int
  mp_outputFileTruncated :: bool
  mp_journal :: "journal_record list"
  mp_pendingStdout :: "nat list"
  mp_pendingStderr :: "nat list"
  mp_log :: "nat list option"
  mp_timeoutMs :: "nat option"
  mp_timedOut :: bool
  mp_requestedSignal :: "string option"
  mp_terminationReason :: "termination_reason option"
  mp_forcedKill :: bool
  mp_serviceOptions :: "service_options option"
  mp_serviceState :: "service_state option"
  mp_restartTimer :: "int option"
  mp_outputPath :: string
  mp_groupLeaderStartTime :: "string option"
  mp_observedGroupMembers :: "(nat, string) js_map"
  mp_expectedUid :: "nat option"
  mp_stdinQueuedBytes :: nat
  mp_stdinEnded :: bool
  mp_timeoutTimer :: "int option"
  mp_lifetimeTimer :: "int option"
  mp_expiryTimer :: "int option"
  mp_cleanupTimer :: "int option"

definition emptyStream :: retained_stream where
  "emptyStream = \<lparr>rs_chunks = [], rs_bytes = 0, rs_truncated = False\<rparr>"

definition stream_of :: "stream_type \<Rightarrow> managed_process \<Rightarrow> retained_stream" where
  "stream_of t m = (case t of Stdout \<Rightarrow> mp_stdout m | Stderr \<Rightarrow> mp_stderr m)"

definition set_stream :: "stream_type \<Rightarrow> retained_stream \<Rightarrow> managed_process \<Rightarrow> managed_process" where
  "set_stream t s m = (case t of Stdout \<Rightarrow> m\<lparr>mp_stdout := s\<rparr> | Stderr \<Rightarrow> m\<lparr>mp_stderr := s\<rparr>)"

definition pending_of :: "stream_type \<Rightarrow> managed_process \<Rightarrow> nat list" where
  "pending_of t m = (case t of Stdout \<Rightarrow> mp_pendingStdout m | Stderr \<Rightarrow> mp_pendingStderr m)"

definition set_pending :: "stream_type \<Rightarrow> nat list \<Rightarrow> managed_process \<Rightarrow> managed_process" where
  "set_pending t d m = (case t of Stdout \<Rightarrow> m\<lparr>mp_pendingStdout := d\<rparr> | Stderr \<Rightarrow> m\<lparr>mp_pendingStderr := d\<rparr>)"

section \<open>Output in memory\<close>

definition first_sequence :: "retained_stream \<Rightarrow> nat option" where
  "first_sequence s = (case rs_chunks s of [] \<Rightarrow> None | c # cs \<Rightarrow> Some (ck_sequence c))"

definition oldestStream :: "managed_process \<Rightarrow> stream_type option" where
  "oldestStream m =
     (case first_sequence (mp_stdout m) of
        None \<Rightarrow> (case first_sequence (mp_stderr m) of None \<Rightarrow> None | Some _ \<Rightarrow> Some Stderr)
      | Some a \<Rightarrow>
          (case first_sequence (mp_stderr m) of
             None \<Rightarrow> Some Stdout
           | Some b \<Rightarrow> if a \<le> b then Some Stdout else Some Stderr))"

text \<open>\<open>drop\<close>: the process afterwards and the number of bytes that went.\<close>

definition drop_bytes :: "nat \<Rightarrow> stream_type \<Rightarrow> managed_process \<Rightarrow> managed_process \<times> nat" where
  "drop_bytes requested t m =
     (let s = stream_of t m in
      case rs_chunks s of
        [] \<Rightarrow> (m, 0)
      | first # rest \<Rightarrow>
          (let bytes = min requested (length (ck_data first));
               chunks = (if bytes = length (ck_data first) then rest
                 else first\<lparr>ck_data := drop bytes (ck_data first)\<rparr> # rest)
           in ((set_stream t \<lparr>rs_chunks = chunks, rs_bytes = rs_bytes s - int bytes, rs_truncated = True\<rparr> m)
                 \<lparr>mp_outputBytes := mp_outputBytes m - int bytes\<rparr>, bytes)))"

definition chunk_measure :: "output_chunk list \<Rightarrow> nat" where
  "chunk_measure cs = sum_list (map (\<lambda>c. Suc (length (ck_data c))) cs)"

definition process_measure :: "managed_process \<Rightarrow> nat" where
  "process_measure m = chunk_measure (rs_chunks (mp_stdout m)) + chunk_measure (rs_chunks (mp_stderr m))"

lemma chunk_measure_simps [simp]:
  "chunk_measure [] = 0" "chunk_measure (c # cs) = Suc (length (ck_data c)) + chunk_measure cs"
  by (simp_all add: chunk_measure_def)

lemma stream_set_stream [simp]:
  "stream_of t (set_stream t s m) = s" "mp_outputBytes (set_stream t s m) = mp_outputBytes m"
  "mp_maxOutputBytes (set_stream t s m) = mp_maxOutputBytes m"
  by (cases t; simp add: stream_of_def set_stream_def)+

lemma drop_bytes_measure:
  assumes "rs_chunks (stream_of t m) \<noteq> []" and "0 < requested"
  shows "process_measure (fst (drop_bytes requested t m)) < process_measure m"
  using assms by (cases t) (auto simp: drop_bytes_def Let_def process_measure_def stream_of_def set_stream_def
      split: list.split)

lemma oldestStream_nonempty: "oldestStream m = Some t \<Longrightarrow> rs_chunks (stream_of t m) \<noteq> []"
  by (auto simp: oldestStream_def first_sequence_def stream_of_def split: option.splits list.splits if_splits)

text \<open>The number of bytes that \<open>trimProcess\<close> removes is returned with the process.\<close>

function trimProcess :: "managed_process \<Rightarrow> managed_process \<times> nat" where
  "trimProcess m =
     (if mp_outputBytes m > int (mp_maxOutputBytes m)
      then (case oldestStream m of
          None \<Rightarrow> (m, 0)
        | Some t \<Rightarrow>
            (let (m', n) = drop_bytes (nat (mp_outputBytes m - int (mp_maxOutputBytes m))) t m;
                 (m'', k) = trimProcess m'
             in (m'', n + k)))
      else (m, 0))"
  by pat_completeness auto
termination
proof (relation "measure process_measure")
  fix m t x m' n
  assume "mp_outputBytes m > int (mp_maxOutputBytes m)" and "oldestStream m = Some t"
    and "x = drop_bytes (nat (mp_outputBytes m - int (mp_maxOutputBytes m))) t m" and "(m', n) = x"
  moreover from this have "m' = fst (drop_bytes (nat (mp_outputBytes m - int (mp_maxOutputBytes m))) t m)"
    by (metis fst_conv)
  ultimately show "(m', m) \<in> measure process_measure"
    using drop_bytes_measure [OF oldestStream_nonempty] by simp
qed simp

declare trimProcess.simps [simp del]

text \<open>The new chunk in the process, before any trimming.\<close>

definition push_chunk :: "stream_type \<Rightarrow> nat list \<Rightarrow> nat \<Rightarrow> managed_process \<Rightarrow> managed_process" where
  "push_chunk t data sequence m =
     (let s = stream_of t m in
      (set_stream t (s\<lparr>rs_chunks := rs_chunks s @ [\<lparr>ck_data = data, ck_sequence = sequence\<rparr>],
         rs_bytes := rs_bytes s + int (length data)\<rparr>) m)
      \<lparr>mp_outputBytes := mp_outputBytes m + int (length data)\<rparr>)"

section \<open>The journal\<close>

definition MAX_JOURNAL_RECORD_BYTES :: nat where "MAX_JOURNAL_RECORD_BYTES = 65536"
definition MAX_PAGE_RECORDS :: nat where "MAX_PAGE_RECORDS = 1000"
definition MAX_PAGE_BYTES :: nat where "MAX_PAGE_BYTES = 262144"

text \<open>\<open>indexOf(0x0a, cursor)\<close>.\<close>

definition find_newline :: "nat list \<Rightarrow> nat \<Rightarrow> nat option" where
  "find_newline data cursor = List.find (\<lambda>i. data ! i = 10) [cursor..<length data]"

definition record_end :: "nat list \<Rightarrow> nat \<Rightarrow> nat" where
  "record_end data cursor =
     (let maximumEnd = min (length data) (cursor + MAX_JOURNAL_RECORD_BYTES) in
      case find_newline data cursor of
        Some newline \<Rightarrow>
          if newline < maximumEnd then newline + 1
          else if maximumEnd < length data
          then (let safe = completeUtf8PrefixLength (take (maximumEnd - cursor) (drop cursor data))
                in if safe = 0 then min (length data) (maximumEnd + 3) else cursor + safe)
          else maximumEnd
      | None \<Rightarrow>
          if maximumEnd < length data
          then (let safe = completeUtf8PrefixLength (take (maximumEnd - cursor) (drop cursor data))
                in if safe = 0 then min (length data) (maximumEnd + 3) else cursor + safe)
          else maximumEnd)"

lemma find_newline_bounds: "find_newline data cursor = Some n \<Longrightarrow> cursor \<le> n \<and> n < length data"
  unfolding find_newline_def find_Some_iff by auto

lemma record_end_bounds:
  assumes "cursor < length data"
  shows "cursor < record_end data cursor \<and> record_end data cursor \<le> length data
    \<and> record_end data cursor \<le> cursor + MAX_JOURNAL_RECORD_BYTES + 3"
proof -
  let ?max = "min (length data) (cursor + MAX_JOURNAL_RECORD_BYTES)"
  have "completeUtf8PrefixLength (take (?max - cursor) (drop cursor data)) \<le> ?max - cursor"
    using completeUtf8PrefixLength_le [of "take (?max - cursor) (drop cursor data)"] by simp
  then show ?thesis
    using assms find_newline_bounds [of data cursor]
    by (auto simp: record_end_def Let_def MAX_JOURNAL_RECORD_BYTES_def split: option.split)
qed

text \<open>The loop from the cursor: the records and the position where it stopped.\<close>

function plan_records :: "stream_type \<Rightarrow> nat \<Rightarrow> nat list \<Rightarrow> nat \<Rightarrow> nat \<Rightarrow> journal_record list \<times> nat" where
  "plan_records t start data cursor maximum =
     (if cursor < length data \<and> 0 < maximum
      then (let e = record_end data cursor; (rs, stop) = plan_records t start data e (maximum - 1)
            in (\<lparr>jr_type = t, jr_offset = start + cursor, jr_length = e - cursor\<rparr> # rs, stop))
      else ([], cursor))"
  by pat_completeness auto
termination
  by (relation "measure (\<lambda>(t, start, data, cursor, maximum). length data - cursor)")
    (use record_end_bounds in \<open>auto intro!: diff_less_mono2\<close>)

declare plan_records.simps [simp del]

definition planJournalRecords :: "stream_type \<Rightarrow> nat \<Rightarrow> nat list \<Rightarrow> nat \<Rightarrow> journal_record list \<times> nat" where
  "planJournalRecords t start data maximumRecords = plan_records t start data 0 maximumRecords"

text \<open>The budgets of the manager that a write to a journal is checked against, and its counters.\<close>

record output_budget =
  ob_maxFullOutputBytes :: nat
  ob_maxAggregateOutputBytes :: nat
  ob_maxJournalRecords :: nat
  ob_maxAggregateJournalRecords :: nat
  ob_maxRetainedOutputBytes :: nat

record output_counters =
  oc_retainedBytes :: int
  oc_aggregateOutputBytes :: int
  oc_aggregateJournalRecords :: int
  oc_outputSequence :: nat

text \<open>\<open>failure\<close> is \<open>None\<close> when the write succeeds and \<open>Some n\<close> when it fails after \<open>n\<close> bytes.\<close>

definition appendJournalBytes ::
  "output_budget \<Rightarrow> nat option \<Rightarrow> stream_type \<Rightarrow> nat list \<Rightarrow> bool \<Rightarrow> managed_process \<Rightarrow> output_counters
     \<Rightarrow> managed_process \<times> output_counters"
where
  "appendJournalBytes b failure t complete preserveUtf8Boundary m c =
     (let remaining = min (int (ob_maxFullOutputBytes b) - mp_fullOutputBytes m)
            (if mp_compatibilitySession m then int (ob_maxAggregateOutputBytes b) - oc_aggregateOutputBytes c
             else int (ob_maxFullOutputBytes b) - mp_fullOutputBytes m)
      in if remaining \<le> 0 then (m\<lparr>mp_outputFileTruncated := True\<rparr>, c)
      else
        (let requestedBytes = min (length complete) (nat remaining);
             safeBytes = (if \<not> preserveUtf8Boundary \<or> requestedBytes = length complete then requestedBytes
               else completeUtf8PrefixLength (take requestedBytes complete));
             candidate = take safeBytes complete;
             availableRecords = nat (min (int (ob_maxJournalRecords b) - int (length (mp_journal m)))
               (int (ob_maxAggregateJournalRecords b) - oc_aggregateJournalRecords c));
             planned = (if mp_compatibilitySession m
               then planJournalRecords t (nat (mp_fullOutputBytes m)) candidate availableRecords
               else ([], length candidate));
             retained = take (snd planned) candidate
         in case failure of
              None \<Rightarrow>
                ((m\<lparr>mp_log := map_option (\<lambda>l. l @ retained) (mp_log m),
                    mp_fullOutputBytes := mp_fullOutputBytes m + int (length retained),
                    mp_journal := mp_journal m @ fst planned,
                    mp_outputFileTruncated := (mp_outputFileTruncated m \<or> length retained < length complete),
                    mp_pendingStdout := (if length retained < length complete then [] else mp_pendingStdout m),
                    mp_pendingStderr := (if length retained < length complete then [] else mp_pendingStderr m)\<rparr>),
                 c\<lparr>oc_aggregateOutputBytes := oc_aggregateOutputBytes c + int (length retained),
                   oc_aggregateJournalRecords := oc_aggregateJournalRecords c + int (length (fst planned))\<rparr>)
            | Some n \<Rightarrow>
                (m\<lparr>mp_log := map_option (\<lambda>l. l @ take n retained) (mp_log m), mp_outputFileTruncated := True\<rparr>, c)))"

definition appendJournal ::
  "output_budget \<Rightarrow> nat option \<Rightarrow> stream_type \<Rightarrow> nat list \<Rightarrow> bool \<Rightarrow> managed_process \<Rightarrow> output_counters
     \<Rightarrow> managed_process \<times> output_counters"
where
  "appendJournal b failure t chunk final m c =
     (if mp_outputFileTruncated m \<or> mp_outputFileClosed m then (m, c)
      else if \<not> mp_compatibilitySession m
      then (if final then (m, c) else appendJournalBytes b failure t chunk False m c)
      else
        (let combined = pending_of t m @ chunk;
             completeBytes = (if final then length combined else completeUtf8PrefixLength combined);
             m1 = set_pending t (drop completeBytes combined) m
         in if completeBytes = 0 then (m1, c)
            else appendJournalBytes b failure t (take completeBytes combined) True m1 c))"

section \<open>Reading\<close>

record compat_page =
  cp_output :: "(stream_type \<times> nat list) list"
  cp_truncated :: bool
  cp_nextOffset :: nat

text \<open>The loop over the records from \<open>next\<close> on, with the bytes and the records read so far.\<close>

function read_records ::
  "nat list \<Rightarrow> journal_record list \<Rightarrow> nat \<Rightarrow> nat \<Rightarrow> nat \<Rightarrow> (stream_type \<times> nat list) list \<times> nat"
where
  "read_records log journal next bytes taken =
     (if next < length journal \<and> taken < MAX_PAGE_RECORDS
         \<and> \<not> bytes + jr_length (journal ! next) > MAX_PAGE_BYTES
      then (let r = journal ! next;
                (out, stop) = read_records log journal (Suc next) (bytes + jr_length r) (Suc taken)
            in ((jr_type r, take (jr_length r) (drop (jr_offset r) log)) # out, stop))
      else ([], next))"
  by pat_completeness auto
termination by (relation "measure (\<lambda>(l, j, n, b, c). length j - n)") auto

declare read_records.simps [simp del]

definition process_journal_unavailable :: qubicl_error where
  "process_journal_unavailable = QubiclError ''process_journal_unavailable'' 500"

definition compatibilityPage :: "managed_process \<Rightarrow> nat \<Rightarrow> nat option \<Rightarrow> compat_page outcome" where
  "compatibilityPage m requestedOffset tail =
     (let start = (case tail of None \<Rightarrow> min requestedOffset (length (mp_journal m))
            | Some t \<Rightarrow> length (mp_journal m) - t)
      in case mp_log m of
           None \<Rightarrow> Inl process_journal_unavailable
         | Some log \<Rightarrow>
             if int (length log) \<noteq> mp_fullOutputBytes m then Inl process_journal_unavailable
             else (let (out, stop) = read_records log (mp_journal m) start 0 0
                   in Inr \<lparr>cp_output = out,
                        cp_truncated = (mp_outputFileTruncated m \<or> stop < length (mp_journal m)),
                        cp_nextOffset = stop\<rparr>))"

text \<open>What a poll returns of the output in memory: by arrival when combined, else by stream.\<close>

definition chunk_text :: "output_chunk list \<Rightarrow> nat list" where
  "chunk_text cs = concat (map ck_data cs)"

definition combined_output :: "managed_process \<Rightarrow> nat list" where
  "combined_output m =
     chunk_text (sort_key ck_sequence (rs_chunks (mp_stdout m) @ rs_chunks (mp_stderr m)))"

record consumed =
  cs_output :: "nat list option"
  cs_stdout :: "nat list option"
  cs_stderr :: "nat list option"
  cs_inlineTruncated :: "stream_type list"
  cs_logTruncated :: bool

definition consume :: "managed_process \<Rightarrow> output_counters \<Rightarrow> managed_process \<times> output_counters \<times> consumed" where
  "consume m c =
     (m\<lparr>mp_stdout := emptyStream, mp_stderr := emptyStream, mp_outputBytes := 0\<rparr>,
      c\<lparr>oc_retainedBytes := oc_retainedBytes c - mp_outputBytes m\<rparr>,
      \<lparr>cs_output = (if mp_outputMode m = Split then None else Some (combined_output m)),
       cs_stdout = (if mp_outputMode m = Split then Some (chunk_text (rs_chunks (mp_stdout m))) else None),
       cs_stderr = (if mp_outputMode m = Split then Some (chunk_text (rs_chunks (mp_stderr m))) else None),
       cs_inlineTruncated = (if rs_truncated (mp_stdout m) then [Stdout] else [])
         @ (if rs_truncated (mp_stderr m) then [Stderr] else []),
       cs_logTruncated = mp_outputFileTruncated m\<rparr>)"

section \<open>The bytes in memory are accounted for\<close>

definition all_chunks :: "managed_process \<Rightarrow> output_chunk list" where
  "all_chunks m = rs_chunks (mp_stdout m) @ rs_chunks (mp_stderr m)"

definition chunks_ok :: "managed_process \<Rightarrow> bool" where
  "chunks_ok m = (sorted (map ck_sequence (rs_chunks (mp_stdout m))) \<and> sorted (map ck_sequence (rs_chunks (mp_stderr m)))
     \<and> distinct (map ck_sequence (all_chunks m))
     \<and> rs_bytes (mp_stdout m) = int (length (chunk_text (rs_chunks (mp_stdout m))))
     \<and> rs_bytes (mp_stderr m) = int (length (chunk_text (rs_chunks (mp_stderr m))))
     \<and> mp_outputBytes m = int (length (combined_output m)))"

lemma chunk_text_simps [simp]:
  "chunk_text [] = []" "chunk_text (c # cs) = ck_data c @ chunk_text cs"
  "chunk_text (cs @ ds) = chunk_text cs @ chunk_text ds"
  by (simp_all add: chunk_text_def)

lemma length_chunk_text_mset: "mset cs = mset ds \<Longrightarrow> length (chunk_text cs) = length (chunk_text ds)"
proof -
  have "length (chunk_text cs) = sum_mset (image_mset (\<lambda>c. length (ck_data c)) (mset cs))" for cs
    by (induction cs) auto
  then show "mset cs = mset ds \<Longrightarrow> ?thesis" by simp
qed

lemma length_combined: "length (combined_output m) = length (chunk_text (all_chunks m))"
  unfolding combined_output_def all_chunks_def [symmetric] by (rule length_chunk_text_mset) simp

lemma sort_key_head:
  assumes "mset xs = add_mset c (mset ys)" and "distinct (map f xs)" and "\<forall>d \<in> set xs. f c \<le> f d"
  shows "sort_key f xs = c # sort_key f ys"
proof (rule sort_key_inj_key_eq)
  show "mset xs = mset (c # sort_key f ys)" using assms(1) by simp
  show "inj_on f (set xs)" using assms(2) by (simp add: distinct_map)
  have "set xs = insert c (set ys)" using assms(1) by (metis set_mset_add_mset_insert set_mset_mset)
  then show "sorted (map f (c # sort_key f ys))" using assms(3) by simp
qed

lemma sort_key_last:
  assumes "mset xs = add_mset c (mset ys)" and "distinct (map f xs)" and "\<forall>d \<in> set xs. f d \<le> f c"
  shows "sort_key f xs = sort_key f ys @ [c]"
proof (rule sort_key_inj_key_eq)
  show "mset xs = mset (sort_key f ys @ [c])" using assms(1) by simp
  show "inj_on f (set xs)" using assms(2) by (simp add: distinct_map)
  have "set xs = insert c (set ys)" using assms(1) by (metis set_mset_add_mset_insert set_mset_mset)
  then show "sorted (map f (sort_key f ys @ [c]))" using assms(3) by (simp add: sorted_append)
qed

lemma oldest_is_minimal:
  assumes "chunks_ok m" and "oldestStream m = Some t" and "rs_chunks (stream_of t m) = c # rest"
  shows "\<forall>d \<in> set (all_chunks m). ck_sequence c \<le> ck_sequence d"
  using assms
  by (cases t) (auto simp: chunks_ok_def oldestStream_def first_sequence_def stream_of_def all_chunks_def
      split: option.splits list.splits if_splits)

lemma drop_bytes_combined:
  assumes ok: "chunks_ok m" and t: "oldestStream m = Some t" and m': "drop_bytes requested t m = (m', n)"
  shows "chunks_ok m' \<and> combined_output m' = drop n (combined_output m) \<and> n \<le> length (combined_output m)
    \<and> mp_outputBytes m' = mp_outputBytes m - int n \<and> n \<le> requested
    \<and> mp_maxOutputBytes m' = mp_maxOutputBytes m"
proof -
  obtain c rest where c: "rs_chunks (stream_of t m) = c # rest"
    using oldestStream_nonempty [OF t] by (cases "rs_chunks (stream_of t m)") auto
  note minimal = oldest_is_minimal [OF ok t c]
  define others where "others = (case t of Stdout \<Rightarrow> rest @ rs_chunks (mp_stderr m) | Stderr \<Rightarrow> rs_chunks (mp_stdout m) @ rest)"
  have all: "mset (all_chunks m) = add_mset c (mset others)"
    using c by (cases t) (simp_all add: all_chunks_def others_def stream_of_def)
  have distinct: "distinct (map ck_sequence (all_chunks m))" using ok by (simp add: chunks_ok_def)
  have sorted: "sort_key ck_sequence (all_chunks m) = c # sort_key ck_sequence others"
    by (rule sort_key_head [OF all distinct minimal])
  have n: "n = min requested (length (ck_data c))"
    using m' c by (simp add: drop_bytes_def Let_def)
  define c' where "c' = c\<lparr>ck_data := drop n (ck_data c)\<rparr>"
  have chunks': "rs_chunks (stream_of t m') = (if n = length (ck_data c) then rest else c' # rest)"
    and bytes': "rs_bytes (stream_of t m') = rs_bytes (stream_of t m) - int n"
    and out': "mp_outputBytes m' = mp_outputBytes m - int n" "mp_maxOutputBytes m' = mp_maxOutputBytes m"
    using m' c n by (cases t; auto simp: drop_bytes_def Let_def stream_of_def set_stream_def c'_def)+
  have same: "stream_of u m' = stream_of u m" if "u \<noteq> t" for u
    using m' c that by (cases t; cases u) (auto simp: drop_bytes_def Let_def stream_of_def set_stream_def)
  have all': "mset (all_chunks m') = (if n = length (ck_data c) then mset others else add_mset c' (mset others))"
    using chunks' same [of Stdout] same [of Stderr]
    by (cases t) (auto simp: all_chunks_def others_def stream_of_def)
  have seq: "ck_sequence c' = ck_sequence c" by (simp add: c'_def)
  have set_others: "set others \<subseteq> set (all_chunks m)" "set (all_chunks m) = insert c (set others)"
    using all by (metis set_mset_add_mset_insert set_mset_mset subset_insertI)+
  have by_mset: "distinct (map ck_sequence xs) = distinct (map ck_sequence ys)" if "mset xs = mset ys" for xs ys
    using that by (intro mset_eq_imp_distinct_iff) simp
  have "distinct (map ck_sequence (c # others))"
    using distinct by_mset [of "all_chunks m" "c # others"] all by simp
  moreover have "mset (all_chunks m') = mset (if n = length (ck_data c) then others else c' # others)"
    using all' by simp
  ultimately have distinct': "distinct (map ck_sequence (all_chunks m'))"
    using by_mset [of "all_chunks m'"] by (auto simp: seq split: if_splits)
  have "chunk_text (sort_key ck_sequence (all_chunks m')) = drop n (chunk_text (sort_key ck_sequence (all_chunks m)))"
  proof (cases "n = length (ck_data c)")
    case True
    then have "mset (all_chunks m') = mset others" using all' by simp
    moreover have "inj_on ck_sequence (set (all_chunks m'))" using distinct' by (simp add: distinct_map)
    ultimately have "sort_key ck_sequence (all_chunks m') = sort_key ck_sequence others"
      by (intro sort_key_inj_key_eq) simp_all
    with True sorted show ?thesis by simp
  next
    case False
    then have *: "mset (all_chunks m') = add_mset c' (mset others)" using all' by simp
    then have "set (all_chunks m') = insert c' (set others)" by (metis set_mset_add_mset_insert set_mset_mset)
    with minimal set_others(1) have "\<forall>d \<in> set (all_chunks m'). ck_sequence c' \<le> ck_sequence d"
      by (auto simp: seq)
    from sort_key_head [OF * distinct' this] sorted n show ?thesis by (simp add: c'_def)
  qed
  then have comb: "combined_output m' = drop n (combined_output m)"
    by (simp add: combined_output_def all_chunks_def)
  have len: "n \<le> length (combined_output m)"
    using sorted n by (simp add: combined_output_def all_chunks_def [symmetric])
  have "rs_bytes (stream_of u m') = int (length (chunk_text (rs_chunks (stream_of u m'))))
    \<and> sorted (map ck_sequence (rs_chunks (stream_of u m')))" for u
  proof -
    have old: "rs_bytes (stream_of u m) = int (length (chunk_text (rs_chunks (stream_of u m))))
      \<and> sorted (map ck_sequence (rs_chunks (stream_of u m)))"
      using ok by (cases u) (simp_all add: chunks_ok_def stream_of_def)
    show ?thesis
    proof (cases "u = t")
      case True
      with old c n show ?thesis by (auto simp: chunks' bytes' seq c'_def)
    qed (use old same in simp)
  qed
  from this [of Stdout] this [of Stderr] distinct' comb len out'(1) ok
  have "chunks_ok m'" by (simp add: chunks_ok_def stream_of_def)
  with comb len out' n show ?thesis by simp
qed

lemma no_oldest_no_output: "chunks_ok m \<Longrightarrow> oldestStream m = None \<Longrightarrow> mp_outputBytes m = 0"
  by (auto simp: oldestStream_def first_sequence_def chunks_ok_def length_combined all_chunks_def
      split: option.splits list.splits if_splits)

text \<open>Trimming removes exactly the excess, from the oldest byte on.\<close>

lemma trimProcess_combined:
  "chunks_ok m \<Longrightarrow> trimProcess m = (m', n) \<Longrightarrow>
    chunks_ok m' \<and> combined_output m' = drop n (combined_output m)
    \<and> int n = max 0 (mp_outputBytes m - int (mp_maxOutputBytes m))
    \<and> mp_outputBytes m' = mp_outputBytes m - int n \<and> mp_maxOutputBytes m' = mp_maxOutputBytes m"
proof (induction m arbitrary: m' n rule: trimProcess.induct)
  case (1 m)
  show ?case
  proof (cases "mp_outputBytes m > int (mp_maxOutputBytes m)")
    case True
    with no_oldest_no_output [OF 1(2)] obtain t where t: "oldestStream m = Some t"
      by (cases "oldestStream m") auto
    let ?req = "nat (mp_outputBytes m - int (mp_maxOutputBytes m))"
    obtain m1 k where d: "drop_bytes ?req t m = (m1, k)" by fastforce
    note step = drop_bytes_combined [OF 1(2) t d]
    obtain m2 l where rec: "trimProcess m1 = (m2, l)" by fastforce
    have eq: "m' = m2" "n = k + l"
      using 1(3) True t d rec by (simp_all add: trimProcess.simps [of m])
    from 1(1) [OF True t d [symmetric] refl _ rec] step
    have "chunks_ok m2" "combined_output m2 = drop l (combined_output m1)"
      "int l = max 0 (mp_outputBytes m1 - int (mp_maxOutputBytes m1))"
      "mp_outputBytes m2 = mp_outputBytes m1 - int l" "mp_maxOutputBytes m2 = mp_maxOutputBytes m1" by auto
    with step True show ?thesis by (auto simp: eq add.commute)
  next
    case False
    with 1 show ?thesis by (simp add: trimProcess.simps [of m])
  qed
qed

lemma all_chunks_push:
  "mset (all_chunks (push_chunk t data q m)) = add_mset \<lparr>ck_data = data, ck_sequence = q\<rparr> (mset (all_chunks m))"
  by (cases t) (simp_all add: push_chunk_def Let_def all_chunks_def stream_of_def set_stream_def)

lemma push_chunk_combined:
  assumes ok: "chunks_ok m" and fresh: "\<forall>d \<in> set (all_chunks m). ck_sequence d < q"
  shows "chunks_ok (push_chunk t data q m) \<and> combined_output (push_chunk t data q m) = combined_output m @ data"
proof -
  let ?m = "push_chunk t data q m" and ?c = "\<lparr>ck_data = data, ck_sequence = q\<rparr>"
  note all = all_chunks_push [of t data q m]
  then have set: "set (all_chunks ?m) = insert ?c (set (all_chunks m))"
    by (metis set_mset_add_mset_insert set_mset_mset)
  have "distinct (map ck_sequence (?c # all_chunks m))"
    using ok fresh by (auto simp: chunks_ok_def)
  moreover have "mset (map ck_sequence (all_chunks ?m)) = mset (map ck_sequence (?c # all_chunks m))"
    using all by simp
  ultimately have distinct: "distinct (map ck_sequence (all_chunks ?m))"
    using mset_eq_imp_distinct_iff by blast
  have "sort_key ck_sequence (all_chunks ?m) = sort_key ck_sequence (all_chunks m) @ [?c]"
    using fresh set by (intro sort_key_last [OF all distinct]) auto
  then have comb: "combined_output ?m = combined_output m @ data"
    by (simp add: combined_output_def all_chunks_def [symmetric])
  have "sorted (map ck_sequence (rs_chunks (stream_of u ?m)))
    \<and> rs_bytes (stream_of u ?m) = int (length (chunk_text (rs_chunks (stream_of u ?m))))" for u
    using ok fresh by (cases t; cases u)
      (auto simp: push_chunk_def Let_def stream_of_def set_stream_def chunks_ok_def sorted_append all_chunks_def
        intro: less_imp_le)
  from this [of Stdout] this [of Stderr] distinct comb ok
  have "chunks_ok ?m" by (simp add: chunks_ok_def stream_of_def push_chunk_def Let_def set_stream_def split: stream_type.split)
  with comb show ?thesis by simp
qed

definition append_retained :: "stream_type \<times> nat list \<times> nat \<Rightarrow> managed_process \<Rightarrow> managed_process" where
  "append_retained e m = (case e of (t, data, q) \<Rightarrow> fst (trimProcess (push_chunk t data q m)))"

lemma drop_bytes_sequences:
  "ck_sequence ` set (all_chunks (fst (drop_bytes r t m))) \<subseteq> ck_sequence ` set (all_chunks m)"
  by (cases t) (auto simp: drop_bytes_def Let_def all_chunks_def stream_of_def set_stream_def split: list.split)

lemma trimProcess_sequences:
  "ck_sequence ` set (all_chunks (fst (trimProcess m))) \<subseteq> ck_sequence ` set (all_chunks m)"
proof (induction m rule: trimProcess.induct)
  case (1 m)
  show ?case
  proof (cases "mp_outputBytes m > int (mp_maxOutputBytes m) \<and> oldestStream m \<noteq> None")
    case True
    then obtain t where t: "mp_outputBytes m > int (mp_maxOutputBytes m)" "oldestStream m = Some t" by auto
    let ?d = "drop_bytes (nat (mp_outputBytes m - int (mp_maxOutputBytes m))) t m"
    from 1 [OF t refl prod.collapse]
    have "ck_sequence ` set (all_chunks (fst (trimProcess (fst ?d)))) \<subseteq> ck_sequence ` set (all_chunks (fst ?d))" .
    also have "\<dots> \<subseteq> ck_sequence ` set (all_chunks m)" by (rule drop_bytes_sequences)
    finally show ?thesis
      using t by (simp add: trimProcess.simps [of m] case_prod_beta)
  qed (auto simp: trimProcess.simps [of m] split: option.splits)
qed

lemma push_max: "mp_maxOutputBytes (push_chunk t d q m) = mp_maxOutputBytes m"
  by (cases t) (simp_all add: push_chunk_def Let_def set_stream_def)

fun received_bytes :: "(stream_type \<times> nat list \<times> nat) list \<Rightarrow> nat list" where
  "received_bytes [] = []"
| "received_bytes ((t, data, q) # es) = data @ received_bytes es"

fun arrivals_after :: "nat \<Rightarrow> (stream_type \<times> nat list \<times> nat) list \<Rightarrow> bool" where
  "arrivals_after n [] = True"
| "arrivals_after n ((t, data, q) # es) = (n < q \<and> arrivals_after q es)"

definition latest_bytes :: "nat \<Rightarrow> nat list \<Rightarrow> nat list" where
  "latest_bytes n xs = drop (length xs - n) xs"

lemma latest_bytes_append: "latest_bytes n (latest_bytes n xs @ ys) = latest_bytes n (xs @ ys)"
  by (cases "length xs \<le> n") (auto simp: latest_bytes_def add.commute)

lemma length_latest_bytes [simp]: "length (latest_bytes n xs) = min (length xs) n"
  by (simp add: latest_bytes_def)

lemma append_retained_step:
  assumes "chunks_ok m" and "\<forall>d \<in> set (all_chunks m). ck_sequence d \<le> n" and "n < q"
  shows "chunks_ok (append_retained (t, data, q) m)
    \<and> combined_output (append_retained (t, data, q) m)
      = latest_bytes (mp_maxOutputBytes m) (combined_output m @ data)
    \<and> mp_maxOutputBytes (append_retained (t, data, q) m) = mp_maxOutputBytes m
    \<and> (\<forall>d \<in> set (all_chunks (append_retained (t, data, q) m)). ck_sequence d \<le> q)"
proof -
  let ?p = "push_chunk t data q m"
  have p: "chunks_ok ?p" "combined_output ?p = combined_output m @ data"
    using push_chunk_combined [OF assms(1), of q t data] assms(2,3) by (auto intro: le_less_trans)
  obtain m1 k where trim: "trimProcess ?p = (m1, k)" by fastforce
  from trimProcess_combined [OF p(1) trim] have m1: "chunks_ok m1" "combined_output m1 = drop k (combined_output ?p)"
    "int k = max 0 (mp_outputBytes ?p - int (mp_maxOutputBytes m))" "mp_maxOutputBytes m1 = mp_maxOutputBytes m"
    by (simp_all add: push_max)
  have "mp_outputBytes ?p = int (length (combined_output ?p))" using p(1) by (simp add: chunks_ok_def)
  with m1(3) have "k = length (combined_output m @ data) - mp_maxOutputBytes m" unfolding p(2) by linarith
  then have comb: "combined_output m1 = latest_bytes (mp_maxOutputBytes m) (combined_output m @ data)"
    unfolding m1(2) p(2) by (simp add: latest_bytes_def)
  have "ck_sequence ` set (all_chunks m1) \<subseteq> ck_sequence ` set (all_chunks ?p)"
    using trimProcess_sequences [of ?p] trim by simp
  moreover have "set (all_chunks ?p) = insert \<lparr>ck_data = data, ck_sequence = q\<rparr> (set (all_chunks m))"
    by (metis all_chunks_push set_mset_add_mset_insert set_mset_mset)
  ultimately have "\<forall>d \<in> set (all_chunks m1). ck_sequence d \<le> q"
    using assms(2,3) by fastforce
  with m1 comb show ?thesis by (simp add: append_retained_def trim)
qed

lemma append_retained_run:
  assumes "chunks_ok m" and "\<forall>d \<in> set (all_chunks m). ck_sequence d \<le> n" and "arrivals_after n es"
    and "length (combined_output m) \<le> mp_maxOutputBytes m"
  shows "chunks_ok (fold append_retained es m)
    \<and> combined_output (fold append_retained es m)
      = latest_bytes (mp_maxOutputBytes m) (combined_output m @ received_bytes es)"
  using assms
proof (induction n es arbitrary: m rule: arrivals_after.induct)
  case (1 n)
  then show ?case by (simp add: latest_bytes_def)
next
  case (2 n t data q es)
  let ?m = "append_retained (t, data, q) m"
  from 2(4) have q: "n < q" "arrivals_after q es" by auto
  note step = append_retained_step [OF 2(2,3) q(1), of t data]
  then have "length (combined_output ?m) \<le> mp_maxOutputBytes ?m" by simp
  with 2(1) [of ?m] step q(2)
  have "chunks_ok (fold append_retained es ?m)" "combined_output (fold append_retained es ?m)
      = latest_bytes (mp_maxOutputBytes ?m) (combined_output ?m @ received_bytes es)" by auto
  with step show ?case by (simp add: latest_bytes_append)
qed


definition demo_managed :: managed_process where
  "demo_managed = \<lparr>mp_id = ''p'', mp_label = ''l'', mp_lifecycle = LSession, mp_command = ''c'', mp_cwd = ''/'',
     mp_sessionId = None, mp_compatibilitySession = False, mp_startedAt = 0, mp_finishedAt = None, mp_child = 1,
     mp_pid = Some 7,
     mp_owner = \<lparr>proof_id = ''o'', proof_generation = 1, proof_epoch = ''e''\<rparr>, mp_stdout = emptyStream,
     mp_stderr = emptyStream, mp_outputBytes = 0, mp_exitCode = None, mp_signal = None, mp_maxOutputBytes = 4,
     mp_outputMode = Combined, mp_completed = False, mp_outputFileClosed = False, mp_fullOutputBytes = 0,
     mp_outputFileTruncated = False, mp_journal = [], mp_pendingStdout = [], mp_pendingStderr = [],
     mp_log = Some [], mp_timeoutMs = None, mp_timedOut = False, mp_requestedSignal = None,
     mp_terminationReason = None, mp_forcedKill = False, mp_serviceOptions = None, mp_serviceState = None,
     mp_restartTimer = None, mp_outputPath = ''/tmp/o/p.log'', mp_groupLeaderStartTime = None,
     mp_observedGroupMembers = [], mp_expectedUid = None, mp_stdinQueuedBytes = 0, mp_stdinEnded = False,
     mp_timeoutTimer = None, mp_lifetimeTimer = None, mp_expiryTimer = None, mp_cleanupTimer = None\<rparr>"

lemma trimProcess_keeps:
  assumes "\<And>r t m. f (fst (drop_bytes r t m)) = f m"
  shows "f (fst (trimProcess m)) = f m"
proof (induction m rule: trimProcess.induct)
  case (1 m)
  show ?case
  proof (cases "mp_outputBytes m > int (mp_maxOutputBytes m) \<and> oldestStream m \<noteq> None")
    case True
    then obtain t where t: "mp_outputBytes m > int (mp_maxOutputBytes m)" "oldestStream m = Some t" by auto
    from 1 [OF t refl prod.collapse] t assms show ?thesis
      by (simp add: trimProcess.simps [of m] case_prod_beta)
  qed (auto simp: trimProcess.simps [of m] split: option.splits)
qed

lemma append_retained_mode: "mp_outputMode (append_retained e m) = mp_outputMode m"
proof -
  have "mp_outputMode (fst (drop_bytes r t m)) = mp_outputMode m" for r t m
    by (cases t) (auto simp: drop_bytes_def Let_def set_stream_def split: list.split)
  moreover have "mp_outputMode (push_chunk t d q m) = mp_outputMode m" for t d q
    by (cases t) (simp_all add: push_chunk_def Let_def set_stream_def)
  ultimately show ?thesis by (cases e) (simp add: append_retained_def trimProcess_keeps [of mp_outputMode])
qed


section \<open>Records partition the journal\<close>

fun contiguous :: "nat \<Rightarrow> journal_record list \<Rightarrow> nat \<Rightarrow> bool" where
  "contiguous start [] stop = (start = stop)"
| "contiguous start (r # rs) stop =
     (jr_offset r = start \<and> 0 < jr_length r \<and> jr_length r \<le> MAX_JOURNAL_RECORD_BYTES + 3
      \<and> contiguous (start + jr_length r) rs stop)"

lemma contiguous_le: "contiguous start rs stop \<Longrightarrow> start \<le> stop"
  by (induction start rs stop rule: contiguous.induct) auto

lemma contiguous_append:
  "contiguous start rs mid \<Longrightarrow> contiguous mid qs stop \<Longrightarrow> contiguous start (rs @ qs) stop"
  by (induction start rs mid rule: contiguous.induct) auto

lemma plan_records_partition:
  "cursor \<le> length data \<Longrightarrow> plan_records t start data cursor maximum = (rs, stop) \<Longrightarrow>
    contiguous (start + cursor) rs (start + stop) \<and> cursor \<le> stop \<and> stop \<le> length data
    \<and> length rs \<le> maximum \<and> (length rs < maximum \<longrightarrow> stop = length data) \<and> (\<forall>r \<in> set rs. jr_type r = t)"
proof (induction t start data cursor maximum arbitrary: rs stop rule: plan_records.induct)
  case (1 t start data cursor maximum)
  show ?case
  proof (cases "cursor < length data \<and> 0 < maximum")
    case True
    let ?e = "record_end data cursor"
    from True have e: "cursor < ?e" "?e \<le> length data" "?e \<le> cursor + MAX_JOURNAL_RECORD_BYTES + 3"
      using record_end_bounds by auto
    obtain qs stop' where rec: "plan_records t start data ?e (maximum - 1) = (qs, stop')" by fastforce
    have eq: "rs = \<lparr>jr_type = t, jr_offset = start + cursor, jr_length = ?e - cursor\<rparr> # qs" "stop = stop'"
      using "1.prems"(2) True rec by (simp_all add: plan_records.simps [of t start data cursor] Let_def)
    have "contiguous (start + ?e) qs (start + stop') \<and> ?e \<le> stop' \<and> stop' \<le> length data
      \<and> length qs \<le> maximum - 1 \<and> (length qs < maximum - 1 \<longrightarrow> stop' = length data) \<and> (\<forall>r \<in> set qs. jr_type r = t)"
      using "1.IH" [OF True refl e(2) rec] .
    then show ?thesis using e True by (auto simp: eq)
  next
    case False
    with "1.prems" show ?thesis by (auto simp: plan_records.simps [of t start data cursor])
  qed
qed

lemma planJournalRecords_partition:
  assumes "planJournalRecords t start data maximum = (rs, stop)"
  shows "contiguous start rs (start + stop)" "stop \<le> length data" "length rs \<le> maximum"
    "length rs < maximum \<longrightarrow> stop = length data" "\<forall>r \<in> set rs. jr_type r = t"
  using plan_records_partition [of 0 data t start maximum rs stop] assms
  by (simp_all add: planJournalRecords_def)

definition record_bytes :: "nat list \<Rightarrow> journal_record \<Rightarrow> nat list" where
  "record_bytes log r = take (jr_length r) (drop (jr_offset r) log)"

lemma contiguous_bytes:
  "contiguous start rs stop \<Longrightarrow> stop \<le> length log \<Longrightarrow>
    concat (map (record_bytes log) rs) = take (stop - start) (drop start log)"
proof (induction start rs stop rule: contiguous.induct)
  case (2 start r rs stop)
  then have le: "start + jr_length r \<le> stop" using contiguous_le by auto
  then obtain k where k: "stop = start + jr_length r + k" using le_Suc_ex by blast
  have "take (stop - start) (drop start log)
      = take (jr_length r) (drop start log) @ take (stop - (start + jr_length r)) (drop (start + jr_length r) log)"
    unfolding k by (simp add: take_add) (simp add: add.commute)
  with 2 show ?case by (simp add: record_bytes_def)
qed simp

lemma contiguous_bytes_extend:
  "contiguous start rs stop \<Longrightarrow> stop \<le> length log \<Longrightarrow> r \<in> set rs \<Longrightarrow> record_bytes (log @ added) r = record_bytes log r"
proof (induction start rs stop rule: contiguous.induct)
  case (2 start q rs stop)
  then have "start + jr_length q \<le> length log" using contiguous_le by fastforce
  with 2 show ?case by (auto simp: record_bytes_def)
qed simp

section \<open>What is on disk\<close>

definition stream_text :: "stream_type \<Rightarrow> managed_process \<Rightarrow> nat list" where
  "stream_text t m = (case mp_log m of None \<Rightarrow> []
     | Some log \<Rightarrow> concat (map (record_bytes log) (filter (\<lambda>r. jr_type r = t) (mp_journal m))))"

text \<open>The journal of a compatibility session is a partition of its log.\<close>

definition journal_ok :: "managed_process \<Rightarrow> bool" where
  "journal_ok m = (mp_compatibilitySession m \<and>
     (case mp_log m of None \<Rightarrow> False
      | Some log \<Rightarrow> mp_fullOutputBytes m = int (length log) \<and> contiguous 0 (mp_journal m) (length log)))"

lemma set_pending_simps [simp]:
  "mp_log (set_pending t d m) = mp_log m" "mp_journal (set_pending t d m) = mp_journal m"
  "mp_fullOutputBytes (set_pending t d m) = mp_fullOutputBytes m"
  "mp_compatibilitySession (set_pending t d m) = mp_compatibilitySession m"
  "mp_outputFileTruncated (set_pending t d m) = mp_outputFileTruncated m"
  "mp_outputFileClosed (set_pending t d m) = mp_outputFileClosed m"
  "pending_of u (set_pending t d m) = (if u = t then d else pending_of u m)"
  by (cases t; cases u; simp add: set_pending_def pending_of_def)+

lemma truncated_frame [simp]:
  "journal_ok (m\<lparr>mp_outputFileTruncated := x\<rparr>) = journal_ok m"
  "stream_text t (m\<lparr>mp_outputFileTruncated := x\<rparr>) = stream_text t m"
  "pending_of t (m\<lparr>mp_outputFileTruncated := x\<rparr>) = pending_of t m"
  by (cases "mp_log m"; cases t; simp add: journal_ok_def stream_text_def pending_of_def)+

lemma appendJournalBytes_written:
  assumes ok: "journal_ok m" and app: "appendJournalBytes b None t data True m c = (m', c')"
  shows "journal_ok m' \<and> (\<exists>n. stream_text t m' = stream_text t m @ take n data \<and> n \<le> length data
      \<and> (n < length data \<longrightarrow> mp_outputFileTruncated m')
      \<and> (n = length data \<longrightarrow> (\<forall>u. pending_of u m' = pending_of u m)))
    \<and> (\<forall>u. u \<noteq> t \<longrightarrow> stream_text u m' = stream_text u m)
    \<and> (mp_outputFileTruncated m \<longrightarrow> mp_outputFileTruncated m')
    \<and> mp_outputFileClosed m' = mp_outputFileClosed m"
proof -
  from ok obtain log where log: "mp_log m = Some log" "mp_fullOutputBytes m = int (length log)"
    "contiguous 0 (mp_journal m) (length log)" and compat: "mp_compatibilitySession m"
    by (auto simp: journal_ok_def split: option.splits)
  define remaining where "remaining = min (int (ob_maxFullOutputBytes b) - int (length log))
    (int (ob_maxAggregateOutputBytes b) - oc_aggregateOutputBytes c)"
  show ?thesis
  proof (cases "remaining \<le> 0")
    case True
    with app compat have "m' = m\<lparr>mp_outputFileTruncated := True\<rparr>"
      by (simp add: appendJournalBytes_def remaining_def Let_def log(2))
    with ok show ?thesis by (auto intro!: exI [of _ 0])
  next
    case False
    define requested where "requested = min (length data) (nat remaining)"
    define safe where "safe = (if requested = length data then requested
      else completeUtf8PrefixLength (take requested data))"
    define available where "available = nat (min (int (ob_maxJournalRecords b) - int (length (mp_journal m)))
      (int (ob_maxAggregateJournalRecords b) - oc_aggregateJournalRecords c))"
    obtain rs stop where plan: "planJournalRecords t (length log) (take safe data) available = (rs, stop)" by fastforce
    define kept where "kept = take stop (take safe data)"
    note part = planJournalRecords_partition [OF plan]
    have m': "mp_log m' = Some (log @ kept)" "mp_journal m' = mp_journal m @ rs"
      "mp_fullOutputBytes m' = int (length log) + int (length kept)" "mp_compatibilitySession m'"
      "mp_outputFileTruncated m' = (mp_outputFileTruncated m \<or> length kept < length data)"
      "mp_outputFileClosed m' = mp_outputFileClosed m"
      "length kept = length data \<longrightarrow> (\<forall>u. pending_of u m' = pending_of u m)"
      using app False compat log(1,2) plan
      by (auto simp: appendJournalBytes_def Let_def remaining_def [symmetric] requested_def [symmetric]
          safe_def [symmetric] available_def [symmetric] kept_def pending_of_def split: stream_type.split)
    have kept: "kept = take (min stop safe) data" "length kept = stop"
      using part(2) by (simp_all add: kept_def)
    have cont: "contiguous 0 (mp_journal m') (length (log @ kept))"
      using contiguous_append [OF log(3) part(1)] by (simp add: m' kept(2))
    then have ok': "journal_ok m'" by (simp add: journal_ok_def m')
    have old: "map (record_bytes (log @ kept)) (filter P (mp_journal m)) = map (record_bytes log) (filter P (mp_journal m))" for P
      using contiguous_bytes_extend [OF log(3)] by simp
    have "concat (map (record_bytes (log @ kept)) rs) = kept"
      using contiguous_bytes [OF part(1), of "log @ kept"] by (simp add: kept(2))
    moreover have "filter (\<lambda>r. jr_type r = t) rs = rs" "u \<noteq> t \<Longrightarrow> filter (\<lambda>r. jr_type r = u) rs = []" for u
      using part(5) by (auto simp: filter_empty_conv intro!: filter_True)
    ultimately have texts: "stream_text t m' = stream_text t m @ kept" "u \<noteq> t \<Longrightarrow> stream_text u m' = stream_text u m" for u
      by (simp_all add: stream_text_def m' log old)
    have "stop \<le> length data" using kept by (metis length_take min.cobounded1)
    with ok' texts kept m'(5) m'(6) m'(7) show ?thesis
      by (intro conjI exI [of _ "min stop safe"]) auto
  qed
qed

end
