(* ===== verification/Process_Manager.thy ===== *)
theory Process_Manager
  imports Process_Output Sorts
begin

text \<open>The manager of the processes of a computer: the class \<open>ProcessManager\<close> of
  packages/control/src/processes.ts.

  One state holds the table of processes in the order they were added, the services that wait for a
  slot, the counters of the output budgets, the records of tasks, and the processes that are no longer
  in the table but whose output file is still kept. Each operation is one synchronous segment of the
  code: what happens before an \<open>await\<close> and what happens after it are different definitions, and
  the events of child processes and timers are operations too. What the operating system answers is an
  argument: the outcome of a spawn, the members of a process group, whether a signal was delivered.\<close>

section \<open>State\<close>

record service_definition =
  sd_id :: string
  sd_label :: string
  sd_command :: string
  sd_cwd :: string
  sd_maxOutputBytes :: nat
  sd_outputMode :: output_mode
  sd_timeoutMs :: "nat option"
  sd_ownerGeneration :: nat
  sd_service :: "service_options option"

record pending_service =
  pn_definition :: service_definition
  pn_queuedAt :: int
  pn_startError :: "string option"

datatype management_status = MQueued | MRunning | MExited | MSignaled | MTimedOut | MStopped | MInterrupted

record management_summary =
  su_id :: string
  su_pid :: "nat option"
  su_service :: "service_state option"
  su_exitCode :: "int option"
  su_signal :: "string option"
  su_status :: management_status
  su_startedAt :: int
  su_finishedAt :: "int option"
  su_label :: string
  su_lifecycle :: process_lifecycle
  su_agentOwned :: bool
  su_ownerGeneration :: nat

record persisted_task =
  pt_summary :: management_summary
  pt_outputPath :: string
  pt_outputTruncated :: "bool option"

record process_limits =
  pl_maxProcesses :: nat
  pl_maxCompletedProcesses :: nat
  pl_completedTtlMs :: int
  pl_maxLifetimeMs :: int
  pl_outputTtlMs :: int
  pl_budget :: output_budget
  pl_expectedUid :: "nat option"
  pl_fenceUid :: "nat option"
  pl_persistTaskRecords :: bool
  pl_outputDirectory :: string
  pl_recordBytes :: "persisted_task list \<Rightarrow> nat" \<comment> \<open>the size of the record file with these lines\<close>
  pl_localeBefore :: "string \<Rightarrow> string \<Rightarrow> bool"

record process_manager =
  pm_processes :: "(string, managed_process) js_map"
  pm_pendingServices :: "(string, pending_service) js_map"
  pm_drainingServices :: bool
  pm_bulkStopping :: bool
  pm_shuttingDown :: bool
  pm_counters :: output_counters
  pm_taskHistory :: "(string, persisted_task) js_map"
  pm_taskRecords :: "persisted_task list" \<comment> \<open>the lines of the record file\<close>
  pm_definitions :: "(string, service_definition) js_map" \<comment> \<open>the files of the service directory\<close>
  pm_keptOutput :: "managed_process list" \<comment> \<open>left the table, the output file is kept\<close>
  pm_terminals :: nat \<comment> \<open>the running terminals\<close>

definition no_counters :: output_counters where
  "no_counters = \<lparr>oc_retainedBytes = 0, oc_aggregateOutputBytes = 0, oc_aggregateJournalRecords = 0, oc_outputSequence = 0\<rparr>"

definition new_process_manager :: process_manager where
  "new_process_manager = \<lparr>pm_processes = [], pm_pendingServices = [], pm_drainingServices = False, pm_bulkStopping = False,
     pm_shuttingDown = False, pm_counters = no_counters, pm_taskHistory = [], pm_taskRecords = [], pm_definitions = [],
     pm_keptOutput = [], pm_terminals = 0\<rparr>"

definition managed_of :: "process_manager \<Rightarrow> string \<Rightarrow> managed_process option" where
  "managed_of pm i = map_of (pm_processes pm) i"

definition put_managed :: "managed_process \<Rightarrow> process_manager \<Rightarrow> process_manager" where
  "put_managed m pm = pm\<lparr>pm_processes := AList.update (mp_id m) m (pm_processes pm)\<rparr>"

definition live_processes :: "process_manager \<Rightarrow> nat" where
  "live_processes pm = length (filter (\<lambda>m. \<not> mp_completed m) (map_values (pm_processes pm)))"

definition process_count :: "process_manager \<Rightarrow> nat" where
  "process_count pm = live_processes pm + pm_terminals pm"

section \<open>What is told of a process\<close>

definition managementSummary :: "managed_process \<Rightarrow> management_summary" where
  "managementSummary m = \<lparr>su_id = mp_id m,
     su_pid = (if mp_completed m then None else mp_pid m),
     su_service = mp_serviceState m, su_exitCode = mp_exitCode m, su_signal = mp_signal m,
     su_status = (if \<not> mp_completed m then MRunning else if mp_timedOut m then MTimedOut
       else if mp_terminationReason m \<noteq> None then MStopped else if mp_signal m \<noteq> None then MSignaled else MExited),
     su_startedAt = mp_startedAt m, su_finishedAt = mp_finishedAt m, su_label = mp_label m,
     su_lifecycle = mp_lifecycle m, su_agentOwned = (mp_lifecycle m = LSession),
     su_ownerGeneration = proof_generation (mp_owner m)\<rparr>"

section \<open>Records of tasks\<close>

definition MAX_TASK_RECORD_BYTES :: nat where "MAX_TASK_RECORD_BYTES = 1024 * 1024"

definition finished_or_started :: "persisted_task \<Rightarrow> int" where
  "finished_or_started t = (case su_finishedAt (pt_summary t) of Some f \<Rightarrow> f | None \<Rightarrow> su_startedAt (pt_summary t))"

definition later_finished :: "(string \<Rightarrow> string \<Rightarrow> bool) \<Rightarrow> persisted_task \<Rightarrow> persisted_task \<Rightarrow> bool" where
  "later_finished before l r = (finished_or_started r < finished_or_started l
     \<or> finished_or_started r = finished_or_started l \<and> before (su_id (pt_summary r)) (su_id (pt_summary l)))"

definition earlier_started :: "(string \<Rightarrow> string \<Rightarrow> bool) \<Rightarrow> management_summary \<Rightarrow> management_summary \<Rightarrow> bool" where
  "earlier_started before l r = (su_startedAt l < su_startedAt r
     \<or> su_startedAt l = su_startedAt r \<and> before (su_id l) (su_id r))"

definition is_running_record :: "persisted_task \<Rightarrow> bool" where
  "is_running_record t = (su_status (pt_summary t) = MRunning)"

text \<open>\<open>before\<close> stands for \<open>localeCompare\<close> of two strings being at most 0. The records that compaction keeps: those of running tasks, and of the others the latest.\<close>

definition retained_records :: "process_limits \<Rightarrow> persisted_task list \<Rightarrow> persisted_task list" where
  "retained_records lim latest =
     sort_by (\<lambda>l r. earlier_started (pl_localeBefore lim) (pt_summary l) (pt_summary r))
       (filter is_running_record latest
        @ take (pl_maxCompletedProcesses lim)
            (sort_by (later_finished (pl_localeBefore lim)) (filter (\<lambda>t. \<not> is_running_record t) latest)))"

definition compactTaskRecords :: "process_limits \<Rightarrow> persisted_task option \<Rightarrow> process_manager \<Rightarrow> process_manager" where
  "compactTaskRecords lim extra pm =
     (if \<not> pl_persistTaskRecords lim then pm
      else
        (let latest = (case extra of None \<Rightarrow> pm_taskHistory pm
               | Some t \<Rightarrow> AList.update (su_id (pt_summary t)) t (pm_taskHistory pm));
             retained = retained_records lim (map_values latest)
         in pm\<lparr>pm_taskRecords := retained,
              pm_taskHistory := fold (\<lambda>t. AList.update (su_id (pt_summary t)) t) retained []\<rparr>))"

definition appendTaskRecord :: "process_limits \<Rightarrow> persisted_task \<Rightarrow> process_manager \<Rightarrow> process_manager" where
  "appendTaskRecord lim t pm =
     (if \<not> pl_persistTaskRecords lim then pm
      else
        (let compact = pl_recordBytes lim (pm_taskRecords pm) > MAX_TASK_RECORD_BYTES;
             pm1 = pm\<lparr>pm_taskRecords := pm_taskRecords pm @ [t]\<rparr>
         in if compact then compactTaskRecords lim (Some t) pm1 else pm1))"

definition persistTask :: "process_limits \<Rightarrow> managed_process \<Rightarrow> process_manager \<Rightarrow> process_manager" where
  "persistTask lim m pm =
     (let t = \<lparr>pt_summary = managementSummary m, pt_outputPath = mp_outputPath m,
               pt_outputTruncated = Some (mp_outputFileTruncated m)\<rparr>;
          pm1 = appendTaskRecord lim t pm
      in pm1\<lparr>pm_taskHistory := AList.update (su_id (pt_summary t)) t (pm_taskHistory pm1)\<rparr>)"

section \<open>Starting\<close>

text \<open>What the operating system says of a new child.\<close>

record spawned_child =
  ch_pid :: "nat option"
  ch_startTime :: "string option"

record start_request =
  rq_id :: string
  rq_command :: string
  rq_cwd :: string
  rq_owner :: lease_proof
  rq_maxOutputBytes :: nat
  rq_timeoutMs :: "nat option"
  rq_outputMode :: output_mode
  rq_sessionId :: "string option"
  rq_compatibilitySession :: bool
  rq_lifecycle :: process_lifecycle
  rq_label :: string
  rq_service :: "service_options option"

definition process_conflict :: qubicl_error where
  "process_conflict = QubiclError ''process_conflict'' 409"

definition process_admission_paused :: qubicl_error where
  "process_admission_paused = QubiclError ''process_admission_paused'' 409"

definition process_limit :: qubicl_error where
  "process_limit = QubiclError ''process_limit'' 429"

definition wants_readiness :: "service_options option \<Rightarrow> bool" where
  "wants_readiness s = (case s of Some svc \<Rightarrow> so_readiness svc \<noteq> None | None \<Rightarrow> False)"

definition managed_from :: "process_limits \<Rightarrow> int \<Rightarrow> start_request \<Rightarrow> spawned_child \<Rightarrow> managed_process" where
  "managed_from lim now r ch = \<lparr>mp_id = rq_id r, mp_label = rq_label r, mp_lifecycle = rq_lifecycle r,
     mp_command = rq_command r, mp_cwd = rq_cwd r, mp_sessionId = rq_sessionId r,
     mp_compatibilitySession = rq_compatibilitySession r, mp_startedAt = now, mp_finishedAt = None, mp_child = 0,
     mp_pid = ch_pid ch, mp_owner = rq_owner r, mp_stdout = emptyStream, mp_stderr = emptyStream, mp_outputBytes = 0,
     mp_exitCode = None, mp_signal = None, mp_maxOutputBytes = rq_maxOutputBytes r, mp_outputMode = rq_outputMode r,
     mp_completed = False, mp_outputFileClosed = False, mp_fullOutputBytes = 0, mp_outputFileTruncated = False,
     mp_journal = [], mp_pendingStdout = [], mp_pendingStderr = [], mp_log = Some [], mp_timeoutMs = rq_timeoutMs r,
     mp_timedOut = False, mp_requestedSignal = None, mp_terminationReason = None, mp_forcedKill = False,
     mp_serviceOptions = (if rq_lifecycle r = LService then rq_service r else None),
     mp_serviceState = (if rq_lifecycle r = LService
       then Some \<lparr>ss_state = (if wants_readiness (rq_service r) then SStarting else SUnverified), ss_restartAttempts = 0,
              ss_nextRestartAt = None, ss_lastExitCode = None, ss_lastError = None, ss_lastCheckedAt = None\<rparr>
       else None),
     mp_restartTimer = None,
     mp_outputPath = pl_outputDirectory lim @ ''/'' @ rq_id r @ ''.log'',
     mp_groupLeaderStartTime = ch_startTime ch, mp_observedGroupMembers = [], mp_expectedUid = pl_expectedUid lim,
     mp_stdinQueuedBytes = 0, mp_stdinEnded = False,
     mp_timeoutTimer = map_option (\<lambda>t. now + int t) (rq_timeoutMs r),
     mp_lifetimeTimer = (if rq_compatibilitySession r \<or> rq_lifecycle r = LTask then Some (now + pl_maxLifetimeMs lim) else None),
     mp_expiryTimer = None, mp_cleanupTimer = None\<rparr>"

text \<open>The part of \<open>start\<close> after the admission; \<open>spawn\<close> answers for each identifier.\<close>

definition start_admitted ::
  "process_limits \<Rightarrow> int \<Rightarrow> (string \<Rightarrow> string + spawned_child) \<Rightarrow> start_request \<Rightarrow> process_manager
     \<Rightarrow> process_manager \<times> (qubicl_error + string)"
where
  "start_admitted lim now spawn r pm =
     (if managed_of pm (rq_id r) \<noteq> None then (pm, Inl process_conflict)
      else (case spawn (rq_id r) of
          Inl e \<Rightarrow> (pm, Inl (QubiclError e 500))
        | Inr ch \<Rightarrow>
            (let m = managed_from lim now r ch; pm1 = put_managed m pm
             in (if rq_lifecycle r = LTask then persistTask lim m pm1 else pm1, Inr (rq_id r)))))"

text \<open>The admission: paused while everything is being stopped, otherwise by the number of processes.\<close>

definition admission :: "process_limits \<Rightarrow> process_manager \<Rightarrow> qubicl_error option" where
  "admission lim pm =
     (if pm_bulkStopping pm \<or> pm_shuttingDown pm then Some process_admission_paused
      else if process_count pm \<ge> pl_maxProcesses lim then Some process_limit
      else None)"

definition service_request :: "service_definition \<Rightarrow> start_request" where
  "service_request d = \<lparr>rq_id = sd_id d, rq_command = sd_command d, rq_cwd = sd_cwd d,
     rq_owner = \<lparr>proof_id = ''durable-service'', proof_generation = sd_ownerGeneration d, proof_epoch = ''computer''\<rparr>,
     rq_maxOutputBytes = sd_maxOutputBytes d, rq_timeoutMs = sd_timeoutMs d, rq_outputMode = sd_outputMode d,
     rq_sessionId = None, rq_compatibilitySession = False, rq_lifecycle = LService, rq_label = sd_label d,
     rq_service = sd_service d\<rparr>"

text \<open>The loop of \<open>drainServiceQueue\<close> over the waiting services, in which \<open>start\<close> does not drain
  the queue again.\<close>

fun drain_loop ::
  "process_limits \<Rightarrow> int \<Rightarrow> (string \<Rightarrow> string + spawned_child) \<Rightarrow> (string \<times> pending_service) list \<Rightarrow> process_manager \<Rightarrow> process_manager"
where
  "drain_loop lim now spawn [] pm = pm"
| "drain_loop lim now spawn ((i, p) # ps) pm =
     (if process_count pm \<ge> pl_maxProcesses lim then pm
      else if pn_startError p \<noteq> None then drain_loop lim now spawn ps pm
      else (case admission lim pm of
          Some e \<Rightarrow> drain_loop lim now spawn ps
            (pm\<lparr>pm_pendingServices := AList.update i (p\<lparr>pn_startError := Some (error_code e)\<rparr>) (pm_pendingServices pm)\<rparr>)
        | None \<Rightarrow>
            (case start_admitted lim now spawn (service_request (pn_definition p)) pm of
               (pm1, Inl e) \<Rightarrow> drain_loop lim now spawn ps
                 (pm1\<lparr>pm_pendingServices := AList.update i (p\<lparr>pn_startError := Some (error_code e)\<rparr>) (pm_pendingServices pm1)\<rparr>)
             | (pm1, Inr _) \<Rightarrow> drain_loop lim now spawn ps
                 (pm1\<lparr>pm_pendingServices := AList.delete i (pm_pendingServices pm1)\<rparr>))))"

definition drainServiceQueue ::
  "process_limits \<Rightarrow> int \<Rightarrow> (string \<Rightarrow> string + spawned_child) \<Rightarrow> process_manager \<Rightarrow> process_manager"
where
  "drainServiceQueue lim now spawn pm =
     (if pm_drainingServices pm \<or> pm_bulkStopping pm \<or> pm_shuttingDown pm then pm
      else (drain_loop lim now spawn (pm_pendingServices pm) (pm\<lparr>pm_drainingServices := True\<rparr>))
             \<lparr>pm_drainingServices := False\<rparr>)"

definition assertCapacity ::
  "process_limits \<Rightarrow> int \<Rightarrow> (string \<Rightarrow> string + spawned_child) \<Rightarrow> process_manager \<Rightarrow> process_manager \<times> qubicl_error option"
where
  "assertCapacity lim now spawn pm =
     (if pm_bulkStopping pm \<or> pm_shuttingDown pm then (pm, Some process_admission_paused)
      else
        (let pm1 = (if pm_drainingServices pm then pm else drainServiceQueue lim now spawn pm)
         in (pm1, if process_count pm1 \<ge> pl_maxProcesses lim then Some process_limit else None)))"

definition start_process ::
  "process_limits \<Rightarrow> int \<Rightarrow> (string \<Rightarrow> string + spawned_child) \<Rightarrow> start_request \<Rightarrow> process_manager
     \<Rightarrow> process_manager \<times> (qubicl_error + string)"
where
  "start_process lim now spawn r pm =
     (case assertCapacity lim now spawn pm of
        (pm1, Some e) \<Rightarrow> (pm1, Inl e)
      | (pm1, None) \<Rightarrow> start_admitted lim now spawn r pm1)"

text \<open>A terminal takes a slot of the same limit; it is registered before the manager awaits it.\<close>

definition terminalOpen ::
  "process_limits \<Rightarrow> int \<Rightarrow> (string \<Rightarrow> string + spawned_child) \<Rightarrow> process_manager \<Rightarrow> process_manager \<times> (qubicl_error + unit)"
where
  "terminalOpen lim now spawn pm =
     (case assertCapacity lim now spawn pm of
        (pm1, Some e) \<Rightarrow> (pm1, Inl e)
      | (pm1, None) \<Rightarrow> (pm1\<lparr>pm_terminals := pm_terminals pm1 + 1\<rparr>, Inr ()))"

definition terminalEnded :: "process_manager \<Rightarrow> process_manager" where
  "terminalEnded pm = pm\<lparr>pm_terminals := pm_terminals pm - 1\<rparr>"

section \<open>Output\<close>

text \<open>The process and the stream with the oldest chunk of all.\<close>

definition older_stream ::
  "(string \<times> stream_type \<times> nat) option \<Rightarrow> string \<Rightarrow> stream_type \<Rightarrow> managed_process \<Rightarrow> (string \<times> stream_type \<times> nat) option"
where
  "older_stream oldest i t m = (case first_sequence (stream_of t m) of
       None \<Rightarrow> oldest
     | Some q \<Rightarrow> (case oldest of
           None \<Rightarrow> Some (i, t, q)
         | Some (j, u, q') \<Rightarrow> if q < q' then Some (i, t, q) else oldest))"

fun globalOldest :: "(string \<times> managed_process) list \<Rightarrow> (string \<times> stream_type \<times> nat) option \<Rightarrow> (string \<times> stream_type \<times> nat) option" where
  "globalOldest [] oldest = oldest"
| "globalOldest ((i, m) # ps) oldest = globalOldest ps (older_stream (older_stream oldest i Stdout m) i Stderr m)"

definition retained_measure :: "process_manager \<Rightarrow> nat" where
  "retained_measure pm = sum_list (map process_measure (map_values (pm_processes pm)))"

definition set_retained :: "int \<Rightarrow> process_manager \<Rightarrow> process_manager" where
  "set_retained n pm = pm\<lparr>pm_counters := (pm_counters pm)\<lparr>oc_retainedBytes := n\<rparr>\<rparr>"

text \<open>One round of \<open>trimGlobal\<close>.\<close>

definition trim_round :: "nat \<Rightarrow> string \<Rightarrow> stream_type \<Rightarrow> process_manager \<Rightarrow> process_manager" where
  "trim_round requested i t pm = (case managed_of pm i of
       None \<Rightarrow> pm
     | Some m \<Rightarrow> (let (m', n) = drop_bytes requested t m
           in set_retained (oc_retainedBytes (pm_counters pm) - int n) (pm\<lparr>pm_processes := AList.update i m' (pm_processes pm)\<rparr>)))"

text \<open>The rounds until the budget is met; each removes a chunk or makes one smaller, so the number
  of chunks and bytes in memory is fuel enough (\<open>trimGlobal_within\<close>).\<close>

fun trim_rounds :: "nat \<Rightarrow> nat \<Rightarrow> process_manager \<Rightarrow> process_manager" where
  "trim_rounds 0 maximum pm = pm"
| "trim_rounds (Suc fuel) maximum pm =
     (if oc_retainedBytes (pm_counters pm) > int maximum
      then (case globalOldest (pm_processes pm) None of
          None \<Rightarrow> pm
        | Some (i, t, q) \<Rightarrow>
            trim_rounds fuel maximum (trim_round (nat (oc_retainedBytes (pm_counters pm) - int maximum)) i t pm))
      else pm)"

definition trimGlobal :: "process_limits \<Rightarrow> process_manager \<Rightarrow> process_manager" where
  "trimGlobal lim pm = trim_rounds (retained_measure pm) (ob_maxRetainedOutputBytes (pl_budget lim)) pm"

text \<open>A chunk arrives; \<open>failure\<close> is the outcome of the write to the journal.\<close>

definition append_output ::
  "process_limits \<Rightarrow> nat option \<Rightarrow> string \<Rightarrow> stream_type \<Rightarrow> nat list \<Rightarrow> process_manager \<Rightarrow> process_manager"
where
  "append_output lim failure i t chunk pm = (case managed_of pm i of
       None \<Rightarrow> pm
     | Some m \<Rightarrow>
         if chunk = [] then pm
         else
           (let (m1, c1) = appendJournal (pl_budget lim) failure t chunk False m (pm_counters pm);
                q = oc_outputSequence c1 + 1;
                (m2, n) = trimProcess (push_chunk t chunk q m1)
            in trimGlobal lim (put_managed m2 (pm\<lparr>pm_counters := c1\<lparr>oc_outputSequence := q,
                 oc_retainedBytes := oc_retainedBytes c1 + int (length chunk) - int n\<rparr>\<rparr>))))"

section \<open>Process groups\<close>

record group_member =
  gm_pid :: nat
  gm_startTime :: string
  gm_uid :: nat

definition observe_members :: "group_member list \<Rightarrow> managed_process \<Rightarrow> managed_process" where
  "observe_members members m =
     m\<lparr>mp_observedGroupMembers := fold (\<lambda>g. AList.update (gm_pid g) (gm_startTime g)) members (mp_observedGroupMembers m)\<rparr>"

definition process_fencing_failed :: qubicl_error where
  "process_fencing_failed = QubiclError ''process_fencing_failed'' 500"

text \<open>The members of the group of an ended process are identified before a signal is sent:
  \<open>found\<close> are the members at first, \<open>surviving\<close> those after the kill. The result says whether the
  group was signalled.\<close>

definition group_identified :: "managed_process \<Rightarrow> nat \<Rightarrow> group_member list \<Rightarrow> bool" where
  "group_identified m pgid found =
     (let leaderMatches = (case List.find (\<lambda>g. gm_pid g = pgid) found of
            None \<Rightarrow> False
          | Some g \<Rightarrow> mp_groupLeaderStartTime m = Some (gm_startTime g));
          observedMemberMatches = list_ex (\<lambda>g. map_of (mp_observedGroupMembers m) (gm_pid g) = Some (gm_startTime g)) found;
          uidMatches = (case mp_expectedUid m of None \<Rightarrow> False | Some u \<Rightarrow> list_all (\<lambda>g. gm_uid g = u) found)
      in (leaderMatches \<or> observedMemberMatches) \<and> uidMatches)"

definition terminateCompletedGroup ::
  "managed_process \<Rightarrow> group_member list \<Rightarrow> group_member list \<Rightarrow> bool \<times> unit outcome"
where
  "terminateCompletedGroup m found surviving = (case mp_pid m of
       None \<Rightarrow> (False, Inr ())
     | Some pgid \<Rightarrow>
         if found = [] then (False, Inr ())
         else if \<not> group_identified m pgid found then (False, Inl process_fencing_failed)
         else if surviving \<noteq> [] then (True, Inl process_fencing_failed)
         else (True, Inr ()))"

section \<open>The end of a process\<close>

definition completed_form :: "process_limits \<Rightarrow> int \<Rightarrow> group_member list \<Rightarrow> managed_process \<Rightarrow> managed_process" where
  "completed_form lim now members m = (observe_members members m)
     \<lparr>mp_completed := True, mp_restartTimer := None,
      mp_serviceState := map_option (\<lambda>s. s\<lparr>ss_state := SExited, ss_nextRestartAt := None\<rparr>) (mp_serviceState m),
      mp_finishedAt := Some now, mp_timeoutTimer := None, mp_lifetimeTimer := None, mp_outputFileClosed := True,
      mp_cleanupTimer := Some (now + max (pl_outputTtlMs lim) (if mp_compatibilitySession m then pl_completedTtlMs lim else 0)),
      mp_expiryTimer := (if mp_lifecycle m \<noteq> LService then Some (now + pl_completedTtlMs lim) else None)\<rparr>"

record exit_facts =
  ef_now :: int
  ef_spawn :: "string \<Rightarrow> string + spawned_child"
  ef_members :: "group_member list"
  ef_stdoutFailure :: "nat option"
  ef_stderrFailure :: "nat option"

definition complete_process :: "process_limits \<Rightarrow> exit_facts \<Rightarrow> string \<Rightarrow> process_manager \<Rightarrow> process_manager" where
  "complete_process lim x i pm = (case managed_of pm i of
       None \<Rightarrow> pm
     | Some m \<Rightarrow>
         if mp_completed m then pm
         else
           (let (m1, c1) = appendJournal (pl_budget lim) (ef_stdoutFailure x) Stdout [] True m (pm_counters pm);
                (m2, c2) = appendJournal (pl_budget lim) (ef_stderrFailure x) Stderr [] True m1 c1;
                m3 = completed_form lim (ef_now x) (ef_members x) m2;
                pm1 = put_managed m3 (pm\<lparr>pm_counters := c2\<rparr>);
                pm2 = (if mp_lifecycle m3 = LTask then persistTask lim m3 pm1 else pm1)
            in drainServiceQueue lim (ef_now x) (ef_spawn x) pm2))"

text \<open>The bounded backoff of a service that is restarted.\<close>

definition restart_wait :: "restart_policy \<Rightarrow> service_state \<Rightarrow> int" where
  "restart_wait r s = min 30000 ((case rp_backoffMs r of None \<Rightarrow> 1000 | Some b \<Rightarrow> b) * 2 ^ ss_restartAttempts s)"

definition restart_due :: "managed_process \<Rightarrow> (restart_policy \<times> service_state) option" where
  "restart_due m =
     (case (mp_serviceState m, Option.bind (mp_serviceOptions m) so_restart) of
        (Some s, Some r) \<Rightarrow>
          if mp_terminationReason m = None \<and> (mp_exitCode m \<noteq> Some 0 \<or> mp_signal m \<noteq> None)
             \<and> int (ss_restartAttempts s) < rp_maxAttempts r
          then Some (r, s) else None
      | _ \<Rightarrow> None)"

definition schedule_restart :: "int \<Rightarrow> restart_policy \<Rightarrow> service_state \<Rightarrow> managed_process \<Rightarrow> managed_process" where
  "schedule_restart now r s m =
     m\<lparr>mp_serviceState := Some (s\<lparr>ss_lastExitCode := (if mp_exitCode m \<noteq> None then mp_exitCode m else ss_lastExitCode s),
         ss_restartAttempts := ss_restartAttempts s + 1, ss_state := SStarting,
         ss_nextRestartAt := Some (now + restart_wait r s)\<rparr>),
       mp_restartTimer := Some (now + restart_wait r s)\<rparr>"

text \<open>The \<open>close\<close> event of a child.\<close>

definition childClosed ::
  "process_limits \<Rightarrow> exit_facts \<Rightarrow> nat \<Rightarrow> int option \<Rightarrow> string option \<Rightarrow> string \<Rightarrow> process_manager \<Rightarrow> process_manager"
where
  "childClosed lim x child code sig i pm = (case managed_of pm i of
       None \<Rightarrow> pm
     | Some m \<Rightarrow>
         if mp_child m \<noteq> child \<or> mp_completed m then pm
         else
           (let m1 = observe_members (ef_members x)
                  (m\<lparr>mp_exitCode := (if mp_exitCode m = None then code else mp_exitCode m), mp_signal := sig\<rparr>)
            in case restart_due m1 of
                 Some (r, s) \<Rightarrow> put_managed (schedule_restart (ef_now x) r s m1) pm
               | None \<Rightarrow> complete_process lim x i (put_managed m1 pm)))"

text \<open>The \<open>error\<close> event of a child: its message goes to the error output.\<close>

definition childFailed ::
  "process_limits \<Rightarrow> nat option \<Rightarrow> nat list \<Rightarrow> string \<Rightarrow> process_manager \<Rightarrow> process_manager"
where
  "childFailed lim failure message i pm =
     (let pm1 = append_output lim failure i Stderr message pm
      in case managed_of pm1 i of
           None \<Rightarrow> pm1
         | Some m \<Rightarrow> put_managed (m\<lparr>mp_exitCode := Some (-1)\<rparr>) pm1)"

definition restart_failed :: "process_limits \<Rightarrow> exit_facts \<Rightarrow> string \<Rightarrow> managed_process \<Rightarrow> process_manager \<Rightarrow> process_manager" where
  "restart_failed lim x e m pm =
     complete_process lim x (mp_id m) (put_managed (m\<lparr>mp_exitCode := Some (-1),
       mp_serviceState := map_option (\<lambda>s. s\<lparr>ss_lastError := Some e\<rparr>) (mp_serviceState m)\<rparr>) pm)"

text \<open>The restart: the old group is fenced first, then the command is run again.\<close>

definition restartService ::
  "process_limits \<Rightarrow> exit_facts \<Rightarrow> group_member list \<Rightarrow> (string + spawned_child) \<Rightarrow> string \<Rightarrow> process_manager \<Rightarrow> process_manager"
where
  "restartService lim x surviving spawned i pm = (case managed_of pm i of
       None \<Rightarrow> pm
     | Some m \<Rightarrow>
         (case mp_restartTimer m of
            None \<Rightarrow> pm
          | Some due \<Rightarrow>
              if ef_now x < due then pm
              else (case snd (terminateCompletedGroup m (ef_members x) surviving) of
                  Inl e \<Rightarrow> restart_failed lim x (error_code e) m pm
                | Inr _ \<Rightarrow>
                    if mp_completed m \<or> mp_terminationReason m \<noteq> None \<or> pm_bulkStopping pm \<or> pm_shuttingDown pm then pm
                    else (case spawned of
                        Inl e \<Rightarrow> restart_failed lim x e (m\<lparr>mp_restartTimer := None\<rparr>) pm
                      | Inr ch \<Rightarrow>
                          put_managed (m\<lparr>mp_restartTimer := None, mp_child := mp_child m + 1, mp_pid := ch_pid ch,
                            mp_groupLeaderStartTime := ch_startTime ch, mp_observedGroupMembers := [],
                            mp_exitCode := None, mp_signal := None,
                            mp_serviceState := map_option (\<lambda>s. s\<lparr>ss_nextRestartAt := None,
                              ss_state := (if wants_readiness (mp_serviceOptions m) then SStarting else SUnverified)\<rparr>)
                              (mp_serviceState m)\<rparr>) pm))))"

text \<open>The answer of a readiness probe that was begun at \<open>started\<close> for a child.\<close>

definition probeChecked :: "int \<Rightarrow> int \<Rightarrow> nat \<Rightarrow> string option \<Rightarrow> string \<Rightarrow> process_manager \<Rightarrow> process_manager" where
  "probeChecked now started child err i pm = (case managed_of pm i of
       None \<Rightarrow> pm
     | Some m \<Rightarrow>
         (case (Option.bind (mp_serviceOptions m) so_readiness, mp_serviceState m) of
            (Some probe, Some s) \<Rightarrow>
              if mp_completed m \<or> mp_child m \<noteq> child \<or> mp_restartTimer m \<noteq> None then pm
              else
                (let s1 = s\<lparr>ss_lastCheckedAt := Some now\<rparr>;
                     s2 = (case err of
                        Some e \<Rightarrow> s1\<lparr>ss_lastError := Some e,
                          ss_state := (if ss_state s = SReady
                              \<or> now - started \<ge> (case pb_timeoutMs probe of None \<Rightarrow> 30000 | Some t \<Rightarrow> t)
                            then SUnhealthy else ss_state s)\<rparr>
                      | None \<Rightarrow> s1\<lparr>ss_state := SReady, ss_lastError := None\<rparr>)
                 in put_managed (m\<lparr>mp_serviceState := Some s2\<rparr>) pm)
          | _ \<Rightarrow> pm))"

section \<open>Removal\<close>

text \<open>The output of a process is cleaned up: its bytes leave the budget and its file goes.\<close>

definition cleaned_form :: "managed_process \<Rightarrow> managed_process" where
  "cleaned_form m = m\<lparr>mp_fullOutputBytes := (if mp_fullOutputBytes m > 0 then 0 else mp_fullOutputBytes m),
     mp_log := None, mp_cleanupTimer := None\<rparr>"

definition release_output :: "managed_process \<Rightarrow> output_counters \<Rightarrow> output_counters" where
  "release_output m c = (if mp_fullOutputBytes m > 0
     then c\<lparr>oc_aggregateOutputBytes := max 0 (oc_aggregateOutputBytes c - mp_fullOutputBytes m)\<rparr> else c)"

definition cleanupOutput :: "string \<Rightarrow> process_manager \<Rightarrow> process_manager" where
  "cleanupOutput i pm = (case managed_of pm i of
       None \<Rightarrow> pm
     | Some m \<Rightarrow> put_managed (cleaned_form m) (pm\<lparr>pm_counters := release_output m (pm_counters pm)\<rparr>))"

text \<open>The cleanup of the k-th process that has left the table.\<close>

definition cleanupKept :: "nat \<Rightarrow> process_manager \<Rightarrow> process_manager" where
  "cleanupKept k pm =
     (if k < length (pm_keptOutput pm)
      then pm\<lparr>pm_counters := release_output (pm_keptOutput pm ! k) (pm_counters pm),
             pm_keptOutput := take k (pm_keptOutput pm) @ drop (Suc k) (pm_keptOutput pm)\<rparr>
      else pm)"

definition deleteRecord :: "process_limits \<Rightarrow> int \<Rightarrow> bool \<Rightarrow> string \<Rightarrow> process_manager \<Rightarrow> process_manager" where
  "deleteRecord lim now preserveOutput i pm = (case managed_of pm i of
       None \<Rightarrow> pm
     | Some m \<Rightarrow>
         (let c = pm_counters pm;
              c1 = c\<lparr>oc_retainedBytes := oc_retainedBytes c - mp_outputBytes m,
                     oc_aggregateJournalRecords := max 0 (oc_aggregateJournalRecords c - int (length (mp_journal m)))\<rparr>;
              m1 = m\<lparr>mp_expiryTimer := None, mp_timeoutTimer := None, mp_lifetimeTimer := None, mp_outputBytes := 0,
                     mp_stdout := (mp_stdout m)\<lparr>rs_chunks := []\<rparr>, mp_stderr := (mp_stderr m)\<lparr>rs_chunks := []\<rparr>,
                     mp_journal := [], mp_outputFileClosed := True\<rparr>;
              pm1 = pm\<lparr>pm_processes := AList.delete i (pm_processes pm)\<rparr>
          in if \<not> preserveOutput then pm1\<lparr>pm_counters := release_output m1 c1\<rparr>
             else pm1\<lparr>pm_counters := c1, pm_keptOutput := pm_keptOutput pm @
                    [m1\<lparr>mp_cleanupTimer := (case mp_cleanupTimer m of
                        None \<Rightarrow> Some (now + pl_outputTtlMs lim) | Some d \<Rightarrow> Some d)\<rparr>]\<rparr>))"

text \<open>\<open>discard\<close>: an ended process leaves the table only after its group is fenced.\<close>

definition discard ::
  "process_limits \<Rightarrow> int \<Rightarrow> group_member list \<Rightarrow> group_member list \<Rightarrow> bool \<Rightarrow> string \<Rightarrow> process_manager
     \<Rightarrow> process_manager \<times> unit outcome"
where
  "discard lim now found surviving preserveOutput i pm = (case managed_of pm i of
       None \<Rightarrow> (pm, Inr ())
     | Some m \<Rightarrow>
         (case (if mp_completed m then snd (terminateCompletedGroup m found surviving) else Inr ()) of
            Inl e \<Rightarrow> (pm, Inl e)
          | Inr _ \<Rightarrow> (deleteRecord lim now preserveOutput i pm, Inr ())))"

text \<open>The ended compatibility sessions beyond the number that is kept, oldest first; pruning
  discards them one after the other until a group cannot be fenced.\<close>

definition earlier_finished :: "process_limits \<Rightarrow> managed_process \<Rightarrow> managed_process \<Rightarrow> bool" where
  "earlier_finished lim l r =
     (let a = (case mp_finishedAt l of None \<Rightarrow> 0 | Some t \<Rightarrow> t); b = (case mp_finishedAt r of None \<Rightarrow> 0 | Some t \<Rightarrow> t)
      in a < b \<or> a = b \<and> pl_localeBefore lim (mp_id l) (mp_id r))"

definition prune_candidates :: "process_limits \<Rightarrow> process_manager \<Rightarrow> string list" where
  "prune_candidates lim pm =
     (let completed = sort_by (earlier_finished lim)
            (filter (\<lambda>m. mp_completed m \<and> mp_compatibilitySession m) (map_values (pm_processes pm)))
      in map mp_id (take (length completed - pl_maxCompletedProcesses lim) completed))"

fun prune_loop ::
  "process_limits \<Rightarrow> int \<Rightarrow> (string \<Rightarrow> group_member list \<times> group_member list) \<Rightarrow> string list \<Rightarrow> process_manager \<Rightarrow> process_manager"
where
  "prune_loop lim now groups [] pm = pm"
| "prune_loop lim now groups (i # is) pm =
     (case discard lim now (fst (groups i)) (snd (groups i)) False i pm of
        (pm1, Inl e) \<Rightarrow> pm1
      | (pm1, Inr _) \<Rightarrow> prune_loop lim now groups is pm1)"

definition pruneCompleted ::
  "process_limits \<Rightarrow> int \<Rightarrow> (string \<Rightarrow> group_member list \<times> group_member list) \<Rightarrow> process_manager \<Rightarrow> process_manager"
where
  "pruneCompleted lim now groups pm = prune_loop lim now groups (prune_candidates lim pm) pm"

section \<open>Stopping\<close>

definition visible_signal :: "string \<Rightarrow> string" where
  "visible_signal sig = (if sig = ''SIGKILL'' then ''SIGTERM'' else sig)"

text \<open>\<open>terminate\<close> up to its first wait; \<open>delivered\<close> says whether the group could be signalled. A
  service that waits for its restart is completed at once.\<close>

definition terminate ::
  "process_limits \<Rightarrow> exit_facts \<Rightarrow> bool \<Rightarrow> string \<Rightarrow> termination_reason \<Rightarrow> string \<Rightarrow> process_manager \<Rightarrow> process_manager"
where
  "terminate lim x delivered sig reason i pm = (case managed_of pm i of
       None \<Rightarrow> pm
     | Some m \<Rightarrow>
         if mp_restartTimer m \<noteq> None
         then complete_process lim x i (put_managed (m\<lparr>mp_restartTimer := None, mp_terminationReason := Some reason,
                mp_requestedSignal := Some (visible_signal sig)\<rparr>) pm)
         else if mp_completed m then pm
         else
           (let m1 = (if reason \<noteq> TimeoutReason then m\<lparr>mp_timeoutTimer := None\<rparr> else m)
            in if mp_requestedSignal m1 \<noteq> None then put_managed m1 pm
               else put_managed (m1\<lparr>mp_requestedSignal := Some (visible_signal sig), mp_terminationReason := Some reason,
                      mp_forcedKill := (mp_forcedKill m1 \<or> (delivered \<and> sig = ''SIGKILL''))\<rparr>) pm))"

text \<open>After the grace period: a process that has not ended is killed.\<close>

definition terminateForced :: "bool \<Rightarrow> string \<Rightarrow> process_manager \<Rightarrow> process_manager" where
  "terminateForced delivered i pm = (case managed_of pm i of
       None \<Rightarrow> pm
     | Some m \<Rightarrow> if mp_completed m then pm
         else put_managed (m\<lparr>mp_forcedKill := (mp_forcedKill m \<or> delivered)\<rparr>) pm)"

definition lifetimeExpired :: "process_limits \<Rightarrow> exit_facts \<Rightarrow> bool \<Rightarrow> string \<Rightarrow> process_manager \<Rightarrow> process_manager" where
  "lifetimeExpired lim x delivered i pm = (case managed_of pm i of
       None \<Rightarrow> pm
     | Some m \<Rightarrow> (case mp_lifetimeTimer m of
           None \<Rightarrow> pm
         | Some due \<Rightarrow>
             if ef_now x < due \<or> mp_completed m then pm
             else terminate lim x delivered ''SIGKILL'' LifetimeReason i
                    (put_managed (m\<lparr>mp_lifetimeTimer := None, mp_timedOut := True\<rparr>) pm)))"

definition timeoutExpired :: "process_limits \<Rightarrow> exit_facts \<Rightarrow> bool \<Rightarrow> string \<Rightarrow> process_manager \<Rightarrow> process_manager" where
  "timeoutExpired lim x delivered i pm = (case managed_of pm i of
       None \<Rightarrow> pm
     | Some m \<Rightarrow> (case mp_timeoutTimer m of
           None \<Rightarrow> pm
         | Some due \<Rightarrow>
             if ef_now x < due \<or> mp_completed m then pm
             else terminate lim x delivered ''SIGTERM'' TimeoutReason i
                    (put_managed (m\<lparr>mp_timeoutTimer := None, mp_timedOut := True\<rparr>) pm)))"

text \<open>An ended process expires: its record goes, the output of all but the compatibility sessions
  is kept for its own time.\<close>

definition recordExpired ::
  "process_limits \<Rightarrow> int \<Rightarrow> group_member list \<Rightarrow> group_member list \<Rightarrow> string \<Rightarrow> process_manager \<Rightarrow> process_manager"
where
  "recordExpired lim now found surviving i pm = (case managed_of pm i of
       None \<Rightarrow> pm
     | Some m \<Rightarrow> (case mp_expiryTimer m of
           None \<Rightarrow> pm
         | Some due \<Rightarrow>
             if now < due then pm
             else fst (discard lim now found surviving (\<not> mp_compatibilitySession m) i (put_managed (m\<lparr>mp_expiryTimer := None\<rparr>) pm))))"

definition outputExpired :: "int \<Rightarrow> string \<Rightarrow> process_manager \<Rightarrow> process_manager" where
  "outputExpired now i pm = (case managed_of pm i of
       None \<Rightarrow> pm
     | Some m \<Rightarrow> (case mp_cleanupTimer m of
           None \<Rightarrow> pm
         | Some due \<Rightarrow> if now < due then pm else cleanupOutput i pm))"

end
