(* ===== verification/Process_Requests.thy ===== *)
theory Process_Requests
  imports Process_Manager
begin

text \<open>The requests the process manager answers (packages/control/src/processes.ts): running a
  command, polling, input, stopping, the revocation of a lease, the management list and its
  stop, and what each of them tells the client. The handler of one event collects them.\<close>

section \<open>Ownership\<close>

definition process_not_found :: qubicl_error where
  "process_not_found = QubiclError ''process_not_found'' 404"

definition stale_process_owner :: qubicl_error where
  "stale_process_owner = QubiclError ''stale_process_owner'' 409"

definition owned :: "process_manager \<Rightarrow> string \<Rightarrow> lease_proof \<Rightarrow> managed_process outcome" where
  "owned pm i owner = (case managed_of pm i of
       None \<Rightarrow> Inl process_not_found
     | Some m \<Rightarrow>
         if mp_lifecycle m = LSession \<and> \<not> sameProof (mp_owner m) owner then Inl stale_process_owner
         else Inr m)"

definition ownedCompatibility :: "process_manager \<Rightarrow> string \<Rightarrow> lease_proof \<Rightarrow> managed_process outcome" where
  "ownedCompatibility pm i owner = rbind (owned pm i owner) (\<lambda>m.
     if \<not> mp_compatibilitySession m then Inl process_not_found else Inr m)"

section \<open>Results\<close>

datatype terminal_state = TQueued | TRunning | TExited | TSignaled | TTimedOut | TFailed

definition processTerminalState :: "managed_process \<Rightarrow> terminal_state" where
  "processTerminalState m =
     (if \<not> mp_completed m then TRunning else if mp_timedOut m then TTimedOut
      else if mp_exitCode m = Some (-1) then TFailed
      else if mp_signal m \<noteq> None then TSignaled else TExited)"

record termination_report =
  tn_reason :: termination_reason
  tn_requestedSignal :: string
  tn_observedSignal :: "string option"
  tn_forcedKill :: bool

record truncation_report =
  tc_inline :: "(nat \<times> stream_type list) option"
  tc_retainedLog :: "nat option"
  tc_continuation :: "(string \<times> string \<times> bool) option"

record process_result =
  pr_processId :: string
  pr_label :: string
  pr_lifecycle :: process_lifecycle
  pr_survivesDisconnect :: bool
  pr_survivesHumanTakeover :: bool
  pr_running :: bool
  pr_terminalState :: terminal_state
  pr_service :: "service_state option"
  pr_output :: "nat list option"
  pr_stdout :: "nat list option"
  pr_stderr :: "nat list option"
  pr_truncation :: "truncation_report option"
  pr_exitCode :: "int option"
  pr_signal :: "string option"
  pr_timeoutMs :: "nat option"
  pr_termination :: "termination_report option"

definition process_result_of :: "process_limits \<Rightarrow> managed_process \<Rightarrow> consumed \<Rightarrow> process_result" where
  "process_result_of lim m c = \<lparr>pr_processId = mp_id m, pr_label = mp_label m, pr_lifecycle = mp_lifecycle m,
     pr_survivesDisconnect = (mp_lifecycle m \<noteq> LSession), pr_survivesHumanTakeover = (mp_lifecycle m \<noteq> LSession),
     pr_running = (\<not> mp_completed m), pr_terminalState = processTerminalState m, pr_service = mp_serviceState m,
     pr_output = cs_output c, pr_stdout = cs_stdout c, pr_stderr = cs_stderr c,
     pr_truncation = (if cs_inlineTruncated c \<noteq> [] \<or> mp_outputFileTruncated m
       then Some \<lparr>tc_inline = (if cs_inlineTruncated c \<noteq> [] then Some (mp_maxOutputBytes m, cs_inlineTruncated c) else None),
              tc_retainedLog = (if mp_outputFileTruncated m then Some (ob_maxFullOutputBytes (pl_budget lim)) else None),
              tc_continuation = (if cs_inlineTruncated c \<noteq> []
                then Some (mp_id m, mp_outputPath m, mp_outputFileTruncated m) else None)\<rparr>
       else None),
     pr_exitCode = mp_exitCode m, pr_signal = mp_signal m,
     pr_timeoutMs = (if mp_timedOut m then mp_timeoutMs m else None),
     pr_termination = (case (mp_requestedSignal m, mp_terminationReason m) of
        (Some s, Some r) \<Rightarrow> Some \<lparr>tn_reason = r, tn_requestedSignal = s, tn_observedSignal = mp_signal m,
            tn_forcedKill = mp_forcedKill m\<rparr>
      | _ \<Rightarrow> None)\<rparr>"

text \<open>\<open>consume\<close> on the table: the output leaves memory with the answer.\<close>

definition consume_output :: "process_limits \<Rightarrow> managed_process \<Rightarrow> process_manager \<Rightarrow> process_manager \<times> process_result" where
  "consume_output lim m pm =
     (case consume m (pm_counters pm) of
        (m1, c1, out) \<Rightarrow> (put_managed m1 (pm\<lparr>pm_counters := c1\<rparr>), process_result_of lim m out))"

definition pendingServiceState :: "pending_service \<Rightarrow> service_state" where
  "pendingServiceState p = \<lparr>ss_state = (if pn_startError p = None then SQueued else SUnhealthy), ss_restartAttempts = 0,
     ss_nextRestartAt = None, ss_lastExitCode = None, ss_lastError = pn_startError p, ss_lastCheckedAt = None\<rparr>"

definition pendingServiceResult :: "pending_service \<Rightarrow> process_result" where
  "pendingServiceResult p = \<lparr>pr_processId = sd_id (pn_definition p), pr_label = sd_label (pn_definition p),
     pr_lifecycle = LService, pr_survivesDisconnect = True, pr_survivesHumanTakeover = True, pr_running = False,
     pr_terminalState = (if pn_startError p = None then TQueued else TFailed), pr_service = Some (pendingServiceState p),
     pr_output = None, pr_stdout = None, pr_stderr = None, pr_truncation = None, pr_exitCode = None, pr_signal = None,
     pr_timeoutMs = None, pr_termination = None\<rparr>"

definition pendingServiceSummary :: "pending_service \<Rightarrow> management_summary" where
  "pendingServiceSummary p = \<lparr>su_id = sd_id (pn_definition p), su_pid = None, su_service = Some (pendingServiceState p),
     su_exitCode = None, su_signal = None, su_status = (if pn_startError p = None then MQueued else MInterrupted),
     su_startedAt = pn_queuedAt p, su_finishedAt = None, su_label = sd_label (pn_definition p), su_lifecycle = LService,
     su_agentOwned = False, su_ownerGeneration = sd_ownerGeneration (pn_definition p)\<rparr>"

definition stripPersistedTask :: "persisted_task \<Rightarrow> management_summary" where
  "stripPersistedTask t = (pt_summary t)\<lparr>su_pid := None, su_service := None\<rparr>"

text \<open>The management list: the processes, the waiting services, the terminals and the tasks of the
  past that are none of these, by their start.\<close>

definition listForManagement :: "process_limits \<Rightarrow> management_summary list \<Rightarrow> process_manager \<Rightarrow> management_summary list" where
  "listForManagement lim terminals pm =
     (let current = map managementSummary (map_values (pm_processes pm))
            @ map pendingServiceSummary (map_values (pm_pendingServices pm));
          liveIds = map su_id current
      in sort_by (earlier_started (pl_localeBefore lim))
           (current @ terminals
            @ map stripPersistedTask (filter (\<lambda>t. su_id (pt_summary t) \<notin> set liveIds) (map_values (pm_taskHistory pm)))))"

datatype compatibility_status = CRunning | CDone | CKilled

definition compatibilityStatus :: "managed_process \<Rightarrow> compatibility_status" where
  "compatibilityStatus m =
     (if mp_completed m
      then (if mp_terminationReason m = None \<and> mp_signal m = None \<and> mp_exitCode m \<noteq> Some (-1) then CDone else CKilled)
      else CRunning)"

definition started_before :: "process_limits \<Rightarrow> managed_process \<Rightarrow> managed_process \<Rightarrow> bool" where
  "started_before lim l r = (mp_startedAt l < mp_startedAt r
     \<or> mp_startedAt l = mp_startedAt r \<and> pl_localeBefore lim (mp_id l) (mp_id r))"

definition listCompatibility :: "process_limits \<Rightarrow> lease_proof \<Rightarrow> process_manager \<Rightarrow> (string \<times> compatibility_status) list" where
  "listCompatibility lim owner pm =
     map (\<lambda>m. (mp_id m, compatibilityStatus m))
       (sort_by (started_before lim)
         (filter (\<lambda>m. mp_compatibilitySession m \<and> sameProof (mp_owner m) owner) (map_values (pm_processes pm))))"

section \<open>Commands\<close>

definition invalid_arguments :: qubicl_error where
  "invalid_arguments = QubiclError ''invalid_arguments'' 400"

definition service_persistence_unavailable :: qubicl_error where
  "service_persistence_unavailable = QubiclError ''service_persistence_unavailable'' 409"

definition definition_of_request :: "start_request \<Rightarrow> service_definition" where
  "definition_of_request r = \<lparr>sd_id = rq_id r, sd_label = rq_label r, sd_command = rq_command r, sd_cwd = rq_cwd r,
     sd_maxOutputBytes = rq_maxOutputBytes r, sd_outputMode = rq_outputMode r, sd_timeoutMs = rq_timeoutMs r,
     sd_ownerGeneration = proof_generation (rq_owner r), sd_service = rq_service r\<rparr>"

definition removeServiceDefinition :: "string \<Rightarrow> process_manager \<Rightarrow> process_manager" where
  "removeServiceDefinition i pm = pm\<lparr>pm_definitions := AList.delete i (pm_definitions pm)\<rparr>"

text \<open>\<open>exec\<close> up to its wait: a service is written to disk before it is started, and removed again
  when it does not start.\<close>

definition exec_begin ::
  "process_limits \<Rightarrow> int \<Rightarrow> (string \<Rightarrow> string + spawned_child) \<Rightarrow> start_request \<Rightarrow> process_manager
     \<Rightarrow> process_manager \<times> (qubicl_error + string)"
where
  "exec_begin lim now spawn r pm =
     (if rq_service r \<noteq> None \<and> rq_lifecycle r \<noteq> LService then (pm, Inl invalid_arguments)
      else if rq_lifecycle r = LService then
        (if \<not> pl_persistTaskRecords lim then (pm, Inl service_persistence_unavailable)
         else
           (let pm1 = pm\<lparr>pm_definitions := AList.update (rq_id r) (definition_of_request r) (pm_definitions pm)\<rparr>
            in case start_process lim now spawn r pm1 of
                 (pm2, Inl e) \<Rightarrow> (removeServiceDefinition (rq_id r) pm2, Inl e)
               | (pm2, Inr i) \<Rightarrow> (pm2, Inr i)))
      else start_process lim now spawn r pm)"

text \<open>The end of \<open>exec\<close> and of \<open>write\<close>: the output so far, and an ended process leaves the table.\<close>

definition answer_and_discard ::
  "process_limits \<Rightarrow> int \<Rightarrow> group_member list \<Rightarrow> group_member list \<Rightarrow> string \<Rightarrow> process_manager
     \<Rightarrow> process_manager \<times> process_result outcome"
where
  "answer_and_discard lim now found surviving i pm = (case managed_of pm i of
       None \<Rightarrow> (pm, Inl process_not_found)
     | Some m \<Rightarrow>
         (let (pm1, result) = consume_output lim m pm
          in if pr_running result \<or> mp_lifecycle m = LService then (pm1, Inr result)
             else (case discard lim now found surviving True i pm1 of
                 (pm2, Inl e) \<Rightarrow> (pm2, Inl e)
               | (pm2, Inr _) \<Rightarrow> (pm2, Inr result))))"

definition process_not_running :: qubicl_error where
  "process_not_running = QubiclError ''process_not_running'' 409"

text \<open>A poll or input for a service that has not started.\<close>

definition write_pending :: "pending_service \<Rightarrow> string \<Rightarrow> bool \<Rightarrow> process_result outcome" where
  "write_pending p input close = (if input \<noteq> [] \<or> close then Inl process_not_running else Inr (pendingServiceResult p))"

definition poll ::
  "process_limits \<Rightarrow> int \<Rightarrow> group_member list \<Rightarrow> group_member list \<Rightarrow> lease_proof \<Rightarrow> string \<Rightarrow> process_manager
     \<Rightarrow> process_manager \<times> process_result outcome"
where
  "poll lim now found surviving owner i pm = (case map_of (pm_pendingServices pm) i of
       Some p \<Rightarrow> (pm, write_pending p [] False)
     | None \<Rightarrow> (case owned pm i owner of
           Inl e \<Rightarrow> (pm, Inl e)
         | Inr m \<Rightarrow> answer_and_discard lim now found surviving i pm))"

text \<open>The end of \<open>stop\<close>: the definition of a service goes with the service.\<close>

definition stop_answer ::
  "process_limits \<Rightarrow> int \<Rightarrow> group_member list \<Rightarrow> group_member list \<Rightarrow> string \<Rightarrow> process_manager
     \<Rightarrow> process_manager \<times> process_result outcome"
where
  "stop_answer lim now found surviving i pm = (case managed_of pm i of
       None \<Rightarrow> (pm, Inl process_not_found)
     | Some m \<Rightarrow>
         (let (pm1, result) = consume_output lim m pm
          in if pr_running result then (pm1, Inr result)
             else
               (let pm2 = (if mp_lifecycle m = LService then removeServiceDefinition i pm1 else pm1)
                in case discard lim now found surviving True i pm2 of
                     (pm3, Inl e) \<Rightarrow> (pm3, Inl e)
                   | (pm3, Inr _) \<Rightarrow> (pm3, Inr result))))"

definition stop_pending :: "string \<Rightarrow> process_manager \<Rightarrow> process_manager" where
  "stop_pending i pm = (removeServiceDefinition i pm)\<lparr>pm_pendingServices := AList.delete i (pm_pendingServices pm)\<rparr>"

definition stop_begin ::
  "process_limits \<Rightarrow> exit_facts \<Rightarrow> bool \<Rightarrow> string \<Rightarrow> lease_proof \<Rightarrow> string \<Rightarrow> process_manager \<Rightarrow> process_manager \<times> unit outcome"
where
  "stop_begin lim x delivered sig owner i pm = (case map_of (pm_pendingServices pm) i of
       Some p \<Rightarrow> (stop_pending i pm, Inr ())
     | None \<Rightarrow> (case owned pm i owner of
           Inl e \<Rightarrow> (pm, Inl e)
         | Inr m \<Rightarrow> (terminate lim x delivered sig StopReason i pm, Inr ())))"

section \<open>Input\<close>

definition MAX_INPUT_BYTES :: nat where "MAX_INPUT_BYTES = 65536"
definition MAX_STDIN_QUEUE_BYTES :: nat where "MAX_STDIN_QUEUE_BYTES = 262144"

definition input_too_large :: qubicl_error where
  "input_too_large = QubiclError ''input_too_large'' 413"

definition stdin_backpressure :: qubicl_error where
  "stdin_backpressure = QubiclError ''stdin_backpressure'' 429"

text \<open>\<open>writeInput\<close> for a compatibility session up to its wait: the bytes are queued.\<close>

definition queueInput :: "nat \<Rightarrow> bool \<Rightarrow> managed_process \<Rightarrow> managed_process outcome" where
  "queueInput bytes close m =
     (if bytes > MAX_INPUT_BYTES then Inl input_too_large
      else if mp_completed m \<or> mp_stdinEnded m
      then (if bytes = 0 \<and> close then Inr m else Inl process_not_running)
      else if mp_stdinQueuedBytes m + bytes > MAX_STDIN_QUEUE_BYTES then Inl stdin_backpressure
      else Inr (m\<lparr>mp_stdinQueuedBytes := mp_stdinQueuedBytes m + bytes\<rparr>))"

text \<open>The write has settled, or timed out and destroyed the stream; closing comes last.\<close>

definition settleInput :: "nat \<Rightarrow> bool \<Rightarrow> bool \<Rightarrow> managed_process \<Rightarrow> managed_process" where
  "settleInput bytes timedOut close m =
     m\<lparr>mp_stdinQueuedBytes := mp_stdinQueuedBytes m - bytes, mp_stdinEnded := (mp_stdinEnded m \<or> timedOut \<or> close)\<rparr>"

definition inputCompatibility :: "nat \<Rightarrow> lease_proof \<Rightarrow> string \<Rightarrow> process_manager \<Rightarrow> process_manager \<times> unit outcome" where
  "inputCompatibility bytes owner i pm = (case ownedCompatibility pm i owner of
       Inl e \<Rightarrow> (pm, Inl e)
     | Inr m \<Rightarrow>
         if mp_completed m \<or> mp_stdinEnded m then (pm, Inl process_not_running)
         else (case queueInput bytes False m of
             Inl e \<Rightarrow> (pm, Inl e)
           | Inr m1 \<Rightarrow> (put_managed m1 pm, Inr ())))"

definition inputSettled :: "nat \<Rightarrow> bool \<Rightarrow> string \<Rightarrow> process_manager \<Rightarrow> process_manager" where
  "inputSettled bytes timedOut i pm = (case managed_of pm i of
       None \<Rightarrow> pm
     | Some m \<Rightarrow> put_managed (settleInput bytes timedOut False m) pm)"

text \<open>The answer of \<open>statusCompatibility\<close>, and the removal of a compatibility session that has ended.\<close>

definition statusCompatibility :: "lease_proof \<Rightarrow> nat \<Rightarrow> nat option \<Rightarrow> string \<Rightarrow> process_manager \<Rightarrow> compat_page outcome" where
  "statusCompatibility owner offset tail i pm =
     rbind (ownedCompatibility pm i owner) (\<lambda>m. compatibilityPage m offset tail)"

definition deleteCompatibility_begin ::
  "process_limits \<Rightarrow> exit_facts \<Rightarrow> bool \<Rightarrow> bool \<Rightarrow> lease_proof \<Rightarrow> string \<Rightarrow> process_manager \<Rightarrow> process_manager \<times> unit outcome"
where
  "deleteCompatibility_begin lim x delivered force owner i pm = (case ownedCompatibility pm i owner of
       Inl e \<Rightarrow> (pm, Inl e)
     | Inr m \<Rightarrow>
         (if mp_completed m then pm
          else terminate lim x delivered (if force then ''SIGKILL'' else ''SIGTERM'') StopReason i pm, Inr ()))"

definition deleteCompatibility_end ::
  "process_limits \<Rightarrow> int \<Rightarrow> group_member list \<Rightarrow> group_member list \<Rightarrow> string \<Rightarrow> process_manager \<Rightarrow> process_manager \<times> unit outcome"
where
  "deleteCompatibility_end lim now found surviving i pm = (case managed_of pm i of
       None \<Rightarrow> (pm, Inr ())
     | Some m \<Rightarrow> if \<not> mp_completed m then (pm, Inl process_fencing_failed)
         else discard lim now found surviving False i pm)"

section \<open>Revocation of a lease\<close>

definition owner_matches :: "lease_proof option \<Rightarrow> managed_process \<Rightarrow> bool" where
  "owner_matches owner m = (mp_lifecycle m = LSession
     \<and> (case owner of None \<Rightarrow> True | Some p \<Rightarrow> sameProof (mp_owner m) p))"

definition terminateOwner_targets :: "process_limits \<Rightarrow> lease_proof option \<Rightarrow> process_manager \<Rightarrow> string list" where
  "terminateOwner_targets lim owner pm =
     (if owner = None \<and> pl_fenceUid lim = None then []
      else map mp_id (filter (owner_matches owner) (map_values (pm_processes pm))))"

text \<open>The first segment kills what still runs; each target has facts of its own.\<close>

definition terminateOwner_begin ::
  "process_limits \<Rightarrow> (string \<Rightarrow> exit_facts \<times> bool) \<Rightarrow> string list \<Rightarrow> process_manager \<Rightarrow> process_manager"
where
  "terminateOwner_begin lim facts targets pm =
     fold (\<lambda>i pm. case managed_of pm i of
         None \<Rightarrow> pm
       | Some m \<Rightarrow> if mp_completed m then pm
           else terminate lim (fst (facts i)) (snd (facts i)) ''SIGKILL'' LeaseRevokedReason i pm) targets pm"

text \<open>The last segment: \<open>groupError\<close> is the first error of fencing an ended group, \<open>alive\<close> the
  members that are found of each group. Nothing is deleted unless every group is gone.\<close>

definition terminateOwner_end ::
  "process_limits \<Rightarrow> int \<Rightarrow> qubicl_error option \<Rightarrow> (string \<Rightarrow> group_member list) \<Rightarrow> string list \<Rightarrow> process_manager
     \<Rightarrow> process_manager \<times> unit outcome"
where
  "terminateOwner_end lim now groupError alive targets pm =
     (let surviving = filter (\<lambda>i. alive i \<noteq> []) targets
      in case groupError of
           Some e \<Rightarrow> (pm, Inl e)
         | None \<Rightarrow>
             if surviving \<noteq> [] then (pm, Inl process_fencing_failed)
             else (fold (\<lambda>i pm. case managed_of pm i of
                 None \<Rightarrow> pm
               | Some m \<Rightarrow> deleteRecord lim now (\<not> mp_compatibilitySession m) i pm) targets pm, Inr ()))"

section \<open>Management\<close>

definition stopForManagement_begin ::
  "process_limits \<Rightarrow> exit_facts \<Rightarrow> bool \<Rightarrow> string \<Rightarrow> process_manager \<Rightarrow> process_manager"
where
  "stopForManagement_begin lim x delivered i pm = (case map_of (pm_pendingServices pm) i of
       Some p \<Rightarrow> stop_pending i pm
     | None \<Rightarrow> (case managed_of pm i of
           None \<Rightarrow> pm
         | Some m \<Rightarrow> if mp_completed m then pm else terminate lim x delivered ''SIGTERM'' StopReason i pm))"

definition stopForManagement_end ::
  "process_limits \<Rightarrow> int \<Rightarrow> group_member list \<Rightarrow> group_member list \<Rightarrow> string \<Rightarrow> process_manager \<Rightarrow> process_manager \<times> unit outcome"
where
  "stopForManagement_end lim now found surviving i pm = (case managed_of pm i of
       None \<Rightarrow> (pm, Inl process_not_found)
     | Some m \<Rightarrow>
         if \<not> mp_completed m then (pm, Inl process_fencing_failed)
         else discard lim now found surviving False i
                (if mp_lifecycle m = LService then removeServiceDefinition i pm else pm))"

text \<open>What \<open>stopAllForManagement\<close> stops, and its two flags.\<close>

definition stopAll_targets :: "process_manager \<Rightarrow> string list" where
  "stopAll_targets pm = map fst (pm_pendingServices pm)
     @ map mp_id (filter (\<lambda>m. mp_lifecycle m = LService \<or> \<not> mp_completed m) (map_values (pm_processes pm)))"

definition stopAll_begin :: "process_manager \<Rightarrow> process_manager" where
  "stopAll_begin pm = pm\<lparr>pm_bulkStopping := True\<rparr>"

definition stopAll_end :: "process_manager \<Rightarrow> process_manager" where
  "stopAll_end pm = pm\<lparr>pm_bulkStopping := False\<rparr>"

definition shutdown_begin :: "process_limits \<Rightarrow> (string \<Rightarrow> exit_facts \<times> bool) \<Rightarrow> process_manager \<Rightarrow> process_manager" where
  "shutdown_begin lim facts pm =
     fold (\<lambda>i pm. case managed_of pm i of
         None \<Rightarrow> pm
       | Some m \<Rightarrow> if mp_completed m then pm
           else terminate lim (fst (facts i)) (snd (facts i)) ''SIGTERM'' StopReason i pm)
       (map fst (pm_processes pm)) (pm\<lparr>pm_shuttingDown := True\<rparr>)"

end
