(* ===== verification/Process_Events.thy ===== *)
theory Process_Events
  imports Process_Requests
begin

text \<open>The process manager as one machine: an event is a request, an event of a child or a timer, and
  \<open>handle_event\<close> is what the manager does with it. The locale \<open>manager_invariant\<close> reduces what
  every event keeps to what the few primitive changes of the table keep.\<close>

section \<open>Events\<close>

datatype manager_event =
    EvExec int "string \<Rightarrow> string + spawned_child" start_request
  | EvOpenSession int "string \<Rightarrow> string + spawned_child" start_request
  | EvTerminalOpen int "string \<Rightarrow> string + spawned_child"
  | EvTerminalEnded
  | EvOutput "nat option" string stream_type "nat list"
  | EvClosed exit_facts nat "int option" "string option" string
  | EvFailed "nat option" "nat list" string
  | EvRestart exit_facts "group_member list" "string + spawned_child" string
  | EvProbe int int nat "string option" string
  | EvAnswer int "group_member list" "group_member list" string
  | EvPoll int "group_member list" "group_member list" lease_proof string
  | EvStop exit_facts bool string lease_proof string
  | EvStopAnswer int "group_member list" "group_member list" string
  | EvForce bool string
  | EvLifetime exit_facts bool string
  | EvTimeout exit_facts bool string
  | EvExpiry int "group_member list" "group_member list" string
  | EvOutputExpired int string
  | EvKeptExpired nat
  | EvPrune int "string \<Rightarrow> group_member list \<times> group_member list"
  | EvRevokeBegin "string \<Rightarrow> exit_facts \<times> bool" "string list"
  | EvRevokeEnd int "qubicl_error option" "string \<Rightarrow> group_member list" "string list"
  | EvInput nat lease_proof string
  | EvInputSettled nat bool string
  | EvDelete exit_facts bool bool lease_proof string
  | EvDeleteEnd int "group_member list" "group_member list" string
  | EvManage exit_facts bool string
  | EvManageEnd int "group_member list" "group_member list" string
  | EvStopAll bool
  | EvShutdown "string \<Rightarrow> exit_facts \<times> bool"

definition handle_event :: "process_limits \<Rightarrow> manager_event \<Rightarrow> process_manager \<Rightarrow> process_manager" where
  "handle_event lim e pm = (case e of
       EvExec now spawn r \<Rightarrow> fst (exec_begin lim now spawn r pm)
     | EvOpenSession now spawn r \<Rightarrow> fst (start_process lim now spawn r pm)
     | EvTerminalOpen now spawn \<Rightarrow> fst (terminalOpen lim now spawn pm)
     | EvTerminalEnded \<Rightarrow> terminalEnded pm
     | EvOutput failure i t chunk \<Rightarrow> append_output lim failure i t chunk pm
     | EvClosed x child code sig i \<Rightarrow> childClosed lim x child code sig i pm
     | EvFailed failure message i \<Rightarrow> childFailed lim failure message i pm
     | EvRestart x surviving spawned i \<Rightarrow> restartService lim x surviving spawned i pm
     | EvProbe now started child err i \<Rightarrow> probeChecked now started child err i pm
     | EvAnswer now found surviving i \<Rightarrow> fst (answer_and_discard lim now found surviving i pm)
     | EvPoll now found surviving owner i \<Rightarrow> fst (poll lim now found surviving owner i pm)
     | EvStop x delivered sig owner i \<Rightarrow> fst (stop_begin lim x delivered sig owner i pm)
     | EvStopAnswer now found surviving i \<Rightarrow> fst (stop_answer lim now found surviving i pm)
     | EvForce delivered i \<Rightarrow> terminateForced delivered i pm
     | EvLifetime x delivered i \<Rightarrow> lifetimeExpired lim x delivered i pm
     | EvTimeout x delivered i \<Rightarrow> timeoutExpired lim x delivered i pm
     | EvExpiry now found surviving i \<Rightarrow> recordExpired lim now found surviving i pm
     | EvOutputExpired now i \<Rightarrow> outputExpired now i pm
     | EvKeptExpired k \<Rightarrow> cleanupKept k pm
     | EvPrune now groups \<Rightarrow> pruneCompleted lim now groups pm
     | EvRevokeBegin facts targets \<Rightarrow> terminateOwner_begin lim facts targets pm
     | EvRevokeEnd now err alive targets \<Rightarrow> fst (terminateOwner_end lim now err alive targets pm)
     | EvInput bytes owner i \<Rightarrow> fst (inputCompatibility bytes owner i pm)
     | EvInputSettled bytes timedOut i \<Rightarrow> inputSettled bytes timedOut i pm
     | EvDelete x delivered force owner i \<Rightarrow> fst (deleteCompatibility_begin lim x delivered force owner i pm)
     | EvDeleteEnd now found surviving i \<Rightarrow> fst (deleteCompatibility_end lim now found surviving i pm)
     | EvManage x delivered i \<Rightarrow> stopForManagement_begin lim x delivered i pm
     | EvManageEnd now found surviving i \<Rightarrow> fst (stopForManagement_end lim now found surviving i pm)
     | EvStopAll begun \<Rightarrow> (if begun then stopAll_begin pm else stopAll_end pm)
     | EvShutdown facts \<Rightarrow> shutdown_begin lim facts pm)"

definition run_events :: "process_limits \<Rightarrow> manager_event list \<Rightarrow> process_manager \<Rightarrow> process_manager" where
  "run_events lim es pm = fold (handle_event lim) es pm"

text \<open>The request an event starts a process for.\<close>

definition event_request :: "manager_event \<Rightarrow> start_request option" where
  "event_request e = (case e of EvExec _ _ r \<Rightarrow> Some r | EvOpenSession _ _ r \<Rightarrow> Some r | _ \<Rightarrow> None)"

section \<open>Changes of the table\<close>

text \<open>A change that touches neither the output of a process, nor whose it is, nor whether it ended.\<close>

definition quiet :: "managed_process \<Rightarrow> managed_process \<Rightarrow> bool" where
  "quiet m m' = (mp_id m' = mp_id m \<and> mp_lifecycle m' = mp_lifecycle m \<and> mp_owner m' = mp_owner m
     \<and> mp_stdout m' = mp_stdout m \<and> mp_stderr m' = mp_stderr m \<and> mp_outputBytes m' = mp_outputBytes m
     \<and> mp_maxOutputBytes m' = mp_maxOutputBytes m \<and> mp_journal m' = mp_journal m
     \<and> mp_fullOutputBytes m' = mp_fullOutputBytes m \<and> mp_completed m' = mp_completed m)"

definition same_core :: "process_manager \<Rightarrow> process_manager \<Rightarrow> bool" where
  "same_core pm pm' = (pm_processes pm' = pm_processes pm \<and> pm_counters pm' = pm_counters pm
     \<and> pm_keptOutput pm' = pm_keptOutput pm \<and> pm_terminals pm' = pm_terminals pm)"

text \<open>The process at its end, with what was left of its output in the journal.\<close>

definition ended_state :: "process_limits \<Rightarrow> exit_facts \<Rightarrow> managed_process \<Rightarrow> process_manager \<Rightarrow> process_manager" where
  "ended_state lim x m pm =
     (let (m1, c1) = appendJournal (pl_budget lim) (ef_stdoutFailure x) Stdout [] True m (pm_counters pm);
          (m2, c2) = appendJournal (pl_budget lim) (ef_stderrFailure x) Stderr [] True m1 c1
      in put_managed (completed_form lim (ef_now x) (ef_members x) m2) (pm\<lparr>pm_counters := c2\<rparr>))"

lemma quiet_refl [simp]: "quiet m m"
  by (simp add: quiet_def)

lemma managed_of_put [simp]: "managed_of (put_managed m pm) i = (if i = mp_id m then Some m else managed_of pm i)"
  by (simp add: managed_of_def put_managed_def)

lemma same_core_persist: "same_core pm (persistTask lim m pm)"
  by (simp add: same_core_def persistTask_def appendTaskRecord_def compactTaskRecords_def Let_def)

lemma same_core_trans: "same_core a b \<Longrightarrow> same_core b c \<Longrightarrow> same_core a c"
  by (simp add: same_core_def)

locale manager_invariant =
  fixes lim :: process_limits
    and inv :: "process_manager \<Rightarrow> bool"
    and allowed :: "start_request \<Rightarrow> bool"
  assumes keyed: "inv pm \<Longrightarrow> managed_of pm i = Some m \<Longrightarrow> mp_id m = i"
    and frame: "inv pm \<Longrightarrow> same_core pm pm' \<Longrightarrow> inv pm'"
    and quiet_put: "inv pm \<Longrightarrow> managed_of pm (mp_id m) = Some m \<Longrightarrow> quiet m m' \<Longrightarrow> inv (put_managed m' pm)"
    and service_allowed: "allowed (service_request d)"
    and started: "inv pm \<Longrightarrow> allowed r \<Longrightarrow> process_count pm < pl_maxProcesses lim \<Longrightarrow> managed_of pm (rq_id r) = None
      \<Longrightarrow> inv (put_managed (managed_from lim now r ch) pm)"
    and terminal: "inv pm \<Longrightarrow> process_count pm < pl_maxProcesses lim \<Longrightarrow> inv (pm\<lparr>pm_terminals := pm_terminals pm + 1\<rparr>)"
    and terminal_end: "inv pm \<Longrightarrow> inv (pm\<lparr>pm_terminals := pm_terminals pm - 1\<rparr>)"
    and appended: "inv pm \<Longrightarrow> inv (append_output lim failure i t chunk pm)"
    and ended: "inv pm \<Longrightarrow> managed_of pm (mp_id m) = Some m \<Longrightarrow> \<not> mp_completed m \<Longrightarrow> inv (ended_state lim x m pm)"
    and consumed: "inv pm \<Longrightarrow> managed_of pm (mp_id m) = Some m \<Longrightarrow> inv (fst (consume_output lim m pm))"
    and deleted: "inv pm \<Longrightarrow> inv (deleteRecord lim now preserve i pm)"
    and cleaned: "inv pm \<Longrightarrow> inv (cleanupOutput i pm)"
    and kept: "inv pm \<Longrightarrow> inv (cleanupKept k pm)"
begin

lemma put_inv: "inv pm \<Longrightarrow> managed_of pm i = Some m \<Longrightarrow> quiet m m' \<Longrightarrow> inv (put_managed m' pm)"
  using quiet_put keyed by blast

lemma start_admitted_inv:
  assumes "inv pm" and "allowed r" and "process_count pm < pl_maxProcesses lim"
  shows "inv (fst (start_admitted lim now spawn r pm))"
  using assms started [OF assms] frame [OF started [OF assms] same_core_persist]
  by (auto simp: start_admitted_def Let_def split: sum.split)

lemma drain_loop_inv: "inv pm \<Longrightarrow> inv (drain_loop lim now spawn ps pm)"
proof (induction ps arbitrary: pm)
  case (Cons ip ps)
  obtain i p where ip: "ip = (i, p)" by (cases ip)
  have upd: "inv (pm'\<lparr>pm_pendingServices := q\<rparr>)" if "inv pm'" for pm' q
    using that by (rule frame) (simp add: same_core_def)
  show ?case
  proof (cases "process_count pm \<ge> pl_maxProcesses lim")
    case False
    then have "inv (fst (start_admitted lim now spawn (service_request (pn_definition p)) pm))"
      using start_admitted_inv [OF Cons.prems service_allowed] by simp
    with False show ?thesis
      by (cases "start_admitted lim now spawn (service_request (pn_definition p)) pm"; cases "snd (start_admitted lim now spawn (service_request (pn_definition p)) pm)")
        (auto simp: ip Cons.prems upd intro!: Cons.IH split: option.split)
  qed (use Cons.prems in \<open>simp add: ip\<close>)
qed simp

lemma drain_inv: "inv pm \<Longrightarrow> inv (drainServiceQueue lim now spawn pm)"
proof -
  assume pm: "inv pm"
  have "inv (pm\<lparr>pm_drainingServices := True\<rparr>)" using pm by (rule frame) (simp add: same_core_def)
  then have "inv (drain_loop lim now spawn (pm_pendingServices pm) (pm\<lparr>pm_drainingServices := True\<rparr>))"
    by (rule drain_loop_inv)
  then have "inv ((drain_loop lim now spawn (pm_pendingServices pm) (pm\<lparr>pm_drainingServices := True\<rparr>))\<lparr>pm_drainingServices := False\<rparr>)"
    by (rule frame) (simp add: same_core_def)
  with pm show ?thesis by (simp add: drainServiceQueue_def)
qed

lemma assertCapacity_inv:
  assumes "inv pm" and "assertCapacity lim now spawn pm = (pm1, e)"
  shows "inv pm1 \<and> (e = None \<longrightarrow> process_count pm1 < pl_maxProcesses lim)"
  using assms drain_inv [OF assms(1), of now spawn]
  by (auto simp: assertCapacity_def Let_def split: if_splits)

lemma start_inv: "inv pm \<Longrightarrow> allowed r \<Longrightarrow> inv (fst (start_process lim now spawn r pm))"
  using assertCapacity_inv [of pm now spawn] start_admitted_inv
  by (cases "assertCapacity lim now spawn pm") (auto simp: start_process_def split: option.split)

lemma exec_inv: "inv pm \<Longrightarrow> allowed r \<Longrightarrow> inv (fst (exec_begin lim now spawn r pm))"
proof -
  assume pm: "inv pm" and r: "allowed r"
  have defs: "inv (pm'\<lparr>pm_definitions := q\<rparr>)" if "inv pm'" for pm' q
    using that by (rule frame) (simp add: same_core_def)
  show ?thesis
    using start_inv [OF pm r, of now spawn] start_inv [OF defs [OF pm] r] pm
    by (auto simp: exec_begin_def Let_def removeServiceDefinition_def split: prod.split sum.split intro!: defs)
      (metis fst_conv)+
qed

lemma terminalOpen_inv: "inv pm \<Longrightarrow> inv (fst (terminalOpen lim now spawn pm))"
  using assertCapacity_inv [of pm now spawn] terminal
  by (cases "assertCapacity lim now spawn pm") (auto simp: terminalOpen_def split: option.split)

lemma complete_inv:
  assumes "inv pm" shows "inv (complete_process lim x i pm)"
proof (cases "managed_of pm i")
  case (Some m)
  show ?thesis
  proof (cases "mp_completed m")
    case False
    have m: "managed_of pm (mp_id m) = Some m" using Some keyed [OF assms Some] by simp
    have "inv (ended_state lim x m pm)" by (rule ended [OF assms m False])
    moreover have "inv (persistTask lim m' pm')" if "inv pm'" for m' pm'
      using that same_core_persist by (rule frame)
    ultimately show ?thesis
      using Some False
      by (auto simp: complete_process_def ended_state_def Let_def case_prod_beta intro!: drain_inv)
  qed (use assms Some in \<open>simp add: complete_process_def\<close>)
qed (use assms in \<open>simp add: complete_process_def\<close>)

lemma closed_inv: "inv pm \<Longrightarrow> inv (childClosed lim x child code sig i pm)"
  by (auto simp: childClosed_def Let_def quiet_def observe_members_def schedule_restart_def
      intro!: complete_inv put_inv [of pm i] split: option.split prod.split)

lemma failed_inv:
  assumes "inv pm" shows "inv (childFailed lim failure message i pm)"
proof -
  note pm1 = appended [OF assms, of failure i Stderr message]
  have "inv (put_managed (m\<lparr>mp_exitCode := Some (-1)\<rparr>) (append_output lim failure i Stderr message pm))"
    if "managed_of (append_output lim failure i Stderr message pm) i = Some m" for m
    using pm1 that by (rule put_inv) (simp add: quiet_def)
  with pm1 show ?thesis by (auto simp: childFailed_def Let_def split: option.split)
qed

lemma restart_failed_inv:
  assumes "inv pm" and "managed_of pm i = Some m" and "quiet m m'"
  shows "inv (restart_failed lim x e m' pm)"
  unfolding restart_failed_def
  by (rule complete_inv, rule put_inv [OF assms(1,2)]) (use assms(3) in \<open>simp add: quiet_def\<close>)

lemma restart_inv:
  assumes "inv pm" shows "inv (restartService lim x surviving spawned i pm)"
proof (cases "managed_of pm i")
  case (Some m)
  note put = put_inv [OF assms Some]
  show ?thesis
    using assms restart_failed_inv [OF assms Some]
    by (auto simp: restartService_def Some quiet_def intro!: put split: option.split sum.split prod.split)
qed (use assms in \<open>simp add: restartService_def\<close>)

lemma probe_inv:
  assumes "inv pm" shows "inv (probeChecked now started' child err i pm)"
  using assms put_inv [OF assms, of i]
  by (auto simp: probeChecked_def quiet_def Let_def split: option.split prod.split)

lemma discard_inv: "inv pm \<Longrightarrow> inv (fst (discard lim now found surviving preserve i pm))"
  using deleted by (auto simp: discard_def split: option.split sum.split)

lemma answer_inv:
  assumes "inv pm" shows "inv (fst (answer_and_discard lim now found surviving i pm))"
proof (cases "managed_of pm i")
  case (Some m)
  then have "inv (fst (consume_output lim m pm))" using consumed [OF assms, of m] keyed [OF assms Some] by simp
  then show ?thesis
    using discard_inv [of "fst (consume_output lim m pm)" now found surviving True i]
    by (auto simp: answer_and_discard_def Some case_prod_beta split: sum.split)
qed (use assms in \<open>simp add: answer_and_discard_def\<close>)

lemma stop_answer_inv:
  assumes "inv pm" shows "inv (fst (stop_answer lim now found surviving i pm))"
proof (cases "managed_of pm i")
  case (Some m)
  then have 1: "inv (fst (consume_output lim m pm))" using consumed [OF assms, of m] keyed [OF assms Some] by simp
  then have "inv (removeServiceDefinition i (fst (consume_output lim m pm)))"
    by (rule frame) (simp add: same_core_def removeServiceDefinition_def)
  with 1 show ?thesis
    using discard_inv [of "fst (consume_output lim m pm)" now found surviving True i]
      discard_inv [of "removeServiceDefinition i (fst (consume_output lim m pm))" now found surviving True i]
    by (auto simp: stop_answer_def Some Let_def case_prod_beta split: sum.split)
qed (use assms in \<open>simp add: stop_answer_def\<close>)

lemma terminate_inv:
  assumes "inv pm" shows "inv (terminate lim x delivered sig reason i pm)"
proof (cases "managed_of pm i")
  case (Some m)
  show ?thesis
    using assms by (auto simp: terminate_def Some quiet_def Let_def intro!: complete_inv put_inv [OF assms Some])
qed (use assms in \<open>simp add: terminate_def\<close>)

lemma stop_pending_inv: "inv pm \<Longrightarrow> inv (stop_pending i pm)"
  by (erule frame) (simp add: same_core_def stop_pending_def removeServiceDefinition_def)

lemma stop_begin_inv: "inv pm \<Longrightarrow> inv (fst (stop_begin lim x delivered sig owner i pm))"
  using stop_pending_inv terminate_inv by (auto simp: stop_begin_def split: option.split sum.split)

lemma force_inv: "inv pm \<Longrightarrow> inv (terminateForced delivered i pm)"
  by (auto simp: terminateForced_def quiet_def intro: put_inv split: option.split)

lemma timers_inv:
  assumes "inv pm"
  shows "inv (lifetimeExpired lim x delivered i pm)" and "inv (timeoutExpired lim x delivered i pm)"
    and "inv (recordExpired lim now found surviving i pm)" and "inv (outputExpired now i pm)"
  using assms cleaned [OF assms]
  by (auto simp: lifetimeExpired_def timeoutExpired_def recordExpired_def outputExpired_def quiet_def
      intro!: terminate_inv discard_inv put_inv [OF assms] split: option.split)

lemma prune_loop_inv: "inv pm \<Longrightarrow> inv (prune_loop lim now groups is pm)"
proof (induction "is" arbitrary: pm)
  case (Cons i "is")
  show ?case
    using discard_inv [OF Cons.prems, of now "fst (groups i)" "snd (groups i)" False i]
    by (auto split: prod.split sum.split intro: Cons.IH)
qed simp

lemma fold_inv: "inv pm \<Longrightarrow> (\<And>i pm. inv pm \<Longrightarrow> inv (f i pm)) \<Longrightarrow> inv (fold f is pm)"
  by (induction "is" arbitrary: pm) auto

lemma revoke_inv:
  assumes "inv pm"
  shows "inv (terminateOwner_begin lim facts targets pm)" and "inv (fst (terminateOwner_end lim now err alive targets pm))"
  unfolding terminateOwner_begin_def terminateOwner_end_def
  by (auto intro!: fold_inv assms terminate_inv deleted split: option.split simp: Let_def)

lemma input_inv:
  assumes "inv pm"
  shows "inv (fst (inputCompatibility bytes owner i pm))" and "inv (inputSettled bytes timedOut i pm)"
proof -
  have "managed_of pm i = Some m" if "ownedCompatibility pm i owner = Inr m" for m
    using that by (auto simp: ownedCompatibility_def owned_def rbind_eq_Inr split: option.splits if_splits)
  then show "inv (fst (inputCompatibility bytes owner i pm))"
    using assms put_inv [OF assms, of i]
    by (auto simp: inputCompatibility_def queueInput_def quiet_def split: sum.split if_splits)
  show "inv (inputSettled bytes timedOut i pm)"
    using assms put_inv [OF assms, of i] by (auto simp: inputSettled_def settleInput_def quiet_def split: option.split)
qed

lemma delete_inv:
  assumes "inv pm"
  shows "inv (fst (deleteCompatibility_begin lim x delivered force owner i pm))"
    and "inv (fst (deleteCompatibility_end lim now found surviving i pm))"
  using assms terminate_inv [OF assms] discard_inv [OF assms]
  by (auto simp: deleteCompatibility_begin_def deleteCompatibility_end_def split: sum.split option.split)

lemma manage_inv:
  assumes "inv pm"
  shows "inv (stopForManagement_begin lim x delivered i pm)"
    and "inv (fst (stopForManagement_end lim now found surviving i pm))"
    and "inv (stopAll_begin pm)" and "inv (stopAll_end pm)"
proof -
  have "inv (removeServiceDefinition i pm)" using assms by (rule frame) (simp add: same_core_def removeServiceDefinition_def)
  then show "inv (stopForManagement_begin lim x delivered i pm)"
    and "inv (fst (stopForManagement_end lim now found surviving i pm))"
    using assms by (auto simp: stopForManagement_begin_def stopForManagement_end_def
        intro!: stop_pending_inv terminate_inv discard_inv split: option.split)
  show "inv (stopAll_begin pm)" "inv (stopAll_end pm)"
    using assms by (auto intro: frame simp: same_core_def stopAll_begin_def stopAll_end_def)
qed

lemma shutdown_inv: "inv pm \<Longrightarrow> inv (shutdown_begin lim facts pm)"
  unfolding shutdown_begin_def
  by (rule fold_inv, erule frame) (auto simp: same_core_def intro: terminate_inv split: option.split)

lemma poll_inv: "inv pm \<Longrightarrow> inv (fst (poll lim now found surviving owner i pm))"
  using answer_inv by (auto simp: poll_def split: option.split sum.split)

lemma event_inv:
  assumes "inv pm" and "\<forall>r. event_request e = Some r \<longrightarrow> allowed r"
  shows "inv (handle_event lim e pm)"
proof (cases e)
  case (EvExec now spawn r)
  with exec_inv [OF assms(1), of r now spawn] assms(2) show ?thesis by (simp add: handle_event_def event_request_def)
next
  case (EvOpenSession now spawn r)
  with start_inv [OF assms(1), of r now spawn] assms(2) show ?thesis by (simp add: handle_event_def event_request_def)
qed (simp_all add: handle_event_def terminalEnded_def assms(1) terminalOpen_inv terminal_end [simplified] appended closed_inv failed_inv
    restart_inv probe_inv answer_inv poll_inv stop_begin_inv stop_answer_inv force_inv timers_inv kept pruneCompleted_def
    prune_loop_inv revoke_inv input_inv delete_inv manage_inv shutdown_inv)

lemma events_inv:
  assumes "inv pm" and "\<forall>e \<in> set es. \<forall>r. event_request e = Some r \<longrightarrow> allowed r"
  shows "inv (run_events lim es pm)"
  using assms by (induction es arbitrary: pm) (auto simp: run_events_def event_inv)

end

end
