(* ===== verification/Process_Accounting.thy ===== *)
theory Process_Accounting
  imports Process_Events
begin

text \<open>The budgets of the process manager: the counters are the sums over the table, and stay within
  the limits, whatever happens. An instance of \<open>manager_invariant\<close>.\<close>

section \<open>Sums over the table\<close>

definition table_sum :: "(managed_process \<Rightarrow> int) \<Rightarrow> process_manager \<Rightarrow> int" where
  "table_sum f pm = sum_list (map f (map_values (pm_processes pm)))"

text \<open>The number of the processes that have not ended is such a sum.\<close>

definition live_weight :: "managed_process \<Rightarrow> int" where
  "live_weight m = (if mp_completed m then 0 else 1)"

lemma live_sum: "int (live_processes pm) = table_sum live_weight pm"
proof -
  have "int (length (filter (\<lambda>m. \<not> mp_completed m) ms)) = sum_list (map live_weight ms)" for ms
    by (induction ms) (auto simp: live_weight_def)
  then show ?thesis by (simp add: live_processes_def table_sum_def)
qed

section \<open>The invariant\<close>

text \<open>One process: its counters agree with what it holds.\<close>

definition process_ok :: "output_budget \<Rightarrow> nat \<Rightarrow> managed_process \<Rightarrow> bool" where
  "process_ok b q m = (chunks_ok m \<and> mp_outputBytes m \<le> int (mp_maxOutputBytes m)
     \<and> (\<forall>d \<in> set (all_chunks m). ck_sequence d \<le> q)
     \<and> 0 \<le> mp_fullOutputBytes m \<and> mp_fullOutputBytes m \<le> int (ob_maxFullOutputBytes b)
     \<and> length (mp_journal m) \<le> ob_maxJournalRecords b)"

definition table_ok :: "process_limits \<Rightarrow> process_manager \<Rightarrow> bool" where
  "table_ok lim pm = (distinct (map fst (pm_processes pm))
     \<and> (\<forall>(i, m) \<in> set (pm_processes pm). mp_id m = i \<and> process_ok (pl_budget lim) (oc_outputSequence (pm_counters pm)) m)
     \<and> (\<forall>m \<in> set (pm_keptOutput pm). 0 \<le> mp_fullOutputBytes m))"

definition sums_ok :: "process_limits \<Rightarrow> process_manager \<Rightarrow> bool" where
  "sums_ok lim pm =
     (oc_retainedBytes (pm_counters pm) = table_sum mp_outputBytes pm
      \<and> oc_aggregateOutputBytes (pm_counters pm)
          = table_sum mp_fullOutputBytes pm + sum_list (map mp_fullOutputBytes (pm_keptOutput pm))
      \<and> oc_aggregateJournalRecords (pm_counters pm) = table_sum (\<lambda>m. int (length (mp_journal m))) pm)"

definition within_limits :: "process_limits \<Rightarrow> process_manager \<Rightarrow> bool" where
  "within_limits lim pm =
     (oc_retainedBytes (pm_counters pm) \<le> int (ob_maxRetainedOutputBytes (pl_budget lim))
      \<and> oc_aggregateJournalRecords (pm_counters pm) \<le> int (ob_maxAggregateJournalRecords (pl_budget lim))
      \<and> process_count pm \<le> pl_maxProcesses lim)"

definition accounted :: "process_limits \<Rightarrow> process_manager \<Rightarrow> bool" where
  "accounted lim pm = (table_ok lim pm \<and> sums_ok lim pm \<and> within_limits lim pm)"

lemma table_okD:
  assumes "table_ok lim pm" and "managed_of pm i = Some m"
  shows "mp_id m = i" and "process_ok (pl_budget lim) (oc_outputSequence (pm_counters pm)) m"
  using assms by (auto simp: table_ok_def managed_of_def dest!: map_of_SomeD)

lemma table_sum_put:
  "table_ok lim pm \<Longrightarrow> managed_of pm (mp_id m') = Some m \<Longrightarrow> table_sum f (put_managed m' pm) = table_sum f pm - f m + f m'"
  by (simp add: table_sum_def put_managed_def map_values_def managed_of_def sum_update)

lemma table_sum_put_new:
  "managed_of pm (mp_id m) = None \<Longrightarrow> table_sum f (put_managed m pm) = table_sum f pm + f m"
  by (simp add: table_sum_def put_managed_def map_values_def managed_of_def sum_update_new)

lemma table_sum_counters [simp]: "table_sum f (pm\<lparr>pm_counters := c\<rparr>) = table_sum f pm"
  by (simp add: table_sum_def)

lemma managed_of_counters [simp]: "managed_of (pm\<lparr>pm_counters := c\<rparr>) i = managed_of pm i"
  by (simp add: managed_of_def)

lemma process_ok_later: "process_ok b q m \<Longrightarrow> q \<le> q' \<Longrightarrow> process_ok b q' m"
  by (auto simp: process_ok_def)

text \<open>A process of the table is replaced, and the counters change with it.\<close>

lemma table_ok_put:
  assumes "table_ok lim pm" and "process_ok (pl_budget lim) (oc_outputSequence c) m'"
    and "oc_outputSequence (pm_counters pm) \<le> oc_outputSequence c"
  shows "table_ok lim (put_managed m' (pm\<lparr>pm_counters := c\<rparr>))"
  using assms process_ok_later [OF _ assms(3)]
  by (auto simp: table_ok_def put_managed_def distinct_update dest!: set_update_subset)

lemma accounted_put:
  assumes "table_ok lim pm" and "sums_ok lim pm" and "managed_of pm (mp_id m') = Some m"
    and "process_ok (pl_budget lim) (oc_outputSequence c) m'"
    and "oc_outputSequence (pm_counters pm) \<le> oc_outputSequence c"
    and "oc_retainedBytes c = oc_retainedBytes (pm_counters pm) - mp_outputBytes m + mp_outputBytes m'"
    and "oc_aggregateOutputBytes c = oc_aggregateOutputBytes (pm_counters pm) - mp_fullOutputBytes m + mp_fullOutputBytes m'"
    and "oc_aggregateJournalRecords c = oc_aggregateJournalRecords (pm_counters pm)
       - int (length (mp_journal m)) + int (length (mp_journal m'))"
  shows "table_ok lim (put_managed m' (pm\<lparr>pm_counters := c\<rparr>))
    \<and> sums_ok lim (put_managed m' (pm\<lparr>pm_counters := c\<rparr>))"
proof -
  let ?pm = "put_managed m' (pm\<lparr>pm_counters := c\<rparr>)"
  have t: "table_ok lim (pm\<lparr>pm_counters := c\<rparr>)"
    using assms(1) process_ok_later [OF _ assms(5)] by (auto simp: table_ok_def)
  have sum: "table_sum f ?pm = table_sum f pm - f m + f m'" for f
    using table_sum_put [OF t, of m' m f] assms(3) by simp
  have "sums_ok lim ?pm"
    using assms(2,6-8) by (simp add: sums_ok_def sum) (simp add: put_managed_def)
  with table_ok_put [OF assms(1,4,5)] show ?thesis by simp
qed

section \<open>Writing to the journal\<close>

text \<open>What a write to the journal leaves alone, and what it adds to the counters.\<close>

definition journal_effect ::
  "output_budget \<Rightarrow> managed_process \<Rightarrow> output_counters \<Rightarrow> managed_process \<Rightarrow> output_counters \<Rightarrow> bool"
where
  "journal_effect b m c m' c' =
     (mp_id m' = mp_id m \<and> mp_lifecycle m' = mp_lifecycle m \<and> mp_owner m' = mp_owner m
      \<and> mp_stdout m' = mp_stdout m \<and> mp_stderr m' = mp_stderr m \<and> mp_outputBytes m' = mp_outputBytes m
      \<and> mp_maxOutputBytes m' = mp_maxOutputBytes m \<and> mp_completed m' = mp_completed m
      \<and> oc_retainedBytes c' = oc_retainedBytes c \<and> oc_outputSequence c' = oc_outputSequence c
      \<and> oc_aggregateOutputBytes c' = oc_aggregateOutputBytes c + (mp_fullOutputBytes m' - mp_fullOutputBytes m)
      \<and> oc_aggregateJournalRecords c'
          = oc_aggregateJournalRecords c + (int (length (mp_journal m')) - int (length (mp_journal m)))
      \<and> mp_fullOutputBytes m \<le> mp_fullOutputBytes m'
      \<and> (mp_fullOutputBytes m \<le> int (ob_maxFullOutputBytes b) \<longrightarrow> mp_fullOutputBytes m' \<le> int (ob_maxFullOutputBytes b))
      \<and> (length (mp_journal m) \<le> ob_maxJournalRecords b \<longrightarrow> length (mp_journal m') \<le> ob_maxJournalRecords b)
      \<and> (oc_aggregateJournalRecords c \<le> int (ob_maxAggregateJournalRecords b)
          \<longrightarrow> oc_aggregateJournalRecords c' \<le> int (ob_maxAggregateJournalRecords b)))"

lemma journal_effect_refl [simp]: "journal_effect b m c m c"
  by (simp add: journal_effect_def)

lemma journal_effect_trans:
  "journal_effect b m c m1 c1 \<Longrightarrow> journal_effect b m1 c1 m2 c2 \<Longrightarrow> journal_effect b m c m2 c2"
  by (auto simp: journal_effect_def)

lemma journal_effect_pending [simp]: "journal_effect b m c (set_pending t d m) c"
  by (cases t) (simp_all add: journal_effect_def set_pending_def)

lemma appendJournalBytes_effect:
  assumes "appendJournalBytes b failure t data keep m c = (m', c')"
  shows "journal_effect b m c m' c'"
proof -
  define remaining where "remaining = min (int (ob_maxFullOutputBytes b) - mp_fullOutputBytes m)
     (if mp_compatibilitySession m then int (ob_maxAggregateOutputBytes b) - oc_aggregateOutputBytes c
      else int (ob_maxFullOutputBytes b) - mp_fullOutputBytes m)"
  show ?thesis
  proof (cases "remaining \<le> 0")
    case True
    with assms have "m' = m\<lparr>mp_outputFileTruncated := True\<rparr>" "c' = c"
      by (simp_all add: appendJournalBytes_def remaining_def Let_def split: if_splits)
    then show ?thesis by (simp add: journal_effect_def)
  next
    case False
    define requested where "requested = min (length data) (nat remaining)"
    define safe where "safe = (if \<not> keep \<or> requested = length data then requested
      else completeUtf8PrefixLength (take requested data))"
    define available where "available = nat (min (int (ob_maxJournalRecords b) - int (length (mp_journal m)))
      (int (ob_maxAggregateJournalRecords b) - oc_aggregateJournalRecords c))"
    define planned where "planned = (if mp_compatibilitySession m
       then planJournalRecords t (nat (mp_fullOutputBytes m)) (take safe data) available else ([], length (take safe data)))"
    define kept where "kept = take (snd planned) (take safe data)"
    have safe: "safe \<le> requested"
      using completeUtf8PrefixLength_le [of "take requested data"] by (simp add: safe_def)
    moreover have "length kept \<le> safe" "requested \<le> nat remaining" by (simp_all add: kept_def requested_def)
    ultimately have "length kept \<le> nat remaining" by linarith
    then have kept: "int (length kept) \<le> remaining" using False by simp
    have recs: "length (fst planned) \<le> available"
      using planJournalRecords_partition(3) [of t "nat (mp_fullOutputBytes m)" "take safe data" available] 
      by (cases "planJournalRecords t (nat (mp_fullOutputBytes m)) (take safe data) available") (simp add: planned_def)
    have full: "int (length kept) \<le> int (ob_maxFullOutputBytes b) - mp_fullOutputBytes m"
      using kept by (simp add: remaining_def)
    have av: "length (mp_journal m) \<le> ob_maxJournalRecords b \<Longrightarrow> length (mp_journal m) + length (fst planned) \<le> ob_maxJournalRecords b"
      "oc_aggregateJournalRecords c \<le> int (ob_maxAggregateJournalRecords b) \<Longrightarrow>
        oc_aggregateJournalRecords c + int (length (fst planned)) \<le> int (ob_maxAggregateJournalRecords b)"
      using recs by (auto simp: available_def)
    have eq: "appendJournalBytes b failure t data keep m c = (case failure of
        None \<Rightarrow>
          ((m\<lparr>mp_log := map_option (\<lambda>l. l @ kept) (mp_log m), mp_fullOutputBytes := mp_fullOutputBytes m + int (length kept),
              mp_journal := mp_journal m @ fst planned,
              mp_outputFileTruncated := (mp_outputFileTruncated m \<or> length kept < length data),
              mp_pendingStdout := (if length kept < length data then [] else mp_pendingStdout m),
              mp_pendingStderr := (if length kept < length data then [] else mp_pendingStderr m)\<rparr>),
           c\<lparr>oc_aggregateOutputBytes := oc_aggregateOutputBytes c + int (length kept),
             oc_aggregateJournalRecords := oc_aggregateJournalRecords c + int (length (fst planned))\<rparr>)
      | Some n \<Rightarrow> (m\<lparr>mp_log := map_option (\<lambda>l. l @ take n kept) (mp_log m), mp_outputFileTruncated := True\<rparr>, c))"
      using False unfolding appendJournalBytes_def Let_def remaining_def [symmetric] requested_def [symmetric]
        safe_def [symmetric] available_def [symmetric] planned_def [symmetric] kept_def [symmetric] by simp
    show ?thesis
      using assms full av unfolding eq by (auto simp: journal_effect_def split: option.splits)
  qed
qed

lemma appendJournal_effect:
  assumes "appendJournal b failure t chunk final m c = (m', c')"
  shows "journal_effect b m c m' c'"
proof -
  have *: "journal_effect b m c m' c'" if "appendJournalBytes b failure t data True (set_pending t d m) c = (m', c')" for data d
    using journal_effect_trans [OF journal_effect_pending appendJournalBytes_effect [OF that]] .
  show ?thesis
    using assms by (auto simp: appendJournal_def Let_def split: if_splits intro: * dest: appendJournalBytes_effect)
qed

section \<open>Memory\<close>

text \<open>Dropping from either stream keeps one process in order.\<close>

lemma drop_bytes_ok:
  assumes ok: "process_ok b q m" and d: "drop_bytes requested t m = (m', n)"
  shows "process_ok b q m' \<and> mp_outputBytes m' = mp_outputBytes m - int n
    \<and> n \<le> requested \<and> mp_id m' = mp_id m \<and> mp_fullOutputBytes m' = mp_fullOutputBytes m \<and> mp_journal m' = mp_journal m
    \<and> mp_completed m' = mp_completed m \<and> mp_lifecycle m' = mp_lifecycle m \<and> mp_owner m' = mp_owner m"
proof (cases "rs_chunks (stream_of t m)")
  case Nil
  with ok d show ?thesis by (simp add: drop_bytes_def Let_def)
next
  case (Cons c rest)
  define k where "k = min requested (length (ck_data c))"
  define cs where "cs = (if k = length (ck_data c) then rest else c\<lparr>ck_data := drop k (ck_data c)\<rparr> # rest)"
  have m': "m' = (set_stream t \<lparr>rs_chunks = cs, rs_bytes = rs_bytes (stream_of t m) - int k, rs_truncated = True\<rparr> m)
      \<lparr>mp_outputBytes := mp_outputBytes m - int k\<rparr>" and n: "n = k"
    using d Cons by (auto simp: drop_bytes_def Let_def k_def cs_def split: if_splits)
  have le: "k \<le> length (ck_data c)" "k \<le> requested" by (simp_all add: k_def)
  have "chunks_ok m'"
  proof (cases "k = length (ck_data c)")
    case True
    with ok Cons show ?thesis
      by (cases t) (auto simp: process_ok_def chunks_ok_def m' cs_def all_chunks_def length_combined stream_of_def set_stream_def)
  next
    case False
    with ok Cons le(1) show ?thesis
      by (cases t) (auto simp: process_ok_def chunks_ok_def m' cs_def all_chunks_def length_combined stream_of_def set_stream_def)
  qed
  moreover have "\<forall>d \<in> set (all_chunks m'). ck_sequence d \<le> q"
    using ok drop_bytes_sequences [of requested t m] d by (fastforce simp: process_ok_def)
  ultimately show ?thesis
    using ok le by (cases t) (auto simp: process_ok_def m' n set_stream_def)
qed

text \<open>The rounds of \<open>trimGlobal\<close> keep the sums and end within the budget.\<close>

lemma globalOldest_some:
  assumes "globalOldest ps oldest = Some (i, t, q)"
  shows "oldest = Some (i, t, q) \<or> (\<exists>m. (i, m) \<in> set ps \<and> rs_chunks (stream_of t m) \<noteq> [])"
  using assms
proof (induction ps oldest rule: globalOldest.induct)
  case (2 j m ps oldest)
  have step: "older_stream o' j u m = Some (i, t, q) \<Longrightarrow> o' = Some (i, t, q) \<or> (j = i \<and> u = t \<and> rs_chunks (stream_of t m) \<noteq> [])" for o' u
    by (auto simp: older_stream_def first_sequence_def split: option.splits list.splits if_splits)
  from 2 show ?case
    using step [of "older_stream oldest j Stdout m" Stderr] step [of oldest Stdout] by fastforce
qed simp

lemma globalOldest_none:
  "globalOldest ps oldest = None \<Longrightarrow> oldest = None \<and> (\<forall>(i, m) \<in> set ps. all_chunks m = [])"
proof (induction ps oldest rule: globalOldest.induct)
  case (2 j m ps oldest)
  have step: "older_stream o' j u m = None \<Longrightarrow> o' = None \<and> rs_chunks (stream_of u m) = []" for o' u
    by (auto simp: older_stream_def first_sequence_def split: option.splits list.splits if_splits)
  from 2 show ?case
    using step [of "older_stream oldest j Stdout m" Stderr] step [of oldest Stdout]
    by (auto simp: all_chunks_def stream_of_def)
qed simp

definition ledger_ok :: "process_limits \<Rightarrow> process_manager \<Rightarrow> bool" where
  "ledger_ok lim pm = (table_ok lim pm \<and> sums_ok lim pm)"

definition same_ledger :: "process_manager \<Rightarrow> process_manager \<Rightarrow> bool" where
  "same_ledger pm pm' = (table_sum live_weight pm' = table_sum live_weight pm \<and> pm_terminals pm' = pm_terminals pm
     \<and> oc_aggregateJournalRecords (pm_counters pm') = oc_aggregateJournalRecords (pm_counters pm))"

lemma trim_round_ok:
  assumes ok: "ledger_ok lim pm" and m: "managed_of pm i = Some m" and chunks: "rs_chunks (stream_of t m) \<noteq> []" and "0 < requested"
  shows "ledger_ok lim (trim_round requested i t pm) \<and> same_ledger pm (trim_round requested i t pm)
    \<and> retained_measure (trim_round requested i t pm) < retained_measure pm"
proof -
  obtain m' n where d: "drop_bytes requested t m = (m', n)" by fastforce
  from ok have tab: "table_ok lim pm" and sums: "sums_ok lim pm" by (simp_all add: ledger_ok_def)
  note p = table_okD [OF tab m]
  note step = drop_bytes_ok [OF p(2) d]
  define c where "c = (pm_counters pm)\<lparr>oc_retainedBytes := oc_retainedBytes (pm_counters pm) - int n\<rparr>"
  have r: "trim_round requested i t pm = put_managed m' (pm\<lparr>pm_counters := c\<rparr>)"
    using step p by (simp add: trim_round_def m d Let_def set_retained_def put_managed_def c_def)
  have m': "managed_of pm (mp_id m') = Some m" using step p m by simp
  have tab': "table_ok lim (pm\<lparr>pm_counters := c\<rparr>)" using tab by (simp add: table_ok_def c_def)
  have "ledger_ok lim (put_managed m' (pm\<lparr>pm_counters := c\<rparr>))"
    unfolding ledger_ok_def by (rule accounted_put [OF tab sums m']) (use step in \<open>simp_all add: c_def\<close>)
  moreover have "same_ledger pm (put_managed m' (pm\<lparr>pm_counters := c\<rparr>))"
    using table_sum_put [OF tab', of m' m] m' step
    by (simp add: same_ledger_def live_weight_def) (simp add: put_managed_def c_def)
  moreover have "int (sum_list (map f ms)) = sum_list (map (\<lambda>m. int (f m)) ms)" for f :: "managed_process \<Rightarrow> nat" and ms
    by (induction ms) auto
  then have "int (retained_measure pm'') = table_sum (\<lambda>m. int (process_measure m)) pm''" for pm''
    by (simp add: retained_measure_def table_sum_def)
  then have "int (retained_measure (put_managed m' (pm\<lparr>pm_counters := c\<rparr>)))
      = int (retained_measure pm) - int (process_measure m) + int (process_measure m')"
    using table_sum_put [OF tab', of m' m "\<lambda>m. int (process_measure m)"] m' by simp
  moreover have "process_measure m' < process_measure m" using drop_bytes_measure [OF chunks \<open>0 < requested\<close>] d by simp
  ultimately show ?thesis unfolding r by linarith
qed

lemma empty_table_no_bytes:
  assumes "ledger_ok lim pm" and "globalOldest (pm_processes pm) None = None"
  shows "oc_retainedBytes (pm_counters pm) = 0"
proof -
  from assms(2) have "\<forall>(i, m) \<in> set (pm_processes pm). all_chunks m = []" using globalOldest_none by blast
  moreover have "\<forall>(i, m) \<in> set (pm_processes pm). mp_outputBytes m = int (length (chunk_text (all_chunks m)))"
    using assms(1) by (auto simp: ledger_ok_def table_ok_def process_ok_def chunks_ok_def length_combined)
  ultimately have "\<forall>m \<in> set (map_values (pm_processes pm)). mp_outputBytes m = 0" by (force simp: map_values_def)
  then have "table_sum mp_outputBytes pm = 0" by (simp add: table_sum_def cong: map_cong)
  with assms(1) show ?thesis by (simp add: ledger_ok_def sums_ok_def)
qed

lemma same_ledger_trans: "same_ledger a b \<Longrightarrow> same_ledger b c \<Longrightarrow> same_ledger a c"
  by (simp add: same_ledger_def)

lemma trim_rounds_ok:
  "ledger_ok lim pm \<Longrightarrow> retained_measure pm \<le> fuel \<Longrightarrow>
    ledger_ok lim (trim_rounds fuel n pm) \<and> same_ledger pm (trim_rounds fuel n pm)
    \<and> oc_retainedBytes (pm_counters (trim_rounds fuel n pm)) \<le> int n"
proof (induction fuel arbitrary: pm)
  case 0
  have "globalOldest (pm_processes pm) None = None"
  proof (rule ccontr)
    assume "globalOldest (pm_processes pm) None \<noteq> None"
    then obtain i t q m where "(i, m) \<in> set (pm_processes pm)" "rs_chunks (stream_of t m) \<noteq> []"
      using globalOldest_some by fastforce
    then have "process_measure m > 0" "m \<in> set (map_values (pm_processes pm))"
      by (cases t; cases "rs_chunks (stream_of t m)"; force simp: process_measure_def stream_of_def map_values_def)+
    then have "retained_measure pm > 0" by (auto simp: retained_measure_def sum_list_eq_0_iff intro: gr0I)
    with 0 show False by simp
  qed
  with empty_table_no_bytes [OF 0(1)] 0 show ?case by (simp add: same_ledger_def)
next
  case (Suc fuel)
  show ?case
  proof (cases "oc_retainedBytes (pm_counters pm) > int n")
    case True
    with empty_table_no_bytes [OF Suc.prems(1)] obtain i t q where g: "globalOldest (pm_processes pm) None = Some (i, t, q)"
      by (cases "globalOldest (pm_processes pm) None") auto
    then obtain m where m: "(i, m) \<in> set (pm_processes pm)" "rs_chunks (stream_of t m) \<noteq> []"
      using globalOldest_some by blast
    have mo: "managed_of pm i = Some m" using m(1) Suc.prems(1) by (simp add: managed_of_def ledger_ok_def table_ok_def)
    let ?pm = "trim_round (nat (oc_retainedBytes (pm_counters pm) - int n)) i t pm"
    from trim_round_ok [OF Suc.prems(1) mo m(2), of "nat (oc_retainedBytes (pm_counters pm) - int n)"] True
    have step: "ledger_ok lim ?pm" "same_ledger pm ?pm" "retained_measure ?pm < retained_measure pm" by auto
    with Suc.prems(2) Suc.IH [OF step(1)] show ?thesis
      using True g by (auto intro: same_ledger_trans)
  qed (use Suc.prems in \<open>simp add: same_ledger_def\<close>)
qed

lemma trimGlobal_within:
  assumes "ledger_ok lim pm"
  shows "ledger_ok lim (trimGlobal lim pm)" and "same_ledger pm (trimGlobal lim pm)"
    and "oc_retainedBytes (pm_counters (trimGlobal lim pm)) \<le> int (ob_maxRetainedOutputBytes (pl_budget lim))"
  using trim_rounds_ok [OF assms order_refl] by (simp_all add: trimGlobal_def)

section \<open>The primitive changes\<close>

lemma accountedI:
  "ledger_ok lim pm \<Longrightarrow> within_limits lim pm \<Longrightarrow> accounted lim pm"
  by (simp add: accounted_def ledger_ok_def)

lemma accountedD:
  assumes "accounted lim pm" shows "ledger_ok lim pm" "within_limits lim pm" "table_ok lim pm" "sums_ok lim pm"
  using assms by (simp_all add: accounted_def ledger_ok_def)

lemma same_ledger_count: "same_ledger pm pm' \<Longrightarrow> process_count pm' = process_count pm"
  using live_sum [of pm] live_sum [of pm'] by (simp add: same_ledger_def process_count_def)

lemma chunks_ok_cong:
  "mp_stdout m' = mp_stdout m \<Longrightarrow> mp_stderr m' = mp_stderr m \<Longrightarrow> mp_outputBytes m' = mp_outputBytes m
    \<Longrightarrow> chunks_ok m' = chunks_ok m \<and> all_chunks m' = all_chunks m"
  by (simp add: chunks_ok_def all_chunks_def combined_output_def)

lemma process_ok_quiet: "quiet m m' \<Longrightarrow> process_ok b q m \<Longrightarrow> process_ok b q m'"
  using chunks_ok_cong [of m' m] by (simp add: quiet_def process_ok_def)

lemma process_ok_journal:
  "journal_effect b m c m' c' \<Longrightarrow> process_ok b q m \<Longrightarrow> process_ok b q m'"
  using chunks_ok_cong [of m' m] by (simp add: journal_effect_def process_ok_def)

lemma put_accounted:
  assumes "accounted lim pm" and m: "managed_of pm (mp_id m') = Some m" and "process_ok (pl_budget lim) (oc_outputSequence c) m'"
    and seq: "oc_outputSequence (pm_counters pm) \<le> oc_outputSequence c"
    and "oc_retainedBytes c = oc_retainedBytes (pm_counters pm) - mp_outputBytes m + mp_outputBytes m'"
    and "oc_aggregateOutputBytes c = oc_aggregateOutputBytes (pm_counters pm) - mp_fullOutputBytes m + mp_fullOutputBytes m'"
    and "oc_aggregateJournalRecords c = oc_aggregateJournalRecords (pm_counters pm)
       - int (length (mp_journal m)) + int (length (mp_journal m'))"
    and "oc_retainedBytes c \<le> oc_retainedBytes (pm_counters pm)"
    and "oc_aggregateJournalRecords c \<le> int (ob_maxAggregateJournalRecords (pl_budget lim))"
    and "mp_completed m \<longrightarrow> mp_completed m'"
  shows "accounted lim (put_managed m' (pm\<lparr>pm_counters := c\<rparr>))"
proof (rule accountedI)
  let ?pm = "put_managed m' (pm\<lparr>pm_counters := c\<rparr>)"
  note ok = accountedD [OF assms(1)]
  show "ledger_ok lim ?pm"
    unfolding ledger_ok_def by (rule accounted_put [OF ok(3,4) m]) (use assms in simp_all)
  have "table_ok lim (pm\<lparr>pm_counters := c\<rparr>)"
    using ok(3) process_ok_later [OF _ seq] by (auto simp: table_ok_def)
  from table_sum_put [OF this, of m' m live_weight] m
  have "int (live_processes ?pm) = int (live_processes pm) - live_weight m + live_weight m'" by (simp add: live_sum)
  then have "live_processes ?pm \<le> live_processes pm" using assms(10) by (auto simp: live_weight_def split: if_splits)
  then show "within_limits lim ?pm"
    using ok(2) assms(8,9) by (simp add: within_limits_def process_count_def) (simp add: put_managed_def)
qed

lemma put_quiet_accounted:
  assumes "accounted lim pm" and "managed_of pm (mp_id m) = Some m" and "quiet m m'"
  shows "accounted lim (put_managed m' pm)"
proof -
  have "accounted lim (put_managed m' (pm\<lparr>pm_counters := pm_counters pm\<rparr>))"
    by (rule put_accounted [OF assms(1), of m' m])
      (use assms accountedD [OF assms(1)] table_okD(2) [OF accountedD(3) [OF assms(1)] assms(2)] in
        \<open>auto simp: within_limits_def quiet_def intro: process_ok_quiet\<close>)
  then show ?thesis by simp
qed

lemma frame_accounted: "accounted lim pm \<Longrightarrow> same_core pm pm' \<Longrightarrow> accounted lim pm'"
  by (simp add: same_core_def accounted_def table_ok_def sums_ok_def within_limits_def table_sum_def process_count_def
      live_processes_def)

lemma terminal_accounted:
  "accounted lim pm \<Longrightarrow> process_count pm' \<le> pl_maxProcesses lim \<Longrightarrow> pm' = pm\<lparr>pm_terminals := n\<rparr> \<Longrightarrow> accounted lim pm'"
  by (simp add: accounted_def table_ok_def sums_ok_def within_limits_def table_sum_def)

lemma start_accounted:
  assumes "accounted lim pm" and "process_count pm < pl_maxProcesses lim" and "managed_of pm (rq_id r) = None"
  shows "accounted lim (put_managed (managed_from lim now r ch) pm)"
proof -
  let ?m = "managed_from lim now r ch"
  note ok = accountedD [OF assms(1)]
  have m: "managed_of pm (mp_id ?m) = None" using assms(3) by (simp add: managed_from_def)
  have fresh: "mp_outputBytes ?m = 0" "mp_fullOutputBytes ?m = 0" "mp_journal ?m = []" "live_weight ?m = 1"
    "process_ok b q ?m" for b q
    by (simp_all add: managed_from_def live_weight_def process_ok_def chunks_ok_def all_chunks_def length_combined emptyStream_def)
  note sum = table_sum_put_new [OF m]
  have "table_ok lim (put_managed ?m pm)"
    using ok(3) fresh(5) by (auto simp: table_ok_def put_managed_def distinct_update dest!: set_update_subset)
  moreover have "sums_ok lim (put_managed ?m pm)"
    using ok(4) by (simp add: sums_ok_def sum fresh) (simp add: put_managed_def)
  moreover have "int (live_processes (put_managed ?m pm)) = int (live_processes pm) + 1"
    by (simp add: live_sum sum fresh)
  then have "live_processes (put_managed ?m pm) = live_processes pm + 1" by linarith
  then have "within_limits lim (put_managed ?m pm)"
    using ok(2) assms(2) by (simp add: within_limits_def process_count_def) (simp add: put_managed_def)
  ultimately show ?thesis by (simp add: accounted_def)
qed

text \<open>A chunk arrives.\<close>

lemma push_trim_ok:
  assumes "process_ok b q m" and "trimProcess (push_chunk t chunk (q + 1) m) = (m2, n)"
  shows "process_ok b (q + 1) m2 \<and> mp_outputBytes m2 = mp_outputBytes m + int (length chunk) - int n
    \<and> mp_id m2 = mp_id m \<and> mp_fullOutputBytes m2 = mp_fullOutputBytes m \<and> mp_journal m2 = mp_journal m
    \<and> mp_completed m2 = mp_completed m"
proof -
  let ?p = "push_chunk t chunk (q + 1) m"
  have seqs: "\<forall>d \<in> set (all_chunks m). ck_sequence d < q + 1" using assms(1) by (auto simp: process_ok_def)
  have "chunks_ok ?p" using push_chunk_combined [OF _ seqs] assms(1) by (simp add: process_ok_def)
  from trimProcess_combined [OF this assms(2)] have trim: "chunks_ok m2" "mp_outputBytes m2 = mp_outputBytes ?p - int n"
    "int n = max 0 (mp_outputBytes ?p - int (mp_maxOutputBytes m))" "mp_maxOutputBytes m2 = mp_maxOutputBytes m"
    by (simp_all add: push_max)
  have bytes: "mp_outputBytes ?p = mp_outputBytes m + int (length chunk)"
    by (cases t) (simp_all add: push_chunk_def Let_def set_stream_def)
  have dropped: "f (fst (drop_bytes r u m)) = f m" if "\<And>s u x m. f ((set_stream u s m)\<lparr>mp_outputBytes := x\<rparr>) = f m"
    for f :: "managed_process \<Rightarrow> 'z" and r u m
    using that by (auto simp: drop_bytes_def Let_def split: list.split)
  have frame: "f m2 = f m" if "\<And>s u x m. f ((set_stream u s m)\<lparr>mp_outputBytes := x\<rparr>) = f m"
    for f :: "managed_process \<Rightarrow> 'z"
  proof -
    have "f (fst (trimProcess ?p)) = f ?p" by (rule trimProcess_keeps) (rule dropped [OF that])
    also have "f ?p = f m" using that by (simp add: push_chunk_def Let_def)
    finally show ?thesis using assms(2) by simp
  qed
  have frames: "mp_id m2 = mp_id m" "mp_fullOutputBytes m2 = mp_fullOutputBytes m" "mp_journal m2 = mp_journal m"
    "mp_completed m2 = mp_completed m"
    by (rule frame; simp add: set_stream_def split: stream_type.split)+
  have "ck_sequence ` set (all_chunks m2) \<subseteq> ck_sequence ` set (all_chunks ?p)"
    using trimProcess_sequences [of ?p] assms(2) by simp
  moreover have "set (all_chunks ?p) = insert \<lparr>ck_data = chunk, ck_sequence = q + 1\<rparr> (set (all_chunks m))"
    by (metis all_chunks_push set_mset_add_mset_insert set_mset_mset)
  ultimately have "\<forall>d \<in> set (all_chunks m2). ck_sequence d \<le> q + 1" using seqs by fastforce
  with trim frames bytes assms(1) show ?thesis by (auto simp: process_ok_def)
qed

lemma append_accounted:
  assumes "accounted lim pm" shows "accounted lim (append_output lim failure i t chunk pm)"
proof (cases "managed_of pm i = None \<or> chunk = []")
  case False
  then obtain m where m: "managed_of pm i = Some m" by auto
  note ok = accountedD [OF assms]
  note p = table_okD [OF ok(3) m]
  obtain m1 c1 where j: "appendJournal (pl_budget lim) failure t chunk False m (pm_counters pm) = (m1, c1)" by fastforce
  note e = appendJournal_effect [OF j]
  obtain m2 n where tr: "trimProcess (push_chunk t chunk (oc_outputSequence c1 + 1) m1) = (m2, n)" by fastforce
  have p1: "process_ok (pl_budget lim) (oc_outputSequence c1) m1"
    using process_ok_journal [OF e p(2)] e by (simp add: journal_effect_def)
  note step = push_trim_ok [OF p1 tr]
  define c where "c = c1\<lparr>oc_outputSequence := oc_outputSequence c1 + 1,
     oc_retainedBytes := oc_retainedBytes c1 + int (length chunk) - int n\<rparr>"
  let ?pm = "put_managed m2 (pm\<lparr>pm_counters := c\<rparr>)"
  have eq: "append_output lim failure i t chunk pm = trimGlobal lim ?pm"
    using False by (simp add: append_output_def m j tr [simplified] c_def)
  have m2: "managed_of pm (mp_id m2) = Some m" using step e p m by (simp add: journal_effect_def)
  have led: "ledger_ok lim ?pm"
    unfolding ledger_ok_def
    by (rule accounted_put [OF ok(3,4) m2]) (use step e in \<open>auto simp: c_def journal_effect_def\<close>)
  note trim = trimGlobal_within [OF led]
  have "table_ok lim (pm\<lparr>pm_counters := c\<rparr>)"
    using ok(3) process_ok_later [of _ _ _ "oc_outputSequence c"] e by (force simp: table_ok_def c_def journal_effect_def)
  from table_sum_put [OF this, of m2 m live_weight] m2 step e
  have "int (live_processes ?pm) = int (live_processes pm)"
    by (simp add: live_sum live_weight_def journal_effect_def)
  then have "process_count (trimGlobal lim ?pm) = process_count pm"
    using same_ledger_count [OF trim(2)] by (simp add: process_count_def) (simp add: put_managed_def)
  moreover have "oc_aggregateJournalRecords (pm_counters (trimGlobal lim ?pm)) \<le> int (ob_maxAggregateJournalRecords (pl_budget lim))"
    using trim(2) e ok(2) by (simp add: same_ledger_def within_limits_def journal_effect_def put_managed_def c_def)
  ultimately show ?thesis
    unfolding eq using trim ok(2) by (auto simp: within_limits_def intro: accountedI)
qed (use assms in \<open>auto simp: append_output_def split: option.split\<close>)

lemma ended_accounted:
  assumes "accounted lim pm" and m: "managed_of pm (mp_id m) = Some m"
  shows "accounted lim (ended_state lim x m pm)"
proof -
  obtain m1 c1 where 1: "appendJournal (pl_budget lim) (ef_stdoutFailure x) Stdout [] True m (pm_counters pm) = (m1, c1)" by fastforce
  obtain m2 c2 where 2: "appendJournal (pl_budget lim) (ef_stderrFailure x) Stderr [] True m1 c1 = (m2, c2)" by fastforce
  have e: "journal_effect (pl_budget lim) m (pm_counters pm) m2 c2"
    by (rule journal_effect_trans) (rule appendJournal_effect [OF 1], rule appendJournal_effect [OF 2])
  let ?m = "completed_form lim (ef_now x) (ef_members x) m2"
  have f: "mp_stdout ?m = mp_stdout m2" "mp_stderr ?m = mp_stderr m2" "mp_outputBytes ?m = mp_outputBytes m2"
    "mp_maxOutputBytes ?m = mp_maxOutputBytes m2" "mp_fullOutputBytes ?m = mp_fullOutputBytes m2"
    "mp_journal ?m = mp_journal m2" "mp_id ?m = mp_id m2" "mp_completed ?m"
    by (simp_all add: completed_form_def observe_members_def)
  have "process_ok (pl_budget lim) (oc_outputSequence (pm_counters pm)) m2"
    using process_ok_journal [OF e] table_okD(2) [OF accountedD(3) [OF assms(1)] m] by simp
  then have "process_ok (pl_budget lim) (oc_outputSequence c2) ?m"
    using chunks_ok_cong [OF f(1-3)] e f by (simp add: process_ok_def journal_effect_def)
  moreover have "managed_of pm (mp_id ?m) = Some m" using m e f by (simp add: journal_effect_def)
  ultimately have "accounted lim (put_managed ?m (pm\<lparr>pm_counters := c2\<rparr>))"
    using assms(1) e f accountedD(2) [OF assms(1)]
    by (intro put_accounted) (auto simp: journal_effect_def within_limits_def)
  then show ?thesis by (simp add: ended_state_def 1 2)
qed

lemma empty_streams_ok: "process_ok b q m \<Longrightarrow> process_ok b q (m\<lparr>mp_stdout := emptyStream, mp_stderr := emptyStream, mp_outputBytes := 0\<rparr>)"
  by (simp add: process_ok_def chunks_ok_def all_chunks_def length_combined emptyStream_def)

lemma ok_bytes: "process_ok b q m \<Longrightarrow> 0 \<le> mp_outputBytes m"
  by (simp add: process_ok_def chunks_ok_def)

lemma consume_accounted:
  assumes "accounted lim pm" and m: "managed_of pm (mp_id m) = Some m"
  shows "accounted lim (fst (consume_output lim m pm))"
proof -
  note p = table_okD(2) [OF accountedD(3) [OF assms(1)] m]
  show ?thesis
    unfolding consume_output_def consume_def using m empty_streams_ok [OF p] ok_bytes [OF p] accountedD(2) [OF assms(1)]
    by (auto intro!: put_accounted [OF assms(1)] simp: within_limits_def)
qed

text \<open>A process leaves the table, its output goes or is kept.\<close>

lemma release_exact:
  "0 \<le> mp_fullOutputBytes m \<Longrightarrow> mp_fullOutputBytes m \<le> oc_aggregateOutputBytes c \<Longrightarrow>
    release_output m c = c\<lparr>oc_aggregateOutputBytes := oc_aggregateOutputBytes c - mp_fullOutputBytes m\<rparr>"
  by (simp add: release_output_def max_def)

lemma delete_accounted:
  assumes "accounted lim pm" shows "accounted lim (deleteRecord lim now preserve i pm)"
proof (cases "managed_of pm i")
  case (Some m)
  note ok = accountedD [OF assms]
  note p = table_okD [OF ok(3) Some]
  have dist: "distinct (map fst (pm_processes pm))" using ok(3) by (simp add: table_ok_def)
  have sum: "sum_list (map (f \<circ> snd) (AList.delete i (pm_processes pm))) = table_sum f pm - f m" for f :: "managed_process \<Rightarrow> int"
    using sum_delete [OF dist] Some by (simp add: managed_of_def table_sum_def map_values_def)
  have nonneg: "0 \<le> mp_outputBytes m" "0 \<le> mp_fullOutputBytes m" using ok_bytes [OF p(2)] p(2) by (simp_all add: process_ok_def)
  have pos: "0 \<le> table_sum f pm - f m" if "\<And>m b q. process_ok b q m \<Longrightarrow> 0 \<le> f m" for f :: "managed_process \<Rightarrow> int"
  proof -
    have "\<forall>(j, x) \<in> set (AList.delete i (pm_processes pm)). 0 \<le> f x"
      using ok(3) that by (fastforce simp: table_ok_def AList.delete_eq)
    then show ?thesis unfolding sum [symmetric] by (intro sum_list_nonneg) auto
  qed
  have kept_pos: "0 \<le> sum_list (map mp_fullOutputBytes (pm_keptOutput pm))"
    using ok(3) by (intro sum_list_nonneg) (auto simp: table_ok_def)
  have nonneg_sums: "0 \<le> table_sum mp_fullOutputBytes pm - mp_fullOutputBytes m"
    "0 \<le> table_sum (\<lambda>m. int (length (mp_journal m))) pm - int (length (mp_journal m))"
    by (rule pos; simp add: process_ok_def)+
  let ?pm = "deleteRecord lim now preserve i pm"
  have procs: "pm_processes ?pm = AList.delete i (pm_processes pm)" "pm_terminals ?pm = pm_terminals pm"
    "oc_outputSequence (pm_counters ?pm) = oc_outputSequence (pm_counters pm)"
    by (simp_all add: deleteRecord_def Some Let_def release_output_def)
  have tsum: "table_sum f ?pm = table_sum f pm - f m" for f
    by (simp add: table_sum_def [of f ?pm] map_values_def procs sum)
  have "\<forall>m' \<in> set (pm_keptOutput ?pm). 0 \<le> mp_fullOutputBytes m'"
    using ok(3) nonneg by (auto simp: table_ok_def deleteRecord_def Some Let_def)
  moreover have "set (pm_processes ?pm) \<subseteq> set (pm_processes pm)" by (auto simp: procs AList.delete_eq)
  ultimately have "table_ok lim ?pm"
    using ok(3) distinct_delete [OF dist, of i] by (auto simp: table_ok_def procs)
  moreover have "sums_ok lim ?pm"
    using ok(4) nonneg nonneg_sums kept_pos
    by (simp add: sums_ok_def tsum) (simp add: deleteRecord_def Some Let_def release_output_def)
  moreover have "int (live_processes ?pm) = int (live_processes pm) - live_weight m" by (simp add: live_sum tsum)
  then have "live_processes ?pm \<le> live_processes pm" by (simp add: live_weight_def split: if_splits)
  then have "within_limits lim ?pm"
    using ok(2) nonneg nonneg_sums
    by (simp add: within_limits_def process_count_def procs) (simp add: deleteRecord_def Some Let_def release_output_def)
  ultimately show ?thesis by (simp add: accounted_def)
qed (use assms in \<open>simp add: deleteRecord_def\<close>)

lemma cleanup_accounted:
  assumes "accounted lim pm" shows "accounted lim (cleanupOutput i pm)"
proof (cases "managed_of pm i")
  case (Some m)
  note ok = accountedD [OF assms]
  note p = table_okD [OF ok(3) Some]
  have le: "0 \<le> table_sum mp_fullOutputBytes pm - mp_fullOutputBytes m" "0 \<le> sum_list (map mp_fullOutputBytes (pm_keptOutput pm))"
  proof -
    have "0 \<le> sum_list (map (mp_fullOutputBytes \<circ> snd) (AList.delete i (pm_processes pm)))"
      using ok(3) by (intro sum_list_nonneg) (fastforce simp: table_ok_def process_ok_def AList.delete_eq)
    moreover have "distinct (map fst (pm_processes pm))" using ok(3) by (simp add: table_ok_def)
    ultimately show "0 \<le> table_sum mp_fullOutputBytes pm - mp_fullOutputBytes m"
      using sum_delete [of "pm_processes pm" i m mp_fullOutputBytes] Some
      by (simp add: managed_of_def table_sum_def map_values_def)
    show "0 \<le> sum_list (map mp_fullOutputBytes (pm_keptOutput pm))"
      using ok(3) by (intro sum_list_nonneg) (auto simp: table_ok_def)
  qed
  have c: "chunks_ok (cleaned_form m) = chunks_ok m \<and> all_chunks (cleaned_form m) = all_chunks m"
    by (rule chunks_ok_cong) (simp_all add: cleaned_form_def)
  have full: "0 \<le> mp_fullOutputBytes m" using p by (simp add: process_ok_def)
  let ?c = "(pm_counters pm)\<lparr>oc_aggregateOutputBytes := oc_aggregateOutputBytes (pm_counters pm) - mp_fullOutputBytes m\<rparr>"
  have rel: "release_output m (pm_counters pm) = ?c"
    by (rule release_exact [OF full]) (use ok(4) le in \<open>simp add: sums_ok_def\<close>)
  have zero: "mp_fullOutputBytes (cleaned_form m) = 0" using full by (auto simp: cleaned_form_def)
  have same: "mp_outputBytes (cleaned_form m) = mp_outputBytes m" "mp_journal (cleaned_form m) = mp_journal m"
    "mp_id (cleaned_form m) = mp_id m" "mp_completed (cleaned_form m) = mp_completed m"
    "mp_maxOutputBytes (cleaned_form m) = mp_maxOutputBytes m"
    by (simp_all add: cleaned_form_def)
  have "accounted lim (put_managed (cleaned_form m) (pm\<lparr>pm_counters := ?c\<rparr>))"
  proof (rule put_accounted [OF assms, of _ m])
    show "process_ok (pl_budget lim) (oc_outputSequence ?c) (cleaned_form m)"
      using p(2) c zero same by (simp add: process_ok_def)
  qed (use Some p(1) ok(2) zero same in \<open>simp_all add: within_limits_def\<close>)
  then show ?thesis by (simp add: cleanupOutput_def Some rel)
qed (use assms in \<open>simp add: cleanupOutput_def\<close>)

lemma kept_accounted:
  assumes "accounted lim pm" shows "accounted lim (cleanupKept k pm)"
proof (cases "k < length (pm_keptOutput pm)")
  case True
  let ?ms = "pm_keptOutput pm"
  note ok = accountedD [OF assms]
  have split: "?ms = take k ?ms @ ?ms ! k # drop (Suc k) ?ms" using True by (rule id_take_nth_drop)
  then have sum: "sum_list (map mp_fullOutputBytes ?ms) = sum_list (map mp_fullOutputBytes (take k ?ms))
      + mp_fullOutputBytes (?ms ! k) + sum_list (map mp_fullOutputBytes (drop (Suc k) ?ms))"
    by (metis (no_types, lifting) add.assoc list.simps(9) map_append sum_list.Cons sum_list_append)
  have pos: "0 \<le> sum_list (map mp_fullOutputBytes xs)" if "set xs \<subseteq> set ?ms" for xs
    using ok(3) that by (intro sum_list_nonneg) (auto simp: table_ok_def)
  have tpos: "0 \<le> table_sum mp_fullOutputBytes pm"
    unfolding table_sum_def map_values_def using ok(3)
    by (intro sum_list_nonneg) (fastforce simp: table_ok_def process_ok_def)
  have "0 \<le> mp_fullOutputBytes (?ms ! k)" using ok(3) True by (auto simp: table_ok_def)
  then have "release_output (?ms ! k) (pm_counters pm) = (pm_counters pm)
      \<lparr>oc_aggregateOutputBytes := oc_aggregateOutputBytes (pm_counters pm) - mp_fullOutputBytes (?ms ! k)\<rparr>"
    by (rule release_exact)
      (use ok(4) sum tpos pos [OF set_take_subset, of k] pos [OF set_drop_subset, of "Suc k"] in \<open>simp add: sums_ok_def\<close>)
  then show ?thesis
    using assms sum
    by (auto simp: cleanupKept_def True accounted_def table_ok_def sums_ok_def within_limits_def table_sum_def process_count_def
        live_processes_def dest: in_set_takeD in_set_dropD)
qed (use assms in \<open>simp add: cleanupKept_def\<close>)

section \<open>The budgets hold\<close>

text \<open>The accounting is kept by every event.\<close>

interpretation accounting: manager_invariant lim "accounted lim" "\<lambda>_. True" for lim
proof unfold_locales
  show "mp_id m = i" if "accounted lim pm" "managed_of pm i = Some m" for pm i m
    using table_okD(1) [OF accountedD(3) [OF that(1)] that(2)] .
  show "accounted lim (pm\<lparr>pm_terminals := pm_terminals pm + 1\<rparr>)"
    if "accounted lim pm" "process_count pm < pl_maxProcesses lim" for pm
    using that by (intro terminal_accounted [OF that(1) _ refl]) (simp add: process_count_def live_processes_def)
  show "accounted lim (pm\<lparr>pm_terminals := pm_terminals pm - 1\<rparr>)" if "accounted lim pm" for pm
    using accountedD(2) [OF that]
    by (intro terminal_accounted [OF that _ refl]) (auto simp: process_count_def live_processes_def within_limits_def)
qed (auto intro: frame_accounted put_quiet_accounted start_accounted append_accounted ended_accounted consume_accounted
    delete_accounted cleanup_accounted kept_accounted)

end
