(* ===== verification/Process_Properties.thy ===== *)
theory Process_Properties
  imports Process_Accounting
begin

text \<open>What the process manager guarantees: its budgets, the revocation of the processes of a lease,
  the processes that a revocation spares, and the records that compaction keeps.\<close>

section \<open>Whose processes are in the table\<close>

definition people :: "process_manager \<Rightarrow> (string \<times> string \<times> process_lifecycle \<times> lease_proof) set" where
  "people pm = (\<lambda>(i, m). (i, mp_id m, mp_lifecycle m, mp_owner m)) ` set (pm_processes pm)"

definition everyone :: "(string \<times> string \<times> process_lifecycle \<times> lease_proof \<Rightarrow> bool) \<Rightarrow> process_manager \<Rightarrow> bool" where
  "everyone P pm = ((\<forall>x \<in> people pm. P x) \<and> (\<forall>x \<in> people pm. fst (snd x) = fst x))"

lemma everyone_less: "people pm' \<subseteq> people pm \<Longrightarrow> everyone P pm \<Longrightarrow> everyone P pm'"
  by (auto simp: everyone_def)

lemma everyone_key: "everyone P pm \<Longrightarrow> managed_of pm i = Some m \<Longrightarrow> mp_id m = i"
  by (force simp: everyone_def people_def managed_of_def dest!: map_of_SomeD)

definition same_person :: "managed_process \<Rightarrow> managed_process \<Rightarrow> bool" where
  "same_person m m' = (mp_id m' = mp_id m \<and> mp_lifecycle m' = mp_lifecycle m \<and> mp_owner m' = mp_owner m)"

lemma people_put:
  assumes "managed_of pm (mp_id m) = Some m" and "same_person m m'"
  shows "people (put_managed m' pm) \<subseteq> people pm"
  using assms by (force simp: people_def put_managed_def same_person_def managed_of_def dest!: map_of_SomeD set_update_subset)

lemma people_update:
  assumes "managed_of pm i = Some m" and "same_person m m'"
  shows "people (pm\<lparr>pm_processes := AList.update i m' (pm_processes pm)\<rparr>) \<subseteq> people pm"
  using assms by (force simp: people_def same_person_def managed_of_def dest!: map_of_SomeD set_update_subset)

lemma people_counters [simp]: "people (pm\<lparr>pm_counters := c\<rparr>) = people pm"
  by (simp add: people_def)

lemma drop_bytes_person: "same_person m (fst (drop_bytes r t m))"
  by (cases t) (auto simp: same_person_def drop_bytes_def Let_def set_stream_def split: list.split)

lemma same_person_trans: "same_person a b \<Longrightarrow> same_person b c \<Longrightarrow> same_person a c"
  by (simp add: same_person_def)

lemma trimProcess_person: "same_person m (fst (trimProcess m))"
  unfolding same_person_def
  by (intro conjI trimProcess_keeps) (use drop_bytes_person in \<open>simp_all add: same_person_def\<close>)

lemma push_chunk_person: "same_person m (push_chunk t d q m)"
  by (cases t) (simp_all add: same_person_def push_chunk_def Let_def set_stream_def)

lemma appendJournal_person: "appendJournal b f t d e m c = (m', c') \<Longrightarrow> same_person m m'"
  by (drule appendJournal_effect) (simp add: journal_effect_def same_person_def)

lemma trim_rounds_people: "people (trim_rounds fuel n pm) \<subseteq> people pm"
proof (induction fuel arbitrary: pm)
  case (Suc fuel)
  have "people (trim_round r i t pm) \<subseteq> people pm" for r i t
    using people_update [of pm i _ "fst (drop_bytes r t _)"] drop_bytes_person
    by (auto simp: trim_round_def set_retained_def case_prod_beta Let_def split: option.split)
  then show ?case using Suc.IH by (auto split: option.split) blast+
qed simp

lemma append_people:
  assumes "everyone P pm" shows "people (append_output lim failure i t chunk pm) \<subseteq> people pm"
proof (cases "managed_of pm i = None \<or> chunk = []")
  case False
  then obtain m where m: "managed_of pm i = Some m" by auto
  obtain m1 c1 where j: "appendJournal (pl_budget lim) failure t chunk False m (pm_counters pm) = (m1, c1)" by fastforce
  define m2 where "m2 = fst (trimProcess (push_chunk t chunk (oc_outputSequence c1 + 1) m1))"
  have "same_person m m2"
    unfolding m2_def
    by (rule same_person_trans [OF appendJournal_person [OF j]], rule same_person_trans [OF push_chunk_person trimProcess_person])
  then have "people (put_managed m2 (pm\<lparr>pm_counters := c\<rparr>)) \<subseteq> people pm" for c
    using people_put [of "pm\<lparr>pm_counters := c\<rparr>" m m2] m everyone_key [OF assms m] by simp
  then show ?thesis
    using False trim_rounds_people
    by (auto simp: append_output_def m j m2_def case_prod_beta trimGlobal_def Let_def) blast
qed (auto simp: append_output_def split: option.split)

lemma ended_people:
  assumes "managed_of pm (mp_id m) = Some m"
  shows "people (ended_state lim x m pm) \<subseteq> people pm"
proof -
  obtain m1 c1 where 1: "appendJournal (pl_budget lim) (ef_stdoutFailure x) Stdout [] True m (pm_counters pm) = (m1, c1)" by fastforce
  obtain m2 c2 where 2: "appendJournal (pl_budget lim) (ef_stderrFailure x) Stderr [] True m1 c1 = (m2, c2)" by fastforce
  have "same_person m (completed_form lim (ef_now x) (ef_members x) m2)"
    using appendJournal_person [OF 1] appendJournal_person [OF 2]
    by (simp add: same_person_def completed_form_def observe_members_def)
  from people_put [of "pm\<lparr>pm_counters := c2\<rparr>", OF _ this] assms show ?thesis by (simp add: ended_state_def 1 2)
qed

lemma people_put_counters:
  "managed_of pm (mp_id m) = Some m \<Longrightarrow> same_person m m' \<Longrightarrow> people (put_managed m' (pm\<lparr>pm_counters := c\<rparr>)) \<subseteq> people pm"
  using people_put [of "pm\<lparr>pm_counters := c\<rparr>" m m'] by simp

lemma consume_people:
  "managed_of pm (mp_id m) = Some m \<Longrightarrow> people (fst (consume_output lim m pm)) \<subseteq> people pm"
  unfolding consume_output_def consume_def by simp (erule people_put_counters, simp add: same_person_def)

lemma cleanup_people:
  assumes "everyone P pm" shows "people (cleanupOutput i pm) \<subseteq> people pm"
proof (cases "managed_of pm i")
  case (Some m)
  then have "managed_of pm (mp_id m) = Some m" using everyone_key [OF assms] by simp
  then show ?thesis unfolding cleanupOutput_def Some option.case
    by (rule people_put_counters) (simp add: same_person_def cleaned_form_def)
qed (simp add: cleanupOutput_def)

text \<open>Only a start brings a new process into the table: from the moment a lease is revoked its
  session processes are among those that were found then, unless one is started for it.\<close>

definition session_of :: "lease_proof option \<Rightarrow> process_lifecycle \<Rightarrow> lease_proof \<Rightarrow> bool" where
  "session_of owner l p = (l = LSession \<and> (case owner of None \<Rightarrow> True | Some q \<Rightarrow> sameProof p q))"

definition found_then :: "lease_proof option \<Rightarrow> string list \<Rightarrow> string \<times> string \<times> process_lifecycle \<times> lease_proof \<Rightarrow> bool" where
  "found_then owner targets x = (case x of (i, j, l, p) \<Rightarrow> session_of owner l p \<longrightarrow> i \<in> set targets)"

lemma owner_matches_iff: "owner_matches owner m = session_of owner (mp_lifecycle m) (mp_owner m)"
  by (simp add: owner_matches_def session_of_def)

interpretation revocation: manager_invariant lim "everyone (found_then owner targets)"
  "\<lambda>r. \<not> session_of owner (rq_lifecycle r) (rq_owner r)" for lim owner targets
proof unfold_locales
  let ?inv = "everyone (found_then owner targets)"
  show "mp_id m = i" if "?inv pm" "managed_of pm i = Some m" for pm i m
    using that by (rule everyone_key)
  show "?inv pm'" if "?inv pm" "same_core pm pm'" for pm pm'
    using that by (simp add: same_core_def everyone_def people_def)
  show "?inv (put_managed m' pm)" if "?inv pm" "managed_of pm (mp_id m) = Some m" "quiet m m'" for pm m m'
    by (rule everyone_less [OF people_put [OF that(2)] that(1)]) (use that(3) in \<open>simp add: quiet_def same_person_def\<close>)
  show "\<not> session_of owner (rq_lifecycle (service_request d)) (rq_owner (service_request d))" for d
    by (simp add: session_of_def service_request_def)
  show "?inv (put_managed (managed_from lim now r ch) pm)"
    if "?inv pm" "\<not> session_of owner (rq_lifecycle r) (rq_owner r)" for pm r now ch
    using that by (force simp: everyone_def people_def put_managed_def managed_from_def found_then_def dest!: set_update_subset)
  show "?inv (pm\<lparr>pm_terminals := pm_terminals pm + 1\<rparr>)" "?inv (pm\<lparr>pm_terminals := pm_terminals pm - 1\<rparr>)" if "?inv pm" for pm
    using that by (simp_all add: everyone_def people_def)
  show "?inv (append_output lim failure i t chunk pm)" if "?inv pm" for pm failure i t chunk
    by (rule everyone_less [OF append_people [OF that] that])
  show "?inv (ended_state lim x m pm)" if "?inv pm" "managed_of pm (mp_id m) = Some m" for pm m x
    using that by (intro everyone_less [OF ended_people])
  show "?inv (fst (consume_output lim m pm))" if "?inv pm" "managed_of pm (mp_id m) = Some m" for pm m
    by (rule everyone_less [OF consume_people [OF that(2)] that(1)])
  show "?inv (deleteRecord lim now preserve i pm)" if "?inv pm" for pm now preserve i
    by (rule everyone_less [OF _ that]) (auto simp: deleteRecord_def people_def Let_def AList.delete_eq split: option.split)
  show "?inv (cleanupOutput i pm)" if "?inv pm" for pm i
    by (rule everyone_less [OF cleanup_people [OF that] that])
  show "?inv (cleanupKept k pm)" if "?inv pm" for pm k
    by (rule everyone_less [OF _ that]) (simp add: cleanupKept_def people_def)
qed

section \<open>Budgets\<close>

lemma new_accounted: "accounted lim new_process_manager"
  by (simp add: accounted_def table_ok_def sums_ok_def within_limits_def table_sum_def new_process_manager_def
      no_counters_def map_values_def process_count_def live_processes_def)

text \<open>C6. The process manager stays within its budgets: after any requests, child events and timers in
  any order, whatever the operating system answers, the bytes it counts are the bytes it holds, in
  memory and in its files; memory, journal records and every single process are within their limits;
  and no more processes and terminals run than are allowed.\<close>

theorem process_budgets_hold:
  "let pm = run_events lim es new_process_manager; c = pm_counters pm; b = pl_budget lim in
     oc_retainedBytes c = table_sum (\<lambda>m. int (length (chunk_text (all_chunks m)))) pm
     \<and> oc_retainedBytes c \<le> int (ob_maxRetainedOutputBytes b)
     \<and> oc_aggregateOutputBytes c = table_sum mp_fullOutputBytes pm + sum_list (map mp_fullOutputBytes (pm_keptOutput pm))
     \<and> oc_aggregateJournalRecords c = table_sum (\<lambda>m. int (length (mp_journal m))) pm
     \<and> oc_aggregateJournalRecords c \<le> int (ob_maxAggregateJournalRecords b)
     \<and> list_all (\<lambda>m. length (chunk_text (all_chunks m)) \<le> mp_maxOutputBytes m
          \<and> mp_fullOutputBytes m \<le> int (ob_maxFullOutputBytes b) \<and> length (mp_journal m) \<le> ob_maxJournalRecords b)
        (map_values (pm_processes pm))
     \<and> process_count pm \<le> pl_maxProcesses lim"
proof -
  have "accounted lim (run_events lim es new_process_manager)"
    by (rule accounting.events_inv [OF new_accounted]) simp
  then have acc: "table_ok lim (run_events lim es new_process_manager)" "sums_ok lim (run_events lim es new_process_manager)"
    "within_limits lim (run_events lim es new_process_manager)" by (simp_all add: accounted_def)
  have bytes: "mp_outputBytes m = int (length (chunk_text (all_chunks m)))" if "process_ok b q m" for b q m
    using that by (simp add: process_ok_def chunks_ok_def length_combined)
  have "table_sum mp_outputBytes pm = table_sum (\<lambda>m. int (length (chunk_text (all_chunks m)))) pm" if "table_ok lim pm" for pm
    unfolding table_sum_def map_values_def
    by (intro arg_cong [of _ _ sum_list]) (use that bytes in \<open>fastforce simp: table_ok_def\<close>)
  moreover have "list_all (\<lambda>m. length (chunk_text (all_chunks m)) \<le> mp_maxOutputBytes m
          \<and> mp_fullOutputBytes m \<le> int (ob_maxFullOutputBytes (pl_budget lim))
          \<and> length (mp_journal m) \<le> ob_maxJournalRecords (pl_budget lim)) (map_values (pm_processes pm))"
    if "table_ok lim pm" for pm
    using that by (fastforce simp: list_all_iff map_values_def table_ok_def process_ok_def chunks_ok_def length_combined)
  ultimately show ?thesis using acc by (simp add: Let_def sums_ok_def within_limits_def)
qed

section \<open>Revocation\<close>

lemma deleteRecord_people:
  "people (deleteRecord lim now preserve i pm) \<subseteq> {x \<in> people pm. fst x \<noteq> i}"
  by (auto simp: deleteRecord_def people_def Let_def AList.delete_eq managed_of_def map_of_eq_None_iff image_iff split: option.split)
    force+

definition delete_targets :: "process_limits \<Rightarrow> int \<Rightarrow> string list \<Rightarrow> process_manager \<Rightarrow> process_manager" where
  "delete_targets lim now targets pm = fold (\<lambda>i pm. case managed_of pm i of
       None \<Rightarrow> pm
     | Some m \<Rightarrow> deleteRecord lim now (\<not> mp_compatibilitySession m) i pm) targets pm"

lemma delete_targets_people:
  "people (delete_targets lim now targets pm) \<subseteq> {x \<in> people pm. fst x \<notin> set targets}"
proof (induction targets arbitrary: pm)
  case (Cons i targets)
  let ?pm = "case managed_of pm i of None \<Rightarrow> pm | Some m \<Rightarrow> deleteRecord lim now (\<not> mp_compatibilitySession m) i pm"
  have "people ?pm \<subseteq> {x \<in> people pm. fst x \<noteq> i}"
    using deleteRecord_people [of lim now _ i pm]
    by (auto simp: people_def managed_of_def map_of_eq_None_iff image_iff split: option.split) force+
  with Cons.IH [of ?pm] show ?case by (auto simp: delete_targets_def)
qed (simp add: delete_targets_def)

text \<open>C5. A revoked lease leaves no process behind: when the revocation of an owner (or of everyone)
  has found its targets and, whatever happened since except the start of a session process for that
  owner, reports success, then the group of every target was gone and no session process of the owner
  is in the table any more.\<close>

theorem revocation_leaves_no_process:
  assumes "targets = terminateOwner_targets lim owner (run_events lim before new_process_manager)"
    and "owner = None \<longrightarrow> pl_fenceUid lim \<noteq> None"
    and "\<forall>e \<in> set since. case event_request e of None \<Rightarrow> True | Some r \<Rightarrow> \<not> session_of owner (rq_lifecycle r) (rq_owner r)"
    and "terminateOwner_end lim now err alive targets (run_events lim since (run_events lim before new_process_manager)) = (pm, Inr ())"
  shows "list_all (\<lambda>i. alive i = []) targets \<and> list_all (\<lambda>m. \<not> owner_matches owner m) (map_values (pm_processes pm))"
proof -
  let ?pm0 = "run_events lim before new_process_manager" and ?pm1 = "run_events lim since (run_events lim before new_process_manager)"
  have acc: "accounted lim ?pm0" by (rule accounting.events_inv [OF new_accounted]) simp
  then have keys: "\<forall>(i, m) \<in> set (pm_processes ?pm0). mp_id m = i" by (auto simp: accounted_def table_ok_def)
  have t: "targets = map mp_id (filter (owner_matches owner) (map_values (pm_processes ?pm0)))"
    using assms(1,2) by (auto simp: terminateOwner_targets_def)
  have "everyone (found_then owner targets) ?pm0"
    using keys by (force simp: everyone_def people_def found_then_def t owner_matches_iff map_values_def)
  then have "everyone (found_then owner targets) ?pm1"
    by (rule revocation.events_inv) (use assms(3) in \<open>force split: option.splits\<close>)
  moreover have pm: "pm = delete_targets lim now targets ?pm1" and alive: "filter (\<lambda>i. alive i \<noteq> []) targets = []"
    using assms(4) by (auto simp: terminateOwner_end_def delete_targets_def Let_def split: option.splits if_splits)
  ultimately have "\<forall>x \<in> people pm. \<not> session_of owner (fst (snd (snd x))) (snd (snd (snd x)))"
    using delete_targets_people [of lim now targets ?pm1] by (fastforce simp: everyone_def found_then_def)
  then show ?thesis
    using alive by (force simp: list_all_iff filter_empty_conv people_def owner_matches_iff map_values_def)
qed

definition demo_owner :: lease_proof where
  "demo_owner = \<lparr>proof_id = ''lease'', proof_generation = 1, proof_epoch = ''epoch''\<rparr>"

definition demo_limits :: process_limits where
  "demo_limits = \<lparr>pl_maxProcesses = 2, pl_maxCompletedProcesses = 1, pl_completedTtlMs = 1000, pl_maxLifetimeMs = 1000,
     pl_outputTtlMs = 1000,
     pl_budget = \<lparr>ob_maxFullOutputBytes = 100, ob_maxAggregateOutputBytes = 100, ob_maxJournalRecords = 10,
        ob_maxAggregateJournalRecords = 10, ob_maxRetainedOutputBytes = 100\<rparr>,
     pl_expectedUid = Some 1000, pl_fenceUid = Some 1000, pl_persistTaskRecords = True, pl_outputDirectory = ''/tmp/o'',
     pl_recordBytes = length, pl_localeBefore = (\<lambda>_ _. True)\<rparr>"

definition demo_request :: "string \<Rightarrow> process_lifecycle \<Rightarrow> start_request" where
  "demo_request i l = \<lparr>rq_id = i, rq_command = ''sleep 9'', rq_cwd = ''/home'', rq_owner = demo_owner, rq_maxOutputBytes = 10,
     rq_timeoutMs = None, rq_outputMode = Combined, rq_sessionId = None, rq_compatibilitySession = False,
     rq_lifecycle = l, rq_label = ''demo'', rq_service = None\<rparr>"

definition demo_spawn :: "string \<Rightarrow> string + spawned_child" where
  "demo_spawn i = Inr \<lparr>ch_pid = Some 7, ch_startTime = Some ''1''\<rparr>"

definition demo_facts :: exit_facts where
  "demo_facts = \<lparr>ef_now = 5, ef_spawn = demo_spawn, ef_members = [], ef_stdoutFailure = None, ef_stderrFailure = None\<rparr>"

definition demo_before :: "manager_event list" where
  "demo_before = [EvOpenSession 1 demo_spawn (demo_request ''s'' LSession), EvExec 2 demo_spawn (demo_request ''t'' LTask)]"

lemmas demo_defs = demo_owner_def demo_limits_def demo_request_def demo_spawn_def demo_facts_def demo_before_def

lemmas start_defs = run_events_def handle_event_def start_process_def assertCapacity_def drainServiceQueue_def exec_begin_def
  start_admitted_def managed_of_def put_managed_def managed_from_def process_count_def live_processes_def map_values_def
  persistTask_def appendTaskRecord_def compactTaskRecords_def new_process_manager_def wants_readiness_def

lemma demo_targets:
  "terminateOwner_targets demo_limits (Some demo_owner) (run_events demo_limits demo_before new_process_manager) = [''s'']"
  by (simp add: terminateOwner_targets_def start_defs demo_defs Let_def owner_matches_def sameProof_def MAX_TASK_RECORD_BYTES_def)

theorem revocation_leaves_no_process_witness:
  "list_all (\<lambda>m. \<not> owner_matches (Some demo_owner) m) (map_values (pm_processes (fst
      (terminateOwner_end demo_limits 9 None (\<lambda>_. []) [''s'']
        (run_events demo_limits [EvRevokeBegin (\<lambda>_. (demo_facts, True)) [''s'']]
          (run_events demo_limits demo_before new_process_manager))))))"
  using revocation_leaves_no_process [of "[''s'']" demo_limits "Some demo_owner" demo_before
      "[EvRevokeBegin (\<lambda>_. (demo_facts, True)) [''s'']]" 9 None "\<lambda>_. []"]
  by (simp add: demo_targets event_request_def terminateOwner_end_def)

section \<open>What a revocation spares\<close>

lemma persist_managed [simp]: "managed_of (persistTask lim m pm) i = managed_of pm i"
  using same_core_persist [of pm lim m] by (simp add: same_core_def managed_of_def)

lemma start_admitted_keeps:
  "managed_of pm i = Some m \<Longrightarrow> managed_of (fst (start_admitted lim now spawn r pm)) i = Some m"
  by (auto simp: start_admitted_def Let_def managed_from_def split: sum.split)

lemma drain_loop_keeps: "managed_of pm i = Some m \<Longrightarrow> managed_of (drain_loop lim now spawn ps pm) i = Some m"
proof (induction ps arbitrary: pm)
  case (Cons jp ps)
  obtain j p where jp: "jp = (j, p)" by (cases jp)
  have upd: "managed_of (pm'\<lparr>pm_pendingServices := q\<rparr>) i = managed_of pm' i" for pm' q by (simp add: managed_of_def)
  obtain pm1 r where s: "start_admitted lim now spawn (service_request (pn_definition p)) pm = (pm1, r)" by fastforce
  with start_admitted_keeps [OF Cons.prems] have "managed_of pm1 i = Some m" by (metis fst_conv)
  with s show ?case
    by (auto simp: jp upd Cons.prems intro!: Cons.IH split: option.split sum.split)
qed simp

lemma drain_keeps: "managed_of pm i = Some m \<Longrightarrow> managed_of (drainServiceQueue lim now spawn pm) i = Some m"
proof -
  assume "managed_of pm i = Some m"
  then have "managed_of (pm\<lparr>pm_drainingServices := True\<rparr>) i = Some m" by (simp add: managed_of_def)
  from drain_loop_keeps [OF this, of lim now spawn "pm_pendingServices pm"] show ?thesis
    using \<open>managed_of pm i = Some m\<close> by (simp add: drainServiceQueue_def managed_of_def)
qed

lemma accounted_key: "accounted lim pm \<Longrightarrow> managed_of pm i = Some m \<Longrightarrow> mp_id m = i"
  by (rule accounting.keyed)

lemma complete_keeps:
  assumes "managed_of pm i = Some m" and "i \<noteq> j" and "accounted lim pm"
  shows "managed_of (complete_process lim x j pm) i = Some m"
proof (cases "managed_of pm j")
  case (Some n)
  obtain m1 c1 where 1: "appendJournal (pl_budget lim) (ef_stdoutFailure x) Stdout [] True n (pm_counters pm) = (m1, c1)" by fastforce
  obtain m2 c2 where 2: "appendJournal (pl_budget lim) (ef_stderrFailure x) Stderr [] True m1 c1 = (m2, c2)" by fastforce
  have "mp_id (completed_form lim (ef_now x) (ef_members x) m2) = j"
    using appendJournal_person [OF 1] appendJournal_person [OF 2] accounted_key [OF assms(3) Some]
    by (simp add: same_person_def completed_form_def observe_members_def)
  then show ?thesis
    using assms(1,2) by (auto simp: complete_process_def Some 1 2 Let_def intro!: drain_keeps)
qed (use assms in \<open>simp add: complete_process_def\<close>)

lemma terminate_keeps:
  assumes "managed_of pm i = Some m" and "i \<noteq> j" and "accounted lim pm"
  shows "managed_of (terminate lim x delivered sig reason j pm) i = Some m"
proof (cases "managed_of pm j")
  case (Some n)
  have n: "mp_id n = j" using accounted_key [OF assms(3) Some] .
  have "accounted lim (put_managed (n\<lparr>mp_restartTimer := None, mp_terminationReason := Some reason,
      mp_requestedSignal := Some (visible_signal sig)\<rparr>) pm)"
    by (rule accounting.put_inv [OF assms(3) Some]) (simp add: quiet_def)
  from complete_keeps [OF _ assms(2) this] show ?thesis
    using assms(1,2) n by (simp add: terminate_def Some Let_def)
qed (use assms in \<open>simp add: terminate_def\<close>)

lemma begin_keeps:
  assumes "managed_of pm i = Some m" and "accounted lim pm" and "i \<notin> set targets"
  shows "managed_of (terminateOwner_begin lim facts targets pm) i = Some m"
  using assms
proof (induction targets arbitrary: pm)
  case (Cons j targets)
  let ?pm = "case managed_of pm j of None \<Rightarrow> pm | Some n \<Rightarrow> if mp_completed n then pm
      else terminate lim (fst (facts j)) (snd (facts j)) ''SIGKILL'' LeaseRevokedReason j pm"
  have "managed_of ?pm i = Some m"
    using Cons.prems terminate_keeps [OF Cons.prems(1) _ Cons.prems(2)] by (auto split: option.split)
  moreover have "accounted lim ?pm" using Cons.prems(2) by (auto intro: accounting.terminate_inv split: option.split)
  ultimately show ?case using Cons.IH [of ?pm] Cons.prems(3) by (simp add: terminateOwner_begin_def)
qed (simp add: terminateOwner_begin_def)

lemma delete_keeps: "i \<noteq> j \<Longrightarrow> managed_of (deleteRecord lim now preserve j pm) i = managed_of pm i"
  by (simp add: deleteRecord_def managed_of_def Let_def split: option.split)

lemma delete_targets_keeps: "i \<notin> set targets \<Longrightarrow> managed_of (delete_targets lim now targets pm) i = managed_of pm i"
  by (induction targets arbitrary: pm) (auto simp: delete_targets_def delete_keeps split: option.split)

text \<open>A revocation touches the session processes of the lease and nothing else: after any history,
  every task and service, and every session process of another owner, is after the revocation
  exactly the record it was before, whatever the outcome.\<close>

theorem revocation_spares_others:
  assumes "pm = run_events lim es new_process_manager"
    and "managed_of pm i = Some m" and "\<not> owner_matches owner m"
    and "targets = terminateOwner_targets lim owner pm"
  shows "managed_of (terminateOwner_begin lim facts targets pm) i = Some m
    \<and> managed_of (fst (terminateOwner_end lim now err alive targets (terminateOwner_begin lim facts targets pm))) i = Some m"
proof -
  have acc: "accounted lim pm" unfolding assms(1) by (rule accounting.events_inv [OF new_accounted]) simp
  have i: "i \<notin> set targets"
  proof
    assume "i \<in> set targets"
    then obtain j n where n: "(j, n) \<in> set (pm_processes pm)" "mp_id n = i" "owner_matches owner n"
      by (auto simp: assms(4) terminateOwner_targets_def map_values_def split: if_splits)
    then have "managed_of pm i = Some n"
      using acc by (auto simp: accounted_def table_ok_def managed_of_def)
    with assms(2,3) n(3) show False by simp
  qed
  have "fst (terminateOwner_end lim now err alive targets pm') = pm'
      \<or> fst (terminateOwner_end lim now err alive targets pm') = delete_targets lim now targets pm'" for pm'
    by (auto simp: terminateOwner_end_def delete_targets_def Let_def split: option.split)
  with begin_keeps [OF assms(2) acc i] delete_targets_keeps [OF i] show ?thesis by metis
qed

theorem revocation_spares_others_witness:
  "\<exists>m. mp_lifecycle m = LTask
    \<and> managed_of (terminateOwner_begin demo_limits (\<lambda>_. (demo_facts, True)) [''s'']
        (run_events demo_limits demo_before new_process_manager)) ''t'' = Some m"
proof -
  have "\<exists>m. managed_of (run_events demo_limits demo_before new_process_manager) ''t'' = Some m \<and> mp_lifecycle m = LTask"
    by (simp add: start_defs demo_defs Let_def MAX_TASK_RECORD_BYTES_def)
  then obtain m where m: "managed_of (run_events demo_limits demo_before new_process_manager) ''t'' = Some m" "mp_lifecycle m = LTask"
    by blast
  from revocation_spares_others [OF refl m(1), of "Some demo_owner" "[''s'']" "\<lambda>_. (demo_facts, True)"] m(2) demo_targets
  show ?thesis by (auto simp: owner_matches_def)
qed

section \<open>The records of tasks\<close>

text \<open>Compaction loses no running task: with \<open>localeCompare\<close> a total order, the records that are kept
  are records of the history, every running one is kept, of the others at most the allowed number,
  and none that is dropped finished later than one that is kept.\<close>

theorem compaction_keeps_latest:
  assumes "\<And>a b. pl_localeBefore lim a b \<or> pl_localeBefore lim b a"
    and "\<And>a b c. pl_localeBefore lim a b \<Longrightarrow> pl_localeBefore lim b c \<Longrightarrow> pl_localeBefore lim a c"
  shows "list_all (\<lambda>t. t \<in> set latest) (retained_records lim latest)
    \<and> list_all (\<lambda>t. t \<in> set (retained_records lim latest)) (filter is_running_record latest)
    \<and> length (filter (\<lambda>t. \<not> is_running_record t) (retained_records lim latest)) \<le> pl_maxCompletedProcesses lim
    \<and> list_all (\<lambda>t. list_all (\<lambda>u. finished_or_started u \<le> finished_or_started t)
          (filter (\<lambda>u. u \<notin> set (retained_records lim latest)) latest))
        (filter (\<lambda>t. \<not> is_running_record t) (retained_records lim latest))"
proof -
  let ?le = "later_finished (pl_localeBefore lim)" and ?others = "filter (\<lambda>t. \<not> is_running_record t) latest"
  let ?kept = "take (pl_maxCompletedProcesses lim) (sort_by ?le ?others)"
  have set: "set (retained_records lim latest) = set (filter is_running_record latest) \<union> set ?kept"
    by (simp add: retained_records_def)
  have sub: "set ?kept \<subseteq> set ?others" using set_take_subset by fastforce
  have "mset (filter (\<lambda>t. \<not> is_running_record t) (retained_records lim latest)) = mset (filter (\<lambda>t. \<not> is_running_record t) ?kept)"
    by (simp add: retained_records_def)
  then have "length (filter (\<lambda>t. \<not> is_running_record t) (retained_records lim latest)) = length (filter (\<lambda>t. \<not> is_running_record t) ?kept)"
    by (metis size_mset)
  also have "\<dots> \<le> length ?kept" by (rule length_filter_le)
  finally have len: "length (filter (\<lambda>t. \<not> is_running_record t) (retained_records lim latest)) \<le> pl_maxCompletedProcesses lim" by simp
  have "sorted_wrt ?le (sort_by ?le ?others)"
  proof (rule sort_by_sorted)
    show "?le x y \<or> ?le y x" for x y using assms(1) by (cases "finished_or_started x" "finished_or_started y" rule: linorder_cases) (simp_all add: later_finished_def)
    show "?le x z" if "?le x y" "?le y z" for x y z
      using that assms(2) [of "su_id (pt_summary z)" "su_id (pt_summary y)" "su_id (pt_summary x)"] unfolding later_finished_def by linarith
  qed
  from take_sorted_best [OF this] have best: "?le t u" if "t \<in> set ?kept" "u \<in> set ?others" "u \<notin> set ?kept" for t u
    using that by simp
  have "finished_or_started u \<le> finished_or_started t"
    if "t \<in> set ?kept" "u \<in> set latest" "u \<notin> set (retained_records lim latest)" for t u
  proof -
    have "u \<in> set ?others" "u \<notin> set ?kept" using that(2,3) unfolding set by auto
    from best [OF that(1) this] show ?thesis unfolding later_finished_def by linarith
  qed
  moreover have "t \<in> set ?kept" if "t \<in> set (retained_records lim latest)" "\<not> is_running_record t" for t
    using that set by simp
  ultimately have last: "list_all (\<lambda>t. list_all (\<lambda>u. finished_or_started u \<le> finished_or_started t)
          (filter (\<lambda>u. u \<notin> set (retained_records lim latest)) latest))
        (filter (\<lambda>t. \<not> is_running_record t) (retained_records lim latest))"
    unfolding list_all_iff set_filter by blast
  have "set (retained_records lim latest) \<subseteq> set latest" unfolding set using sub by auto
  then have 1: "list_all (\<lambda>t. t \<in> set latest) (retained_records lim latest)" unfolding list_all_iff by blast
  have 2: "list_all (\<lambda>t. t \<in> set (retained_records lim latest)) (filter is_running_record latest)"
    unfolding list_all_iff set by blast
  show ?thesis by (intro conjI 1 2 len last)
qed

definition demo_record :: "string \<Rightarrow> management_status \<Rightarrow> int \<Rightarrow> persisted_task" where
  "demo_record i s t = \<lparr>pt_summary = \<lparr>su_id = i, su_pid = None, su_service = None, su_exitCode = None, su_signal = None,
     su_status = s, su_startedAt = 0, su_finishedAt = (if s = MRunning then None else Some t), su_label = i,
     su_lifecycle = LTask, su_agentOwned = False, su_ownerGeneration = 1\<rparr>,
     pt_outputPath = i, pt_outputTruncated = None\<rparr>"

theorem compaction_keeps_latest_witness:
  "list_all (\<lambda>t. t \<in> set (retained_records demo_limits [demo_record ''a'' MRunning 0, demo_record ''b'' MExited 1, demo_record ''c'' MExited 2]))
     [demo_record ''a'' MRunning 0]
   \<and> length (filter (\<lambda>t. \<not> is_running_record t) (retained_records demo_limits
       [demo_record ''a'' MRunning 0, demo_record ''b'' MExited 1, demo_record ''c'' MExited 2])) \<le> 1"
  using compaction_keeps_latest [of demo_limits "[demo_record ''a'' MRunning 0, demo_record ''b'' MExited 1, demo_record ''c'' MExited 2]"]
  by (simp add: demo_limits_def is_running_record_def demo_record_def)

end
