(* ===== verification/Durable.thy ===== *)
theory Durable
  imports Prelude
begin

text \<open>Programs over durable state that can be interrupted.

  The state commands of the CLI (packages/cli/src) change files one durable step at a time (an
  atomic write, a rename, a removal) and call the container runtime, and the host may lose power
  between any two of them. A program here is a function on a \<open>machine\<close>: the disk, the
  world behind the container runtime, the log of the runtime calls with the disk each one saw, and a
  budget, the number of steps until the power fails (\<^const>\<open>None\<close>: it does not). Its
  result is a value, an error or the interruption.

  \<open>io_triple\<close> is the logic of such programs: an invariant of the disk that holds whatever
  happens, a condition that holds when the program returns, and, when the calls are known to
  succeed, the promise that it returns. The locale \<open>recovery\<close> says what a recovery
  procedure that is repeated after every interruption achieves.\<close>

record ('d, 'w, 'c) machine =
  mc_disk :: 'd
  mc_world :: 'w
  mc_log :: "('d \<times> 'c) list"
  mc_budget :: "nat option"

datatype 'a io_result = Done (io_value: 'a) | Failed string | Interrupted

type_synonym ('d, 'w, 'c, 'a) io = "('d, 'w, 'c) machine \<Rightarrow> ('d, 'w, 'c) machine \<times> 'a io_result"

section \<open>Programs\<close>

definition io_return :: "'a \<Rightarrow> ('d, 'w, 'c, 'a) io" where
  "io_return a m = (m, Done a)"

definition io_fail :: "string \<Rightarrow> ('d, 'w, 'c, 'a) io" where
  "io_fail e m = (m, Failed e)"

definition io_bind :: "('d, 'w, 'c, 'a) io \<Rightarrow> ('a \<Rightarrow> ('d, 'w, 'c, 'b) io) \<Rightarrow> ('d, 'w, 'c, 'b) io" where
  "io_bind p f m = (case p m of
       (m', Done a) \<Rightarrow> f a m'
     | (m', Failed e) \<Rightarrow> (m', Failed e)
     | (m', Interrupted) \<Rightarrow> (m', Interrupted))"

definition io_then :: "('d, 'w, 'c, 'a) io \<Rightarrow> ('d, 'w, 'c, 'b) io \<Rightarrow> ('d, 'w, 'c, 'b) io" where
  "io_then p q = io_bind p (\<lambda>_. q)"

definition io_read :: "('d \<Rightarrow> 'a) \<Rightarrow> ('d, 'w, 'c, 'a) io" where
  "io_read f m = (m, Done (f (mc_disk m)))"

definition io_require :: "bool \<Rightarrow> string \<Rightarrow> ('d, 'w, 'c, unit) io" where
  "io_require b e = (if b then io_return () else io_fail e)"

definition io_when :: "bool \<Rightarrow> ('d, 'w, 'c, unit) io \<Rightarrow> ('d, 'w, 'c, unit) io" where
  "io_when b p = (if b then p else io_return ())"

fun io_each :: "('x \<Rightarrow> ('d, 'w, 'c, unit) io) \<Rightarrow> 'x list \<Rightarrow> ('d, 'w, 'c, unit) io" where
  "io_each f [] = io_return ()"
| "io_each f (x # xs) = io_then (f x) (io_each f xs)"

text \<open>One unit of the budget, after which the power may fail.\<close>

definition io_tick :: "('d, 'w, 'c, unit) io" where
  "io_tick m = (case mc_budget m of
       None \<Rightarrow> (m, Done ())
     | Some 0 \<Rightarrow> (m, Interrupted)
     | Some (Suc n) \<Rightarrow> (m\<lparr>mc_budget := Some n\<rparr>, Done ()))"

text \<open>A durable step.\<close>

definition io_write :: "('d \<Rightarrow> 'd) \<Rightarrow> ('d, 'w, 'c, unit) io" where
  "io_write f = io_then io_tick (\<lambda>m. (m\<lparr>mc_disk := f (mc_disk m)\<rparr>, Done ()))"

text \<open>A call of the runtime \<open>rt\<close>, which answers with a value or an error.\<close>

definition io_call :: "('c \<Rightarrow> 'w \<Rightarrow> 'w \<times> (string + 'a)) \<Rightarrow> 'c \<Rightarrow> ('d, 'w, 'c, 'a) io" where
  "io_call rt c = io_then io_tick (\<lambda>m. case rt c (mc_world m) of
       (w, Inl e) \<Rightarrow> (m\<lparr>mc_world := w, mc_log := mc_log m @ [(mc_disk m, c)]\<rparr>, Failed e)
     | (w, Inr a) \<Rightarrow> (m\<lparr>mc_world := w, mc_log := mc_log m @ [(mc_disk m, c)]\<rparr>, Done a))"

lemmas io_defs = io_return_def io_fail_def io_bind_def io_then_def io_read_def io_require_def
  io_when_def io_tick_def io_write_def io_call_def

lemma io_return_then [simp]: "io_then (io_return a) q = q" "io_bind (io_return a) f = f a"
  by (simp_all add: fun_eq_iff io_then_def io_bind_def io_return_def)

section \<open>The logic\<close>

text \<open>\<open>I\<close> is kept whatever happens. \<open>L\<close> is what every call promises about the
  disk it sees. \<open>ok\<close> says that no call fails: then the program does not fail either.\<close>

definition io_good ::
  "bool \<Rightarrow> ('d \<Rightarrow> 'c \<Rightarrow> bool) \<Rightarrow> ('d \<Rightarrow> bool) \<Rightarrow> ('a \<Rightarrow> 'd \<Rightarrow> bool) \<Rightarrow> ('d, 'w, 'c) machine
     \<Rightarrow> ('d, 'w, 'c) machine \<times> 'a io_result \<Rightarrow> bool"
where
  "io_good ok L I Q m x =
     (I (mc_disk (fst x))
      \<and> (\<exists>xs. mc_log (fst x) = mc_log m @ xs \<and> (\<forall>(d, c) \<in> set xs. L d c))
      \<and> (mc_budget m = None \<longrightarrow> mc_budget (fst x) = None)
      \<and> (case snd x of Done a \<Rightarrow> Q a (mc_disk (fst x))
           | Failed e \<Rightarrow> \<not> ok
           | Interrupted \<Rightarrow> mc_budget m \<noteq> None))"

definition io_triple ::
  "bool \<Rightarrow> ('d \<Rightarrow> 'c \<Rightarrow> bool) \<Rightarrow> ('d \<Rightarrow> bool) \<Rightarrow> ('d \<Rightarrow> bool) \<Rightarrow> ('d, 'w, 'c, 'a) io \<Rightarrow> ('a \<Rightarrow> 'd \<Rightarrow> bool) \<Rightarrow> bool"
where
  "io_triple ok L I P p Q = (\<forall>m. I (mc_disk m) \<and> P (mc_disk m) \<longrightarrow> io_good ok L I Q m (p m))"

lemma io_tripleD: "io_triple ok L I P p Q \<Longrightarrow> I (mc_disk m) \<Longrightarrow> P (mc_disk m) \<Longrightarrow> io_good ok L I Q m (p m)"
  by (simp add: io_triple_def)

lemma io_tripleI: "(\<And>m. I (mc_disk m) \<Longrightarrow> P (mc_disk m) \<Longrightarrow> io_good ok L I Q m (p m)) \<Longrightarrow> io_triple ok L I P p Q"
  by (simp add: io_triple_def)

lemma io_good_Done: "io_good ok L I Q m (m', Done a) \<longleftrightarrow>
    I (mc_disk m') \<and> (\<exists>xs. mc_log m' = mc_log m @ xs \<and> (\<forall>(d, c) \<in> set xs. L d c))
    \<and> (mc_budget m = None \<longrightarrow> mc_budget m' = None) \<and> Q a (mc_disk m')"
  and io_good_Failed: "io_good ok L I Q m (m', Failed e) \<longleftrightarrow>
    I (mc_disk m') \<and> (\<exists>xs. mc_log m' = mc_log m @ xs \<and> (\<forall>(d, c) \<in> set xs. L d c))
    \<and> (mc_budget m = None \<longrightarrow> mc_budget m' = None) \<and> \<not> ok"
  and io_good_Interrupted: "io_good ok L I Q m (m', Interrupted) \<longleftrightarrow>
    I (mc_disk m') \<and> (\<exists>xs. mc_log m' = mc_log m @ xs \<and> (\<forall>(d, c) \<in> set xs. L d c))
    \<and> mc_budget m \<noteq> None"
  by (auto simp: io_good_def)

lemmas io_good_simps = io_good_Done io_good_Failed io_good_Interrupted

lemma io_good_trans:
  assumes "io_good ok L I R m (m1, Done b)" and "io_good ok L I Q m1 x"
  shows "io_good ok L I Q m x"
proof -
  obtain m2 r where x: "x = (m2, r)" by (cases x)
  from assms(1) obtain xs where xs: "mc_log m1 = mc_log m @ xs" "\<forall>(d, c) \<in> set xs. L d c"
    by (auto simp: io_good_simps)
  have log: "\<exists>zs. mc_log m2 = mc_log m @ zs \<and> (\<forall>(d, c) \<in> set zs. L d c)"
    if "mc_log m2 = mc_log m1 @ ys" "\<forall>(d, c) \<in> set ys. L d c" for ys
    using that xs by (intro exI [of _ "xs @ ys"]) auto
  show ?thesis
    using assms x log by (cases r) (auto simp: io_good_simps)
qed

lemma triple_return [intro]: "(\<And>d. I d \<Longrightarrow> P d \<Longrightarrow> Q a d) \<Longrightarrow> io_triple ok L I P (io_return a) Q"
  by (auto simp: io_triple_def io_return_def io_good_simps)

lemma triple_fail: "(\<And>d. I d \<Longrightarrow> P d \<Longrightarrow> \<not> ok) \<Longrightarrow> io_triple ok L I P (io_fail e) Q"
  by (auto simp: io_triple_def io_fail_def io_good_simps)

lemma triple_bind:
  fixes p :: "('d, 'w, 'c, 'a) io"
  assumes p: "io_triple ok L I P p R" and f: "\<And>a. io_triple ok L I (R a) (f a) Q"
  shows "io_triple ok L I P (io_bind p f) Q"
proof (rule io_tripleI)
  fix m :: "('d, 'w, 'c) machine"
  assume m: "I (mc_disk m)" "P (mc_disk m)"
  obtain m' r where r: "p m = (m', r)" by (cases "p m")
  from io_tripleD [OF p m] r have g: "io_good ok L I R m (m', r)" by simp
  show "io_good ok L I Q m (io_bind p f m)"
  proof (cases r)
    case (Done a)
    with g have "I (mc_disk m')" "R a (mc_disk m')" by (simp_all add: io_good_simps)
    from io_tripleD [OF f this] have "io_good ok L I Q m' (f a m')" .
    with g Done show ?thesis by (auto simp: io_bind_def r intro: io_good_trans)
  qed (use g in \<open>auto simp: io_bind_def r io_good_simps\<close>)
qed

lemma triple_then:
  "io_triple ok L I P p (\<lambda>_. R) \<Longrightarrow> io_triple ok L I R q Q \<Longrightarrow> io_triple ok L I P (io_then p q) Q"
  unfolding io_then_def by (rule triple_bind)

lemma io_good_weaken: "io_good ok L I Q' m x \<Longrightarrow> (\<And>a d. I d \<Longrightarrow> Q' a d \<Longrightarrow> Q a d) \<Longrightarrow> io_good ok L I Q m x"
  by (cases x; cases "snd x") (auto simp: io_good_simps)

lemma triple_weaken:
  fixes p :: "('d, 'w, 'c, 'a) io"
  assumes "io_triple ok L I P' p Q'" and "\<And>d. I d \<Longrightarrow> P d \<Longrightarrow> P' d" and "\<And>a d. I d \<Longrightarrow> Q' a d \<Longrightarrow> Q a d"
  shows "io_triple ok L I P p Q"
proof (rule io_tripleI)
  fix m :: "('d, 'w, 'c) machine" assume m: "I (mc_disk m)" "P (mc_disk m)"
  from io_tripleD [OF assms(1) m(1) assms(2) [OF m]] show "io_good ok L I Q m (p m)"
    by (rule io_good_weaken) (rule assms(3))
qed

lemma triple_pre: "io_triple ok L I P' p Q \<Longrightarrow> (\<And>d. I d \<Longrightarrow> P d \<Longrightarrow> P' d) \<Longrightarrow> io_triple ok L I P p Q"
  by (rule triple_weaken)

lemma triple_read: "(\<And>d. I d \<Longrightarrow> P d \<Longrightarrow> Q (f d) d) \<Longrightarrow> io_triple ok L I P (io_read f) Q"
  by (auto simp: io_triple_def io_read_def io_good_simps)

lemma triple_require:
  "(\<And>d. I d \<Longrightarrow> P d \<Longrightarrow> ok \<Longrightarrow> b) \<Longrightarrow> io_triple ok L I P (io_require b e) (\<lambda>_ d. b \<and> P d)"
  by (auto simp: io_triple_def io_require_def io_return_def io_fail_def io_good_simps)

lemma triple_tick: "io_triple ok L I P io_tick (\<lambda>_. P)"
  by (auto simp: io_triple_def io_tick_def io_good_simps split: option.splits nat.splits)

lemma triple_write:
  assumes "\<And>d. I d \<Longrightarrow> P d \<Longrightarrow> I (f d) \<and> Q (f d)"
  shows "io_triple ok L I P (io_write f) (\<lambda>_. Q)"
  unfolding io_write_def
  by (rule triple_then, rule triple_tick) (use assms in \<open>auto simp: io_triple_def io_good_simps\<close>)

lemma triple_call:
  fixes rt :: "'c \<Rightarrow> 'w \<Rightarrow> 'w \<times> (string + 'a)" and I :: "'d \<Rightarrow> bool"
  assumes "\<And>d. I d \<Longrightarrow> P d \<Longrightarrow> L d c" and "\<And>w. ok \<Longrightarrow> \<exists>w' a. rt c w = (w', Inr a)"
  shows "io_triple ok L I P (io_call rt c) (\<lambda>_. P)"
  unfolding io_call_def
proof (rule triple_then, rule triple_tick, rule io_tripleI)
  fix m :: "('d, 'w, 'c) machine"
  assume m: "I (mc_disk m)" "P (mc_disk m)"
  obtain w r where r: "rt c (mc_world m) = (w, r)" by (cases "rt c (mc_world m)")
  have "\<not> ok" if "r = Inl e" for e using assms(2) [of "mc_world m"] that r by auto
  then show "io_good ok L I (\<lambda>_. P) m (case rt c (mc_world m) of
       (w, Inl e) \<Rightarrow> (m\<lparr>mc_world := w, mc_log := mc_log m @ [(mc_disk m, c)]\<rparr>, Failed e)
     | (w, Inr a) \<Rightarrow> (m\<lparr>mc_world := w, mc_log := mc_log m @ [(mc_disk m, c)]\<rparr>, Done a))"
    using m assms(1) r by (auto simp: io_good_simps split: sum.split)
qed

lemma triple_when:
  assumes "b \<Longrightarrow> io_triple ok L I P p (\<lambda>_. Q)" and "\<And>d. \<not> b \<Longrightarrow> I d \<Longrightarrow> P d \<Longrightarrow> Q d"
  shows "io_triple ok L I P (io_when b p) (\<lambda>_. Q)"
  using assms by (auto simp: io_when_def)

lemma triple_each:
  assumes "\<And>x. x \<in> set xs \<Longrightarrow> io_triple ok L I P (f x) (\<lambda>_. P)"
  shows "io_triple ok L I P (io_each f xs) (\<lambda>_. P)"
  using assms by (induction xs) (auto intro: triple_then)

text \<open>A part of a program that keeps a stronger invariant.\<close>

lemma triple_inv:
  fixes p :: "('d, 'w, 'c, 'a) io"
  assumes "io_triple ok L J P p Q" and "\<And>d. J d \<Longrightarrow> I d"
  shows "io_triple ok L I (\<lambda>d. J d \<and> P d) p (\<lambda>a d. J d \<and> Q a d)"
proof (rule io_tripleI)
  fix m :: "('d, 'w, 'c) machine"
  assume "I (mc_disk m)" "J (mc_disk m) \<and> P (mc_disk m)"
  then have "io_good ok L J Q m (p m)" using io_tripleD [OF assms(1)] by blast
  then show "io_good ok L I (\<lambda>a d. J d \<and> Q a d) m (p m)"
    using assms(2) by (cases "p m"; cases "snd (p m)") (auto simp: io_good_simps)
qed

text \<open>A loop over entries with distinct keys, each of which settles its own key.\<close>

lemma triple_each_grow:
  assumes "\<And>S x. x \<in> set xs \<Longrightarrow> key x \<notin> S \<Longrightarrow> io_triple ok L I (R S) (f x) (\<lambda>_. R (insert (key x) S))"
    and "distinct (map key xs)" and "set (map key xs) \<inter> S = {}"
  shows "io_triple ok L I (R S) (io_each f xs) (\<lambda>_. R (S \<union> set (map key xs)))"
  using assms
proof (induction xs arbitrary: S)
  case Nil
  show ?case by (simp add: triple_return)
next
  case (Cons x xs)
  have "io_triple ok L I (R (insert (key x) S)) (io_each f xs) (\<lambda>_. R (insert (key x) S \<union> set (map key xs)))"
    by (rule Cons.IH) (use Cons.prems in auto)
  then have "io_triple ok L I (R (insert (key x) S)) (io_each f xs) (\<lambda>_. R (S \<union> set (map key (x # xs))))"
    by (simp add: insert_commute)
  moreover have "io_triple ok L I (R S) (f x) (\<lambda>_. R (insert (key x) S))"
    by (rule Cons.prems) (use Cons.prems in auto)
  ultimately show ?case by (auto intro: triple_then)
qed

section \<open>Symbolic execution from one disk\<close>

text \<open>From a given disk a program can be followed step by step, the reads evaluated on the way.\<close>

definition io_from ::
  "bool \<Rightarrow> ('d \<Rightarrow> 'c \<Rightarrow> bool) \<Rightarrow> ('d \<Rightarrow> bool) \<Rightarrow> 'd \<Rightarrow> ('d, 'w, 'c, 'a) io \<Rightarrow> ('a \<Rightarrow> 'd \<Rightarrow> bool) \<Rightarrow> bool"
where
  "io_from ok L I d p Q = io_triple ok L I (\<lambda>x. x = d) p Q"

lemma triple_from: "(\<And>d. I d \<Longrightarrow> P d \<Longrightarrow> io_from ok L I d p Q) \<Longrightarrow> io_triple ok L I P p Q"
  by (auto simp: io_from_def io_triple_def)

lemma from_triple: "io_triple ok L I P p Q \<Longrightarrow> P d \<Longrightarrow> io_from ok L I d p Q"
  by (auto simp: io_from_def io_triple_def)

lemma from_return: "(I d \<Longrightarrow> Q a d) \<Longrightarrow> io_from ok L I d (io_return a) Q"
  unfolding io_from_def by (rule triple_return) auto

lemma from_fail: "(I d \<Longrightarrow> \<not> ok) \<Longrightarrow> io_from ok L I d (io_fail e) Q"
  unfolding io_from_def by (rule triple_fail) auto

lemma from_bind:
  assumes "io_from ok L I d p R" and "\<And>a d'. I d' \<Longrightarrow> R a d' \<Longrightarrow> io_from ok L I d' (f a) Q"
  shows "io_from ok L I d (io_bind p f) Q"
  unfolding io_from_def
proof (rule triple_bind)
  show "io_triple ok L I (\<lambda>x. x = d) p R" using assms(1) by (simp add: io_from_def)
  show "io_triple ok L I (R a) (f a) Q" for a by (rule triple_from) (rule assms(2))
qed

lemma from_then:
  "io_from ok L I d p (\<lambda>_. R) \<Longrightarrow> (\<And>d'. I d' \<Longrightarrow> R d' \<Longrightarrow> io_from ok L I d' q Q) \<Longrightarrow> io_from ok L I d (io_then p q) Q"
  unfolding io_then_def by (rule from_bind)

lemma from_then_exact:
  "io_from ok L I d p (\<lambda>_ x. x = d') \<Longrightarrow> (I d' \<Longrightarrow> io_from ok L I d' q Q) \<Longrightarrow> io_from ok L I d (io_then p q) Q"
  by (rule from_then [where R = "\<lambda>x. x = d'"]) auto

lemma from_read: "(I d \<Longrightarrow> io_from ok L I d (g (f d)) Q) \<Longrightarrow> io_from ok L I d (io_bind (io_read f) g) Q"
  by (auto simp: io_from_def io_triple_def io_bind_def io_read_def)

lemma from_write: "(I d \<Longrightarrow> I (f d) \<and> Q (f d)) \<Longrightarrow> io_from ok L I d (io_write f) (\<lambda>_. Q)"
  unfolding io_from_def by (rule triple_write) auto

lemma from_write_exact: "(I d \<Longrightarrow> I (f d)) \<Longrightarrow> io_from ok L I d (io_write f) (\<lambda>_ x. x = f d)"
  by (rule from_write) simp

lemma from_tick: "io_from ok L I d io_tick (\<lambda>_ x. x = d)"
  unfolding io_from_def by (rule triple_tick)

lemma from_call:
  assumes "I d \<Longrightarrow> L d c" and "\<And>w. ok \<Longrightarrow> \<exists>w' a. rt c w = (w', Inr a)"
  shows "io_from ok L I d (io_call rt c) (\<lambda>_ x. x = d)"
  unfolding io_from_def by (rule triple_call) (use assms in auto)

lemma from_require: "(I d \<Longrightarrow> ok \<Longrightarrow> b) \<Longrightarrow> io_from ok L I d (io_require b e) (\<lambda>_ x. b \<and> x = d)"
  unfolding io_from_def by (rule triple_weaken, rule triple_require) auto

lemma from_weaken: "io_from ok L I d p R \<Longrightarrow> (\<And>a x. I x \<Longrightarrow> R a x \<Longrightarrow> Q a x) \<Longrightarrow> io_from ok L I d p Q"
  unfolding io_from_def by (erule triple_weaken) auto

section \<open>The calls of an undisturbed run\<close>

definition io_logs :: "('d, 'w, 'c, 'a) io \<Rightarrow> 'c list \<Rightarrow> bool" where
  "io_logs p cs = (\<forall>m. mc_budget m = None \<longrightarrow>
     (\<exists>m' a. p m = (m', Done a) \<and> mc_budget m' = None \<and> map snd (mc_log m') = map snd (mc_log m) @ cs))"

lemma logs_return [simp]: "io_logs (io_return a) []"
  by (simp add: io_logs_def io_return_def)

lemma logs_tick [simp]: "io_logs io_tick []"
  by (simp add: io_logs_def io_tick_def)

lemma logs_then:
  fixes p :: "('d, 'w, 'c, 'a) io"
  assumes "io_logs p cs" and "io_logs q ds"
  shows "io_logs (io_then p q) (cs @ ds)"
  unfolding io_logs_def
proof (intro allI impI)
  fix m :: "('d, 'w, 'c) machine" assume "mc_budget m = None"
  then obtain m1 a where "p m = (m1, Done a)" "mc_budget m1 = None" "map snd (mc_log m1) = map snd (mc_log m) @ cs"
    using assms(1) unfolding io_logs_def by blast
  moreover from this(2) obtain m2 b where "q m1 = (m2, Done b)" "mc_budget m2 = None"
    "map snd (mc_log m2) = map snd (mc_log m1) @ ds" using assms(2) unfolding io_logs_def by blast
  ultimately show "\<exists>m' a. io_then p q m = (m', Done a) \<and> mc_budget m' = None
      \<and> map snd (mc_log m') = map snd (mc_log m) @ cs @ ds"
    by (simp add: io_then_def io_bind_def)
qed

lemma logs_write [simp]: "io_logs (io_write f) []"
  by (simp add: io_logs_def io_write_def io_then_def io_bind_def io_tick_def)

lemma logs_call:
  fixes rt :: "'c \<Rightarrow> 'w \<Rightarrow> 'w \<times> (string + 'a)"
  assumes "\<forall>c w. \<exists>w' a. rt c w = (w', Inr a)"
  shows "io_logs (io_call rt c) [c]"
  unfolding io_logs_def
proof (intro allI impI)
  fix m :: "('d, 'w, 'c) machine"
  assume "mc_budget m = None"
  moreover obtain w a where "rt c (mc_world m) = (w, Inr a)" using assms by blast
  ultimately show "\<exists>m' a. io_call rt c m = (m', Done a) \<and> mc_budget m' = None
      \<and> map snd (mc_log m') = map snd (mc_log m) @ [c]"
    by (simp add: io_call_def io_then_def io_bind_def io_tick_def)
qed

lemma logs_when: "(b \<Longrightarrow> io_logs p cs) \<Longrightarrow> io_logs (io_when b p) (if b then cs else [])"
  by (simp add: io_when_def)

lemma logs_each: "(\<And>x. x \<in> set xs \<Longrightarrow> io_logs (f x) (g x)) \<Longrightarrow> io_logs (io_each f xs) (concat (map g xs))"
  by (induction xs) (auto intro: logs_then)

section \<open>Recovery after interruptions\<close>

text \<open>The power fails and the command is run again, any number of times; each run has a budget
  of its own.\<close>

fun interrupted_runs :: "('d, 'w, 'c, 'a) io \<Rightarrow> nat option list \<Rightarrow> ('d, 'w, 'c) machine \<Rightarrow> ('d, 'w, 'c) machine" where
  "interrupted_runs p [] m = m"
| "interrupted_runs p (k # ks) m = interrupted_runs p ks (fst (p (m\<lparr>mc_budget := k\<rparr>)))"

locale recovery =
  fixes recover :: "('d, 'w, 'c, 'a) io"
    and ok :: bool
    and seen :: "'d \<Rightarrow> 'c \<Rightarrow> bool"
    and inv :: "'d \<Rightarrow> bool"
    and settled :: "'d \<Rightarrow> bool"
  assumes recover_triple: "io_triple ok seen inv (\<lambda>_. True) recover (\<lambda>_. settled)"
begin

lemma one_run: "inv (mc_disk m) \<Longrightarrow> io_good ok seen inv (\<lambda>_. settled) m (recover m)"
  by (rule io_tripleD [OF recover_triple]) auto

lemma kept: "inv (mc_disk m) \<Longrightarrow> inv (mc_disk (interrupted_runs recover ks m))"
proof (induction ks arbitrary: m)
  case (Cons k ks)
  have "inv (mc_disk (fst (recover (m\<lparr>mc_budget := k\<rparr>))))"
    using one_run [of "m\<lparr>mc_budget := k\<rparr>"] Cons.prems by (auto simp: io_good_def)
  then show ?case using Cons.IH by simp
qed simp

lemma calls_seen:
  "inv (mc_disk m) \<Longrightarrow> \<exists>xs. mc_log (interrupted_runs recover ks m) = mc_log m @ xs \<and> (\<forall>(d, c) \<in> set xs. seen d c)"
proof (induction ks arbitrary: m)
  case (Cons k ks)
  let ?m = "fst (recover (m\<lparr>mc_budget := k\<rparr>))"
  from one_run [of "m\<lparr>mc_budget := k\<rparr>"] Cons.prems
  obtain xs where xs: "mc_log ?m = mc_log m @ xs" "\<forall>(d, c) \<in> set xs. seen d c" and "inv (mc_disk ?m)"
    by (auto simp: io_good_def)
  from Cons.IH [OF this(3)] obtain ys where "mc_log (interrupted_runs recover ks ?m) = mc_log ?m @ ys"
    "\<forall>(d, c) \<in> set ys. seen d c" by blast
  with xs show ?case by (intro exI [of _ "xs @ ys"]) auto
qed simp

lemma settles:
  assumes "inv (mc_disk m)" and ok
  shows "\<exists>m' a. recover (interrupted_runs recover ks m\<lparr>mc_budget := None\<rparr>) = (m', Done a) \<and> settled (mc_disk m')"
proof -
  let ?m = "interrupted_runs recover ks m\<lparr>mc_budget := None\<rparr>"
  obtain m' r where r: "recover ?m = (m', r)" by (cases "recover ?m")
  have "inv (mc_disk ?m)" using kept [OF assms(1)] by simp
  from one_run [OF this] r assms(2) show ?thesis by (cases r) (auto simp: io_good_simps)
qed

end

end
