(* ===== verification/Transaction_Document.thy ===== *)
theory Transaction_Document
  imports Prelude
begin

text \<open>The documents of the state of an installation: the configuration, the secrets and the
  transaction journal (packages/core/src/config.ts, packages/core/src/gateway-access.ts) with the
  rules a journal has to pass before it is written or used (\<open>validateStateTransaction\<close>), and
  the construction of a transaction (\<open>createStateTransaction\<close>,
  packages/cli/src/transactions.ts). The fields of a computer other than its identity are kept as one
  text, as are those of the gateway other than its exposure.\<close>

section \<open>Documents\<close>

record runtime_binding =
  rb_name :: string
  rb_id :: string
  rb_status :: string
  rb_imageId :: string
  rb_role :: string
  rb_topologyVersion :: "string option"

record computer_metadata =
  cm_id :: string
  cm_name :: string
  cm_contentId :: "string option"
  cm_settings :: string
  cm_deletedAt :: "string option"

record tls_material =
  tm_id :: string
  tm_certificateSha256 :: string
  tm_privateKeySha256 :: string
  tm_clientCertificateAuthoritySha256 :: "string option"

record tls_secret =
  ts_id :: string
  ts_certificateChainPem :: string
  ts_privateKeyPem :: string
  ts_clientCertificateAuthorityPem :: "string option"

record state_config =
  sc_installationId :: string
  sc_gateway :: string
  sc_exposure :: "tls_material option"
  sc_computers :: "computer_metadata list"

record computer_secret =
  cs_token :: string
  cs_internalKey :: string

record state_secrets =
  ss_tls :: "tls_secret option"
  ss_computers :: "(string, computer_secret) js_map"

datatype transaction_source = SourceActive | SourceCreate | SourceTrash | SourceStaged

datatype transaction_operation = OpSetup | OpConfig | OpCreate | OpUpgrade | OpRename | OpDelete | OpRestore
  | OpBackupRestore | OpTokenRotate | OpClientCredential | OpApply

datatype transaction_phase = Prepared | StateCommitted

record active_entry =
  ae_source :: transaction_source
  ae_metadata :: computer_metadata

record runtime_work =
  rw_ensureImages :: bool
  rw_startGateway :: bool
  rw_replaceGatewayRunning :: bool
  rw_replaceGatewayStopped :: bool
  rw_gatewayRuntimeBinding :: "runtime_binding list"
  rw_reconnectIds :: "string list"
  rw_replaceIds :: "string list"
  rw_replaceStoppedIds :: "string list"
  rw_computerRuntimeBindings :: "(string, runtime_binding list) js_map"
  rw_startIds :: "string list"
  rw_removeIds :: "string list"
  rw_verifyTokenIds :: "string list"

record state_transaction =
  tx_id :: string
  tx_operation :: transaction_operation
  tx_createdAt :: string
  tx_phase :: transaction_phase
  tx_config :: state_config
  tx_secrets :: state_secrets
  tx_active :: "active_entry list"
  tx_trash :: "computer_metadata list"
  tx_runtime :: runtime_work

definition config_ids :: "state_config \<Rightarrow> string list" where
  "config_ids config = map cm_id (sc_computers config)"

definition secret_ids :: "state_secrets \<Rightarrow> string list" where
  "secret_ids secrets = map fst (ss_computers secrets)"

definition active_ids :: "state_transaction \<Rightarrow> string list" where
  "active_ids t = map (\<lambda>e. cm_id (ae_metadata e)) (tx_active t)"

definition trash_ids :: "state_transaction \<Rightarrow> string list" where
  "trash_ids t = map cm_id (tx_trash t)"

section \<open>Agreement of configuration and secrets\<close>

definition sameSet :: "string list \<Rightarrow> string list \<Rightarrow> bool" where
  "sameSet left right = (set left = set right)"

definition missing_secrets :: "state_config \<Rightarrow> state_secrets \<Rightarrow> string list" where
  "missing_secrets config secrets = filter (\<lambda>i. i \<notin> set (secret_ids secrets)) (remdups (config_ids config))"

definition orphan_secrets :: "state_config \<Rightarrow> state_secrets \<Rightarrow> string list" where
  "orphan_secrets config secrets = filter (\<lambda>i. i \<notin> set (config_ids config)) (remdups (secret_ids secrets))"

text \<open>Whether \<open>assertStateComputerIdsMatch\<close> returns.\<close>

definition stateComputerIdsMatch :: "state_config \<Rightarrow> state_secrets \<Rightarrow> bool" where
  "stateComputerIdsMatch config secrets = (missing_secrets config secrets = [] \<and> orphan_secrets config secrets = [])"

definition gatewayExposureTlsSecretMatches ::
  "(string \<Rightarrow> string) \<Rightarrow> tls_material option \<Rightarrow> tls_secret option \<Rightarrow> bool"
where
  "gatewayExposureTlsSecretMatches sha256Text exposure secret =
     (case (exposure, secret) of
        (Some tls, Some s) \<Rightarrow>
          tm_id tls = ts_id s
          \<and> tm_certificateSha256 tls = sha256Text (ts_certificateChainPem s)
          \<and> tm_privateKeySha256 tls = sha256Text (ts_privateKeyPem s)
          \<and> tm_clientCertificateAuthoritySha256 tls
              = map_option sha256Text (ts_clientCertificateAuthorityPem s)
      | (None, None) \<Rightarrow> True
      | _ \<Rightarrow> False)"

section \<open>The rules of a transaction\<close>

definition runtime_ids_valid :: "string list \<Rightarrow> string list \<Rightarrow> bool" where
  "runtime_ids_valid values allowed = (distinct values \<and> set values \<subseteq> set allowed)"

definition find_computer :: "state_config \<Rightarrow> string \<Rightarrow> computer_metadata option" where
  "find_computer config i = List.find (\<lambda>c. cm_id c = i) (sc_computers config)"

definition active_rules :: "state_transaction \<Rightarrow> bool" where
  "active_rules t =
     (distinct (active_ids t)
      \<and> list_all (\<lambda>e. find_computer (tx_config t) (cm_id (ae_metadata e)) = Some (ae_metadata e)) (tx_active t)
      \<and> (let staged = filter (\<lambda>e. ae_source e = SourceStaged) (tx_active t)
         in \<not> (staged \<noteq> [] \<and> (tx_operation t \<noteq> OpBackupRestore \<or> length staged \<noteq> 1))))"

definition trash_rules :: "state_transaction \<Rightarrow> bool" where
  "trash_rules t = (distinct (trash_ids t) \<and> set (trash_ids t) \<inter> set (config_ids (tx_config t)) = {})"

definition runtime_rules :: "state_transaction \<Rightarrow> bool" where
  "runtime_rules t =
     (let w = tx_runtime t; ids = config_ids (tx_config t);
          exclusive = rw_reconnectIds w @ rw_replaceIds w @ rw_replaceStoppedIds w @ rw_startIds w
      in runtime_ids_valid (rw_reconnectIds w) ids
         \<and> runtime_ids_valid (rw_replaceIds w) ids
         \<and> runtime_ids_valid (rw_replaceStoppedIds w) ids
         \<and> runtime_ids_valid (map fst (rw_computerRuntimeBindings w)) ids
         \<and> runtime_ids_valid (rw_startIds w) ids
         \<and> distinct exclusive
         \<and> \<not> (rw_replaceGatewayRunning w \<and> \<not> rw_startGateway w)
         \<and> \<not> (rw_replaceGatewayRunning w \<and> rw_replaceGatewayStopped w)
         \<and> \<not> (rw_startGateway w \<and> rw_replaceGatewayStopped w)
         \<and> length (rw_gatewayRuntimeBinding w) \<le> 1
         \<and> \<not> (rw_gatewayRuntimeBinding w \<noteq> [] \<and> \<not> rw_startGateway w \<and> \<not> rw_replaceGatewayStopped w
               \<and> rw_replaceIds w = [])
         \<and> list_all (\<lambda>(i, bindings). i \<in> set (rw_replaceIds w @ rw_replaceStoppedIds w)
               \<and> distinct (map rb_name bindings) \<and> distinct (map rb_id bindings)) (rw_computerRuntimeBindings w)
         \<and> runtime_ids_valid (rw_verifyTokenIds w) ids
         \<and> runtime_ids_valid (rw_removeIds w) (trash_ids t))"

definition validateStateTransaction :: "(string \<Rightarrow> string) \<Rightarrow> state_transaction \<Rightarrow> bool" where
  "validateStateTransaction sha256Text t =
     (active_rules t \<and> trash_rules t
      \<and> sameSet (config_ids (tx_config t)) (secret_ids (tx_secrets t))
      \<and> gatewayExposureTlsSecretMatches sha256Text (sc_exposure (tx_config t)) (ss_tls (tx_secrets t))
      \<and> sameSet (config_ids (tx_config t)) (active_ids t)
      \<and> runtime_rules t)"

section \<open>Construction\<close>

record transaction_plan =
  tp_activeSources :: "(string, transaction_source) js_map"
  tp_trash :: "computer_metadata list"
  tp_runtime :: "runtime_work option"

definition no_runtime_work :: runtime_work where
  "no_runtime_work = \<lparr>rw_ensureImages = False, rw_startGateway = False, rw_replaceGatewayRunning = False,
     rw_replaceGatewayStopped = False, rw_gatewayRuntimeBinding = [], rw_reconnectIds = [], rw_replaceIds = [],
     rw_replaceStoppedIds = [], rw_computerRuntimeBindings = [], rw_startIds = [], rw_removeIds = [],
     rw_verifyTokenIds = []\<rparr>"

definition createStateTransaction ::
  "(string \<Rightarrow> string) \<Rightarrow> string \<Rightarrow> string \<Rightarrow> transaction_operation \<Rightarrow> state_config \<Rightarrow> state_secrets
     \<Rightarrow> transaction_plan \<Rightarrow> string + state_transaction"
where
  "createStateTransaction sha256Text txid created operation config secrets plan =
     (if list_ex (\<lambda>i. i \<notin> set (config_ids config)) (map fst (tp_activeSources plan))
      then Inl ''Transaction source override references an unknown computer.''
      else
        (let t = \<lparr>tx_id = txid, tx_operation = operation, tx_createdAt = created, tx_phase = Prepared,
                 tx_config = config, tx_secrets = secrets,
                 tx_active = map (\<lambda>m. \<lparr>ae_source = (case map_of (tp_activeSources plan) (cm_id m) of
                     None \<Rightarrow> SourceActive | Some s \<Rightarrow> s), ae_metadata = m\<rparr>) (sc_computers config),
                 tx_trash = tp_trash plan,
                 tx_runtime = (case tp_runtime plan of None \<Rightarrow> no_runtime_work | Some w \<Rightarrow> w)\<rparr>
         in if validateStateTransaction sha256Text t then Inr t else Inl ''Transaction is invalid.''))"

section \<open>What the rules give\<close>

lemma ids_match_iff: "stateComputerIdsMatch config secrets \<longleftrightarrow> sameSet (config_ids config) (secret_ids secrets)"
  by (auto simp: stateComputerIdsMatch_def missing_secrets_def orphan_secrets_def sameSet_def filter_empty_conv)

lemma valid_distinct:
  assumes "validateStateTransaction sha t"
  shows "distinct (active_ids t)" and "distinct (trash_ids t)" and "set (active_ids t) \<inter> set (trash_ids t) = {}"
  using assms by (auto simp: validateStateTransaction_def active_rules_def trash_rules_def sameSet_def)

lemma valid_state:
  assumes "validateStateTransaction sha t"
  shows "stateComputerIdsMatch (tx_config t) (tx_secrets t)"
    and "gatewayExposureTlsSecretMatches sha (sc_exposure (tx_config t)) (ss_tls (tx_secrets t))"
  using assms by (simp_all add: validateStateTransaction_def ids_match_iff)

lemma valid_phase: "validateStateTransaction sha (t\<lparr>tx_phase := p\<rparr>) = validateStateTransaction sha t"
  by (simp add: validateStateTransaction_def active_rules_def trash_rules_def runtime_rules_def
      active_ids_def trash_ids_def)

lemma createStateTransaction_valid:
  "createStateTransaction sha i c op config secrets plan = Inr t \<Longrightarrow>
    validateStateTransaction sha t \<and> tx_phase t = Prepared \<and> tx_config t = config \<and> tx_secrets t = secrets"
  by (auto simp: createStateTransaction_def Let_def split: if_splits)

end
