(* ===== verification/Transactions.thy ===== *)
theory Transactions
  imports Durable Transaction_Document
begin

text \<open>The state transactions of the CLI: packages/cli/src/transactions.ts with the durable
  primitives of packages/cli/src/state.ts.

  A transaction is written to a journal first; recovery then moves the directories of the computers,
  writes configuration and secrets, renders the runtime documents, marks the journal
  \<open>state-committed\<close>, does the container work and removes the journal. Every step is a durable
  step of \<open>Durable\<close>, so that the power may fail between any two of them, and recovery is run
  again from the journal.

  The container runtime is a parameter \<open>rt\<close> that answers each call with success or an error.
  The documents that \<open>renderRuntime\<close> derives are one value that is absent while they are being
  written. Owner and mode checks of directories are left out.\<close>

section \<open>The disk\<close>

record computer_dir =
  cd_metadata :: "computer_metadata option"
  cd_ready :: bool
  cd_home :: "string option"

datatype node = Directory computer_dir | OtherNode

datatype place = InComputers string | InTrash string | InStaging string

datatype root_kind = RootMissing | RootDirectory | RootOther

datatype journal_file = NoJournal | Journal state_transaction | BadJournal

record disk =
  dk_computersRoot :: root_kind
  dk_trashRoot :: root_kind
  dk_nodes :: "place \<Rightarrow> node option"
  dk_config :: "state_config option"
  dk_secrets :: "state_secrets option"
  dk_rendered :: "(state_config \<times> state_secrets) option"
  dk_journal :: journal_file

datatype runtime_call =
    ReconcileContracts state_transaction
  | ValidateDocker
  | EnsureImages
  | StartGateway "runtime_binding list" bool
  | VerifyGateway "string list"
  | ReplaceStoppedGateway "runtime_binding list"
  | WaitForRemoval string
  | RemoveRuntime string
  | Reconnect "computer_metadata option"
  | RemoveReplacement "computer_metadata option" "runtime_binding list"
  | ReplaceStopped "computer_metadata option" "runtime_binding list"
  | StartComputer "computer_metadata option"
  | VerifyToken string "string option"

type_synonym 'w runtime = "runtime_call \<Rightarrow> 'w \<Rightarrow> 'w \<times> (string + unit)"
type_synonym ('w, 'a) tx_io = "(disk, 'w, runtime_call, 'a) io"

section \<open>Durable primitives\<close>

definition set_node :: "place \<Rightarrow> node option \<Rightarrow> disk \<Rightarrow> disk" where
  "set_node p n d = d\<lparr>dk_nodes := (dk_nodes d)(p := n)\<rparr>"

text \<open>A checkpoint does nothing of its own, but a run may be interrupted there.\<close>

definition checkpoint :: "string \<Rightarrow> ('w, unit) tx_io" where
  "checkpoint name = io_tick"

definition io_lift :: "string + 'a \<Rightarrow> ('d, 'w, 'c, 'a) io" where
  "io_lift r = (case r of Inl e \<Rightarrow> io_fail e | Inr a \<Rightarrow> io_return a)"

definition directory_exists :: "node option \<Rightarrow> string + bool" where
  "directory_exists n = (case n of
       None \<Rightarrow> Inr False
     | Some (Directory _) \<Rightarrow> Inr True
     | Some OtherNode \<Rightarrow> Inl ''exists but is not a real directory'')"

definition realDirectoryExists :: "place \<Rightarrow> ('w, bool) tx_io" where
  "realDirectoryExists p = io_bind (io_read (\<lambda>d. directory_exists (dk_nodes d p))) io_lift"

definition root_exists :: "(disk \<Rightarrow> root_kind) \<Rightarrow> ('w, bool) tx_io" where
  "root_exists f = io_bind (io_read f) (\<lambda>k. case k of
       RootMissing \<Rightarrow> io_return False
     | RootDirectory \<Rightarrow> io_return True
     | RootOther \<Rightarrow> io_fail ''exists but is not a real directory'')"

text \<open>The marker of a finished backup restore, in the directory at a place.\<close>

definition marker_exists :: "node option \<Rightarrow> string + bool" where
  "marker_exists n = (case n of
       None \<Rightarrow> Inr False
     | Some (Directory c) \<Rightarrow> Inr (cd_ready c)
     | Some OtherNode \<Rightarrow> Inl ''not a directory'')"

definition realFileExists_marker :: "place \<Rightarrow> ('w, bool) tx_io" where
  "realFileExists_marker p = io_bind (io_read (\<lambda>d. marker_exists (dk_nodes d p))) io_lift"

definition durableRename :: "place \<Rightarrow> place \<Rightarrow> ('w, unit) tx_io" where
  "durableRename source destination =
     io_bind (io_read (\<lambda>d. dk_nodes d source)) (\<lambda>n.
     io_bind (io_read (\<lambda>d. dk_nodes d destination)) (\<lambda>old.
       if n = None \<or> old \<noteq> None then io_fail ''rename''
       else io_write (\<lambda>d. set_node source None (set_node destination n d))))"

text \<open>A recursive removal empties the directory before it removes it.\<close>

definition empty_dir :: computer_dir where
  "empty_dir = \<lparr>cd_metadata = None, cd_ready = False, cd_home = None\<rparr>"

definition durableRemoveDirectory :: "place \<Rightarrow> ('w, unit) tx_io" where
  "durableRemoveDirectory p =
     io_bind (io_read (\<lambda>d. dk_nodes d p)) (\<lambda>n.
       io_then (io_when (n \<noteq> None) (io_write (set_node p (Some (Directory empty_dir)))))
         (io_write (set_node p None)))"

definition remove_marker :: "place \<Rightarrow> ('w, unit) tx_io" where
  "remove_marker p = io_write (\<lambda>d. case dk_nodes d p of
       Some (Directory c) \<Rightarrow> set_node p (Some (Directory (c\<lparr>cd_ready := False\<rparr>))) d
     | _ \<Rightarrow> d)"

text \<open>\<open>mkdir -p\<close> of the directory and of its home, then the metadata.\<close>

definition ensured :: "node option \<Rightarrow> computer_dir" where
  "ensured n = (case n of Some (Directory c) \<Rightarrow> c | _ \<Rightarrow> empty_dir)"

definition ensured_home :: "computer_dir \<Rightarrow> computer_dir" where
  "ensured_home c = c\<lparr>cd_home := Some (case cd_home c of None \<Rightarrow> [] | Some h \<Rightarrow> h)\<rparr>"

definition update_dir :: "place \<Rightarrow> (computer_dir \<Rightarrow> computer_dir) \<Rightarrow> disk \<Rightarrow> disk" where
  "update_dir p f d = set_node p (Some (Directory (f (ensured (dk_nodes d p))))) d"

definition saveMetadataInDirectory :: "place \<Rightarrow> computer_metadata \<Rightarrow> ('w, unit) tx_io" where
  "saveMetadataInDirectory p m =
     io_bind (io_read (\<lambda>d. directory_exists (dk_nodes d p))) (\<lambda>r.
       io_then (io_bind (io_lift r) (\<lambda>_. io_return ()))
      (io_then (io_write (update_dir p id))
      (io_then (io_write (update_dir p ensured_home))
         (io_write (update_dir p (\<lambda>c. c\<lparr>cd_metadata := Some m\<rparr>))))))"

definition renderRuntime :: "state_config \<Rightarrow> state_secrets \<Rightarrow> ('w, unit) tx_io" where
  "renderRuntime config secrets =
     io_then (io_write (\<lambda>d. d\<lparr>dk_rendered := None\<rparr>))
       (io_write (\<lambda>d. d\<lparr>dk_rendered := Some (config, secrets)\<rparr>))"

definition saveState :: "(string \<Rightarrow> string) \<Rightarrow> state_config \<Rightarrow> state_secrets \<Rightarrow> ('w, unit) tx_io \<Rightarrow> ('w, unit) tx_io" where
  "saveState sha256Text config secrets afterConfig =
     io_then (io_require (stateComputerIdsMatch config secrets) ''Config/secrets computer IDs do not match.'')
    (io_then (io_require (gatewayExposureTlsSecretMatches sha256Text (sc_exposure config) (ss_tls secrets))
        ''Gateway exposure TLS secret material does not match the configured immutable digests.'')
    (io_then (io_write (\<lambda>d. d\<lparr>dk_config := Some config\<rparr>))
    (io_then afterConfig
       (io_write (\<lambda>d. d\<lparr>dk_secrets := Some secrets\<rparr>)))))"

section \<open>The journal\<close>

definition readPendingTransaction :: "('w, state_transaction option) tx_io" where
  "readPendingTransaction = io_bind (io_read dk_journal) (\<lambda>j. case j of
       NoJournal \<Rightarrow> io_return None
     | Journal t \<Rightarrow> io_return (Some t)
     | BadJournal \<Rightarrow> io_fail ''Transaction journal is invalid.'')"

definition writeTransaction :: "(string \<Rightarrow> string) \<Rightarrow> state_transaction \<Rightarrow> ('w, unit) tx_io" where
  "writeTransaction sha256Text t =
     io_then (io_require (validateStateTransaction sha256Text t) ''Transaction is invalid.'')
       (io_write (\<lambda>d. d\<lparr>dk_journal := Journal t\<rparr>))"

definition prepareStateTransaction :: "(string \<Rightarrow> string) \<Rightarrow> state_transaction \<Rightarrow> ('w, unit) tx_io" where
  "prepareStateTransaction sha256Text t =
     io_bind readPendingTransaction (\<lambda>pending.
       if pending \<noteq> None then io_fail ''A Qubicl transaction is already pending recovery.''
       else io_then (writeTransaction sha256Text t) (checkpoint ''journal-written''))"

section \<open>The directories\<close>

definition ensureActiveDirectory :: "transaction_source \<Rightarrow> computer_metadata \<Rightarrow> ('w, unit) tx_io" where
  "ensureActiveDirectory source m =
     (let active = InComputers (cm_id m); trash = InTrash (cm_id m); staged = InStaging (cm_id m) in
      io_bind (realDirectoryExists active) (\<lambda>activeExists.
      io_bind (realDirectoryExists trash) (\<lambda>trashExists.
        if activeExists \<and> trashExists then io_fail ''Computer exists in both active state and trash.''
        else (case source of
            SourceCreate \<Rightarrow>
              if trashExists then io_fail ''Cannot create computer; its ID already exists in trash.''
              else saveMetadataInDirectory active m
          | SourceActive \<Rightarrow>
              if \<not> activeExists \<or> trashExists then io_fail ''Active computer directory is missing or conflicted.''
              else saveMetadataInDirectory active m
          | SourceStaged \<Rightarrow>
              if trashExists then io_fail ''Cannot restore backup; its ID already exists in trash.''
              else
                io_then
                  (if activeExists then io_return ()
                   else
                     io_bind (realDirectoryExists staged) (\<lambda>stagedExists.
                     io_bind (if stagedExists then realFileExists_marker staged else io_return False) (\<lambda>ready.
                       if \<not> stagedExists \<or> \<not> ready then io_fail ''Backup restore staging is incomplete.''
                       else durableRename staged active)))
               (io_then (saveMetadataInDirectory active m) (remove_marker active))
          | SourceTrash \<Rightarrow>
              io_then
                (if \<not> activeExists \<and> trashExists then durableRename trash active
                 else if \<not> activeExists \<or> trashExists then io_fail ''Trashed computer cannot be restored safely.''
                 else io_return ())
                (saveMetadataInDirectory active m)))))"

definition ensureTrashDirectory :: "computer_metadata \<Rightarrow> ('w, unit) tx_io" where
  "ensureTrashDirectory m =
     (let active = InComputers (cm_id m); trash = InTrash (cm_id m) in
      io_bind (realDirectoryExists active) (\<lambda>activeExists.
      io_bind (realDirectoryExists trash) (\<lambda>trashExists.
        if activeExists \<and> trashExists then io_fail ''Computer exists in both active state and trash.''
        else if \<not> activeExists \<and> \<not> trashExists then io_fail ''Computer directory disappeared before it could be trashed.''
        else if activeExists then io_then (saveMetadataInDirectory active m) (durableRename active trash)
        else saveMetadataInDirectory trash m)))"

text \<open>A restore whose staging never finished is dropped together with its journal.\<close>

fun rollbackIncompleteStaging :: "active_entry list \<Rightarrow> ('w, bool) tx_io" where
  "rollbackIncompleteStaging [] = io_return False"
| "rollbackIncompleteStaging (e # es) =
     (if ae_source e \<noteq> SourceStaged then rollbackIncompleteStaging es
      else
        io_bind (realDirectoryExists (InComputers (cm_id (ae_metadata e)))) (\<lambda>activeExists.
          if activeExists then rollbackIncompleteStaging es
          else
            io_bind (realFileExists_marker (InStaging (cm_id (ae_metadata e)))) (\<lambda>ready.
              if ready then rollbackIncompleteStaging es
              else
                io_then (durableRemoveDirectory (InStaging (cm_id (ae_metadata e))))
               (io_then (io_write (\<lambda>d. d\<lparr>dk_journal := NoJournal\<rparr>)) (io_return True)))))"

section \<open>The container work\<close>

definition transactionHasRuntimeWork :: "state_transaction \<Rightarrow> bool" where
  "transactionHasRuntimeWork t =
     (let w = tx_runtime t in
      rw_ensureImages w \<or> rw_startGateway w \<or> rw_replaceGatewayStopped w
      \<or> length (rw_reconnectIds w) > 0 \<or> length (rw_replaceIds w) > 0 \<or> length (rw_replaceStoppedIds w) > 0
      \<or> length (rw_startIds w) > 0 \<or> length (rw_removeIds w) > 0 \<or> length (rw_verifyTokenIds w) > 0)"

definition legacyReconnectIds :: "state_transaction \<Rightarrow> string list" where
  "legacyReconnectIds t =
     (if length (rw_reconnectIds (tx_runtime t)) > 0 then []
      else if tx_operation t = OpConfig then rw_startIds (tx_runtime t)
      else if tx_operation t \<noteq> OpSetup then []
      else
        (let created = map (\<lambda>e. cm_id (ae_metadata e)) (filter (\<lambda>e. ae_source e = SourceCreate) (tx_active t))
         in filter (\<lambda>i. i \<notin> set created) (rw_startIds (tx_runtime t))))"

definition effectiveReconnectIds :: "state_transaction \<Rightarrow> string list" where
  "effectiveReconnectIds t = dedup_by id (rw_reconnectIds (tx_runtime t) @ legacyReconnectIds t)"

definition container_binding :: "state_transaction \<Rightarrow> string \<Rightarrow> runtime_binding list" where
  "container_binding t i = (case map_of (rw_computerRuntimeBindings (tx_runtime t)) i of None \<Rightarrow> [] | Some b \<Rightarrow> b)"

definition needsDocker :: "state_transaction \<Rightarrow> bool" where
  "needsDocker t =
     (let w = tx_runtime t in
      rw_ensureImages w \<or> rw_startGateway w \<or> rw_replaceGatewayStopped w
      \<or> effectiveReconnectIds t \<noteq> [] \<or> rw_replaceIds w \<noteq> [] \<or> rw_replaceStoppedIds w \<noteq> []
      \<or> rw_startIds w \<noteq> [] \<or> rw_removeIds w \<noteq> [])"

definition needsGateway :: "state_transaction \<Rightarrow> bool" where
  "needsGateway t =
     (let w = tx_runtime t in
      rw_startGateway w \<or> effectiveReconnectIds t \<noteq> [] \<or> rw_replaceIds w \<noteq> [] \<or> rw_startIds w \<noteq> [])"

definition completeRuntime :: "'w runtime \<Rightarrow> state_transaction \<Rightarrow> ('w, unit) tx_io" where
  "completeRuntime rt t =
     (let w = tx_runtime t; config = tx_config t in
      io_then (io_when (needsDocker t)
        (io_then (io_call rt ValidateDocker) (checkpoint ''docker-validated'')))
     (io_then (io_when (rw_ensureImages w)
        (io_then (io_call rt EnsureImages)
        (io_then (renderRuntime config (tx_secrets t)) (checkpoint ''images-ready''))))
     (io_then (io_when (needsGateway t)
        (io_then (io_call rt (StartGateway (rw_gatewayRuntimeBinding w) (rw_replaceGatewayRunning w)))
        (io_then (io_call rt (VerifyGateway (rw_replaceIds w))) (checkpoint ''gateway-ready''))))
     (io_then (io_when (rw_replaceGatewayStopped w)
        (io_then (io_call rt (ReplaceStoppedGateway (rw_gatewayRuntimeBinding w))) (checkpoint ''gateway-ready'')))
     (io_then (io_each (\<lambda>i. io_then (io_call rt (WaitForRemoval i))
        (io_then (checkpoint ''routes-removed'')
        (io_then (io_call rt (RemoveRuntime i)) (checkpoint ''runtime-removed'')))) (rw_removeIds w))
     (io_then (io_each (\<lambda>i. io_then (io_call rt (Reconnect (find_computer config i)))
        (checkpoint ''computers-started'')) (effectiveReconnectIds t))
     (io_then (io_each (\<lambda>i. io_then (io_call rt (RemoveReplacement (find_computer config i) (container_binding t i)))
        (io_then (checkpoint ''runtime-removed'')
        (io_then (io_call rt (StartComputer (find_computer config i))) (checkpoint ''computers-started''))))
        (rw_replaceIds w))
     (io_then (io_each (\<lambda>i. io_then (io_call rt (ReplaceStopped (find_computer config i) (container_binding t i)))
        (io_then (checkpoint ''runtime-removed'') (checkpoint ''computers-started''))) (rw_replaceStoppedIds w))
     (io_then (io_each (\<lambda>i. if i \<in> set (legacyReconnectIds t) then io_return ()
          else io_then (io_call rt (StartComputer (find_computer config i))) (checkpoint ''computers-started''))
        (rw_startIds w))
        (io_each (\<lambda>i. io_then (io_call rt (VerifyToken i
            (map_option cs_token (map_of (ss_computers (tx_secrets t)) i)))) (checkpoint ''routes-verified''))
          (rw_verifyTokenIds w)))))))))))"

section \<open>Recovery\<close>

definition commit_state :: "(string \<Rightarrow> string) \<Rightarrow> state_transaction \<Rightarrow> ('w, unit) tx_io" where
  "commit_state sha256Text t =
     io_bind (root_exists dk_computersRoot) (\<lambda>computers.
     io_bind (if computers then root_exists dk_trashRoot else io_return False) (\<lambda>trash.
       if \<not> computers \<or> \<not> trash then io_fail ''Qubicl active or trash state directories are missing.''
       else
         io_then (io_each (\<lambda>e. ensureActiveDirectory (ae_source e) (ae_metadata e)) (tx_active t))
        (io_then (checkpoint ''active-ready'')
        (io_then (saveState sha256Text (tx_config t) (tx_secrets t) (checkpoint ''config-written''))
        (io_then (checkpoint ''state-written'')
        (io_then (renderRuntime (tx_config t) (tx_secrets t))
        (io_then (checkpoint ''runtime-rendered'')
        (io_then (io_each ensureTrashDirectory (tx_trash t))
        (io_then (checkpoint ''trash-ready'')
        (io_then (writeTransaction sha256Text (t\<lparr>tx_phase := StateCommitted\<rparr>))
           (checkpoint ''state-committed'')))))))))))"

definition recoverPendingTransaction :: "(string \<Rightarrow> string) \<Rightarrow> 'w runtime \<Rightarrow> bool \<Rightarrow> ('w, bool) tx_io" where
  "recoverPendingTransaction sha256Text rt includeRuntime =
     io_bind readPendingTransaction (\<lambda>pending.
       case pending of
         None \<Rightarrow> io_return False
       | Some t \<Rightarrow>
           io_bind (if tx_phase t = Prepared then rollbackIncompleteStaging (tx_active t) else io_return False)
             (\<lambda>rolledBack.
               if rolledBack then io_return True
               else
                 io_then (io_call rt (ReconcileContracts t))
                (io_then (io_when (tx_phase t = Prepared) (commit_state sha256Text t))
                   (if \<not> includeRuntime \<and> transactionHasRuntimeWork t then io_return True
                    else
                      io_then (completeRuntime rt t)
                     (io_then (checkpoint ''runtime-committed'')
                     (io_then (io_write (\<lambda>d. d\<lparr>dk_journal := NoJournal\<rparr>)) (io_return True)))))))"

definition executeStateTransaction ::
  "(string \<Rightarrow> string) \<Rightarrow> 'w runtime \<Rightarrow> bool \<Rightarrow> state_transaction \<Rightarrow> ('w, bool) tx_io"
where
  "executeStateTransaction sha256Text rt includeRuntime t =
     io_then (prepareStateTransaction sha256Text t) (recoverPendingTransaction sha256Text rt includeRuntime)"

end
