(* ===== verification/Transaction_Recovery.thy ===== *)
theory Transaction_Recovery
  imports Transactions
begin

text \<open>What recovery of a state transaction achieves (packages/cli/src/transactions.ts): the outcome
  of a transaction as a function of the disk it starts from, the invariant that every durable step of
  a recovery keeps, and the theorems on interrupted runs.\<close>

section \<open>The outcome for one computer\<close>

type_synonym node_view = "node option \<times> node option \<times> node option"

definition view :: "(place \<Rightarrow> node option) \<Rightarrow> string \<Rightarrow> node_view" where
  "view n i = (n (InComputers i), n (InTrash i), n (InStaging i))"

definition put_view :: "string \<Rightarrow> node_view \<Rightarrow> disk \<Rightarrow> disk" where
  "put_view i v d = (case v of (a, t, s) \<Rightarrow>
     set_node (InComputers i) a (set_node (InTrash i) t (set_node (InStaging i) s d)))"

definition saved :: "computer_metadata \<Rightarrow> node option \<Rightarrow> node option" where
  "saved m n = Some (Directory ((ensured_home (ensured n))\<lparr>cd_metadata := Some m\<rparr>))"

definition unmarked :: "node option \<Rightarrow> node option" where
  "unmarked n = (case n of Some (Directory c) \<Rightarrow> Some (Directory (c\<lparr>cd_ready := False\<rparr>)) | _ \<Rightarrow> n)"

fun active_target :: "transaction_source \<Rightarrow> computer_metadata \<Rightarrow> node_view \<Rightarrow> node_view option" where
  "active_target source m (a, t, s) =
     (if a = Some OtherNode \<or> t = Some OtherNode \<or> (a \<noteq> None \<and> t \<noteq> None) then None
      else (case source of
          SourceCreate \<Rightarrow> if t \<noteq> None then None else Some (saved m a, None, s)
        | SourceActive \<Rightarrow> if a = None then None else Some (saved m a, None, s)
        | SourceStaged \<Rightarrow>
            if t \<noteq> None then None
            else if a \<noteq> None then Some (unmarked (saved m a), None, s)
            else (case s of
                Some (Directory c) \<Rightarrow> if cd_ready c then Some (unmarked (saved m s), None, None) else None
              | _ \<Rightarrow> None)
        | SourceTrash \<Rightarrow>
            if a = None \<and> t = None then None
            else Some (saved m (if a = None then t else a), None, s)))"

fun trash_target :: "computer_metadata \<Rightarrow> node_view \<Rightarrow> node_view option" where
  "trash_target m (a, t, s) =
     (if a = Some OtherNode \<or> t = Some OtherNode \<or> (a = None) = (t = None) then None
      else Some (None, saved m (if a = None then t else a), s))"

lemma view_put_view [simp]: "view (dk_nodes (put_view i v d)) i = v"
  "i \<noteq> j \<Longrightarrow> view (dk_nodes (put_view i v d)) j = view (dk_nodes d) j"
  by (auto simp: view_def put_view_def set_node_def split: prod.split)

lemma put_view_other [simp]:
  "dk_journal (put_view i v d) = dk_journal d" "dk_config (put_view i v d) = dk_config d"
  "dk_secrets (put_view i v d) = dk_secrets d" "dk_rendered (put_view i v d) = dk_rendered d"
  "dk_computersRoot (put_view i v d) = dk_computersRoot d" "dk_trashRoot (put_view i v d) = dk_trashRoot d"
  by (auto simp: put_view_def set_node_def split: prod.split)

lemma put_view_same [simp]: "put_view i (view (dk_nodes d) i) d = d"
  by (simp add: put_view_def view_def set_node_def)

lemma put_view_put_view [simp]: "put_view i v (put_view i w d) = put_view i v d"
  by (cases v; cases w) (auto simp: put_view_def set_node_def fun_eq_iff)

lemma ensured_simps [simp]:
  "ensured (Some (Directory c)) = c" "ensured None = empty_dir"
  "ensured_home (ensured_home c) = ensured_home c"
  "ensured_home (c\<lparr>cd_metadata := x\<rparr>) = (ensured_home c)\<lparr>cd_metadata := x\<rparr>"
  "ensured_home (c\<lparr>cd_ready := b\<rparr>) = (ensured_home c)\<lparr>cd_ready := b\<rparr>"
  by (simp_all add: ensured_def ensured_home_def)

lemma saved_simps [simp]:
  "saved m (saved m' n) = saved m n" "saved m n \<noteq> None" "saved m n \<noteq> Some OtherNode"
  "saved m (Some (Directory (ensured n))) = saved m n"
  "saved m (Some (Directory (ensured_home (ensured n)))) = saved m n"
  "saved m (Some (Directory (ensured_home c))) = saved m (Some (Directory c))"
  "saved m (Some (Directory empty_dir)) = saved m None"
  "unmarked (saved m n) \<noteq> None" "unmarked (saved m n) \<noteq> Some OtherNode"
  "unmarked (saved m (unmarked (saved m n))) = unmarked (saved m n)"
  by (simp_all add: saved_def unmarked_def)

lemma active_target_done: "active_target source m v = Some w \<Longrightarrow> active_target source m w = Some w"
  by (cases v; cases source) (auto split: if_splits option.splits node.splits)

lemma trash_target_done: "trash_target m v = Some w \<Longrightarrow> trash_target m w = Some w"
  by (cases v) (auto split: if_splits)

section \<open>One directory\<close>

lemma from_lift_directory:
  assumes "n \<noteq> Some OtherNode" and "io_from ok L I d (g (n \<noteq> None)) Q"
  shows "io_from ok L I d (io_bind (io_lift (directory_exists n)) g) Q"
  using assms by (cases n) (auto simp: directory_exists_def io_lift_def io_bind_def io_return_def io_from_def
      io_triple_def split: node.splits)

lemma from_directory:
  assumes "dk_nodes d p \<noteq> Some OtherNode" and "I d \<Longrightarrow> io_from ok L I d (g (dk_nodes d p \<noteq> None)) Q"
  shows "io_from ok L I d (io_bind (realDirectoryExists p) g) Q"
proof -
  have "io_bind (realDirectoryExists p) g
      = io_bind (io_read (\<lambda>d. directory_exists (dk_nodes d p))) (\<lambda>r. io_bind (io_lift r) g)"
    by (rule ext) (auto simp: realDirectoryExists_def io_bind_def split: prod.splits io_result.splits)
  then show ?thesis
    using assms by (auto intro!: from_read from_lift_directory)
qed

lemma from_saveMetadata:
  assumes n: "dk_nodes d p \<noteq> Some OtherNode"
    and inv: "I (update_dir p id d)" "I (update_dir p ensured_home d)" "I (set_node p (saved m (dk_nodes d p)) d)"
  shows "io_from ok L I d (saveMetadataInDirectory p m) (\<lambda>_ x. x = set_node p (saved m (dk_nodes d p)) d)"
proof -
  let ?d1 = "update_dir p id d" and ?d2 = "update_dir p ensured_home d"
  have s1: "update_dir p ensured_home ?d1 = ?d2"
    by (simp add: update_dir_def set_node_def)
  have s2: "update_dir p (\<lambda>c. c\<lparr>cd_metadata := Some m\<rparr>) ?d2 = set_node p (saved m (dk_nodes d p)) d"
    by (simp add: update_dir_def set_node_def saved_def)
  have "io_from ok L I d (io_bind (io_lift (directory_exists (dk_nodes d p))) (\<lambda>_. io_return ())) (\<lambda>_ x. x = d)"
    by (rule from_lift_directory [OF n]) (rule from_return, simp)
  moreover have "io_from ok L I ?d2 (io_write (update_dir p (\<lambda>c. c\<lparr>cd_metadata := Some m\<rparr>)))
      (\<lambda>_ x. x = set_node p (saved m (dk_nodes d p)) d)"
    unfolding s2 [symmetric] by (rule from_write_exact) (simp add: s2 inv)
  moreover have "io_from ok L I ?d1 (io_write (update_dir p ensured_home)) (\<lambda>_ x. x = ?d2)"
    unfolding s1 [symmetric] by (rule from_write_exact) (simp add: s1 inv)
  moreover have "io_from ok L I d (io_write (update_dir p id)) (\<lambda>_ x. x = ?d1)"
    by (rule from_write_exact) (simp add: inv)
  ultimately show ?thesis
    unfolding saveMetadataInDirectory_def by (intro from_read from_then_exact)
qed

lemma from_rename:
  assumes "dk_nodes d p \<noteq> None" and "dk_nodes d q = None" and "I (set_node p None (set_node q (dk_nodes d p) d))"
  shows "io_from ok L I d (durableRename p q) (\<lambda>_ x. x = set_node p None (set_node q (dk_nodes d p) d))"
  unfolding durableRename_def
  by (rule from_read, rule from_read) (use assms in \<open>auto intro!: from_write\<close>)

lemma from_marker:
  assumes "dk_nodes d p \<noteq> Some OtherNode"
    and "I d \<Longrightarrow> io_from ok L I d (g (\<exists>c. dk_nodes d p = Some (Directory c) \<and> cd_ready c)) Q"
  shows "io_from ok L I d (io_bind (realFileExists_marker p) g) Q"
proof -
  have "io_bind (realFileExists_marker p) g
      = io_bind (io_read (\<lambda>d. marker_exists (dk_nodes d p))) (\<lambda>r. io_bind (io_lift r) g)"
    by (rule ext) (auto simp: realFileExists_marker_def io_bind_def split: prod.splits io_result.splits)
  moreover have "io_from ok L I d (io_bind (io_lift (marker_exists (dk_nodes d p))) g) Q" if "I d"
    using assms(1) assms(2) [OF that]
    by (cases "dk_nodes d p") (auto simp: marker_exists_def io_lift_def io_bind_def io_return_def io_from_def
        io_triple_def split: node.splits)
  ultimately show ?thesis by (auto intro!: from_read)
qed

lemma from_remove_marker:
  assumes "I (set_node p (unmarked (dk_nodes d p)) d)"
  shows "io_from ok L I d (remove_marker p) (\<lambda>_ x. x = set_node p (unmarked (dk_nodes d p)) d)"
proof -
  have "(case dk_nodes d p of Some (Directory c) \<Rightarrow> set_node p (Some (Directory (c\<lparr>cd_ready := False\<rparr>))) d | _ \<Rightarrow> d)
      = set_node p (unmarked (dk_nodes d p)) d"
  proof -
    have "set_node p (dk_nodes d p) d = d" by (simp add: set_node_def)
    then show ?thesis by (auto simp: unmarked_def split: option.split node.split)
  qed
  then show ?thesis unfolding remove_marker_def using assms by (intro from_write) simp
qed

text \<open>The places of a computer in terms of its view.\<close>

lemma set_node_put_view:
  "set_node (InComputers i) n d = put_view i (n, dk_nodes d (InTrash i), dk_nodes d (InStaging i)) d"
  "set_node (InTrash i) n d = put_view i (dk_nodes d (InComputers i), n, dk_nodes d (InStaging i)) d"
  "set_node (InStaging i) n d = put_view i (dk_nodes d (InComputers i), dk_nodes d (InTrash i), n) d"
  by (auto simp: put_view_def set_node_def fun_eq_iff)

lemma nodes_put_view [simp]:
  "dk_nodes (put_view i (a, t, s) d) (InComputers i) = a"
  "dk_nodes (put_view i (a, t, s) d) (InTrash i) = t"
  "dk_nodes (put_view i (a, t, s) d) (InStaging i) = s"
  by (simp_all add: put_view_def set_node_def)

lemma set_node_view [simp]:
  "set_node (InComputers i) n (put_view i (a, t, s) d) = put_view i (n, t, s) d"
  "set_node (InTrash i) n (put_view i (a, t, s) d) = put_view i (a, n, s) d"
  "set_node (InStaging i) n (put_view i (a, t, s) d) = put_view i (a, t, n) d"
  by (simp_all add: set_node_put_view)

lemma update_dir_view [simp]:
  "update_dir (InComputers i) f (put_view i (a, t, s) d) = put_view i (Some (Directory (f (ensured a))), t, s) d"
  "update_dir (InTrash i) f (put_view i (a, t, s) d) = put_view i (a, Some (Directory (f (ensured t))), s) d"
  by (simp_all add: update_dir_def)

lemma from_save_active:
  assumes "a \<noteq> Some OtherNode"
    and "\<And>c. c = ensured a \<or> c = ensured_home (ensured a) \<Longrightarrow> I (put_view i (Some (Directory c), t, s) d)"
    and "I (put_view i (saved m a, t, s) d)"
  shows "io_from ok L I (put_view i (a, t, s) d) (saveMetadataInDirectory (InComputers i) m)
    (\<lambda>_ x. x = put_view i (saved m a, t, s) d)"
  using from_saveMetadata [of "put_view i (a, t, s) d" "InComputers i" I m ok L] assms by simp

lemma from_save_trash:
  assumes "t \<noteq> Some OtherNode"
    and "\<And>c. c = ensured t \<or> c = ensured_home (ensured t) \<Longrightarrow> I (put_view i (a, Some (Directory c), s) d)"
    and "I (put_view i (a, saved m t, s) d)"
  shows "io_from ok L I (put_view i (a, t, s) d) (saveMetadataInDirectory (InTrash i) m)
    (\<lambda>_ x. x = put_view i (a, saved m t, s) d)"
  using from_saveMetadata [of "put_view i (a, t, s) d" "InTrash i" I m ok L] assms by simp

lemma from_ensureActive:
  assumes target: "active_target source m (a, t, s) = Some w"
    and inv: "\<And>v. active_target source m v = Some w \<Longrightarrow> I (put_view (cm_id m) v d)"
  shows "io_from ok L I (put_view (cm_id m) (a, t, s) d) (ensureActiveDirectory source m)
    (\<lambda>_ x. x = put_view (cm_id m) w d)"
proof -
  let ?i = "cm_id m"
  have other: "a \<noteq> Some OtherNode" "t \<noteq> Some OtherNode" "\<not> (a \<noteq> None \<and> t \<noteq> None)"
    using target by (auto split: if_splits)
  have step: "io_from ok L I (put_view ?i (a, t, s) d)
      (case source of
            SourceCreate \<Rightarrow>
              if t \<noteq> None then io_fail ''Cannot create computer; its ID already exists in trash.''
              else saveMetadataInDirectory (InComputers ?i) m
          | SourceActive \<Rightarrow>
              if \<not> a \<noteq> None \<or> t \<noteq> None then io_fail ''Active computer directory is missing or conflicted.''
              else saveMetadataInDirectory (InComputers ?i) m
          | SourceStaged \<Rightarrow>
              if t \<noteq> None then io_fail ''Cannot restore backup; its ID already exists in trash.''
              else
                io_then
                  (if a \<noteq> None then io_return ()
                   else
                     io_bind (realDirectoryExists (InStaging ?i)) (\<lambda>stagedExists.
                     io_bind (if stagedExists then realFileExists_marker (InStaging ?i) else io_return False) (\<lambda>ready.
                       if \<not> stagedExists \<or> \<not> ready then io_fail ''Backup restore staging is incomplete.''
                       else durableRename (InStaging ?i) (InComputers ?i))))
               (io_then (saveMetadataInDirectory (InComputers ?i) m) (remove_marker (InComputers ?i)))
          | SourceTrash \<Rightarrow>
              io_then
                (if \<not> a \<noteq> None \<and> t \<noteq> None then durableRename (InTrash ?i) (InComputers ?i)
                 else if \<not> a \<noteq> None \<or> t \<noteq> None then io_fail ''Trashed computer cannot be restored safely.''
                 else io_return ())
                (saveMetadataInDirectory (InComputers ?i) m))
      (\<lambda>_ x. x = put_view ?i w d)"
  proof (cases source)
    case SourceActive
    with target have "a \<noteq> None" "t = None" and w: "w = (saved m a, None, s)" by (auto split: if_splits)
    then show ?thesis using SourceActive other
      by (auto simp: w intro!: from_save_active inv)
  next
    case SourceCreate
    with target have "t = None" and w: "w = (saved m a, None, s)" by (auto split: if_splits)
    then show ?thesis using SourceCreate other
      by (auto simp: w intro!: from_save_active inv)
  next
    case SourceTrash
    show ?thesis
    proof (cases "a = None")
      case True
      with target SourceTrash have "t \<noteq> None" and w: "w = (saved m t, None, s)" by (auto split: if_splits)
      have "io_from ok L I (put_view ?i (None, t, s) d) (durableRename (InTrash ?i) (InComputers ?i))
          (\<lambda>_ x. x = put_view ?i (t, None, s) d)"
        using from_rename [where d = "put_view ?i (None, t, s) d" and p = "InTrash ?i" and q = "InComputers ?i"
            and I = I and ok = ok and L = L] inv [of "(t, None, s)"] \<open>t \<noteq> None\<close> other by (simp add: w SourceTrash)
      moreover have "io_from ok L I (put_view ?i (t, None, s) d) (saveMetadataInDirectory (InComputers ?i) m)
          (\<lambda>_ x. x = put_view ?i w d)"
        using other by (auto simp: w SourceTrash intro!: from_save_active inv)
      ultimately show ?thesis using SourceTrash True \<open>t \<noteq> None\<close>
        by (auto intro!: from_then_exact [where d' = "put_view ?i (t, None, s) d"])
    next
      case False
      with target SourceTrash have "t = None" and w: "w = (saved m a, None, s)" by (auto split: if_splits)
      then show ?thesis using SourceTrash False other
        by (auto simp: w intro!: from_then_exact [where d' = "put_view ?i (a, None, s) d"] from_save_active from_return inv)
    qed
  next
    case SourceStaged
    have tail: "io_from ok L I (put_view ?i (b, None, s') d)
        (io_then (saveMetadataInDirectory (InComputers ?i) m) (remove_marker (InComputers ?i)))
        (\<lambda>_ x. x = put_view ?i w d)"
      if b: "b \<noteq> None" "b \<noteq> Some OtherNode" and w: "w = (unmarked (saved m b), None, s')" for b s'
    proof (rule from_then_exact [where d' = "put_view ?i (saved m b, None, s') d"])
      show "io_from ok L I (put_view ?i (b, None, s') d) (saveMetadataInDirectory (InComputers ?i) m)
        (\<lambda>_ x. x = put_view ?i (saved m b, None, s') d)"
        using b by (auto simp: w SourceStaged intro!: from_save_active inv)
      show "io_from ok L I (put_view ?i (saved m b, None, s') d) (remove_marker (InComputers ?i)) (\<lambda>_ x. x = put_view ?i w d)"
        using from_remove_marker [where d = "put_view ?i (saved m b, None, s') d" and p = "InComputers ?i" and I = I and ok = ok and L = L]
          inv [of w] by (simp add: w SourceStaged)
    qed
    show ?thesis
    proof (cases "a = None")
      case True
      with target SourceStaged obtain c where s: "s = Some (Directory c)" "cd_ready c" and t: "t = None"
        and w: "w = (unmarked (saved m s), None, None)" by (auto split: if_splits option.splits node.splits)
      have rn: "io_from ok L I (put_view ?i (None, None, s) d) (durableRename (InStaging ?i) (InComputers ?i))
          (\<lambda>_ x. x = put_view ?i (s, None, None) d)"
        using from_rename [where d = "put_view ?i (None, None, s) d" and p = "InStaging ?i" and q = "InComputers ?i"
            and I = I and ok = ok and L = L] inv [of "(s, None, None)"] s by (simp add: w SourceStaged)
      have tl: "io_from ok L I (put_view ?i (s, None, None) d)
        (io_then (saveMetadataInDirectory (InComputers ?i) m) (remove_marker (InComputers ?i)))
        (\<lambda>_ x. x = put_view ?i w d)" using tail [of s None] s w by simp
      from rn have whole: "io_from ok L I (put_view ?i (None, None, s) d)
          (io_bind (realDirectoryExists (InStaging ?i)) (\<lambda>stagedExists.
             io_bind (if stagedExists then realFileExists_marker (InStaging ?i) else io_return False) (\<lambda>ready.
               if \<not> stagedExists \<or> \<not> ready then io_fail ''Backup restore staging is incomplete.''
               else durableRename (InStaging ?i) (InComputers ?i))))
          (\<lambda>_ x. x = put_view ?i (s, None, None) d)"
        using s by (intro from_directory) (auto intro!: from_marker)
      have "io_from ok L I (put_view ?i (None, None, s) d)
          (io_then (io_bind (realDirectoryExists (InStaging ?i)) (\<lambda>stagedExists.
             io_bind (if stagedExists then realFileExists_marker (InStaging ?i) else io_return False) (\<lambda>ready.
               if \<not> stagedExists \<or> \<not> ready then io_fail ''Backup restore staging is incomplete.''
               else durableRename (InStaging ?i) (InComputers ?i))))
            (io_then (saveMetadataInDirectory (InComputers ?i) m) (remove_marker (InComputers ?i))))
          (\<lambda>_ x. x = put_view ?i w d)"
        by (rule from_then_exact [OF whole tl])
      then show ?thesis by (simp add: SourceStaged True t)
    next
      case False
      with target SourceStaged have "t = None" and w: "w = (unmarked (saved m a), None, s)" by (auto split: if_splits)
      with tail [of a s] SourceStaged False other show ?thesis by simp
    qed
  qed
  show ?thesis
    unfolding ensureActiveDirectory_def Let_def
    by (rule from_directory, use other in simp, rule from_directory, use other in simp)
      (use step in \<open>simp only: nodes_put_view other(3) if_False\<close>)
qed

lemma from_ensureTrash:
  assumes target: "trash_target m (a, t, s) = Some w"
    and inv: "\<And>v. trash_target m v = Some w \<Longrightarrow> I (put_view (cm_id m) v d)"
  shows "io_from ok L I (put_view (cm_id m) (a, t, s) d) (ensureTrashDirectory m)
    (\<lambda>_ x. x = put_view (cm_id m) w d)"
proof -
  let ?i = "cm_id m"
  have other: "a \<noteq> Some OtherNode" "t \<noteq> Some OtherNode" "(a = None) \<noteq> (t = None)"
    using target by (auto split: if_splits)
  have rename: "io_from ok L I (put_view ?i (saved m a, None, s) d) (durableRename (InComputers ?i) (InTrash ?i))
      (\<lambda>_ x. x = put_view ?i (None, saved m a, s) d)" if "I (put_view ?i (None, saved m a, s) d)"
    using from_rename [where d = "put_view ?i (saved m a, None, s) d" and p = "InComputers ?i" and q = "InTrash ?i"
            and I = I and ok = ok and L = L] that by simp
  have "io_from ok L I (put_view ?i (a, t, s) d)
      (if a \<noteq> None then io_then (saveMetadataInDirectory (InComputers ?i) m) (durableRename (InComputers ?i) (InTrash ?i))
       else saveMetadataInDirectory (InTrash ?i) m) (\<lambda>_ x. x = put_view ?i w d)"
  proof (cases "a = None")
    case True
    with target have "w = (None, saved m t, s)" by (auto split: if_splits)
    with True other show ?thesis by (auto intro!: from_save_trash inv)
  next
    case False
    with target other have w: "w = (None, saved m a, s)" and t: "t = None" by (auto split: if_splits)
    have "io_from ok L I (put_view ?i (a, None, s) d) (saveMetadataInDirectory (InComputers ?i) m)
        (\<lambda>_ x. x = put_view ?i (saved m a, None, s) d)"
      using other False by (auto simp: w intro!: from_save_active inv)
    with False t w rename inv [of w] show ?thesis
      by (auto intro!: from_then_exact)
  qed
  then show ?thesis
    unfolding ensureTrashDirectory_def Let_def
    by (intro from_directory) (use other in auto)
qed

declare active_target.simps [simp del] trash_target.simps [simp del]

section \<open>The outcome of a transaction\<close>

definition entry_id :: "active_entry \<Rightarrow> string" where
  "entry_id e = cm_id (ae_metadata e)"

definition entry_target :: "active_entry \<Rightarrow> node_view \<Rightarrow> node_view option" where
  "entry_target e = active_target (ae_source e) (ae_metadata e)"

definition outcome_view :: "state_transaction \<Rightarrow> (place \<Rightarrow> node option) \<Rightarrow> string \<Rightarrow> node_view" where
  "outcome_view t n i =
     (case List.find (\<lambda>e. entry_id e = i) (tx_active t) of
        Some e \<Rightarrow> (case entry_target e (view n i) of Some w \<Rightarrow> w | None \<Rightarrow> view n i)
      | None \<Rightarrow>
          (case List.find (\<lambda>m. cm_id m = i) (tx_trash t) of
             Some m \<Rightarrow> (case trash_target m (view n i) of Some w \<Rightarrow> w | None \<Rightarrow> view n i)
           | None \<Rightarrow> view n i))"

definition outcome_nodes :: "state_transaction \<Rightarrow> (place \<Rightarrow> node option) \<Rightarrow> place \<Rightarrow> node option" where
  "outcome_nodes t n p = (case p of
       InComputers i \<Rightarrow> fst (outcome_view t n i)
     | InTrash i \<Rightarrow> fst (snd (outcome_view t n i))
     | InStaging i \<Rightarrow> snd (snd (outcome_view t n i)))"

text \<open>The disk after a transaction: the directories moved, the documents written, no journal.\<close>

definition transaction_outcome :: "state_transaction \<Rightarrow> disk \<Rightarrow> disk" where
  "transaction_outcome t d =
     d\<lparr>dk_nodes := outcome_nodes t (dk_nodes d), dk_config := Some (tx_config t), dk_secrets := Some (tx_secrets t),
       dk_rendered := Some (tx_config t, tx_secrets t), dk_journal := NoJournal\<rparr>"

text \<open>The directories are where the transaction expects them.\<close>

definition can_commit :: "state_transaction \<Rightarrow> disk \<Rightarrow> bool" where
  "can_commit t d =
     (dk_computersRoot d = RootDirectory \<and> dk_trashRoot d = RootDirectory
      \<and> list_all (\<lambda>e. entry_target e (view (dk_nodes d) (entry_id e)) \<noteq> None) (tx_active t)
      \<and> list_all (\<lambda>m. trash_target m (view (dk_nodes d) (cm_id m)) \<noteq> None) (tx_trash t))"

lemma view_outcome [simp]: "view (outcome_nodes t n) i = outcome_view t n i"
  by (simp add: view_def outcome_nodes_def)

lemma nodes_eqI: "(\<And>i. view n i = view n' i) \<Longrightarrow> n = n'"
  by (rule ext) (metis (no_types, lifting) view_def fst_conv place.exhaust snd_conv)

section \<open>Committing the state\<close>

text \<open>The transaction is under way towards the directories \<open>N\<close>: every computer still has
  the same outcome, and the others are not touched.\<close>

definition under_way :: "state_transaction \<Rightarrow> (place \<Rightarrow> node option) \<Rightarrow> disk \<Rightarrow> bool" where
  "under_way t N d =
     (dk_journal d = Journal t \<and> dk_computersRoot d = RootDirectory \<and> dk_trashRoot d = RootDirectory
      \<and> (\<forall>e \<in> set (tx_active t). entry_target e (view (dk_nodes d) (entry_id e)) = Some (view N (entry_id e)))
      \<and> (\<forall>m \<in> set (tx_trash t). trash_target m (view (dk_nodes d) (cm_id m)) = Some (view N (cm_id m)))
      \<and> (\<forall>i. i \<notin> set (active_ids t @ trash_ids t) \<longrightarrow> view (dk_nodes d) i = view N i))"

definition settled_on :: "string set \<Rightarrow> (place \<Rightarrow> node option) \<Rightarrow> disk \<Rightarrow> bool" where
  "settled_on S N d = (\<forall>i \<in> S. view (dk_nodes d) i = view N i)"

lemma active_ids_entry: "active_ids t = map entry_id (tx_active t)"
  by (simp add: active_ids_def entry_id_def)

lemma under_way_put:
  assumes "under_way t N d" and "distinct (active_ids t)" and "set (active_ids t) \<inter> set (trash_ids t) = {}"
    and "e \<in> set (tx_active t)" and "entry_target e v = Some (view N (entry_id e))"
  shows "under_way t N (put_view (entry_id e) v d)"
proof -
  have "e' = e" if "e' \<in> set (tx_active t)" "entry_id e' = entry_id e" for e'
    using assms(2,4) that by (auto simp: active_ids_entry distinct_map inj_on_def)
  moreover have "cm_id m \<noteq> entry_id e" if "m \<in> set (tx_trash t)" for m
    using assms(3,4) that by (auto simp: active_ids_entry trash_ids_def)
  moreover have "i \<notin> set (active_ids t @ trash_ids t) \<Longrightarrow> i \<noteq> entry_id e" for i
    using assms(4) by (auto simp: active_ids_entry)
  ultimately show ?thesis
    using assms(1,5) unfolding under_way_def
    by (metis put_view_other(1,5,6) view_put_view)
qed

lemma under_way_put_trash:
  assumes "under_way t N d" and "distinct (trash_ids t)" and "set (active_ids t) \<inter> set (trash_ids t) = {}"
    and "m \<in> set (tx_trash t)" and "trash_target m v = Some (view N (cm_id m))"
  shows "under_way t N (put_view (cm_id m) v d)"
proof -
  have "m' = m" if "m' \<in> set (tx_trash t)" "cm_id m' = cm_id m" for m'
    using assms(2,4) that by (auto simp: trash_ids_def distinct_map inj_on_def)
  moreover have "entry_id e \<noteq> cm_id m" if "e \<in> set (tx_active t)" for e
    using assms(3,4) that by (auto simp: active_ids_entry trash_ids_def)
  moreover have "i \<notin> set (active_ids t @ trash_ids t) \<Longrightarrow> i \<noteq> cm_id m" for i
    using assms(4) by (auto simp: trash_ids_def)
  ultimately show ?thesis
    using assms(1,5) unfolding under_way_def
    by (metis put_view_other(1,5,6) view_put_view)
qed

lemma active_loop:
  assumes "distinct (active_ids t)" and "set (active_ids t) \<inter> set (trash_ids t) = {}"
  shows "io_triple ok L (under_way t N) (\<lambda>_. True)
    (io_each (\<lambda>e. ensureActiveDirectory (ae_source e) (ae_metadata e)) (tx_active t))
    (\<lambda>_. settled_on (set (active_ids t)) N)"
proof -
  have "io_triple ok L (under_way t N) (settled_on S N) (ensureActiveDirectory (ae_source e) (ae_metadata e))
      (\<lambda>_. settled_on (insert (entry_id e) S) N)"
    if e: "e \<in> set (tx_active t)" and S: "entry_id e \<notin> S" for e S
  proof (rule triple_from)
    fix d assume d: "under_way t N d" "settled_on S N d"
    obtain a tr s where v: "view (dk_nodes d) (entry_id e) = (a, tr, s)" by (cases "view (dk_nodes d) (entry_id e)")
    have "io_from ok L (under_way t N) (put_view (entry_id e) (a, tr, s) d)
        (ensureActiveDirectory (ae_source e) (ae_metadata e)) (\<lambda>_ x. x = put_view (entry_id e) (view N (entry_id e)) d)"
      unfolding entry_id_def
    proof (rule from_ensureActive)
      show "active_target (ae_source e) (ae_metadata e) (a, tr, s) = Some (view N (cm_id (ae_metadata e)))"
        using d(1) e v by (auto simp: under_way_def entry_target_def entry_id_def)
      fix v assume "active_target (ae_source e) (ae_metadata e) v = Some (view N (cm_id (ae_metadata e)))"
      with under_way_put [OF d(1) assms e, of v]
      show "under_way t N (put_view (cm_id (ae_metadata e)) v d)" by (simp add: entry_target_def entry_id_def)
    qed
    moreover have "settled_on (insert (entry_id e) S) N (put_view (entry_id e) (view N (entry_id e)) d)"
      using d(2) S by (auto simp: settled_on_def) (metis view_put_view(2))
    ultimately show "io_from ok L (under_way t N) d (ensureActiveDirectory (ae_source e) (ae_metadata e))
      (\<lambda>_. settled_on (insert (entry_id e) S) N)"
      unfolding v [symmetric] put_view_same by (auto intro: from_weaken)
  qed
  from triple_each_grow [of "tx_active t" entry_id ok L "under_way t N" "\<lambda>S. settled_on S N", OF this, where S = "{}"]
  show ?thesis using assms(1) by (auto simp: active_ids_entry settled_on_def intro: triple_pre)
qed

lemma trash_loop:
  assumes "distinct (trash_ids t)" and "set (active_ids t) \<inter> set (trash_ids t) = {}"
    and G: "\<And>i v d. G d \<Longrightarrow> G (put_view i v d)"
  shows "io_triple ok L (\<lambda>d. under_way t N d \<and> settled_on (set (active_ids t)) N d \<and> G d) (\<lambda>_. True)
    (io_each ensureTrashDirectory (tx_trash t)) (\<lambda>_. settled_on (set (trash_ids t)) N)"
proof -
  let ?I = "\<lambda>d. under_way t N d \<and> settled_on (set (active_ids t)) N d \<and> G d"
  have "io_triple ok L ?I (settled_on S N) (ensureTrashDirectory m) (\<lambda>_. settled_on (insert (cm_id m) S) N)"
    if m: "m \<in> set (tx_trash t)" and S: "cm_id m \<notin> S" for m S
  proof (rule triple_from)
    fix d assume d: "?I d" "settled_on S N d"
    obtain a tr s where v: "view (dk_nodes d) (cm_id m) = (a, tr, s)" by (cases "view (dk_nodes d) (cm_id m)")
    have m': "cm_id m \<notin> set (active_ids t)" using assms(2) m by (auto simp: trash_ids_def)
    have "io_from ok L ?I (put_view (cm_id m) (a, tr, s) d)
        (ensureTrashDirectory m) (\<lambda>_ x. x = put_view (cm_id m) (view N (cm_id m)) d)"
    proof (rule from_ensureTrash)
      show "trash_target m (a, tr, s) = Some (view N (cm_id m))"
        using d(1) m v by (auto simp: under_way_def)
      fix v assume "trash_target m v = Some (view N (cm_id m))"
      with under_way_put_trash [of t N d m v] d(1) assms m
      have "under_way t N (put_view (cm_id m) v d)" by simp
      moreover have "settled_on (set (active_ids t)) N (put_view (cm_id m) v d)"
        using d(1) m' unfolding settled_on_def by (metis view_put_view(2))
      ultimately show "?I (put_view (cm_id m) v d)" using G d(1) by blast
    qed
    moreover have "settled_on (insert (cm_id m) S) N (put_view (cm_id m) (view N (cm_id m)) d)"
      using d(2) S by (auto simp: settled_on_def) (metis view_put_view(2))
    ultimately show "io_from ok L ?I d (ensureTrashDirectory m) (\<lambda>_. settled_on (insert (cm_id m) S) N)"
      unfolding v [symmetric] put_view_same by (auto intro: from_weaken)
  qed
  from triple_each_grow [of "tx_trash t" cm_id ok L ?I "\<lambda>S. settled_on S N", OF this, where S = "{}"]
  show ?thesis using assms(1) by (auto simp: trash_ids_def settled_on_def intro: triple_pre)
qed

section \<open>The phases of a transaction on the disk\<close>

definition documents_written :: "state_transaction \<Rightarrow> disk \<Rightarrow> bool" where
  "documents_written t d = (dk_config d = Some (tx_config t) \<and> dk_secrets d = Some (tx_secrets t))"

definition rendered_for :: "state_transaction \<Rightarrow> disk \<Rightarrow> bool" where
  "rendered_for t d = (dk_rendered d = Some (tx_config t, tx_secrets t))"

text \<open>The state is committed and the container work is under way.\<close>

definition state_committed :: "state_transaction \<Rightarrow> (place \<Rightarrow> node option) \<Rightarrow> disk \<Rightarrow> bool" where
  "state_committed t N d =
     (dk_journal d = Journal (t\<lparr>tx_phase := StateCommitted\<rparr>)
      \<and> dk_computersRoot d = RootDirectory \<and> dk_trashRoot d = RootDirectory
      \<and> dk_nodes d = N \<and> documents_written t d
      \<and> (rendered_for t d \<or> rw_ensureImages (tx_runtime t)))"

definition transaction_done :: "state_transaction \<Rightarrow> (place \<Rightarrow> node option) \<Rightarrow> disk \<Rightarrow> bool" where
  "transaction_done t N d =
     (dk_journal d = NoJournal \<and> dk_computersRoot d = RootDirectory \<and> dk_trashRoot d = RootDirectory
      \<and> dk_nodes d = N \<and> documents_written t d \<and> rendered_for t d)"

definition transaction_inv ::
  "(string \<Rightarrow> string) \<Rightarrow> state_transaction \<Rightarrow> (place \<Rightarrow> node option) \<Rightarrow> disk \<Rightarrow> bool"
where
  "transaction_inv sha t N d =
     (validateStateTransaction sha t \<and> tx_phase t = Prepared
      \<and> (under_way t N d \<or> state_committed t N d \<or> transaction_done t N d))"

text \<open>The container runtime is touched only once the state is committed.\<close>

definition call_allowed :: "state_transaction \<Rightarrow> (place \<Rightarrow> node option) \<Rightarrow> disk \<Rightarrow> runtime_call \<Rightarrow> bool" where
  "call_allowed t N d c = ((\<exists>t'. c = ReconcileContracts t') \<or> state_committed t N d)"

definition calls_succeed :: "('c \<Rightarrow> 'w \<Rightarrow> 'w \<times> (string + 'a)) \<Rightarrow> bool" where
  "calls_succeed rt = (\<forall>c w. \<exists>w' a. rt c w = (w', Inr a))"

lemma all_settled:
  assumes "under_way t N d" and "settled_on (set (active_ids t)) N d" and "settled_on (set (trash_ids t)) N d"
  shows "dk_nodes d = N"
proof (rule nodes_eqI)
  fix i show "view (dk_nodes d) i = view N i"
    using assms by (auto simp: under_way_def settled_on_def)
qed

lemma under_way_documents [simp]:
  "under_way t N (d\<lparr>dk_config := c\<rparr>) = under_way t N d" "under_way t N (d\<lparr>dk_secrets := s\<rparr>) = under_way t N d"
  "under_way t N (d\<lparr>dk_rendered := r\<rparr>) = under_way t N d"
  "settled_on S N (d\<lparr>dk_config := c\<rparr>) = settled_on S N d" "settled_on S N (d\<lparr>dk_secrets := s\<rparr>) = settled_on S N d"
  "settled_on S N (d\<lparr>dk_rendered := r\<rparr>) = settled_on S N d"
  by (simp_all add: under_way_def settled_on_def)

lemma triple_checkpoint: "io_triple ok L I P (checkpoint name) (\<lambda>_. P)"
  unfolding checkpoint_def by (rule triple_tick)

lemma triple_keep:
  fixes p :: "('d, 'w, 'c, 'a) io"
  assumes "io_triple ok L I' (\<lambda>_. True) p (\<lambda>_. Q)" and "\<And>d. I' d \<longleftrightarrow> I d \<and> P d"
  shows "io_triple ok L I P p (\<lambda>_ d. P d \<and> Q d)"
proof (rule triple_weaken [OF triple_inv [OF assms(1)]])
  show "\<And>d. I' d \<Longrightarrow> I d" using assms(2) by blast
qed (use assms(2) in auto)

lemma saveState_triple:
  assumes "validateStateTransaction sha t"
  shows "io_triple ok L (under_way t N) (settled_on S N)
    (saveState sha (tx_config t) (tx_secrets t) (checkpoint ''config-written''))
    (\<lambda>_ d. settled_on S N d \<and> documents_written t d)"
  unfolding saveState_def
  apply (rule triple_then, rule triple_weaken, rule triple_require [where P = "settled_on S N"])
     apply (use assms valid_state in blast)
    apply assumption
   apply (erule conjunct2)
  apply (rule triple_then, rule triple_weaken, rule triple_require [where P = "settled_on S N"])
     apply (use assms valid_state in blast)
    apply assumption
   apply (erule conjunct2)
  apply (rule triple_then [where R = "\<lambda>d. settled_on S N d \<and> dk_config d = Some (tx_config t)"])
   apply (rule triple_write, simp)
  apply (rule triple_then, rule triple_checkpoint)
  apply (rule triple_write, simp add: documents_written_def)
  done

lemma triple_sub:
  assumes "io_triple ok L J (\<lambda>_. True) p (\<lambda>_. Q)" and "\<And>d. J d \<Longrightarrow> I d"
  shows "io_triple ok L I J p (\<lambda>_ d. J d \<and> Q d)"
  using triple_inv [OF assms] by (auto elim: triple_weaken)

lemma from_root:
  assumes "f d = RootDirectory" and "io_from ok L I d (g True) Q"
  shows "io_from ok L I d (io_bind (root_exists f) g) Q"
  using assms by (auto simp: io_from_def io_triple_def io_bind_def root_exists_def io_read_def io_return_def)

lemma inv_of:
  assumes "validateStateTransaction sha t" and "tx_phase t = Prepared"
  shows "under_way t N d \<Longrightarrow> transaction_inv sha t N d" and "state_committed t N d \<Longrightarrow> transaction_inv sha t N d"
    and "transaction_done t N d \<Longrightarrow> transaction_inv sha t N d"
  using assms by (auto simp: transaction_inv_def)

definition directories_done :: "state_transaction \<Rightarrow> (place \<Rightarrow> node option) \<Rightarrow> disk \<Rightarrow> bool" where
  "directories_done t N d = (under_way t N d \<and> settled_on (set (active_ids t)) N d)"

definition state_written :: "state_transaction \<Rightarrow> (place \<Rightarrow> node option) \<Rightarrow> disk \<Rightarrow> bool" where
  "state_written t N d = (directories_done t N d \<and> documents_written t d)"

definition all_written :: "state_transaction \<Rightarrow> (place \<Rightarrow> node option) \<Rightarrow> disk \<Rightarrow> bool" where
  "all_written t N d = (state_written t N d \<and> rendered_for t d)"

lemmas written_defs = directories_done_def state_written_def all_written_def documents_written_def rendered_for_def

lemma commit_state_triple:
  assumes v: "validateStateTransaction sha t" and ph: "tx_phase t = Prepared"
  shows "io_triple ok L (transaction_inv sha t N) (under_way t N) (commit_state sha t) (\<lambda>_. state_committed t N)"
proof -
  let ?I = "transaction_inv sha t N"
  note inv = inv_of [OF v ph, of N] and distinct = valid_distinct [OF v]
  have point: "io_triple ok L ?I P (checkpoint name) (\<lambda>_. P)" for P name by (rule triple_checkpoint)
  have s1: "io_triple ok L ?I (under_way t N)
      (io_each (\<lambda>e. ensureActiveDirectory (ae_source e) (ae_metadata e)) (tx_active t)) (\<lambda>_. directories_done t N)"
    unfolding directories_done_def using active_loop [OF distinct(1,3)] inv(1) by (rule triple_sub)
  have s2: "io_triple ok L ?I (directories_done t N)
      (saveState sha (tx_config t) (tx_secrets t) (checkpoint ''config-written'')) (\<lambda>_. state_written t N)"
    unfolding state_written_def
    by (rule triple_weaken, rule triple_inv [OF saveState_triple [OF v, of ok L N "set (active_ids t)"] inv(1)])
      (auto simp: directories_done_def)
  have s3: "io_triple ok L ?I (state_written t N) (renderRuntime (tx_config t) (tx_secrets t)) (\<lambda>_. all_written t N)"
    unfolding renderRuntime_def
  proof (rule triple_then [where R = "state_written t N"])
    show "io_triple ok L ?I (state_written t N) (io_write (\<lambda>d. d\<lparr>dk_rendered := None\<rparr>)) (\<lambda>_. state_written t N)"
      by (rule triple_write) (auto intro!: inv(1) simp: written_defs)
    show "io_triple ok L ?I (state_written t N)
        (io_write (\<lambda>d. d\<lparr>dk_rendered := Some (tx_config t, tx_secrets t)\<rparr>)) (\<lambda>_. all_written t N)"
      by (rule triple_write) (auto intro!: inv(1) simp: written_defs)
  qed
  have s4: "io_triple ok L ?I (all_written t N) (io_each ensureTrashDirectory (tx_trash t))
      (\<lambda>_ d. all_written t N d \<and> settled_on (set (trash_ids t)) N d)"
  proof (rule triple_sub)
    have "(\<lambda>d. under_way t N d \<and> settled_on (set (active_ids t)) N d \<and> (documents_written t d \<and> rendered_for t d)) = all_written t N"
      by (auto simp: written_defs fun_eq_iff)
    then show "io_triple ok L (all_written t N) (\<lambda>_. True) (io_each ensureTrashDirectory (tx_trash t))
        (\<lambda>_. settled_on (set (trash_ids t)) N)"
      using trash_loop [OF distinct(2,3), of "\<lambda>d. documents_written t d \<and> rendered_for t d" ok L N]
      by (simp add: documents_written_def rendered_for_def)
  qed (use inv(1) in \<open>auto simp: written_defs\<close>)
  have s5: "io_triple ok L ?I (\<lambda>d. all_written t N d \<and> settled_on (set (trash_ids t)) N d)
      (writeTransaction sha (t\<lparr>tx_phase := StateCommitted\<rparr>)) (\<lambda>_. state_committed t N)"
    unfolding writeTransaction_def
  proof (rule triple_then, rule triple_require)
    fix d show "validateStateTransaction sha (t\<lparr>tx_phase := StateCommitted\<rparr>)" using v by (simp add: valid_phase)
  next
    have "state_committed t N (d\<lparr>dk_journal := Journal (t\<lparr>tx_phase := StateCommitted\<rparr>)\<rparr>)"
      if "all_written t N d" "settled_on (set (trash_ids t)) N d" for d
    proof -
      have uw: "under_way t N d" and st: "settled_on (set (active_ids t)) N d"
        and docs: "documents_written t d" "rendered_for t d"
        using that(1) by (simp_all add: all_written_def state_written_def directories_done_def)
      have roots: "dk_computersRoot d = RootDirectory" "dk_trashRoot d = RootDirectory"
        using uw by (simp_all add: under_way_def)
      show ?thesis
        using docs by (simp add: state_committed_def roots all_settled [OF uw st that(2)] documents_written_def rendered_for_def)
    qed
    then show "io_triple ok L ?I (\<lambda>d. validateStateTransaction sha (t\<lparr>tx_phase := StateCommitted\<rparr>)
          \<and> all_written t N d \<and> settled_on (set (trash_ids t)) N d)
        (io_write (\<lambda>d. d\<lparr>dk_journal := Journal (t\<lparr>tx_phase := StateCommitted\<rparr>)\<rparr>)) (\<lambda>_. state_committed t N)"
      by (intro triple_write conjI inv(2)) simp_all
  qed
  have body: "io_triple ok L ?I (under_way t N)
     (io_then (io_each (\<lambda>e. ensureActiveDirectory (ae_source e) (ae_metadata e)) (tx_active t))
        (io_then (checkpoint ''active-ready'')
        (io_then (saveState sha (tx_config t) (tx_secrets t) (checkpoint ''config-written''))
        (io_then (checkpoint ''state-written'')
        (io_then (renderRuntime (tx_config t) (tx_secrets t))
        (io_then (checkpoint ''runtime-rendered'')
        (io_then (io_each ensureTrashDirectory (tx_trash t))
        (io_then (checkpoint ''trash-ready'')
        (io_then (writeTransaction sha (t\<lparr>tx_phase := StateCommitted\<rparr>))
           (checkpoint ''state-committed'')))))))))) (\<lambda>_. state_committed t N)"
    by (rule triple_then [OF s1], rule triple_then [OF point], rule triple_then [OF s2], rule triple_then [OF point],
        rule triple_then [OF s3], rule triple_then [OF point], rule triple_then [OF s4], rule triple_then [OF point],
        rule triple_then [OF s5], rule point)
  show ?thesis
  proof (rule triple_from)
    fix d assume d: "under_way t N d"
    then have roots: "dk_computersRoot d = RootDirectory" "dk_trashRoot d = RootDirectory" by (simp_all add: under_way_def)
    show "io_from ok L ?I d (commit_state sha t) (\<lambda>_. state_committed t N)"
      unfolding commit_state_def
      by (rule from_root, rule roots(1), simp only: if_True, rule from_root, rule roots(2))
        (simp add: from_triple [where P = "under_way t N", OF body d])
  qed
qed

section \<open>The container work and the whole recovery\<close>

lemma from_no_rollback:
  assumes "under_way t N d" and "set es \<subseteq> set (tx_active t)"
  shows "io_from ok L I d (rollbackIncompleteStaging es) (\<lambda>r x. \<not> r \<and> x = d)"
  using assms(2)
proof (induction es)
  case Nil
  show ?case by (simp add: from_return)
next
  case (Cons e es)
  from Cons.prems have "set es \<subseteq> set (tx_active t)" by simp
  note IH = Cons.IH [OF this]
  obtain a tr s where v: "view (dk_nodes d) (entry_id e) = (a, tr, s)" by (cases "view (dk_nodes d) (entry_id e)")
  have target: "active_target (ae_source e) (ae_metadata e) (a, tr, s) = Some (view N (entry_id e))"
    using assms(1) Cons.prems v by (auto simp: under_way_def entry_target_def)
  have nodes: "dk_nodes d (InComputers (entry_id e)) = a" "dk_nodes d (InStaging (entry_id e)) = s"
    using v by (simp_all add: view_def)
  show ?case
  proof (cases "ae_source e = SourceStaged")
    case True
    have a: "a \<noteq> Some OtherNode" using target by (auto simp: active_target.simps)
    have "\<exists>c. s = Some (Directory c) \<and> cd_ready c" if "a = None"
      using target True that by (auto simp: active_target.simps split: if_splits option.splits node.splits)
    then show ?thesis using True a IH nodes
      by (auto simp: entry_id_def intro!: from_directory from_marker)
  qed (use IH in simp)
qed

lemma state_committed_fields [simp]:
  "state_committed t N d \<Longrightarrow> rw_ensureImages (tx_runtime t) \<Longrightarrow> state_committed t N (d\<lparr>dk_rendered := r\<rparr>)"
  by (simp add: state_committed_def documents_written_def)

definition runtime_ready :: "state_transaction \<Rightarrow> (place \<Rightarrow> node option) \<Rightarrow> disk \<Rightarrow> bool" where
  "runtime_ready t N d = (state_committed t N d \<and> rendered_for t d)"

lemma completeRuntime_triple:
  fixes rt :: "'w runtime"
  assumes v: "validateStateTransaction sha t" and ph: "tx_phase t = Prepared"
    and p: "p = StateCommitted"
  shows "io_triple (calls_succeed rt) (call_allowed t N) (transaction_inv sha t N) (state_committed t N)
    (completeRuntime rt (t\<lparr>tx_phase := p\<rparr>)) (\<lambda>_. runtime_ready t N)"
proof -
  let ?I = "transaction_inv sha t N" and ?ok = "calls_succeed rt" and ?L = "call_allowed t N"
  note inv = inv_of [OF v ph, of N]
  have call: "io_triple ?ok ?L ?I P (io_call rt c) (\<lambda>_. P)" if "\<And>d. P d \<Longrightarrow> state_committed t N d" for P c
    by (rule triple_call) (use that in \<open>auto simp: call_allowed_def calls_succeed_def\<close>)
  have point: "io_triple ?ok ?L ?I P (checkpoint name :: ('w, unit) tx_io) (\<lambda>_. P)" for P name by (rule triple_checkpoint)
  have c1: "io_triple ?ok ?L ?I (state_committed t N) (io_call rt c) (\<lambda>_. state_committed t N)" for c by (rule call)
  have c2: "io_triple ?ok ?L ?I (runtime_ready t N) (io_call rt c) (\<lambda>_. runtime_ready t N)" for c
    by (rule call) (simp add: runtime_ready_def)
  have then2: "io_triple ?ok ?L ?I (runtime_ready t N) (io_then q r) (\<lambda>_. runtime_ready t N)"
    if "io_triple ?ok ?L ?I (runtime_ready t N) q (\<lambda>_. runtime_ready t N)"
      "io_triple ?ok ?L ?I (runtime_ready t N) r (\<lambda>_. runtime_ready t N)" for q r :: "('w, unit) tx_io"
    using that by (rule triple_then)
  have validate: "io_triple ?ok ?L ?I (state_committed t N)
      (io_when b (io_then (io_call rt c) (checkpoint n))) (\<lambda>_. state_committed t N)" for b c n
    by (rule triple_when) (auto intro: triple_then [OF c1 point])
  have images: "io_triple ?ok ?L ?I (state_committed t N)
      (io_when (rw_ensureImages (tx_runtime t)) (io_then (io_call rt EnsureImages)
        (io_then (renderRuntime (tx_config t) (tx_secrets t)) (checkpoint ''images-ready'')))) (\<lambda>_. runtime_ready t N)"
  proof (rule triple_when)
    assume e: "rw_ensureImages (tx_runtime t)"
    have "io_triple ?ok ?L ?I (state_committed t N) (renderRuntime (tx_config t) (tx_secrets t) :: ('w, unit) tx_io)
        (\<lambda>_. runtime_ready t N)"
      unfolding renderRuntime_def
    proof (rule triple_then [where R = "state_committed t N"])
      show "io_triple ?ok ?L ?I (state_committed t N) (io_write (\<lambda>d. d\<lparr>dk_rendered := None\<rparr>)) (\<lambda>_. state_committed t N)"
        by (rule triple_write) (simp add: e inv(2))
      show "io_triple ?ok ?L ?I (state_committed t N)
          (io_write (\<lambda>d. d\<lparr>dk_rendered := Some (tx_config t, tx_secrets t)\<rparr>)) (\<lambda>_. runtime_ready t N)"
        by (rule triple_write) (simp add: e inv(2) runtime_ready_def rendered_for_def)
    qed
    then show "io_triple ?ok ?L ?I (state_committed t N) (io_then (io_call rt EnsureImages)
        (io_then (renderRuntime (tx_config t) (tx_secrets t)) (checkpoint ''images-ready''))) (\<lambda>_. runtime_ready t N)"
      by (intro triple_then [OF c1] triple_then [OF _ point])
  qed (auto simp: state_committed_def runtime_ready_def)
  have fields: "tx_runtime (t\<lparr>tx_phase := p\<rparr>) = tx_runtime t" "tx_config (t\<lparr>tx_phase := p\<rparr>) = tx_config t"
    "tx_secrets (t\<lparr>tx_phase := p\<rparr>) = tx_secrets t" by simp_all
  show ?thesis
    unfolding completeRuntime_def Let_def fields
    by (rule triple_then [OF validate], rule triple_then [OF images])
      (intro impI then2 triple_each triple_when c2 point triple_return | simp add: triple_return split: if_split)+
qed

lemma from_pending:
  assumes "dk_journal d = j" and "j \<noteq> BadJournal"
    and "io_from ok L I d (g (case j of Journal t \<Rightarrow> Some t | _ \<Rightarrow> None)) Q"
  shows "io_from ok L I d (io_bind readPendingTransaction g) Q"
  using assms by (auto simp: io_from_def io_triple_def io_bind_def readPendingTransaction_def io_read_def
      io_return_def split: journal_file.splits)

definition settled :: "bool \<Rightarrow> state_transaction \<Rightarrow> (place \<Rightarrow> node option) \<Rightarrow> disk \<Rightarrow> bool" where
  "settled includeRuntime t N d =
     (transaction_done t N d
      \<or> \<not> includeRuntime \<and> transactionHasRuntimeWork t \<and> state_committed t N d)"

lemma phase_irrelevant:
  "legacyReconnectIds (t\<lparr>tx_phase := p\<rparr>) = legacyReconnectIds t"
  "effectiveReconnectIds (t\<lparr>tx_phase := p\<rparr>) = effectiveReconnectIds t"
  "needsDocker (t\<lparr>tx_phase := p\<rparr>) = needsDocker t" "needsGateway (t\<lparr>tx_phase := p\<rparr>) = needsGateway t"
  "container_binding (t\<lparr>tx_phase := p\<rparr>) i = container_binding t i"
  "transactionHasRuntimeWork (t\<lparr>tx_phase := p\<rparr>) = transactionHasRuntimeWork t"
proof -
  show l: "legacyReconnectIds (t\<lparr>tx_phase := p\<rparr>) = legacyReconnectIds t" by (simp add: legacyReconnectIds_def)
  show e: "effectiveReconnectIds (t\<lparr>tx_phase := p\<rparr>) = effectiveReconnectIds t"
    unfolding effectiveReconnectIds_def l by simp
  show "needsDocker (t\<lparr>tx_phase := p\<rparr>) = needsDocker t" "needsGateway (t\<lparr>tx_phase := p\<rparr>) = needsGateway t"
    unfolding needsDocker_def needsGateway_def e by simp_all
  show "container_binding (t\<lparr>tx_phase := p\<rparr>) i = container_binding t i" by (simp add: container_binding_def)
  show "transactionHasRuntimeWork (t\<lparr>tx_phase := p\<rparr>) = transactionHasRuntimeWork t"
    by (simp add: transactionHasRuntimeWork_def)
qed

lemma completeRuntime_phase: "completeRuntime rt (t\<lparr>tx_phase := p\<rparr>) = completeRuntime rt t"
  unfolding completeRuntime_def phase_irrelevant by simp

lemma recover_triple:
  fixes rt :: "'w runtime"
  shows "io_triple (calls_succeed rt) (call_allowed t N) (transaction_inv sha t N) (\<lambda>_. True)
    (recoverPendingTransaction sha rt includeRuntime) (\<lambda>_. settled includeRuntime t N)"
proof (rule triple_from)
  fix d assume d: "transaction_inv sha t N d"
  then have v: "validateStateTransaction sha t" and ph: "tx_phase t = Prepared" by (simp_all add: transaction_inv_def)
  let ?I = "transaction_inv sha t N" and ?ok = "calls_succeed rt" and ?L = "call_allowed t N"
  let ?t' = "t\<lparr>tx_phase := StateCommitted\<rparr>"
  note inv = inv_of [OF v ph, of N]
  have reconcile: "io_triple ?ok ?L ?I P (io_call rt (ReconcileContracts u)) (\<lambda>_. P)" for P u
    by (rule triple_call) (auto simp: call_allowed_def calls_succeed_def)
  have complete_any: "completeRuntime rt t = completeRuntime rt ?t'" by (simp add: completeRuntime_phase)
  have tail: "io_triple ?ok ?L ?I (state_committed t N)
      (if \<not> includeRuntime \<and> transactionHasRuntimeWork t then io_return True
       else io_then (completeRuntime rt ?t')
         (io_then (checkpoint ''runtime-committed'')
         (io_then (io_write (\<lambda>d. d\<lparr>dk_journal := NoJournal\<rparr>)) (io_return True))))
      (\<lambda>_. settled includeRuntime t N)"
  proof (cases "\<not> includeRuntime \<and> transactionHasRuntimeWork t")
    case True
    then show ?thesis by (auto simp: settled_def intro: triple_return)
  next
    case False
    have gone: "transaction_done t N (d\<lparr>dk_journal := NoJournal\<rparr>)" if "runtime_ready t N d" for d
      using that by (simp add: runtime_ready_def state_committed_def transaction_done_def documents_written_def rendered_for_def)
    have "io_triple ?ok ?L ?I (runtime_ready t N) (io_write (\<lambda>d. d\<lparr>dk_journal := NoJournal\<rparr>)) (\<lambda>_. transaction_done t N)"
      by (rule triple_write) (simp add: gone inv(3))
    then have "io_triple ?ok ?L ?I (state_committed t N) (io_then (completeRuntime rt ?t')
         (io_then (checkpoint ''runtime-committed'')
         (io_then (io_write (\<lambda>d. d\<lparr>dk_journal := NoJournal\<rparr>)) (io_return True)))) (\<lambda>_. settled includeRuntime t N)"
      by (intro triple_then [OF completeRuntime_triple [OF v ph refl]] triple_then [OF triple_checkpoint] triple_then)
        (auto simp: settled_def intro: triple_return)
    then show ?thesis using False by (simp only: if_False)
  qed
  from d consider "under_way t N d" | "state_committed t N d" | "transaction_done t N d"
    by (auto simp: transaction_inv_def)
  then show "io_from ?ok ?L ?I d (recoverPendingTransaction sha rt includeRuntime) (\<lambda>_. settled includeRuntime t N)"
  proof cases
    case 1
    then have j: "dk_journal d = Journal t" by (simp add: under_way_def)
    have "io_triple ?ok ?L ?I (under_way t N)
        (io_then (io_call rt (ReconcileContracts t)) (io_then (io_when True (commit_state sha t))
          (if \<not> includeRuntime \<and> transactionHasRuntimeWork t then io_return True
           else io_then (completeRuntime rt ?t')
             (io_then (checkpoint ''runtime-committed'')
             (io_then (io_write (\<lambda>d. d\<lparr>dk_journal := NoJournal\<rparr>)) (io_return True))))))
        (\<lambda>_. settled includeRuntime t N)"
      by (rule triple_then [OF reconcile], rule triple_then, simp only: io_when_def if_True,
          rule commit_state_triple [OF v ph], rule tail)
    then have "io_from ?ok ?L ?I d
        (io_then (io_call rt (ReconcileContracts t)) (io_then (io_when True (commit_state sha t))
          (if \<not> includeRuntime \<and> transactionHasRuntimeWork t then io_return True
           else io_then (completeRuntime rt t)
             (io_then (checkpoint ''runtime-committed'')
             (io_then (io_write (\<lambda>d. d\<lparr>dk_journal := NoJournal\<rparr>)) (io_return True))))))
        (\<lambda>_. settled includeRuntime t N)"
      unfolding complete_any using 1 by (rule from_triple)
    then show ?thesis
      unfolding recoverPendingTransaction_def
      by (intro from_pending [OF j]) (auto simp: ph intro!: from_bind [OF from_no_rollback [OF 1 subset_refl]])
  next
    case 2
    then have j: "dk_journal d = Journal ?t'" by (simp add: state_committed_def)
    have "io_triple ?ok ?L ?I (state_committed t N)
        (io_then (io_call rt (ReconcileContracts ?t')) (io_then (io_when False (commit_state sha ?t'))
          (if \<not> includeRuntime \<and> transactionHasRuntimeWork t then io_return True
           else io_then (completeRuntime rt ?t')
             (io_then (checkpoint ''runtime-committed'')
             (io_then (io_write (\<lambda>d. d\<lparr>dk_journal := NoJournal\<rparr>)) (io_return True))))))
        (\<lambda>_. settled includeRuntime t N)"
      by (rule triple_then [OF reconcile]) (simp only: io_when_def if_False io_return_then tail)
    then have "io_from ?ok ?L ?I d
        (io_then (io_call rt (ReconcileContracts ?t')) (io_then (io_when False (commit_state sha ?t'))
          (if \<not> includeRuntime \<and> transactionHasRuntimeWork t then io_return True
           else io_then (completeRuntime rt ?t')
             (io_then (checkpoint ''runtime-committed'')
             (io_then (io_write (\<lambda>d. d\<lparr>dk_journal := NoJournal\<rparr>)) (io_return True))))))
        (\<lambda>_. settled includeRuntime t N)" using 2 by (rule from_triple)
    then show ?thesis
      unfolding recoverPendingTransaction_def
      by (intro from_pending [OF j]) (simp_all add: phase_irrelevant)
  next
    case 3
    then have j: "dk_journal d = NoJournal" by (simp add: transaction_done_def)
    show ?thesis
      unfolding recoverPendingTransaction_def
      by (rule from_pending [OF j]) (use 3 in \<open>auto simp: settled_def intro: from_return\<close>)
  qed
qed

interpretation tx_recovery: recovery "recoverPendingTransaction sha rt includeRuntime" "calls_succeed rt"
  "call_allowed t N" "transaction_inv sha t N" "settled includeRuntime t N"
  by unfold_locales (rule recover_triple)

section \<open>Interrupted transactions\<close>

lemma find_distinct:
  "distinct (map f xs) \<Longrightarrow> x \<in> set xs \<Longrightarrow> List.find (\<lambda>y. f y = f x) xs = Some x"
  by (induction xs) auto

lemma find_none: "k \<notin> f ` set xs \<Longrightarrow> List.find (\<lambda>y. f y = k) xs = None"
  by (auto simp: find_None_iff)

lemma outcome_view_active:
  assumes "validateStateTransaction sha t" and "e \<in> set (tx_active t)"
    and "entry_target e (view n (entry_id e)) \<noteq> None"
  shows "entry_target e (view n (entry_id e)) = Some (outcome_view t n (entry_id e))"
proof -
  have "List.find (\<lambda>e'. entry_id e' = entry_id e) (tx_active t) = Some e"
    using valid_distinct(1) [OF assms(1)] assms(2) by (intro find_distinct) (simp_all add: active_ids_entry)
  then show ?thesis using assms(3) by (auto simp: outcome_view_def)
qed

lemma outcome_view_trash:
  assumes v: "validateStateTransaction sha t" and "m \<in> set (tx_trash t)"
    and "trash_target m (view n (cm_id m)) \<noteq> None"
  shows "trash_target m (view n (cm_id m)) = Some (outcome_view t n (cm_id m))"
proof -
  have "List.find (\<lambda>m'. cm_id m' = cm_id m) (tx_trash t) = Some m"
    using valid_distinct(2) [OF v] assms(2) by (intro find_distinct) (simp_all add: trash_ids_def)
  moreover have "List.find (\<lambda>e. entry_id e = cm_id m) (tx_active t) = None"
    using valid_distinct(3) [OF v] assms(2) by (intro find_none) (auto simp: active_ids_entry trash_ids_def)
  ultimately show ?thesis using assms(3) by (auto simp: outcome_view_def)
qed

lemma can_commit_under_way:
  assumes "validateStateTransaction sha t" and "can_commit t d" and "dk_journal d = Journal t"
  shows "under_way t (outcome_nodes t (dk_nodes d)) d"
proof -
  have "outcome_view t (dk_nodes d) i = view (dk_nodes d) i" if "i \<notin> set (active_ids t @ trash_ids t)" for i
    using that find_none [of i entry_id "tx_active t"] find_none [of i cm_id "tx_trash t"]
    by (auto simp: outcome_view_def active_ids_entry trash_ids_def)
  then show ?thesis
    using assms outcome_view_active [OF assms(1)] outcome_view_trash [OF assms(1)]
    by (auto simp: under_way_def can_commit_def list_all_iff)
qed

lemma done_is_outcome:
  assumes "can_commit t d" and "transaction_done t (outcome_nodes t (dk_nodes d)) x"
  shows "x = transaction_outcome t d"
  using assms by (cases x) (auto simp: can_commit_def transaction_done_def transaction_outcome_def
      documents_written_def rendered_for_def)

text \<open>C3. Recovery of a state transaction survives power loss: from a journalled transaction whose
  directories are in place, after any number of recoveries that were cut off at any durable step or
  failed in the container runtime, one more recovery that is not disturbed returns, and the disk is
  the outcome of the transaction: every directory moved once, every document written, no journal.\<close>

theorem recovery_reaches_outcome:
  assumes "validateStateTransaction sha t" and "tx_phase t = Prepared" and "can_commit t (mc_disk m)"
    and "dk_journal (mc_disk m) = Journal t" and "\<forall>c w. \<exists>w' a. good_runtime c w = (w', Inr a)"
  shows "\<exists>m' r. recoverPendingTransaction sha good_runtime True
      (interrupted_runs (recoverPendingTransaction sha any_runtime includeRuntime) ks m\<lparr>mc_budget := None\<rparr>)
        = (m', Done r) \<and> mc_disk m' = transaction_outcome t (mc_disk m)"
proof -
  let ?N = "outcome_nodes t (dk_nodes (mc_disk m))"
  have "transaction_inv sha t ?N (mc_disk m)"
    using assms can_commit_under_way by (auto simp: transaction_inv_def)
  then have inv: "transaction_inv sha t ?N
      (mc_disk (interrupted_runs (recoverPendingTransaction sha any_runtime includeRuntime) ks m))"
    by (rule tx_recovery.kept)
  obtain m' r where "recoverPendingTransaction sha good_runtime True
      (interrupted_runs (recoverPendingTransaction sha any_runtime includeRuntime) ks m\<lparr>mc_budget := None\<rparr>)
        = (m', Done r)" and "settled True t ?N (mc_disk m')"
    using tx_recovery.settles [OF inv, of good_runtime True "[]"] assms(5) by (auto simp: calls_succeed_def)
  then show ?thesis using done_is_outcome [OF assms(3)] by (auto simp: settled_def)
qed

text \<open>C2. A state transaction is all or nothing: when it is started on an installation without a
  pending journal, and then interrupted and recovered any number of times at any steps, a disk
  without a journal is either untouched or the complete outcome; a disk in between has the journal
  from which recovery goes on.\<close>

theorem transaction_all_or_nothing:
  assumes "validateStateTransaction sha t" and "tx_phase t = Prepared" and "can_commit t (mc_disk m)"
    and "dk_journal (mc_disk m) = NoJournal"
  shows "let d = mc_disk (interrupted_runs (recoverPendingTransaction sha rt b) ks
        (fst (executeStateTransaction sha rt b t (m\<lparr>mc_budget := k\<rparr>))))
    in d = mc_disk m \<or> d = transaction_outcome t (mc_disk m)
      \<or> dk_journal d = Journal t \<or> dk_journal d = Journal (t\<lparr>tx_phase := StateCommitted\<rparr>)"
proof -
  let ?d = "mc_disk m" and ?N = "outcome_nodes t (dk_nodes (mc_disk m))"
  let ?I = "\<lambda>x. x = ?d \<or> transaction_inv sha t ?N x" and ?L = "\<lambda>x c. True"
  have start: "transaction_inv sha t ?N (?d\<lparr>dk_journal := Journal t\<rparr>)"
    using can_commit_under_way [of sha t "?d\<lparr>dk_journal := Journal t\<rparr>"] assms
    by (auto simp: transaction_inv_def can_commit_def)
  have recover: "io_triple (calls_succeed rt) ?L ?I (\<lambda>_. True) (recoverPendingTransaction sha rt b) (\<lambda>_ _. True)"
  proof (rule triple_from)
    fix x assume x: "?I x"
    show "io_from (calls_succeed rt) ?L ?I x (recoverPendingTransaction sha rt b) (\<lambda>_ _. True)"
    proof (cases "transaction_inv sha t ?N x")
      case True
      have "io_triple (calls_succeed rt) ?L (transaction_inv sha t ?N) (\<lambda>_. True)
          (recoverPendingTransaction sha rt b) (\<lambda>_ _. True)"
        using recover_triple [of rt t ?N sha b]
        by (auto simp: io_triple_def io_good_def split: io_result.splits)
      from triple_inv [OF this, of ?I] True show ?thesis
        by (auto intro: from_weaken from_triple)
    next
      case False
      with x assms(4) show ?thesis
        unfolding recoverPendingTransaction_def by (intro from_pending [where j = NoJournal]) (auto intro: from_return)
    qed
  qed
  have "io_from (calls_succeed rt) ?L ?I ?d (executeStateTransaction sha rt b t) (\<lambda>_ _. True)"
    unfolding executeStateTransaction_def prepareStateTransaction_def writeTransaction_def
    by (rule from_then [where R = ?I], rule from_pending [where j = NoJournal])
      (use assms(1,4) start recover in \<open>auto simp: checkpoint_def io_require_def
         intro!: from_then from_write from_tick [THEN from_weaken] intro: from_triple\<close>)
  then have "?I (mc_disk (fst (executeStateTransaction sha rt b t (m\<lparr>mc_budget := k\<rparr>))))"
    by (auto simp: io_from_def io_triple_def io_good_def)
  moreover have "?I (mc_disk (interrupted_runs (recoverPendingTransaction sha rt b) ks m1))" if "?I (mc_disk m1)" for m1
    using that
  proof (induction ks arbitrary: m1)
    case (Cons k ks)
    have "?I (mc_disk (fst (recoverPendingTransaction sha rt b (m1\<lparr>mc_budget := k\<rparr>))))"
      using io_tripleD [OF recover, of "m1\<lparr>mc_budget := k\<rparr>"] Cons.prems by (simp add: io_good_def)
    then show ?case using Cons.IH by simp
  qed simp
  ultimately have "?I (mc_disk (interrupted_runs (recoverPendingTransaction sha rt b) ks
        (fst (executeStateTransaction sha rt b t (m\<lparr>mc_budget := k\<rparr>)))))" by blast
  then show ?thesis
    using done_is_outcome [OF assms(3)]
    by (auto simp: Let_def transaction_inv_def under_way_def state_committed_def)
qed

definition is_reconciliation :: "runtime_call \<Rightarrow> bool" where
  "is_reconciliation c = (case c of ReconcileContracts _ \<Rightarrow> True | _ \<Rightarrow> False)"

text \<open>C4. The container runtime is changed only for a state that is durably committed: whatever is
  interrupted, every runtime call but the reconciliation of image contracts sees a disk whose
  journal says \<open>state-committed\<close>, whose directories are the final ones and whose documents are
  those of the transaction.\<close>

theorem runtime_only_after_commit:
  assumes "validateStateTransaction sha t" and "tx_phase t = Prepared" and "can_commit t (mc_disk m)"
    and "dk_journal (mc_disk m) = Journal t" and "mc_log m = []"
  shows "list_all (\<lambda>(d, c). is_reconciliation c
      \<or> (dk_journal d = Journal (t\<lparr>tx_phase := StateCommitted\<rparr>)
          \<and> dk_nodes d = dk_nodes (transaction_outcome t (mc_disk m))
          \<and> dk_config d = Some (tx_config t) \<and> dk_secrets d = Some (tx_secrets t)))
    (mc_log (interrupted_runs (recoverPendingTransaction sha rt b) ks m))"
proof -
  let ?N = "outcome_nodes t (dk_nodes (mc_disk m))"
  have "transaction_inv sha t ?N (mc_disk m)"
    using assms can_commit_under_way by (auto simp: transaction_inv_def)
  from tx_recovery.calls_seen [OF this, of rt b ks] assms(5)
  have "\<forall>(d, c) \<in> set (mc_log (interrupted_runs (recoverPendingTransaction sha rt b) ks m)). call_allowed t ?N d c"
    by auto
  then show ?thesis
    by (auto simp: list_all_iff call_allowed_def is_reconciliation_def state_committed_def documents_written_def
        transaction_outcome_def split: runtime_call.splits)
qed

section \<open>A restore that never finished staging\<close>

definition staging_incomplete :: "active_entry \<Rightarrow> state_transaction \<Rightarrow> disk \<Rightarrow> bool" where
  "staging_incomplete e t d =
     (dk_journal d = Journal t \<and> tx_phase t = Prepared \<and> e \<in> set (tx_active t) \<and> ae_source e = SourceStaged
      \<and> dk_nodes d (InComputers (entry_id e)) = None
      \<and> marker_exists (dk_nodes d (InStaging (entry_id e))) = Inr False)"

definition without_staging :: "active_entry \<Rightarrow> disk \<Rightarrow> disk" where
  "without_staging e d = (set_node (InStaging (entry_id e)) None d)\<lparr>dk_journal := NoJournal\<rparr>"

text \<open>Every disk of a rollback under way.\<close>

definition rolling_back :: "active_entry \<Rightarrow> state_transaction \<Rightarrow> disk \<Rightarrow> disk \<Rightarrow> bool" where
  "rolling_back e t d x =
     (staging_incomplete e t x \<and> set_node (InStaging (entry_id e)) None x = set_node (InStaging (entry_id e)) None d
      \<or> x = without_staging e d)"

lemma only_staged:
  assumes "validateStateTransaction sha t" and "e \<in> set (tx_active t)" and "ae_source e = SourceStaged"
    and "e' \<in> set (tx_active t)" and "ae_source e' = SourceStaged"
  shows "e' = e"
proof -
  let ?staged = "filter (\<lambda>e. ae_source e = SourceStaged) (tx_active t)"
  have "length ?staged = 1"
    using assms by (auto simp: validateStateTransaction_def active_rules_def Let_def filter_empty_conv)
  then obtain x where "?staged = [x]" by (cases ?staged) auto
  then have "set ?staged = {x}" by simp
  moreover have "e \<in> set ?staged" "e' \<in> set ?staged" using assms(2-5) by simp_all
  ultimately show ?thesis by simp
qed

lemma from_rollback:
  assumes x: "staging_incomplete e t x" and only: "\<And>e'. e' \<in> set es \<Longrightarrow> ae_source e' = SourceStaged \<Longrightarrow> e' = e"
    and e: "e \<in> set es" and inv: "I (set_node (InStaging (entry_id e)) (Some (Directory empty_dir)) x)"
    "I (set_node (InStaging (entry_id e)) None x)" "I (without_staging e x)"
  shows "io_from ok L I x (rollbackIncompleteStaging es) (\<lambda>r y. r \<and> y = without_staging e x)"
  using only e
proof (induction es)
  case (Cons e' es)
  show ?case
  proof (cases "ae_source e' = SourceStaged")
    case False
    then have "e' \<noteq> e" using x by (auto simp: staging_incomplete_def)
    have p: "\<And>e''. e'' \<in> set es \<Longrightarrow> ae_source e'' = SourceStaged \<Longrightarrow> e'' = e" using Cons.prems(1) by simp
    have "e \<in> set es" using Cons.prems(2) \<open>e' \<noteq> e\<close> by simp
    from Cons.IH [OF p this] False show ?thesis by simp
  next
    case True
    with Cons.prems have e': "e' = e" by simp
    have n: "dk_nodes x (InStaging (entry_id e)) \<noteq> Some OtherNode"
      "\<nexists>c. dk_nodes x (InStaging (entry_id e)) = Some (Directory c) \<and> cd_ready c"
      using x by (auto simp: staging_incomplete_def marker_exists_def split: option.splits node.splits)
    let ?empty = "set_node (InStaging (entry_id e)) (Some (Directory empty_dir)) x"
    let ?gone = "set_node (InStaging (entry_id e)) None x"
    have gone: "set_node (InStaging (entry_id e)) None ?empty = ?gone" by (simp add: set_node_def)
    have remove: "io_from ok L I x (durableRemoveDirectory (InStaging (entry_id e))) (\<lambda>_ y. y = ?gone)"
      unfolding durableRemoveDirectory_def io_when_def
    proof (rule from_read, cases "dk_nodes x (InStaging (entry_id e)) = None")
      case True
      then show "io_from ok L I x (io_then (if dk_nodes x (InStaging (entry_id e)) \<noteq> None
            then io_write (set_node (InStaging (entry_id e)) (Some (Directory empty_dir))) else io_return ())
          (io_write (set_node (InStaging (entry_id e)) None))) (\<lambda>_ y. y = ?gone)"
        using inv by (auto intro!: from_write)
    next
      case False
      then show "io_from ok L I x (io_then (if dk_nodes x (InStaging (entry_id e)) \<noteq> None
            then io_write (set_node (InStaging (entry_id e)) (Some (Directory empty_dir))) else io_return ())
          (io_write (set_node (InStaging (entry_id e)) None))) (\<lambda>_ y. y = ?gone)"
        using inv by (auto intro!: from_then_exact [where d' = ?empty] from_write simp: gone)
    qed
    have journal: "io_from ok L I ?gone (io_then (io_write (\<lambda>d. d\<lparr>dk_journal := NoJournal\<rparr>)) (io_return True))
        (\<lambda>r y. r \<and> y = without_staging e x)"
      using inv(3) by (intro from_then_exact [where d' = "without_staging e x"] from_write from_return)
        (auto simp: without_staging_def)
    have active: "dk_nodes x (InComputers (entry_id e)) = None" using x by (simp add: staging_incomplete_def)
    have body: "io_from ok L I x
        (io_bind (realFileExists_marker (InStaging (entry_id e))) (\<lambda>ready.
          if ready then rollbackIncompleteStaging es
          else io_then (durableRemoveDirectory (InStaging (entry_id e)))
            (io_then (io_write (\<lambda>d. d\<lparr>dk_journal := NoJournal\<rparr>)) (io_return True))))
        (\<lambda>r y. r \<and> y = without_staging e x)"
      by (rule from_marker [OF n(1)]) (simp only: n(2) if_False from_then_exact [OF remove journal])
    have "io_from ok L I x (io_bind (realDirectoryExists (InComputers (entry_id e))) (\<lambda>activeExists.
        if activeExists then rollbackIncompleteStaging es
        else io_bind (realFileExists_marker (InStaging (entry_id e))) (\<lambda>ready.
          if ready then rollbackIncompleteStaging es
          else io_then (durableRemoveDirectory (InStaging (entry_id e)))
            (io_then (io_write (\<lambda>d. d\<lparr>dk_journal := NoJournal\<rparr>)) (io_return True)))))
        (\<lambda>r y. r \<and> y = without_staging e x)"
      by (rule from_directory) (use active body in auto)
    then show ?thesis by (simp only: rollbackIncompleteStaging.simps True [unfolded e'] e' entry_id_def if_False simp_thms)
  qed
qed simp

lemma rolling_back_steps:
  assumes "staging_incomplete e t x"
    and "set_node (InStaging (entry_id e)) None x = set_node (InStaging (entry_id e)) None d"
  shows "rolling_back e t d (set_node (InStaging (entry_id e)) (Some (Directory empty_dir)) x)"
    and "rolling_back e t d (set_node (InStaging (entry_id e)) None x)"
    and "rolling_back e t d (without_staging e x)" and "without_staging e x = without_staging e d"
proof -
  have idem: "set_node p n (set_node p n' x) = set_node p n x" for p n n' by (simp add: set_node_def)
  have fields: "dk_journal (set_node p n x) = dk_journal x" "dk_nodes (set_node p n x) p = n"
    "dk_nodes (set_node (InStaging j) n x) (InComputers i) = dk_nodes x (InComputers i)" for p n i j
    by (simp_all add: set_node_def)
  show "rolling_back e t d (set_node (InStaging (entry_id e)) (Some (Directory empty_dir)) x)"
    "rolling_back e t d (set_node (InStaging (entry_id e)) None x)"
    using assms unfolding rolling_back_def staging_incomplete_def idem fields
    by (simp_all add: marker_exists_def empty_dir_def)
  show "without_staging e x = without_staging e d" by (simp add: without_staging_def assms(2))
  then show "rolling_back e t d (without_staging e x)" by (simp add: rolling_back_def)
qed

definition restore_inv :: "(string \<Rightarrow> string) \<Rightarrow> active_entry \<Rightarrow> state_transaction \<Rightarrow> disk \<Rightarrow> disk \<Rightarrow> bool" where
  "restore_inv sha e t d x = (validateStateTransaction sha t \<and> rolling_back e t d x)"

definition no_call :: "'d \<Rightarrow> 'c \<Rightarrow> bool" where
  "no_call d c = False"

lemma rollback_triple:
  "io_triple True no_call (restore_inv sha e t d) (\<lambda>_. True) (recoverPendingTransaction sha rt b)
    (\<lambda>_ x. x = without_staging e d)"
proof (rule triple_from)
  fix x assume x: "restore_inv sha e t d x"
  then have v: "validateStateTransaction sha t" by (simp add: restore_inv_def)
  from x consider "staging_incomplete e t x" "set_node (InStaging (entry_id e)) None x = set_node (InStaging (entry_id e)) None d"
    | "x = without_staging e d" by (auto simp: restore_inv_def rolling_back_def)
  then show "io_from True no_call (restore_inv sha e t d) x (recoverPendingTransaction sha rt b) (\<lambda>_ x. x = without_staging e d)"
  proof cases
    case 1
    note steps = rolling_back_steps [OF 1]
    have t: "dk_journal x = Journal t" "tx_phase t = Prepared" "e \<in> set (tx_active t)" "ae_source e = SourceStaged"
      using 1(1) by (simp_all add: staging_incomplete_def)
    have "io_from True no_call (restore_inv sha e t d) x (rollbackIncompleteStaging (tx_active t))
        (\<lambda>r y. r \<and> y = without_staging e x)"
    proof (rule from_rollback [OF 1(1)])
      fix e' assume "e' \<in> set (tx_active t)" "ae_source e' = SourceStaged"
      then show "e' = e" by (rule only_staged [OF v t(3,4)])
    qed (simp_all add: t v steps(1,2) restore_inv_def steps(3) [unfolded steps(4)] steps(4))
    then show ?thesis
      unfolding recoverPendingTransaction_def
      by (intro from_pending [OF t(1)]) (auto simp: t(2) steps(4) intro!: from_bind from_return)
  next
    case 2
    then have "dk_journal x = NoJournal" by (simp add: without_staging_def)
    then show ?thesis
      unfolding recoverPendingTransaction_def
      by (intro from_pending) (use 2 in \<open>auto intro: from_return\<close>)
  qed
qed

interpretation tx_rollback: recovery "recoverPendingTransaction sha rt b" True no_call
  "restore_inv sha e t d" "\<lambda>x. x = without_staging e d"
  by unfold_locales (rule rollback_triple)

text \<open>C28. A backup restore whose staging never finished is undone: after any number of interrupted
  recoveries, an undisturbed one returns, and the disk is the one before with the staging directory
  and the journal removed; the container runtime is never called.\<close>

theorem incomplete_restore_is_undone:
  assumes "validateStateTransaction sha t" and "staging_incomplete e t (mc_disk m)"
  shows "\<exists>m' r. recoverPendingTransaction sha rt b
      (interrupted_runs (recoverPendingTransaction sha rt b) ks m\<lparr>mc_budget := None\<rparr>) = (m', Done r)
    \<and> mc_disk m' = without_staging e (mc_disk m)
    \<and> mc_log (interrupted_runs (recoverPendingTransaction sha rt b) ks m) = mc_log m"
proof -
  have inv: "restore_inv sha e t (mc_disk m) (mc_disk m)"
    using assms by (simp add: restore_inv_def rolling_back_def)
  obtain xs where "mc_log (interrupted_runs (recoverPendingTransaction sha rt b) ks m) = mc_log m @ xs"
    and "\<forall>(d, c) \<in> set xs. no_call d c" using tx_rollback.calls_seen [OF inv] by blast
  then have "mc_log (interrupted_runs (recoverPendingTransaction sha rt b) ks m) = mc_log m"
    by (cases xs) (auto simp: no_call_def)
  with tx_rollback.settles [OF inv] show ?thesis by auto
qed

section \<open>Examples\<close>

definition demo_computer :: "string \<Rightarrow> computer_metadata" where
  "demo_computer i = \<lparr>cm_id = i, cm_name = i, cm_contentId = None, cm_settings = ''cpus: 2'', cm_deletedAt = None\<rparr>"

definition demo_config :: state_config where
  "demo_config = \<lparr>sc_installationId = ''i'', sc_gateway = ''port: 7777'', sc_exposure = None,
     sc_computers = [demo_computer ''a'']\<rparr>"

definition demo_secrets :: state_secrets where
  "demo_secrets = \<lparr>ss_tls = None, ss_computers = [(''a'', \<lparr>cs_token = ''t'', cs_internalKey = ''k''\<rparr>)]\<rparr>"

text \<open>Deleting the computer b: it goes to the trash, its containers go away.\<close>

definition demo_delete :: state_transaction where
  "demo_delete = \<lparr>tx_id = ''1'', tx_operation = OpDelete, tx_createdAt = ''now'', tx_phase = Prepared,
     tx_config = demo_config, tx_secrets = demo_secrets,
     tx_active = [\<lparr>ae_source = SourceActive, ae_metadata = demo_computer ''a''\<rparr>],
     tx_trash = [(demo_computer ''b'')\<lparr>cm_deletedAt := Some ''now''\<rparr>],
     tx_runtime = no_runtime_work\<lparr>rw_startGateway := True, rw_removeIds := [''b'']\<rparr>\<rparr>"

definition demo_disk :: disk where
  "demo_disk = \<lparr>dk_computersRoot = RootDirectory, dk_trashRoot = RootDirectory,
     dk_nodes = (\<lambda>p. if p = InComputers ''a'' \<or> p = InComputers ''b''
       then Some (Directory \<lparr>cd_metadata = None, cd_ready = False, cd_home = Some ''home''\<rparr>) else None),
     dk_config = None, dk_secrets = None, dk_rendered = None, dk_journal = NoJournal\<rparr>"

definition demo_runtime :: "unit runtime" where
  "demo_runtime c w = (w, Inr ())"

definition demo_machine :: "journal_file \<Rightarrow> (disk, unit, runtime_call) machine" where
  "demo_machine j = \<lparr>mc_disk = demo_disk\<lparr>dk_journal := j\<rparr>, mc_world = (), mc_log = [], mc_budget = None\<rparr>"

lemma demo_delete_valid: "validateStateTransaction id demo_delete" "tx_phase demo_delete = Prepared"
  by (simp_all add: validateStateTransaction_def demo_delete_def demo_config_def demo_secrets_def demo_computer_def
      active_rules_def trash_rules_def runtime_rules_def sameSet_def gatewayExposureTlsSecretMatches_def
      runtime_ids_valid_def no_runtime_work_def active_ids_def trash_ids_def config_ids_def secret_ids_def
      find_computer_def Let_def)

lemma demo_delete_ready: "can_commit demo_delete (mc_disk (demo_machine j))"
  by (simp add: can_commit_def demo_machine_def demo_delete_def demo_disk_def demo_computer_def entry_target_def
      entry_id_def view_def active_target.simps trash_target.simps)

theorem recovery_reaches_outcome_witness:
  "\<exists>m' r. recoverPendingTransaction id demo_runtime True
      (interrupted_runs (recoverPendingTransaction id demo_runtime False) [Some 3, Some 0, Some 12]
        (demo_machine (Journal demo_delete))\<lparr>mc_budget := None\<rparr>) = (m', Done r)
    \<and> mc_disk m' = transaction_outcome demo_delete (mc_disk (demo_machine (Journal demo_delete)))"
  by (rule recovery_reaches_outcome)
    (simp_all only: demo_delete_valid demo_delete_ready, simp_all add: demo_machine_def demo_runtime_def)

theorem transaction_all_or_nothing_witness:
  "let d = mc_disk (interrupted_runs (recoverPendingTransaction id demo_runtime True) [Some 4, Some 1]
        (fst (executeStateTransaction id demo_runtime True demo_delete ((demo_machine NoJournal)\<lparr>mc_budget := Some 5\<rparr>))))
    in d = mc_disk (demo_machine NoJournal) \<or> d = transaction_outcome demo_delete (mc_disk (demo_machine NoJournal))
      \<or> dk_journal d = Journal demo_delete \<or> dk_journal d = Journal (demo_delete\<lparr>tx_phase := StateCommitted\<rparr>)"
  by (rule transaction_all_or_nothing)
    (simp_all only: demo_delete_valid demo_delete_ready, simp_all add: demo_machine_def)

theorem runtime_only_after_commit_witness:
  "list_all (\<lambda>(d, c). is_reconciliation c
      \<or> (dk_journal d = Journal (demo_delete\<lparr>tx_phase := StateCommitted\<rparr>)
          \<and> dk_nodes d = dk_nodes (transaction_outcome demo_delete (mc_disk (demo_machine (Journal demo_delete))))
          \<and> dk_config d = Some (tx_config demo_delete) \<and> dk_secrets d = Some (tx_secrets demo_delete)))
    (mc_log (interrupted_runs (recoverPendingTransaction id demo_runtime True) [Some 30, None]
      (demo_machine (Journal demo_delete))))"
  by (rule runtime_only_after_commit)
    (simp_all only: demo_delete_valid demo_delete_ready, simp_all add: demo_machine_def)

text \<open>A restore that was interrupted before its staging directory was complete.\<close>

definition demo_restore :: state_transaction where
  "demo_restore = demo_delete\<lparr>tx_operation := OpBackupRestore,
     tx_active := [\<lparr>ae_source = SourceStaged, ae_metadata = demo_computer ''a''\<rparr>], tx_trash := [],
     tx_runtime := no_runtime_work\<rparr>"

definition demo_staging :: "(disk, unit, runtime_call) machine" where
  "demo_staging = \<lparr>mc_disk = demo_disk\<lparr>dk_nodes := (\<lambda>p. if p = InStaging ''a''
       then Some (Directory \<lparr>cd_metadata = None, cd_ready = False, cd_home = Some ''half''\<rparr>) else None),
       dk_journal := Journal demo_restore\<rparr>, mc_world = (), mc_log = [], mc_budget = None\<rparr>"

lemma demo_restore_valid: "validateStateTransaction id demo_restore"
  by (simp add: validateStateTransaction_def demo_restore_def demo_delete_def demo_config_def demo_secrets_def demo_computer_def
      active_rules_def trash_rules_def runtime_rules_def sameSet_def gatewayExposureTlsSecretMatches_def
      runtime_ids_valid_def no_runtime_work_def active_ids_def trash_ids_def config_ids_def secret_ids_def
      find_computer_def Let_def)

theorem incomplete_restore_is_undone_witness:
  "\<exists>m' r. recoverPendingTransaction id demo_runtime True
      (interrupted_runs (recoverPendingTransaction id demo_runtime True) [Some 1, Some 0] demo_staging\<lparr>mc_budget := None\<rparr>)
        = (m', Done r)
    \<and> mc_disk m' = without_staging \<lparr>ae_source = SourceStaged, ae_metadata = demo_computer ''a''\<rparr> (mc_disk demo_staging)
    \<and> mc_log (interrupted_runs (recoverPendingTransaction id demo_runtime True) [Some 1, Some 0] demo_staging)
        = mc_log demo_staging"
  by (rule incomplete_restore_is_undone [OF demo_restore_valid])
    (simp add: staging_incomplete_def demo_staging_def demo_restore_def demo_delete_def demo_disk_def entry_id_def
      demo_computer_def marker_exists_def)

end
