(* ===== verification/Transaction_Runtime.thy ===== *)
theory Transaction_Runtime
  imports Transaction_Recovery
begin

text \<open>The container work of a state transaction (\<open>completeRuntime\<close> of
  packages/cli/src/transactions.ts): which calls an undisturbed run makes, and what follows for each
  computer, the journals written before \<open>reconnectIds\<close> existed included.\<close>

definition runtime_plan :: "state_transaction \<Rightarrow> runtime_call list" where
  "runtime_plan t =
     (let w = tx_runtime t; computer = find_computer (tx_config t) in
      (if needsDocker t then [ValidateDocker] else [])
      @ (if rw_ensureImages w then [EnsureImages] else [])
      @ (if needsGateway t then [StartGateway (rw_gatewayRuntimeBinding w) (rw_replaceGatewayRunning w),
           VerifyGateway (rw_replaceIds w)] else [])
      @ (if rw_replaceGatewayStopped w then [ReplaceStoppedGateway (rw_gatewayRuntimeBinding w)] else [])
      @ concat (map (\<lambda>i. [WaitForRemoval i, RemoveRuntime i]) (rw_removeIds w))
      @ concat (map (\<lambda>i. [Reconnect (computer i)]) (effectiveReconnectIds t))
      @ concat (map (\<lambda>i. [RemoveReplacement (computer i) (container_binding t i), StartComputer (computer i)]) (rw_replaceIds w))
      @ concat (map (\<lambda>i. [ReplaceStopped (computer i) (container_binding t i)]) (rw_replaceStoppedIds w))
      @ concat (map (\<lambda>i. if i \<in> set (legacyReconnectIds t) then [] else [StartComputer (computer i)]) (rw_startIds w))
      @ concat (map (\<lambda>i. [VerifyToken i (map_option cs_token (map_of (ss_computers (tx_secrets t)) i))]) (rw_verifyTokenIds w)))"

lemma completeRuntime_logs:
  assumes "\<forall>c w. \<exists>w' a. rt c w = (w', Inr a)"
  shows "io_logs (completeRuntime rt t) (runtime_plan t)"
proof -
  have point [simp]: "io_logs (checkpoint n) []" for n by (simp add: checkpoint_def)
  have two: "io_logs (io_then (io_call rt c) p) (c # cs)" if "io_logs p cs" for c p cs
    using logs_then [OF logs_call [OF assms] that] by simp
  have pass: "io_logs (io_then (checkpoint n) p) cs" if "io_logs p cs" for n p cs
    using logs_then [OF point that] by simp
  have render: "io_logs (io_then (renderRuntime a b) p) cs" if "io_logs p cs" for a b p cs
    using logs_then [OF logs_then [OF logs_write logs_write] that] by (simp add: renderRuntime_def)
  show ?thesis
    unfolding completeRuntime_def runtime_plan_def Let_def
    by (intro logs_then logs_when logs_each two pass render point)
      (auto intro!: two)
qed

section \<open>Each computer once\<close>

definition brings_up :: "string \<Rightarrow> runtime_call \<Rightarrow> bool" where
  "brings_up i c = (case c of
       Reconnect m \<Rightarrow> map_option cm_id m = Some i
     | StartComputer m \<Rightarrow> map_option cm_id m = Some i
     | ReplaceStopped m b \<Rightarrow> map_option cm_id m = Some i
     | _ \<Rightarrow> False)"

definition count_calls :: "(runtime_call \<Rightarrow> bool) \<Rightarrow> runtime_call list \<Rightarrow> nat" where
  "count_calls P cs = length (filter P cs)"

lemma count_calls_simps [simp]:
  "count_calls P [] = 0" "count_calls P (c # cs) = (if P c then 1 else 0) + count_calls P cs"
  "count_calls P (cs @ ds) = count_calls P cs + count_calls P ds"
  by (simp_all add: count_calls_def)

lemma brings_up_simps [simp]:
  "\<not> brings_up i ValidateDocker" "\<not> brings_up i EnsureImages" "\<not> brings_up i (StartGateway b r)"
  "\<not> brings_up i (VerifyGateway ids)" "\<not> brings_up i (ReplaceStoppedGateway b)" "\<not> brings_up i (WaitForRemoval j)"
  "\<not> brings_up i (RemoveRuntime j)" "\<not> brings_up i (RemoveReplacement m b)" "\<not> brings_up i (VerifyToken j k)"
  by (simp_all add: brings_up_def)

lemma find_computer_id:
  assumes "j \<in> set (config_ids c)"
  shows "map_option cm_id (find_computer c j) = Some j"
proof -
  have "\<exists>m. List.find (\<lambda>m. cm_id m = j) ms = Some m \<and> cm_id m = j" if "j \<in> cm_id ` set ms" for ms
    using that by (induction ms) auto
  then show ?thesis using assms by (fastforce simp: config_ids_def find_computer_def)
qed

lemma count_loop:
  assumes "distinct xs" and "\<And>x. x \<in> set xs \<Longrightarrow> count_calls P (f x) = (if x = i then n else 0)"
  shows "count_calls P (concat (map f xs)) = (if i \<in> set xs then n else 0)"
  using assms by (induction xs) auto

lemma count_none: "(\<And>x. x \<in> set xs \<Longrightarrow> count_calls P (f x) = 0) \<Longrightarrow> count_calls P (concat (map f xs)) = 0"
  by (induction xs) auto

lemma count_distinct: "distinct xs \<Longrightarrow> distinct ys \<Longrightarrow> set xs \<inter> set ys = {} \<Longrightarrow>
    (if i \<in> set xs then 1 else 0) + (if i \<in> set ys then 1 else (0::nat)) = (if i \<in> set (xs @ ys) then 1 else 0)"
  by auto

lemma effective_ids:
  "rw_reconnectIds (tx_runtime t) \<noteq> [] \<Longrightarrow> legacyReconnectIds t = []"
  "set (legacyReconnectIds t) \<subseteq> set (rw_startIds (tx_runtime t))"
  "set (effectiveReconnectIds t) = set (rw_reconnectIds (tx_runtime t)) \<union> set (legacyReconnectIds t)"
  "distinct (effectiveReconnectIds t)"
proof -
  show "rw_reconnectIds (tx_runtime t) \<noteq> [] \<Longrightarrow> legacyReconnectIds t = []" by (simp add: legacyReconnectIds_def)
  show "set (legacyReconnectIds t) \<subseteq> set (rw_startIds (tx_runtime t))" by (auto simp: legacyReconnectIds_def Let_def)
  show "set (effectiveReconnectIds t) = set (rw_reconnectIds (tx_runtime t)) \<union> set (legacyReconnectIds t)"
    using dedup_by_keys [of id "rw_reconnectIds (tx_runtime t) @ legacyReconnectIds t"]
    by (simp add: effectiveReconnectIds_def)
  show "distinct (effectiveReconnectIds t)"
    using dedup_by_distinct [of id "rw_reconnectIds (tx_runtime t) @ legacyReconnectIds t"]
    by (simp add: effectiveReconnectIds_def)
qed

lemma plan_count:
  assumes v: "validateStateTransaction sha t"
  shows "count_calls (brings_up i) (runtime_plan t)
    = (let w = tx_runtime t in
       if i \<in> set (rw_reconnectIds w @ rw_replaceIds w @ rw_replaceStoppedIds w @ rw_startIds w) then 1 else 0)"
proof -
  let ?w = "tx_runtime t" and ?find = "find_computer (tx_config t)" and ?legacy = "set (legacyReconnectIds t)"
  have rules: "runtime_rules t" using v by (simp add: validateStateTransaction_def)
  then have sub: "set (rw_reconnectIds ?w) \<subseteq> set (config_ids (tx_config t))" "set (rw_replaceIds ?w) \<subseteq> set (config_ids (tx_config t))"
    "set (rw_replaceStoppedIds ?w) \<subseteq> set (config_ids (tx_config t))" "set (rw_startIds ?w) \<subseteq> set (config_ids (tx_config t))"
    and dis: "distinct (rw_reconnectIds ?w @ rw_replaceIds ?w @ rw_replaceStoppedIds ?w @ rw_startIds ?w)"
    by (simp_all add: runtime_rules_def Let_def runtime_ids_valid_def)
  note eff = effective_ids [of t]
  have found: "brings_up i (Reconnect (?find j)) \<longleftrightarrow> j = i" "brings_up i (StartComputer (?find j)) \<longleftrightarrow> j = i"
    "brings_up i (ReplaceStopped (?find j) b) \<longleftrightarrow> j = i" if "j \<in> set (config_ids (tx_config t))" for j b
    using find_computer_id [OF that] by (auto simp: brings_up_def)
  have c: "j \<in> set (effectiveReconnectIds t) \<Longrightarrow> j \<in> set (config_ids (tx_config t))"
    "j \<in> set (rw_replaceIds ?w) \<Longrightarrow> j \<in> set (config_ids (tx_config t))"
    "j \<in> set (rw_replaceStoppedIds ?w) \<Longrightarrow> j \<in> set (config_ids (tx_config t))"
    "j \<in> set (rw_startIds ?w) \<Longrightarrow> j \<in> set (config_ids (tx_config t))" for j
    using sub eff(2,3) by blast+
  have dis': "distinct (rw_replaceIds ?w)" "distinct (rw_replaceStoppedIds ?w)" "distinct (rw_startIds ?w)"
    using dis by simp_all
  have reconnect: "count_calls (brings_up i) (concat (map (\<lambda>j. [Reconnect (?find j)]) (effectiveReconnectIds t)))
      = (if i \<in> set (effectiveReconnectIds t) then 1 else 0)"
    by (rule count_loop [OF eff(4)]) (simp add: found c)
  have replace: "count_calls (brings_up i) (concat (map (\<lambda>j. [RemoveReplacement (?find j) (container_binding t j), StartComputer (?find j)]) (rw_replaceIds ?w)))
      = (if i \<in> set (rw_replaceIds ?w) then 1 else 0)"
    by (rule count_loop [OF dis'(1)]) (simp add: found c)
  have stopped: "count_calls (brings_up i) (concat (map (\<lambda>j. [ReplaceStopped (?find j) (container_binding t j)]) (rw_replaceStoppedIds ?w)))
      = (if i \<in> set (rw_replaceStoppedIds ?w) then 1 else 0)"
    by (rule count_loop [OF dis'(2)]) (simp add: found c)
  have start: "count_calls (brings_up i) (concat (map (\<lambda>j. if j \<in> ?legacy then [] else [StartComputer (?find j)]) (rw_startIds ?w)))
      = (if i \<in> set (rw_startIds ?w) then (if i \<in> ?legacy then 0 else 1) else 0)"
    by (rule count_loop [OF dis'(3)]) (use found(2) c(4) in auto)
  have none: "count_calls (brings_up i) (concat (map (\<lambda>j. [WaitForRemoval j, RemoveRuntime j]) (rw_removeIds ?w))) = 0"
    "count_calls (brings_up i) (concat (map (\<lambda>j. [VerifyToken j (map_option cs_token (map_of (ss_computers (tx_secrets t)) j))]) (rw_verifyTokenIds ?w))) = 0"
    by (rule count_none, simp)+
  have "count_calls (brings_up i) (runtime_plan t)
      = (if i \<in> set (effectiveReconnectIds t) then 1 else 0) + (if i \<in> set (rw_replaceIds ?w) then 1 else 0)
        + (if i \<in> set (rw_replaceStoppedIds ?w) then 1 else 0)
        + (if i \<in> set (rw_startIds ?w) then (if i \<in> ?legacy then 0 else 1) else 0)"
    unfolding runtime_plan_def Let_def
    unfolding count_calls_simps(3) reconnect replace stopped start none by (simp split: if_split)
  also have "\<dots> = (if i \<in> set (rw_reconnectIds ?w @ rw_replaceIds ?w @ rw_replaceStoppedIds ?w @ rw_startIds ?w) then 1 else 0)"
  proof (cases "rw_reconnectIds ?w = []")
    case True
    with dis eff show ?thesis by auto
  next
    case False
    with dis eff show ?thesis by auto
  qed
  finally show ?thesis by (simp only: Let_def)
qed

text \<open>C29. The container work of a transaction touches each computer once: an undisturbed
  \<open>completeRuntime\<close> returns, makes exactly the planned calls in the planned order, and every
  computer that the transaction reconnects, replaces or starts is brought up by exactly one call,
  every other by none, also for the journals from before \<open>reconnectIds\<close> existed.\<close>

theorem each_computer_brought_up_once:
  assumes "validateStateTransaction sha t" and "\<forall>c w. \<exists>w' a. rt c w = (w', Inr a)"
    and "mc_budget m = None" and "mc_log m = []"
  shows "\<exists>m'. completeRuntime rt t m = (m', Done ()) \<and> map snd (mc_log m') = runtime_plan t
    \<and> count_calls (brings_up i) (map snd (mc_log m'))
        = (if i \<in> set (rw_reconnectIds (tx_runtime t) @ rw_replaceIds (tx_runtime t)
              @ rw_replaceStoppedIds (tx_runtime t) @ rw_startIds (tx_runtime t)) then 1 else 0)"
proof -
  obtain m' a where "completeRuntime rt t m = (m', Done a)" "map snd (mc_log m') = map snd (mc_log m) @ runtime_plan t"
    using completeRuntime_logs [OF assms(2), of t] assms(3) unfolding io_logs_def by blast
  then show ?thesis using plan_count [OF assms(1), of i] assms(4) by (simp add: Let_def del: set_append)
qed

definition demo_setup :: state_transaction where
  "demo_setup = demo_delete\<lparr>tx_operation := OpSetup, tx_trash := [],
     tx_runtime := no_runtime_work\<lparr>rw_startGateway := True, rw_startIds := [''a'']\<rparr>\<rparr>"

lemma demo_setup_valid: "validateStateTransaction id demo_setup"
  by (simp add: validateStateTransaction_def demo_setup_def demo_delete_def demo_config_def demo_secrets_def demo_computer_def
      active_rules_def trash_rules_def runtime_rules_def sameSet_def gatewayExposureTlsSecretMatches_def
      runtime_ids_valid_def no_runtime_work_def active_ids_def trash_ids_def config_ids_def secret_ids_def
      find_computer_def Let_def)

theorem each_computer_brought_up_once_witness:
  "\<exists>m'. completeRuntime demo_runtime demo_setup (demo_machine NoJournal) = (m', Done ())
    \<and> map snd (mc_log m') = runtime_plan demo_setup
    \<and> count_calls (brings_up ''a'') (map snd (mc_log m')) = 1"
  using each_computer_brought_up_once [OF demo_setup_valid, of demo_runtime "demo_machine NoJournal" "''a''"]
  by (simp add: demo_runtime_def demo_machine_def demo_setup_def)

end
