(* ===== verification/Lifecycle.thy ===== *)
theory Lifecycle
  imports Durable Transaction_Document Json
begin

text \<open>Starting, stopping and restarting a managed computer: packages/cli/src/lifecycle-operations.ts.

  Each of the three writes a journal that names the operation and the exact containers before it
  changes a container, checks the outcome by observing the containers again, and removes the journal
  last; after a crash \<open>recoverPendingComputerLifecycle\<close> repeats the operation on those
  containers or refuses. The durable state is the journal file; Docker, the gateway and the policy
  synchronisation answer the calls of the \<open>ComputerLifecycleRuntime\<close> interface.\<close>

section \<open>The runtime interface\<close>

datatype runtime_group = GroupComplete | GroupAbsent | GroupPartial | GroupInconsistent

record observation =
  ob_status :: string
  ob_group :: runtime_group
  ob_containers :: "runtime_binding list"

datatype lifecycle_call =
    LValidateDocker
  | LObserve computer_metadata
  | LEnsureImages "computer_metadata list"
  | LRender
  | LStartGateway
  | LVerifyGateway
  | LStartAbsent computer_metadata
  | LDocker "string list"
  | LConnect string
  | LWaitHealthy string
  | LWaitGateway string
  | LSynchronizePolicies "computer_metadata list"
  | LReleaseHumanControl computer_metadata

datatype lifecycle_answer = Finished | Observed observation

type_synonym 'w lifecycle_runtime = "lifecycle_call \<Rightarrow> 'w \<Rightarrow> 'w \<times> (string + lifecycle_answer)"

section \<open>The journal\<close>

datatype lifecycle_operation = LifeStart | LifeStop | LifeRestart
datatype lifecycle_source = FromAbsent | FromRetained

record lifecycle_journal =
  lj_operationId :: string
  lj_installationId :: string
  lj_computerId :: string
  lj_createdAt :: string
  lj_operation :: lifecycle_operation
  lj_source :: lifecycle_source
  lj_runtimeContainers :: "runtime_binding list"

text \<open>The file as \<open>lstat\<close> finds it: absent, not a private regular file, or a JSON value.\<close>

datatype lifecycle_file = NoFile | UnsafeFile | JsonFile json

type_synonym ('w, 'a) life_io = "(lifecycle_file, 'w, lifecycle_call, 'a) io"

definition life_role :: "string list" where
  "life_role = [''gateway'', ''computer'', ''computer-executor'', ''computer-egress'', ''computer-web'',
     ''computer-session'', ''computer-ssh'']"

definition binding_name_char :: "char \<Rightarrow> bool" where
  "binding_name_char c = (is_alnum c \<or> c \<in> set ''_.-'')"

definition binding_valid :: "runtime_binding \<Rightarrow> bool" where
  "binding_valid b =
     (rb_name b \<noteq> [] \<and> is_alnum (hd (rb_name b)) \<and> list_all binding_name_char (tl (rb_name b)) \<and> length (rb_name b) \<le> 128
      \<and> length (rb_id b) = 64 \<and> list_all is_lower_hex (rb_id b)
      \<and> rb_status b \<noteq> []
      \<and> starts_with (rb_imageId b) ''sha256:'' \<and> length (rb_imageId b) = 71 \<and> list_all is_lower_hex (drop 7 (rb_imageId b))
      \<and> rb_role b \<in> set life_role
      \<and> rb_topologyVersion b \<noteq> Some [])"

definition binding_fields :: "string list" where
  "binding_fields = [''name'', ''id'', ''status'', ''imageId'', ''role'', ''topologyVersion'']"

text \<open>The strict schema of a container binding.\<close>

definition parse_binding :: "json \<Rightarrow> runtime_binding option" where
  "parse_binding j = (case j of
       JObject f \<Rightarrow>
         (case (as_string (obj_get ''name'' f), as_string (obj_get ''id'' f), as_string (obj_get ''status'' f),
                as_string (obj_get ''imageId'' f), as_string (obj_get ''role'' f)) of
            (Some n, Some i, Some s, Some im, Some r) \<Rightarrow>
              (let b = \<lparr>rb_name = n, rb_id = i, rb_status = s, rb_imageId = im, rb_role = r,
                     rb_topologyVersion = as_string (obj_get ''topologyVersion'' f)\<rparr>
               in if binding_valid b \<and> set (map fst f) \<subseteq> set binding_fields
                     \<and> (obj_get ''topologyVersion'' f \<noteq> None \<longrightarrow> rb_topologyVersion b \<noteq> None)
                  then Some b else None)
          | _ \<Rightarrow> None)
     | _ \<Rightarrow> None)"

definition binding_json :: "runtime_binding \<Rightarrow> json" where
  "binding_json b = JObject ([(''name'', JString (rb_name b)), (''id'', JString (rb_id b)),
     (''status'', JString (rb_status b)), (''imageId'', JString (rb_imageId b)), (''role'', JString (rb_role b))]
     @ (case rb_topologyVersion b of None \<Rightarrow> [] | Some v \<Rightarrow> [(''topologyVersion'', JString v)]))"

definition life_operation_text :: "lifecycle_operation \<Rightarrow> string" where
  "life_operation_text op = (case op of LifeStart \<Rightarrow> ''start'' | LifeStop \<Rightarrow> ''stop'' | LifeRestart \<Rightarrow> ''restart'')"

definition read_life_operation :: "string \<Rightarrow> lifecycle_operation option" where
  "read_life_operation s = (if s = ''start'' then Some LifeStart else if s = ''stop'' then Some LifeStop
     else if s = ''restart'' then Some LifeRestart else None)"

definition source_text :: "lifecycle_source \<Rightarrow> string" where
  "source_text s = (case s of FromAbsent \<Rightarrow> ''absent'' | FromRetained \<Rightarrow> ''retained'')"

definition read_source :: "string \<Rightarrow> lifecycle_source option" where
  "read_source s = (if s = ''absent'' then Some FromAbsent else if s = ''retained'' then Some FromRetained else None)"

definition journal_fields :: "string list" where
  "journal_fields = [''computerId'', ''createdAt'', ''installationId'', ''operation'', ''operationId'',
     ''runtimeContainers'', ''source'', ''version'']"

definition journal_source_rule :: "lifecycle_operation \<Rightarrow> lifecycle_source \<Rightarrow> runtime_binding list \<Rightarrow> bool" where
  "journal_source_rule op src bs =
     (\<not> (src = FromAbsent \<and> (op \<noteq> LifeStart \<or> length bs \<noteq> 0)) \<and> \<not> (src = FromRetained \<and> length bs = 0))"

definition lifecycleUuid :: "json option \<Rightarrow> string option" where
  "lifecycleUuid j = (case as_string j of Some s \<Rightarrow> if is_uuid s then Some s else None | None \<Rightarrow> None)"

definition parseComputerLifecycleJournal :: "(string \<Rightarrow> bool) \<Rightarrow> json \<Rightarrow> lifecycle_journal option" where
  "parseComputerLifecycleJournal isDate j = (case j of
       JObject f \<Rightarrow>
         if list_ex (\<lambda>k. k \<notin> set journal_fields) (map fst f) \<or> list_ex (\<lambda>k. k \<notin> set (map fst f)) journal_fields then None
         else if obj_get ''version'' f \<noteq> Some (JNumber 1) then None
         else (case (lifecycleUuid (obj_get ''operationId'' f), lifecycleUuid (obj_get ''installationId'' f),
                     lifecycleUuid (obj_get ''computerId'' f), as_string (obj_get ''createdAt'' f),
                     Option.bind (as_string (obj_get ''operation'' f)) read_life_operation,
                     Option.bind (as_string (obj_get ''source'' f)) read_source,
                     obj_get ''runtimeContainers'' f) of
              (Some oid, Some iid, Some cid, Some created, Some op, Some src, Some (JArray entries)) \<Rightarrow>
                if \<not> isDate created then None
                else (case all_some parse_binding entries of
                    None \<Rightarrow> None
                  | Some bs \<Rightarrow>
                      if \<not> journal_source_rule op src bs then None
                      else if \<not> distinct (map rb_id bs) \<or> \<not> distinct (map rb_name bs) then None
                      else Some \<lparr>lj_operationId = oid, lj_installationId = iid, lj_computerId = cid, lj_createdAt = created,
                             lj_operation = op, lj_source = src, lj_runtimeContainers = bs\<rparr>)
            | _ \<Rightarrow> None)
     | _ \<Rightarrow> None)"

definition journal_json :: "lifecycle_journal \<Rightarrow> json" where
  "journal_json j = JObject [(''version'', JNumber 1), (''operationId'', JString (lj_operationId j)),
     (''installationId'', JString (lj_installationId j)), (''computerId'', JString (lj_computerId j)),
     (''createdAt'', JString (lj_createdAt j)), (''operation'', JString (life_operation_text (lj_operation j))),
     (''source'', JString (source_text (lj_source j))),
     (''runtimeContainers'', JArray (map binding_json (lj_runtimeContainers j)))]"

definition journal_valid :: "(string \<Rightarrow> bool) \<Rightarrow> lifecycle_journal \<Rightarrow> bool" where
  "journal_valid isDate j =
     (is_uuid (lj_operationId j) \<and> is_uuid (lj_installationId j) \<and> is_uuid (lj_computerId j) \<and> isDate (lj_createdAt j)
      \<and> list_all binding_valid (lj_runtimeContainers j)
      \<and> journal_source_rule (lj_operation j) (lj_source j) (lj_runtimeContainers j)
      \<and> distinct (map rb_id (lj_runtimeContainers j)) \<and> distinct (map rb_name (lj_runtimeContainers j)))"

definition readComputerLifecycleJournal :: "(string \<Rightarrow> bool) \<Rightarrow> ('w, lifecycle_journal option) life_io" where
  "readComputerLifecycleJournal isDate = io_bind (io_read (\<lambda>f. f)) (\<lambda>f. case f of
       NoFile \<Rightarrow> io_return None
     | UnsafeFile \<Rightarrow> io_fail ''Computer lifecycle journal must be a regular operator-owned file with mode 0600.''
     | JsonFile j \<Rightarrow> (case parseComputerLifecycleJournal isDate j of
           None \<Rightarrow> io_fail ''Computer lifecycle journal is invalid.''
         | Some l \<Rightarrow> io_return (Some l)))"

definition writeComputerLifecycleJournal :: "lifecycle_journal \<Rightarrow> ('w, unit) life_io" where
  "writeComputerLifecycleJournal j = io_write (\<lambda>_. JsonFile (journal_json j))"

definition assertNoPendingComputerLifecycle :: "(string \<Rightarrow> bool) \<Rightarrow> ('w, unit) life_io" where
  "assertNoPendingComputerLifecycle isDate = io_bind (readComputerLifecycleJournal isDate) (\<lambda>pending.
     io_require (pending = None) ''Computer lifecycle requires explicit recovery before another lifecycle mutation.'')"

text \<open>\<open>fresh\<close> is the random operation identifier and the time of the new journal.\<close>

definition beginComputerLifecycle ::
  "(string \<Rightarrow> bool) \<Rightarrow> string \<times> string \<Rightarrow> state_config \<Rightarrow> computer_metadata \<Rightarrow> lifecycle_operation \<Rightarrow> lifecycle_source
     \<Rightarrow> runtime_binding list \<Rightarrow> ('w, lifecycle_journal) life_io"
where
  "beginComputerLifecycle isDate fresh config computer op src bs =
     io_bind (readComputerLifecycleJournal isDate) (\<lambda>pending.
       if pending \<noteq> None then io_fail ''Computer lifecycle requires explicit recovery before another lifecycle mutation.''
       else
         (let j = \<lparr>lj_operationId = fst fresh, lj_installationId = sc_installationId config, lj_computerId = cm_id computer,
                 lj_createdAt = snd fresh, lj_operation = op, lj_source = src, lj_runtimeContainers = bs\<rparr>
          in io_then (writeComputerLifecycleJournal j) (io_return j)))"

definition clearComputerLifecycleJournal :: "(string \<Rightarrow> bool) \<Rightarrow> string \<Rightarrow> ('w, unit) life_io" where
  "clearComputerLifecycleJournal isDate operationId =
     io_bind (readComputerLifecycleJournal isDate) (\<lambda>pending. case pending of
       None \<Rightarrow> io_fail ''Computer lifecycle journal changed while the operation was running.''
     | Some j \<Rightarrow> if lj_operationId j \<noteq> operationId
         then io_fail ''Computer lifecycle journal changed while the operation was running.''
         else io_write (\<lambda>_. NoFile))"

section \<open>Checks of an observation\<close>

definition safe_status :: "string \<Rightarrow> bool" where
  "safe_status s = (s \<in> set [''running'', ''restarting'', ''paused'', ''exited'', ''created''])"

definition lifecycle_group_ok :: "observation \<Rightarrow> bool \<Rightarrow> bool" where
  "lifecycle_group_ok o' allowAbsent = (case ob_group o' of
       GroupPartial \<Rightarrow> False
     | GroupInconsistent \<Rightarrow> False
     | GroupAbsent \<Rightarrow> allowAbsent \<and> ob_status o' = ''absent''
     | GroupComplete \<Rightarrow> safe_status (ob_status o'))"

definition sameRuntimeBindings :: "runtime_binding list \<Rightarrow> runtime_binding list \<Rightarrow> bool" where
  "sameRuntimeBindings left right =
     (length left = length right
      \<and> list_all (\<lambda>expected.
           (case map_of (rev (map (\<lambda>b. (rb_id b, b)) right)) (rb_id expected) of
              None \<Rightarrow> False
            | Some current \<Rightarrow> rb_name current = rb_name expected \<and> rb_imageId current = rb_imageId expected
                \<and> rb_role current = rb_role expected \<and> rb_topologyVersion current = rb_topologyVersion expected)) left)"

definition recoverable_retained :: "runtime_binding list \<Rightarrow> observation \<Rightarrow> bool" where
  "recoverable_retained expected o' =
     (sameRuntimeBindings expected (ob_containers o')
      \<and> \<not> list_ex (\<lambda>b. \<not> safe_status (rb_status b)) (ob_containers o'))"

definition recoverable_absent :: "computer_metadata \<Rightarrow> observation \<Rightarrow> bool" where
  "recoverable_absent computer o' =
     ((ob_group o' = GroupAbsent \<and> ob_status o' = ''absent'')
      \<or> (length (ob_containers o') \<noteq> 0
         \<and> (case cm_contentId computer of
              None \<Rightarrow> False
            | Some content \<Rightarrow> content \<noteq> []
                \<and> \<not> list_ex (\<lambda>b. rb_imageId b \<noteq> content \<or> \<not> safe_status (rb_status b)) (ob_containers o'))))"

definition io_expect :: "bool \<Rightarrow> string \<Rightarrow> ('w, unit) life_io" where
  "io_expect b e = io_require b e"

definition observe :: "'w lifecycle_runtime \<Rightarrow> computer_metadata \<Rightarrow> ('w, observation) life_io" where
  "observe rt computer = io_bind (io_call rt (LObserve computer)) (\<lambda>a. case a of
       Observed o' \<Rightarrow> io_return o'
     | Finished \<Rightarrow> io_fail ''observation'')"

definition do_call :: "'w lifecycle_runtime \<Rightarrow> lifecycle_call \<Rightarrow> ('w, unit) life_io" where
  "do_call rt c = io_then (io_call rt c) (io_return ())"

definition runtime_as_expected :: "computer_metadata \<Rightarrow> lifecycle_journal \<Rightarrow> bool \<Rightarrow> observation \<Rightarrow> bool" where
  "runtime_as_expected computer j running o' =
     (ob_group o' = GroupComplete
      \<and> (if running then ob_status o' = ''running'' else ob_status o' = ''exited'' \<or> ob_status o' = ''created'')
      \<and> (lj_source j = FromRetained \<longrightarrow> sameRuntimeBindings (lj_runtimeContainers j) (ob_containers o'))
      \<and> (lj_source j = FromAbsent \<longrightarrow> recoverable_absent computer o'))"

definition assertRecoveredRuntimeState ::
  "'w lifecycle_runtime \<Rightarrow> computer_metadata \<Rightarrow> lifecycle_journal \<Rightarrow> bool \<Rightarrow> ('w, unit) life_io"
where
  "assertRecoveredRuntimeState rt computer j running =
     io_bind (observe rt computer) (\<lambda>o'.
       io_expect (runtime_as_expected computer j running o') ''Computer lifecycle recovery found another state; the journal was preserved.'')"

definition requireUnchangedRuntime ::
  "'w lifecycle_runtime \<Rightarrow> computer_metadata \<Rightarrow> runtime_binding list \<Rightarrow> ('w, observation) life_io"
where
  "requireUnchangedRuntime rt computer expected =
     io_bind (observe rt computer) (\<lambda>current.
     io_then (io_expect (lifecycle_group_ok current False) ''ambiguous runtime'')
     (io_then (io_expect (ob_group current = GroupComplete \<and> sameRuntimeBindings expected (ob_containers current))
          ''runtime identity changed; no computer container was changed.'')
       (io_return current)))"

text \<open>A network that is already connected is no error; \<open>LConnect\<close> stands for the call with
  that answer turned into success.\<close>

definition connectGatewayToComputer :: "'w lifecycle_runtime \<Rightarrow> computer_metadata \<Rightarrow> ('w, unit) life_io" where
  "connectGatewayToComputer rt computer = do_call rt (LConnect (cm_id computer))"

definition wait_ready :: "'w lifecycle_runtime \<Rightarrow> computer_metadata \<Rightarrow> ('w, unit) life_io" where
  "wait_ready rt computer =
     io_then (connectGatewayToComputer rt computer)
    (io_then (do_call rt (LWaitHealthy (cm_id computer))) (do_call rt (LWaitGateway (cm_id computer))))"

definition status_of :: "observation \<Rightarrow> string \<Rightarrow> string option" where
  "status_of o' i = map_option rb_status (map_of (rev (map (\<lambda>b. (rb_id b, b)) (ob_containers o'))) i)"

definition startRetainedRuntime ::
  "'w lifecycle_runtime \<Rightarrow> computer_metadata \<Rightarrow> runtime_binding list \<Rightarrow> observation \<Rightarrow> ('w, unit) life_io"
where
  "startRetainedRuntime rt computer expected o' =
     io_then (io_expect (recoverable_retained expected o') ''changed or missing immutable runtime IDs; no container was changed.'')
     (let paused = filter (\<lambda>i. status_of o' i = Some ''paused'') (map rb_id expected);
          stopped = filter (\<lambda>i. status_of o' i = Some ''exited'' \<or> status_of o' i = Some ''created'') (map rb_id (rev expected))
      in io_then (io_when (length paused > 0) (do_call rt (LDocker (''unpause'' # paused))))
        (io_then (io_when (length stopped > 0) (do_call rt (LDocker (''start'' # stopped))))
           (wait_ready rt computer)))"

section \<open>The operations\<close>

definition bring_gateway :: "'w lifecycle_runtime \<Rightarrow> computer_metadata list \<Rightarrow> ('w, unit) life_io" where
  "bring_gateway rt images =
     io_then (do_call rt (LEnsureImages images))
    (io_then (do_call rt LRender) (io_then (do_call rt LStartGateway) (do_call rt LVerifyGateway)))"

definition startManagedComputer ::
  "(string \<Rightarrow> bool) \<Rightarrow> string \<times> string \<Rightarrow> 'w lifecycle_runtime \<Rightarrow> state_config \<Rightarrow> computer_metadata \<Rightarrow> ('w, unit) life_io"
where
  "startManagedComputer isDate fresh rt config computer =
     io_then (assertNoPendingComputerLifecycle isDate)
    (io_then (do_call rt LValidateDocker)
    (io_bind (observe rt computer) (\<lambda>observed.
     io_then (io_expect (lifecycle_group_ok observed True) ''ambiguous runtime'')
     (let absent = (ob_group observed = GroupAbsent) in
      io_then (bring_gateway rt (if absent then [computer] else []))
      (if absent then
         io_bind (observe rt computer) (\<lambda>current.
         io_then (io_expect (ob_group current = GroupAbsent \<and> ob_status current = ''absent'') ''runtime appeared'')
        (io_bind (beginComputerLifecycle isDate fresh config computer LifeStart FromAbsent []) (\<lambda>j.
         io_then (do_call rt (LStartAbsent computer))
        (io_then (assertRecoveredRuntimeState rt computer j True)
        (io_then (do_call rt (LSynchronizePolicies [computer]))
           (clearComputerLifecycleJournal isDate (lj_operationId j)))))))
       else
         io_bind (requireUnchangedRuntime rt computer (ob_containers observed)) (\<lambda>retained.
         if ob_status retained = ''paused'' \<or> ob_status retained = ''exited'' \<or> ob_status retained = ''created'' then
           io_bind (beginComputerLifecycle isDate fresh config computer LifeStart FromRetained (ob_containers retained)) (\<lambda>j.
           io_then (startRetainedRuntime rt computer (lj_runtimeContainers j) retained)
          (io_then (assertRecoveredRuntimeState rt computer j True)
          (io_then (do_call rt (LSynchronizePolicies [computer]))
             (clearComputerLifecycleJournal isDate (lj_operationId j)))))
         else io_then (wait_ready rt computer) (do_call rt (LSynchronizePolicies [computer]))))))))"

definition stopManagedComputer ::
  "(string \<Rightarrow> bool) \<Rightarrow> string \<times> string \<Rightarrow> 'w lifecycle_runtime \<Rightarrow> state_config \<Rightarrow> computer_metadata \<Rightarrow> ('w, unit) life_io"
where
  "stopManagedComputer isDate fresh rt config computer =
     io_then (assertNoPendingComputerLifecycle isDate)
    (io_then (do_call rt LValidateDocker)
    (io_bind (observe rt computer) (\<lambda>observed.
     io_then (io_expect (lifecycle_group_ok observed False) ''ambiguous runtime'')
     (if ob_status observed = ''exited'' \<or> ob_status observed = ''created'' then io_return ()
      else
        io_bind (beginComputerLifecycle isDate fresh config computer LifeStop FromRetained (ob_containers observed)) (\<lambda>j.
        io_then (do_call rt (LDocker (''stop'' # map rb_id (ob_containers observed))))
       (io_bind (observe rt computer) (\<lambda>stopped.
        io_then (io_expect (lifecycle_group_ok stopped False) ''ambiguous runtime'')
       (io_then (io_expect (sameRuntimeBindings (lj_runtimeContainers j) (ob_containers stopped)
            \<and> (ob_status stopped = ''exited'' \<or> ob_status stopped = ''created'')) ''remained after a successful stop'')
          (clearComputerLifecycleJournal isDate (lj_operationId j))))))))))"

definition restartManagedComputer ::
  "(string \<Rightarrow> bool) \<Rightarrow> string \<times> string \<Rightarrow> 'w lifecycle_runtime \<Rightarrow> state_config \<Rightarrow> computer_metadata \<Rightarrow> ('w, unit) life_io"
where
  "restartManagedComputer isDate fresh rt config computer =
     io_then (assertNoPendingComputerLifecycle isDate)
    (io_then (do_call rt LValidateDocker)
    (io_bind (observe rt computer) (\<lambda>observed.
     io_then (io_expect (\<not> (ob_group observed = GroupAbsent \<and> ob_status observed = ''absent'')) ''no retained runtime to restart'')
    (io_then (io_expect (lifecycle_group_ok observed False) ''ambiguous runtime'')
    (io_then (bring_gateway rt [])
    (io_bind (requireUnchangedRuntime rt computer (ob_containers observed)) (\<lambda>retained.
     io_bind (beginComputerLifecycle isDate fresh config computer LifeRestart FromRetained (ob_containers retained)) (\<lambda>j.
     io_then (do_call rt (LDocker (''restart'' # map rb_id (ob_containers retained))))
    (io_then (wait_ready rt computer)
    (io_then (do_call rt (LReleaseHumanControl computer))
    (io_then (assertRecoveredRuntimeState rt computer j True)
       (clearComputerLifecycleJournal isDate (lj_operationId j)))))))))))))"

section \<open>Recovery\<close>

definition replay_operation ::
  "'w lifecycle_runtime \<Rightarrow> computer_metadata \<Rightarrow> lifecycle_journal \<Rightarrow> observation \<Rightarrow> ('w, unit) life_io"
where
  "replay_operation rt computer j observed =
     (if lj_operation j = LifeStop then
        io_then (do_call rt (LDocker (''stop'' # map rb_id (lj_runtimeContainers j))))
          (assertRecoveredRuntimeState rt computer j False)
      else if lj_operation j = LifeRestart then
        io_then (do_call rt (LDocker (''restart'' # map rb_id (lj_runtimeContainers j))))
       (io_then (wait_ready rt computer)
       (io_then (do_call rt (LReleaseHumanControl computer)) (assertRecoveredRuntimeState rt computer j True)))
      else if lj_source j = FromAbsent then
        io_then (io_when (ob_group observed \<noteq> GroupComplete \<or> ob_status observed \<noteq> ''running'') (do_call rt (LStartAbsent computer)))
       (io_then (assertRecoveredRuntimeState rt computer j True) (do_call rt (LSynchronizePolicies [computer])))
      else
        io_then (startRetainedRuntime rt computer (lj_runtimeContainers j) observed)
       (io_then (assertRecoveredRuntimeState rt computer j True) (do_call rt (LSynchronizePolicies [computer]))))"

definition recoverPendingComputerLifecycle ::
  "(string \<Rightarrow> bool) \<Rightarrow> 'w lifecycle_runtime \<Rightarrow> state_config \<Rightarrow> ('w, bool) life_io"
where
  "recoverPendingComputerLifecycle isDate rt config =
     io_bind (readComputerLifecycleJournal isDate) (\<lambda>pending. case pending of
       None \<Rightarrow> io_return False
     | Some j \<Rightarrow>
         if lj_installationId j \<noteq> sc_installationId config
         then io_fail ''Computer lifecycle journal belongs to another Qubicl installation and was preserved.''
         else (case find_computer config (lj_computerId j) of
             None \<Rightarrow> io_fail ''Computer lifecycle recovery cannot find the configured computer; the journal was preserved.''
           | Some computer \<Rightarrow>
               io_then (do_call rt LValidateDocker)
              (io_then (io_when (lj_operation j = LifeStart \<or> lj_operation j = LifeRestart)
                  (bring_gateway rt (if lj_source j = FromAbsent then [computer] else [])))
              (io_bind (observe rt computer) (\<lambda>observed.
               io_then (if lj_source j = FromRetained
                  then io_expect (recoverable_retained (lj_runtimeContainers j) observed) ''changed or missing immutable runtime IDs; no container was changed.''
                  else io_expect (recoverable_absent computer observed) ''cannot prove partial runtime ownership; no container was changed.'')
              (io_then (replay_operation rt computer j observed)
              (io_then (clearComputerLifecycleJournal isDate (lj_operationId j)) (io_return True))))))))"

section \<open>The journal survives its round trip\<close>

lemma parse_binding_json [simp]: "binding_valid b \<Longrightarrow> parse_binding (binding_json b) = Some b"
  by (cases b) (auto simp: parse_binding_def binding_json_def obj_get_def binding_fields_def Let_def split: option.split)

lemma read_operation_text [simp]: "read_life_operation (life_operation_text op) = Some op"
  by (cases op) (simp_all add: read_life_operation_def life_operation_text_def)

lemma read_source_text [simp]: "read_source (source_text s) = Some s"
  by (cases s) (simp_all add: read_source_def source_text_def)

lemma parse_bindings_json: "list_all binding_valid bs \<Longrightarrow> all_some parse_binding (map binding_json bs) = Some bs"
  by (rule all_some_map) (simp add: list_all_iff)

lemma journal_round_trip: "journal_valid isDate j \<Longrightarrow> parseComputerLifecycleJournal isDate (journal_json j) = Some j"
  by (cases j) (simp add: parseComputerLifecycleJournal_def journal_json_def journal_valid_def obj_get_def
      journal_fields_def lifecycleUuid_def parse_bindings_json)

lemma read_journal_written [simp]:
  "journal_valid isDate j \<Longrightarrow> mc_disk m = JsonFile (journal_json j) \<Longrightarrow> readComputerLifecycleJournal isDate m = (m, Done (Some j))"
  by (simp add: readComputerLifecycleJournal_def io_bind_def io_read_def io_return_def journal_round_trip)

end
