(* ===== verification/Lifecycle_Recovery.thy ===== *)
theory Lifecycle_Recovery
  imports Lifecycle
begin

text \<open>What the journal of the lifecycle commands achieves: the round trip through its file, the
  write-ahead rule, and the confinement and honesty of the recovery, as triples of the logic of
  \<open>Durable\<close> and an interpretation of its locale \<open>recovery\<close>.\<close>

section \<open>Calls and journals\<close>

definition changes_containers :: "lifecycle_call \<Rightarrow> bool" where
  "changes_containers c = (case c of LDocker _ \<Rightarrow> True | LStartAbsent _ \<Rightarrow> True | _ \<Rightarrow> False)"

text \<open>The call stays within what the journal names.\<close>

definition call_confined :: "lifecycle_journal \<Rightarrow> lifecycle_call \<Rightarrow> bool" where
  "call_confined j c = (case c of
       LDocker args \<Rightarrow> args \<noteq> [] \<and> hd args \<in> set [''stop'', ''restart'', ''unpause'', ''start'']
         \<and> set (tl args) \<subseteq> set (map rb_id (lj_runtimeContainers j))
     | LStartAbsent computer \<Rightarrow> cm_id computer = lj_computerId j \<and> lj_source j = FromAbsent
     | _ \<Rightarrow> True)"

definition journalled :: "lifecycle_file \<Rightarrow> lifecycle_call \<Rightarrow> bool" where
  "journalled d c = (changes_containers c \<longrightarrow> (\<exists>j. d = JsonFile (journal_json j) \<and> call_confined j c))"

definition journalled_as :: "lifecycle_journal \<Rightarrow> lifecycle_file \<Rightarrow> lifecycle_call \<Rightarrow> bool" where
  "journalled_as j d c = (d = JsonFile (journal_json j) \<and> call_confined j c)"

lemma journalled_as_imp: "journalled_as j d c \<Longrightarrow> journalled d c"
  by (auto simp: journalled_as_def journalled_def)

section \<open>Steps that keep a condition\<close>

lemma triple_if:
  "(b \<Longrightarrow> io_triple ok L I P p Q) \<Longrightarrow> (\<not> b \<Longrightarrow> io_triple ok L I P q Q) \<Longrightarrow> io_triple ok L I P (if b then p else q) Q"
  by simp

lemma triple_pure: "(b \<Longrightarrow> io_triple ok L I P p Q) \<Longrightarrow> io_triple ok L I (\<lambda>d. b \<and> P d) p Q"
  by (auto simp: io_triple_def)

lemma keep_expect: "io_triple False L I P (io_expect b e) (\<lambda>_. P)"
  unfolding io_expect_def by (rule triple_weaken [OF triple_require [where P = P]]) auto

lemma keep_when: "io_triple False L I P p (\<lambda>_. P) \<Longrightarrow> io_triple False L I P (io_when b p) (\<lambda>_. P)"
  by (rule triple_when) auto

lemma keep_call: "(\<And>d. I d \<Longrightarrow> P d \<Longrightarrow> L d c) \<Longrightarrow> io_triple False L I P (do_call rt c) (\<lambda>_. P)"
  unfolding do_call_def by (rule triple_then, rule triple_call) (auto intro: triple_return)

lemma keep_observe_with:
  fixes rt :: "'w lifecycle_runtime" and I :: "lifecycle_file \<Rightarrow> bool"
  assumes "\<And>d. I d \<Longrightarrow> P d \<Longrightarrow> L d (LObserve computer)"
    and "\<And>w w' o'. rt (LObserve computer) w = (w', Inr (Observed o')) \<Longrightarrow> A o'"
  shows "io_triple False L I P (observe rt computer) (\<lambda>o' d. A o' \<and> P d)"
proof (rule io_tripleI)
  fix m :: "(lifecycle_file, 'w, lifecycle_call) machine"
  assume m: "I (mc_disk m)" "P (mc_disk m)"
  from assms(1) [OF m] m show "io_good False L I (\<lambda>o' d. A o' \<and> P d) m (observe rt computer m)"
    by (cases "rt (LObserve computer) (mc_world m)")
      (auto simp: observe_def io_defs io_good_def split: option.split nat.split sum.split lifecycle_answer.split dest: assms(2))
qed

lemma keep_observe:
  assumes "\<And>d. I d \<Longrightarrow> P d \<Longrightarrow> L d (LObserve computer)"
  shows "io_triple False L I P (observe rt computer) (\<lambda>_. P)"
  by (rule triple_weaken, rule keep_observe_with [where A = "\<lambda>_. True"]) (use assms in auto)

lemma keep_gateway:
  assumes "\<And>d c. I d \<Longrightarrow> P d \<Longrightarrow> \<not> changes_containers c \<Longrightarrow> L d c"
  shows "io_triple False L I P (bring_gateway rt images) (\<lambda>_. P)"
    and "io_triple False L I P (wait_ready rt computer) (\<lambda>_. P)"
    and "io_triple False L I P (connectGatewayToComputer rt computer) (\<lambda>_. P)"
  unfolding bring_gateway_def wait_ready_def connectGatewayToComputer_def
  by (rule triple_then [where R = P] keep_call assms | simp add: changes_containers_def)+

lemma keep_recovered:
  fixes rt :: "'w lifecycle_runtime"
  assumes "\<And>d c. I d \<Longrightarrow> P d \<Longrightarrow> \<not> changes_containers c \<Longrightarrow> L d c"
    and "\<And>w w' o'. rt (LObserve computer) w = (w', Inr (Observed o')) \<Longrightarrow> A o'"
  shows "io_triple False L I P (assertRecoveredRuntimeState rt computer j running)
      (\<lambda>_ d. (\<exists>o'. A o' \<and> runtime_as_expected computer j running o') \<and> P d)"
  unfolding assertRecoveredRuntimeState_def io_expect_def
proof (rule triple_bind)
  show "io_triple False L I P (observe rt computer) (\<lambda>o' d. A o' \<and> P d)"
    by (rule keep_observe_with) (use assms in \<open>auto simp: changes_containers_def\<close>)
  show "io_triple False L I (\<lambda>d. A o' \<and> P d) (io_require (runtime_as_expected computer j running o') e)
      (\<lambda>_ d. (\<exists>o'. A o' \<and> runtime_as_expected computer j running o') \<and> P d)" for o' e
    by (rule triple_weaken [OF triple_require [where P = "\<lambda>d. A o' \<and> P d"]]) auto
qed

lemma keep_read:
  assumes "\<And>d. I d \<Longrightarrow> P d \<Longrightarrow> d = JsonFile (journal_json j)" and "journal_valid isDate j"
  shows "io_triple ok L I P (readComputerLifecycleJournal isDate) (\<lambda>a d. a = Some j \<and> P d)"
  unfolding io_triple_def using assms by (auto simp: io_good_def)

lemma keep_clear:
  assumes "\<And>d. I d \<Longrightarrow> P d \<Longrightarrow> d = JsonFile (journal_json j)" and "journal_valid isDate j" and "I NoFile"
  shows "io_triple ok L I P (clearComputerLifecycleJournal isDate (lj_operationId j)) (\<lambda>_ d. d = NoFile)"
  unfolding clearComputerLifecycleJournal_def
  by (rule triple_bind, rule keep_read [OF assms(1,2)])
    (use assms(3) in \<open>auto intro!: triple_pure triple_write\<close>)

lemma keep_retained:
  assumes "\<And>d c. I d \<Longrightarrow> P d \<Longrightarrow> \<not> changes_containers c \<or> call_confined j c \<Longrightarrow> L d c"
  shows "io_triple False L I P (startRetainedRuntime rt computer (lj_runtimeContainers j) o') (\<lambda>_. P)"
  unfolding startRetainedRuntime_def Let_def
  by (rule triple_then [where R = P] keep_expect keep_when keep_call keep_gateway assms
      | simp add: call_confined_def subset_iff)+

section \<open>The operations write the journal first\<close>

abbreviation new_journal where
  "new_journal fresh config computer op src bs \<equiv>
     \<lparr>lj_operationId = fst fresh, lj_installationId = sc_installationId config, lj_computerId = cm_id computer,
      lj_createdAt = snd fresh, lj_operation = op, lj_source = src, lj_runtimeContainers = bs\<rparr>"

lemma keep_assert: "io_triple False L (\<lambda>_. True) P (assertNoPendingComputerLifecycle isDate) (\<lambda>_ _. True)"
  unfolding io_triple_def by (auto simp: assertNoPendingComputerLifecycle_def readComputerLifecycleJournal_def io_defs
      io_good_def split: lifecycle_file.split option.split)

lemma keep_begin:
  "io_triple False L (\<lambda>_. True) P (beginComputerLifecycle isDate fresh config computer op src bs)
     (\<lambda>j d. j = new_journal fresh config computer op src bs
        \<and> d = JsonFile (journal_json (new_journal fresh config computer op src bs)))"
  unfolding io_triple_def by (auto simp: beginComputerLifecycle_def writeComputerLifecycleJournal_def
      readComputerLifecycleJournal_def io_defs io_good_def Let_def split: lifecycle_file.split option.split nat.split)

lemma keep_clear_any: "io_triple False L (\<lambda>_. True) P (clearComputerLifecycleJournal isDate i) (\<lambda>_ _. True)"
  unfolding io_triple_def by (auto simp: clearComputerLifecycleJournal_def
      readComputerLifecycleJournal_def io_defs io_good_def split: lifecycle_file.split option.split nat.split)

lemma keep_recovered_any:
  assumes "\<And>d c. I d \<Longrightarrow> P d \<Longrightarrow> \<not> changes_containers c \<Longrightarrow> L d c"
  shows "io_triple False L I P (assertRecoveredRuntimeState rt computer j running) (\<lambda>_. P)"
  by (rule triple_weaken [OF keep_recovered [where A = "\<lambda>_. True" and P = P]]) (use assms in auto)

lemma keep_unchanged:
  assumes "\<And>d c. I d \<Longrightarrow> P d \<Longrightarrow> \<not> changes_containers c \<Longrightarrow> L d c"
  shows "io_triple False L I P (requireUnchangedRuntime rt computer bs) (\<lambda>_. P)"
  unfolding requireUnchangedRuntime_def
  by (rule triple_bind [where R = "\<lambda>_. P"] keep_observe triple_then [where R = P] keep_expect triple_return assms
      | simp add: changes_containers_def)+

lemmas keep_steps = triple_then triple_if keep_assert keep_begin keep_expect keep_call keep_gateway
  keep_recovered_any keep_unchanged keep_clear_any keep_observe triple_bind triple_pure

lemma journalled_quiet: "\<not> changes_containers c \<Longrightarrow> journalled d c"
  by (simp add: journalled_def)

lemma journalled_confined:
  "d = JsonFile (journal_json j) \<Longrightarrow> \<not> changes_containers c \<or> call_confined j c \<Longrightarrow> journalled d c"
  by (auto simp: journalled_def)

lemmas journalled_simps = journalled_quiet journalled_confined changes_containers_def call_confined_def

lemma keep_retained_journalled:
  "bs = lj_runtimeContainers j \<Longrightarrow> io_triple False journalled (\<lambda>_. True) (\<lambda>d. d = JsonFile (journal_json j))
     (startRetainedRuntime rt computer bs o') (\<lambda>_ d. d = JsonFile (journal_json j))"
  by (simp, rule keep_retained) (simp add: journalled_confined)

lemma start_journalled:
  "io_triple False journalled (\<lambda>_. True) (\<lambda>_. True) (startManagedComputer isDate fresh rt config computer) (\<lambda>_ _. True)"
  unfolding startManagedComputer_def Let_def
  by (rule keep_steps keep_retained_journalled | simp add: journalled_simps; fail)+

lemma stop_journalled:
  "io_triple False journalled (\<lambda>_. True) (\<lambda>_. True) (stopManagedComputer isDate fresh rt config computer) (\<lambda>_ _. True)"
  unfolding stopManagedComputer_def
  by (rule keep_steps triple_return | simp add: journalled_simps; fail)+

lemma restart_journalled:
  "io_triple False journalled (\<lambda>_. True) (\<lambda>_. True) (restartManagedComputer isDate fresh rt config computer) (\<lambda>_ _. True)"
  unfolding restartManagedComputer_def
  by (rule keep_steps | simp add: journalled_simps; fail)+

section \<open>The recovery\<close>

lemma find_computer_cm_id: "find_computer config i = Some computer \<Longrightarrow> cm_id computer = i"
  by (auto simp: find_computer_def find_Some_iff)

text \<open>The journal is on the disk, or removed.\<close>

definition journal_or_gone :: "lifecycle_journal \<Rightarrow> lifecycle_file \<Rightarrow> bool" where
  "journal_or_gone j d = (d = JsonFile (journal_json j) \<or> d = NoFile)"

lemma journalled_as_rule:
  "d = JsonFile (journal_json j) \<Longrightarrow> \<not> changes_containers c \<or> call_confined j c \<Longrightarrow> journalled_as j d c"
  by (cases c) (auto simp: journalled_as_def changes_containers_def call_confined_def)

lemma replay_triple:
  fixes rt :: "'w lifecycle_runtime"
  assumes "cm_id computer = lj_computerId j"
    and A: "\<And>w w' o'. rt (LObserve computer) w = (w', Inr (Observed o')) \<Longrightarrow> A o'"
  shows "io_triple False (journalled_as j) I (\<lambda>d. d = JsonFile (journal_json j))
     (replay_operation rt computer j observed)
     (\<lambda>_ d. (\<exists>o'. A o' \<and> runtime_as_expected computer j (lj_operation j \<noteq> LifeStop) o') \<and> d = JsonFile (journal_json j))"
proof -
  let ?P = "\<lambda>d. d = JsonFile (journal_json j)"
  have recovered: "io_triple False (journalled_as j) I ?P (assertRecoveredRuntimeState rt computer j running)
      (\<lambda>_ d. (\<exists>o'. A o' \<and> runtime_as_expected computer j (lj_operation j \<noteq> LifeStop) o') \<and> ?P d)"
    if "running \<longleftrightarrow> lj_operation j \<noteq> LifeStop" for running
    unfolding that [symmetric] by (rule keep_recovered [where A = A]) (auto simp: journalled_as_rule A)
  show ?thesis
    unfolding replay_operation_def
    by (rule triple_if triple_then recovered keep_when keep_call keep_gateway keep_retained
        | simp add: journalled_as_rule changes_containers_def call_confined_def assms(1); fail)+
qed

lemma clear_and_report:
  assumes j: "journal_valid isDate j" and I: "E \<Longrightarrow> I NoFile"
  shows "io_triple False (journalled_as j) I (\<lambda>d. E \<and> d = JsonFile (journal_json j))
     (io_then (clearComputerLifecycleJournal isDate (lj_operationId j)) (io_return True)) (\<lambda>_ d. E \<and> d = NoFile)"
  by (rule triple_pure, rule triple_then, rule keep_clear [OF _ j])
    (auto intro: I triple_return)

lemma lifecycle_recovery_from_journal:
  fixes rt :: "'w lifecycle_runtime"
  assumes j: "journal_valid isDate j"
    and A: "\<And>w w' o'. rt (LObserve computer) w = (w', Inr (Observed o')) \<Longrightarrow> A o'"
    and computer: "find_computer config (lj_computerId j) = Some computer"
    and I: "\<And>o'. A o' \<Longrightarrow> runtime_as_expected computer j (lj_operation j \<noteq> LifeStop) o' \<Longrightarrow> I NoFile"
  shows "io_triple False (journalled_as j) I (\<lambda>d. d = JsonFile (journal_json j))
     (recoverPendingComputerLifecycle isDate rt config)
     (\<lambda>_ d. (\<exists>o'. A o' \<and> runtime_as_expected computer j (lj_operation j \<noteq> LifeStop) o') \<and> d = NoFile)"
  unfolding recoverPendingComputerLifecycle_def
  apply (rule triple_bind, rule keep_read [OF _ j], assumption, rule triple_pure)
  apply (simp only: option.case computer)
  apply (rule triple_if, rule triple_fail, simp)
  apply (rule clear_and_report [OF j] triple_then keep_when keep_call keep_gateway keep_observe triple_bind triple_if [where P = "\<lambda>d. d = JsonFile (journal_json j)"]
      keep_expect replay_triple [OF find_computer_cm_id [OF computer] A]
      | assumption | (elim exE conjE, erule (1) I) | simp add: journalled_as_rule changes_containers_def call_confined_def; fail)+
  done

lemma lifecycle_recovery_triple:
  fixes rt :: "'w lifecycle_runtime"
  assumes "journal_valid isDate j"
  shows "io_triple False (journalled_as j) (journal_or_gone j) (\<lambda>_. True)
     (recoverPendingComputerLifecycle isDate rt config) (\<lambda>_ d. d = NoFile)"
proof (rule triple_from)
  fix d assume "journal_or_gone j d"
  then consider "d = NoFile" | "d = JsonFile (journal_json j)" by (auto simp: journal_or_gone_def)
  then show "io_from False (journalled_as j) (journal_or_gone j) d (recoverPendingComputerLifecycle isDate rt config) (\<lambda>_ d. d = NoFile)"
  proof cases
    case 1
    then show ?thesis
      by (simp add: recoverPendingComputerLifecycle_def readComputerLifecycleJournal_def io_from_def io_triple_def
          journal_or_gone_def io_good_def io_bind_def io_read_def io_return_def)
  next
    case 2
    show ?thesis
    proof (cases "find_computer config (lj_computerId j)")
      case None
      with 2 assms show ?thesis
        by (simp add: recoverPendingComputerLifecycle_def io_from_def io_triple_def io_good_def io_bind_def io_fail_def
            journal_or_gone_def)
    next
      case (Some computer)
      have "io_triple False (journalled_as j) (journal_or_gone j) (\<lambda>x. x = d)
          (recoverPendingComputerLifecycle isDate rt config)
          (\<lambda>_ d. (\<exists>o'. True \<and> runtime_as_expected computer j (lj_operation j \<noteq> LifeStop) o') \<and> d = NoFile)"
        unfolding 2 by (rule lifecycle_recovery_from_journal [OF assms _ Some]) (simp_all add: journal_or_gone_def)
      then show ?thesis unfolding io_from_def by (rule triple_weaken) auto
    qed
  qed
qed

text \<open>The recovery of a lifecycle operation is one of \<open>Durable\<close>.\<close>

interpretation life_recovery:
  recovery "recoverPendingComputerLifecycle isDate rt config" False "\<lambda>d c. journal_valid isDate j \<longrightarrow> journalled_as j d c"
    "\<lambda>d. journal_valid isDate j \<and> journal_or_gone j d" "\<lambda>d. d = NoFile"
  for isDate rt config j
  by unfold_locales
    (use lifecycle_recovery_triple in \<open>force simp: io_triple_def io_good_def\<close>)

section \<open>Properties\<close>

lemma io_good_calls:
  "io_good ok L I Q m x \<Longrightarrow> list_all (\<lambda>(d, c). L d c) (drop (length (mc_log m)) (mc_log (fst x)))"
  by (auto simp: io_good_def list_all_iff)

definition demo_digest :: string where
  "demo_digest = replicate 64 CHR ''a''"

definition demo_uuid :: string where
  "demo_uuid = ''00000000-0000-4000-8000-000000000000''"

definition demo_binding :: runtime_binding where
  "demo_binding = \<lparr>rb_name = ''qubicl-a'', rb_id = demo_digest, rb_status = ''exited'', rb_imageId = ''sha256:'' @ demo_digest,
     rb_role = ''computer'', rb_topologyVersion = None\<rparr>"

definition demo_journal :: lifecycle_journal where
  "demo_journal = \<lparr>lj_operationId = demo_uuid, lj_installationId = demo_uuid, lj_computerId = demo_uuid,
     lj_createdAt = ''2026-01-01'', lj_operation = LifeStop, lj_source = FromRetained, lj_runtimeContainers = [demo_binding]\<rparr>"

definition demo_life_config :: state_config where
  "demo_life_config = \<lparr>sc_installationId = demo_uuid, sc_gateway = ''port: 7777'', sc_exposure = None,
     sc_computers = [\<lparr>cm_id = demo_uuid, cm_name = ''a'', cm_contentId = None, cm_settings = [], cm_deletedAt = None\<rparr>]\<rparr>"

text \<open>A Docker that answers every command and reports that nothing runs.\<close>

definition deaf_runtime :: "unit lifecycle_runtime" where
  "deaf_runtime c w = (w, case c of
       LObserve _ \<Rightarrow> Inr (Observed \<lparr>ob_status = ''running'', ob_group = GroupComplete, ob_containers = [demo_binding]\<rparr>)
     | _ \<Rightarrow> Inr Finished)"

definition demo_life_machine :: "(lifecycle_file, unit, lifecycle_call) machine" where
  "demo_life_machine = \<lparr>mc_disk = JsonFile (journal_json demo_journal), mc_world = (), mc_log = [], mc_budget = None\<rparr>"

lemma demo_journal_valid: "journal_valid (\<lambda>_. True) demo_journal"
  by (simp add: journal_valid_def demo_journal_def demo_uuid_def is_uuid_def char_pattern_def uuid_pattern_def is_hex_def
      demo_binding_def binding_valid_def binding_name_char_def is_alnum_def is_lower_hex_def demo_digest_def life_role_def
      journal_source_rule_def numeral_eq_Suc)

text \<open>C35. A lifecycle journal that satisfies its schema is read back from the file it was written
  to exactly as it was, whatever the date parser accepts.\<close>

theorem lifecycle_journal_round_trip:
  assumes "journal_valid isDate j"
  shows "parseComputerLifecycleJournal isDate (journal_json j) = Some j"
  using assms by (rule journal_round_trip)

theorem lifecycle_journal_round_trip_witness:
  "journal_valid (\<lambda>_. True) demo_journal
   \<and> parseComputerLifecycleJournal (\<lambda>_. True) (journal_json demo_journal) = Some demo_journal"
  using demo_journal_valid lifecycle_journal_round_trip [OF demo_journal_valid] by simp


text \<open>C19. However often the recovery is interrupted and run again, the journal stays on the disk
  as it was or is removed, and as long as the recovery makes calls the journal is there and every
  command stays within it: only its containers are stopped, started, unpaused or restarted, and a new
  runtime is created only for its computer and only when it started from none.\<close>

theorem lifecycle_recovery_confined:
  assumes "journal_valid isDate j" and "mc_disk m = JsonFile (journal_json j)"
  shows "journal_or_gone j (mc_disk (interrupted_runs (recoverPendingComputerLifecycle isDate rt config) ks m))
    \<and> list_all (\<lambda>(d, c). journalled_as j d c)
        (drop (length (mc_log m)) (mc_log (interrupted_runs (recoverPendingComputerLifecycle isDate rt config) ks m)))"
proof -
  have inv: "journal_valid isDate j \<and> journal_or_gone j (mc_disk m)" using assms by (simp add: journal_or_gone_def)
  show ?thesis using life_recovery.kept [OF inv, of rt config ks] life_recovery.calls_seen [OF inv, of rt config ks] assms(1)
    by (auto simp: list_all_iff)
qed

theorem lifecycle_recovery_confined_witness:
  "journal_or_gone demo_journal (mc_disk (interrupted_runs
       (recoverPendingComputerLifecycle (\<lambda>_. True) deaf_runtime demo_life_config) [Some 3, None] demo_life_machine))
   \<and> list_all (\<lambda>(d, c). journalled_as demo_journal d c)
        (drop (length (mc_log demo_life_machine)) (mc_log (interrupted_runs
           (recoverPendingComputerLifecycle (\<lambda>_. True) deaf_runtime demo_life_config) [Some 3, None] demo_life_machine)))"
  by (rule lifecycle_recovery_confined [OF demo_journal_valid]) (simp add: demo_life_machine_def)

text \<open>C30. The recovery is honest: when the runtime never reports the state that the operation was
  to bring about, the recovery does not return, and the journal stays.\<close>

theorem lifecycle_recovery_honest:
  fixes rt :: "'w lifecycle_runtime"
  assumes "journal_valid isDate j" and "mc_disk m = JsonFile (journal_json j)"
    and "find_computer config (lj_computerId j) = Some computer"
    and "\<And>w w' o'. rt (LObserve computer) w = (w', Inr (Observed o'))
      \<Longrightarrow> \<not> runtime_as_expected computer j (lj_operation j \<noteq> LifeStop) o'"
  shows "mc_disk (fst (recoverPendingComputerLifecycle isDate rt config m)) = JsonFile (journal_json j)
    \<and> snd (recoverPendingComputerLifecycle isDate rt config m) \<noteq> Done reported"
proof -
  let ?I = "\<lambda>d. d = JsonFile (journal_json j)"
  have "io_triple False (journalled_as j) ?I ?I (recoverPendingComputerLifecycle isDate rt config)
     (\<lambda>_ d. (\<exists>o'. \<not> runtime_as_expected computer j (lj_operation j \<noteq> LifeStop) o'
        \<and> runtime_as_expected computer j (lj_operation j \<noteq> LifeStop) o') \<and> d = NoFile)"
    by (rule lifecycle_recovery_from_journal [OF assms(1) _ assms(3)]) (use assms(4) in auto)
  from io_tripleD [OF this, of m] assms(2) show ?thesis by (auto simp: io_good_def)
qed

text \<open>The runtime of the example keeps running whatever it is told, and the journal is of a stop.\<close>

theorem lifecycle_recovery_honest_witness:
  "mc_disk (fst (recoverPendingComputerLifecycle (\<lambda>_. True) deaf_runtime demo_life_config demo_life_machine))
      = JsonFile (journal_json demo_journal)
    \<and> snd (recoverPendingComputerLifecycle (\<lambda>_. True) deaf_runtime demo_life_config demo_life_machine) \<noteq> Done True"
  by (rule lifecycle_recovery_honest [OF demo_journal_valid, where computer = "hd (sc_computers demo_life_config)"])
    (auto simp: demo_life_machine_def find_computer_def demo_life_config_def demo_journal_def deaf_runtime_def
      runtime_as_expected_def)

end
