(* ===== verification/Client_Scope.thy ===== *)
theory Client_Scope
  imports Json
begin

text \<open>What a client credential allows: the scopes and the tools they cover
  (packages/core/src/client-credentials.ts and tools.ts), the context of a credential that the gateway
  hands to a computer (packages/control/src/client-scope.ts), and the operator's policy
  (packages/control/src/policy.ts).\<close>

section \<open>Scopes\<close>

datatype client_scope = ObserveScope | FilesScope | TasksScope | InteractiveScope | PublishScope

definition CLIENT_CREDENTIAL_SCOPES :: "client_scope list" where
  "CLIENT_CREDENTIAL_SCOPES = [ObserveScope, FilesScope, TasksScope, InteractiveScope, PublishScope]"

text \<open>The text of a scope, in headers and documents.\<close>

fun scope_text :: "client_scope \<Rightarrow> string" where
  "scope_text ObserveScope = ''observe''"
| "scope_text FilesScope = ''files''"
| "scope_text TasksScope = ''tasks''"
| "scope_text InteractiveScope = ''interactive''"
| "scope_text PublishScope = ''publish''"

definition normalizeClientCredentialScopes :: "client_scope list \<Rightarrow> client_scope list" where
  "normalizeClientCredentialScopes scopes = filter (\<lambda>s. s \<in> set scopes) CLIENT_CREDENTIAL_SCOPES"

text \<open>A credential as a route carries it; the instant of its creation is left out.\<close>

record client_credential =
  cc_id :: string
  cc_label :: string
  cc_tokenHash :: string
  cc_scopes :: "client_scope list"

text \<open>\<open>/^[a-z0-9][a-z0-9-]{0,62}$/\<close>\<close>

definition credential_id_pattern :: "string \<Rightarrow> bool" where
  "credential_id_pattern s = (case s of [] \<Rightarrow> False
     | c # cs \<Rightarrow> is_lower_alnum c \<and> length cs \<le> 62 \<and> list_all (\<lambda>c. is_lower_alnum c \<or> c = CHR ''-'') cs)"

definition credential_valid :: "client_credential \<Rightarrow> bool" where
  "credential_valid c =
     (credential_id_pattern (cc_id c)
      \<and> js_trim (cc_label c) = cc_label c \<and> cc_label c \<noteq> [] \<and> length (cc_label c) \<le> 120
      \<and> cc_scopes c \<noteq> [] \<and> distinct (cc_scopes c)
      \<and> length (cc_tokenHash c) = 64 \<and> list_all is_lower_hex (cc_tokenHash c))"

section \<open>Tools\<close>

text \<open>The tools in the order of the table, each with whether it needs a lease; titles, descriptions and input
  schemas are left out.\<close>

definition toolDefinitions :: "(string \<times> bool) list" where
  "toolDefinitions =
     [(''get_computer_status'', False), (''explain_capability'', False), (''acquire_lease'', False),
     (''renew_lease'', False), (''release_lease'', False), (''exec_command'', True),
     (''list_managed_processes'', False), (''process_output'', True), (''save_process_output'', True),
     (''terminal_open'', True), (''terminal_list'', True), (''terminal_read'', True),
     (''terminal_write'', True), (''terminal_resize'', True), (''terminal_signal'', True),
     (''terminal_close'', True), (''write_stdin'', True), (''stop_process'', True), (''list_ports'', False),
     (''publish_port'', True), (''list_previews'', False), (''unpublish_port'', True),
     (''share_preview'', True), (''revoke_preview_share'', True), (''broker_request'', True),
     (''skills_list'', False), (''skill_view'', False), (''skill_manage'', True), (''web_search'', True),
     (''web_extract'', True), (''list_files'', False), (''get_file_info'', False), (''read_file'', False),
     (''write_file'', True), (''edit_file'', True), (''copy_path'', True), (''move_path'', True),
     (''delete_path'', True), (''take_screenshot'', False), (''control_computer'', True),
     (''list_desktop_windows'', False), (''desktop_snapshot'', False), (''desktop_element_action'', True),
     (''desktop_window_action'', True), (''browser_navigate'', True), (''browser_snapshot'', False),
     (''browser_read'', False), (''browser_screenshot'', False), (''browser_click'', True),
     (''browser_type'', True), (''browser_select'', True), (''browser_press'', True),
     (''browser_scroll'', True), (''browser_history'', True), (''browser_wait'', True),
     (''browser_tabs'', False), (''browser_use_tab'', True), (''browser_new_tab'', True),
     (''browser_close_tab'', True), (''browser_reset'', True), (''browser_upload'', True),
     (''browser_downloads'', False), (''browser_cancel_download'', True), (''browser_dialogs'', False),
     (''browser_respond_dialog'', True), (''browser_permissions'', True), (''browser_diagnostics'', False),
     (''browser_set_viewport'', True), (''browser_click_at'', True), (''browser_double_click_at'', True),
     (''browser_hover_at'', True), (''browser_drag'', True), (''browser_scroll_at'', True),
     (''browser_type_focused'', True), (''browser_inspect_at'', False), (''browser_computer'', True),
     (''read_clipboard'', False), (''write_clipboard'', True), (''open_desktop_application'', True),
     (''list_desktop_applications'', False), (''close_desktop_application'', True)]"

definition observeClientTools :: "string list" where
  "observeClientTools =
     [''get_computer_status'', ''explain_capability'', ''list_managed_processes'', ''list_ports'',
     ''list_previews'', ''browser_downloads'', ''browser_dialogs'', ''browser_diagnostics'',
     ''list_desktop_applications'']"

definition fileClientTools :: "string list" where
  "fileClientTools =
     [''skills_list'', ''skill_view'', ''skill_manage'', ''list_files'', ''get_file_info'', ''read_file'',
     ''write_file'', ''edit_file'', ''copy_path'', ''move_path'', ''delete_path'']"

definition taskClientTools :: "string list" where
  "taskClientTools =
     [''exec_command'', ''write_stdin'', ''stop_process'', ''process_output'', ''save_process_output'',
     ''terminal_open'', ''terminal_list'', ''terminal_read'', ''terminal_write'', ''terminal_resize'',
     ''terminal_signal'', ''terminal_close'', ''broker_request'', ''web_search'', ''web_extract'']"

definition publishClientTools :: "string list" where
  "publishClientTools =
     [''publish_port'', ''unpublish_port'', ''share_preview'', ''revoke_preview_share'']"

definition leaseLifecycleClientTools :: "string list" where
  "leaseLifecycleClientTools =
     [''acquire_lease'', ''renew_lease'', ''release_lease'']"

definition interactiveInputTools :: "string list" where
  "interactiveInputTools =
     [''control_computer'', ''desktop_element_action'', ''desktop_window_action'', ''browser_navigate'',
     ''browser_click'', ''browser_type'', ''browser_select'', ''browser_press'', ''browser_scroll'',
     ''browser_history'', ''browser_wait'', ''browser_use_tab'', ''browser_new_tab'', ''browser_close_tab'',
     ''browser_reset'', ''browser_upload'', ''browser_cancel_download'', ''browser_respond_dialog'',
     ''browser_permissions'', ''browser_set_viewport'', ''browser_click_at'', ''browser_double_click_at'',
     ''browser_hover_at'', ''browser_drag'', ''browser_scroll_at'', ''browser_type_focused'',
     ''browser_computer'', ''write_clipboard'', ''open_desktop_application'', ''close_desktop_application'']"

definition interactiveObservationTools :: "string list" where
  "interactiveObservationTools =
     [''list_desktop_windows'', ''desktop_snapshot'', ''take_screenshot'', ''browser_snapshot'',
     ''browser_read'', ''browser_screenshot'', ''browser_tabs'', ''browser_inspect_at'', ''read_clipboard'']"

text \<open>The scopes of which one is needed. A tool without a classification is an error.\<close>

definition requiredClientScopesForTool :: "string \<Rightarrow> client_scope list option" where
  "requiredClientScopesForTool n =
     (if n \<in> set leaseLifecycleClientTools then Some [FilesScope, TasksScope, InteractiveScope, PublishScope]
      else if n \<in> set observeClientTools then Some [ObserveScope]
      else if n \<in> set fileClientTools then Some [FilesScope]
      else if n \<in> set taskClientTools then Some [TasksScope]
      else if n \<in> set publishClientTools then Some [PublishScope]
      else if n \<in> set interactiveInputTools \<or> n \<in> set interactiveObservationTools then Some [InteractiveScope]
      else None)"

definition clientScopesAllowTool :: "client_scope list \<Rightarrow> string \<Rightarrow> bool option" where
  "clientScopesAllowTool scopes n = map_option (list_ex (\<lambda>s. s \<in> set scopes)) (requiredClientScopesForTool n)"

definition isInteractiveInputTool :: "string \<Rightarrow> bool" where
  "isInteractiveInputTool n = (n \<in> set interactiveInputTools)"

definition needs_lease :: "string \<Rightarrow> bool" where
  "needs_lease n = (map_of toolDefinitions n = Some True)"

section \<open>The context of a credential\<close>

record client_context =
  ck_id :: string
  ck_label :: string
  ck_scopes :: "client_scope list"

definition client_context_invalid :: qubicl_error where
  "client_context_invalid = QubiclError ''client_context_invalid'' 500"

text \<open>\<open>replace(/\s+/gu, ' ')\<close>\<close>

fun collapse_spaces :: "string \<Rightarrow> string" where
  "collapse_spaces [] = []"
| "collapse_spaces (c # cs) =
     (if js_space c then (case cs of d # _ \<Rightarrow> if js_space d then collapse_spaces cs else CHR '' '' # collapse_spaces cs
                                   | [] \<Rightarrow> [CHR '' ''])
      else c # collapse_spaces cs)"

definition printable_char :: "char \<Rightarrow> char" where
  "printable_char c = (if (of_char c :: nat) \<le> 0x1f \<or> (of_char c :: nat) = 0x7f then CHR '' '' else c)"

definition safeLabel :: "string \<Rightarrow> string" where
  "safeLabel v =
     (let normalized = js_trim (collapse_spaces (map printable_char v))
      in if normalized = [] then ''Unnamed client'' else normalized)"

text \<open>A missing header and an empty one are the same to the code.\<close>

definition header_text :: "string option \<Rightarrow> string" where
  "header_text h = (case h of None \<Rightarrow> [] | Some v \<Rightarrow> v)"

definition parseClientCredential :: "string option \<Rightarrow> string option \<Rightarrow> string option \<Rightarrow> client_context outcome" where
  "parseClientCredential i l raw =
     (let id = header_text i; label = header_text l; rawScopes = header_text raw in
      if id = [] \<and> label = [] \<and> rawScopes = []
      then Inr \<lparr>ck_id = ''operator-internal'', ck_label = ''Qubicl operator'', ck_scopes = CLIENT_CREDENTIAL_SCOPES\<rparr>
      else if id = [] \<or> \<not> credential_id_pattern id \<or> label = [] \<or> 120 < length label \<or> rawScopes = []
      then Inl client_context_invalid
      else
        (let values = split_on CHR '','' rawScopes;
             scopes = filter (\<lambda>s. scope_text s \<in> set values) CLIENT_CREDENTIAL_SCOPES in
         if scopes = [] \<or> length scopes \<noteq> length values \<or> \<not> distinct values
         then Inl client_context_invalid
         else Inr \<lparr>ck_id = id, ck_label = safeLabel label, ck_scopes = scopes\<rparr>))"

text \<open>The headers of a request, with lower-case names.\<close>

definition clientCredentialFromNodeHeaders :: "(string \<times> string) list \<Rightarrow> client_context outcome" where
  "clientCredentialFromNodeHeaders headers =
     parseClientCredential (map_of headers ''x-qubicl-client-id'') (map_of headers ''x-qubicl-client-label'')
       (map_of headers ''x-qubicl-client-scopes'')"

definition client_scope_denied :: qubicl_error where
  "client_scope_denied = QubiclError ''client_scope_denied'' 403"

definition unclassified_tool :: qubicl_error where
  "unclassified_tool = QubiclError ''internal_error'' 500"

definition assertClientToolScope :: "client_context \<Rightarrow> string \<Rightarrow> unit outcome" where
  "assertClientToolScope client n = (case clientScopesAllowTool (ck_scopes client) n of
       None \<Rightarrow> Inl unclassified_tool
     | Some allowed \<Rightarrow> check allowed client_scope_denied)"

text \<open>The tools of a client: an unclassified tool makes the call fail.\<close>

fun scopedTools :: "client_context \<Rightarrow> string list \<Rightarrow> string list outcome" where
  "scopedTools client [] = Inr []"
| "scopedTools client (n # ns) = (case clientScopesAllowTool (ck_scopes client) n of
       None \<Rightarrow> Inl unclassified_tool
     | Some allowed \<Rightarrow> rbind (scopedTools client ns) (\<lambda>rest. Inr (if allowed then n # rest else rest)))"

section \<open>The operator's policy\<close>

record policy_document =
  pd_version :: int
  pd_revision :: "string option" \<comment> \<open>None: not a string\<close>
  pd_tools :: "string list option" \<comment> \<open>None: not an array\<close>
  pd_catalogSkills :: "string list option"
  pd_skillRegistrySha256 :: string

definition LOCKED_TOOLS :: "string list" where
  "LOCKED_TOOLS = [''get_computer_status'', ''explain_capability'', ''acquire_lease'', ''renew_lease'', ''release_lease'']"

record runtime_policy =
  rp_manifest :: "string list"
  rp_configured :: bool \<comment> \<open>a path is known\<close>
  rp_tools :: "string list"
  rp_catalogSkills :: "string list"
  rp_skillRegistryDigest :: "string option"
  rp_revision :: string

definition new_runtime_policy :: "string list \<Rightarrow> bool \<Rightarrow> runtime_policy" where
  "new_runtime_policy manifest configured = \<lparr>rp_manifest = manifest, rp_configured = configured, rp_tools = manifest,
     rp_catalogSkills = [], rp_skillRegistryDigest = None, rp_revision = ''manifest-default''\<rparr>"

definition skill_name_pattern :: "string \<Rightarrow> bool" where
  "skill_name_pattern s = (case s of [] \<Rightarrow> False | c # cs \<Rightarrow> is_lower_alnum c \<and> list_all (\<lambda>c. is_lower_alnum c \<or> c = CHR ''-'') cs)"

definition skill_path_pattern :: "string \<Rightarrow> bool" where
  "skill_path_pattern s = (case s of [] \<Rightarrow> False
     | c # cs \<Rightarrow> is_lower_alnum c \<and> list_all (\<lambda>c. is_lower_alnum c \<or> c \<in> {CHR ''-'', CHR ''/''}) cs)"

definition skill_id_pattern :: "string \<Rightarrow> bool" where
  "skill_id_pattern s =
     (list_ex (\<lambda>p. starts_with s p \<and> skill_name_pattern (drop (length p) s)) [''qubicl-core/'', ''imported/'']
      \<or> list_ex (\<lambda>p. starts_with s p \<and> skill_path_pattern (drop (length p) s)) [''hermes-default/'', ''hermes-optional/''])"

definition policy_invalid :: "string + 'a" where
  "policy_invalid = Inl ''Qubicl runtime policy is invalid.''"

text \<open>Reading the policy again. \<open>doc\<close> is the parsed file, or why it cannot be read. The result
  says whether the revision has changed.\<close>

definition load_policy :: "string + policy_document \<Rightarrow> runtime_policy \<Rightarrow> runtime_policy \<times> (string + bool)" where
  "load_policy doc p =
     (if \<not> rp_configured p then (p, Inr False)
      else case doc of
        Inl e \<Rightarrow> (p, Inl e)
      | Inr d \<Rightarrow>
          (case (pd_revision d, pd_tools d, pd_catalogSkills d) of
             (Some revision, Some tools, Some skills) \<Rightarrow>
               if pd_version d \<noteq> 1
                 \<or> (pd_skillRegistrySha256 d \<noteq> ''not-initialized''
                    \<and> \<not> (length (pd_skillRegistrySha256 d) = 64 \<and> list_all is_lower_hex (pd_skillRegistrySha256 d)))
               then (p, policy_invalid)
               else if list_ex (\<lambda>n. map_of toolDefinitions n = None \<or> n \<notin> set (rp_manifest p)) tools
               then (p, Inl ''Runtime policy tool is outside the image capability contract.'')
               else if \<not> distinct tools then (p, Inl ''Runtime policy tools must be unique.'')
               else if list_ex (\<lambda>n. n \<notin> set tools) LOCKED_TOOLS then (p, Inl ''Runtime policy must retain a tool.'')
               else if \<not> distinct skills \<or> list_ex (\<lambda>s. \<not> skill_id_pattern s) skills
               then (p, Inl ''Runtime operator skill policy is invalid.'')
               else (p\<lparr>rp_tools := tools, rp_catalogSkills := skills, rp_skillRegistryDigest := Some (pd_skillRegistrySha256 d),
                        rp_revision := revision\<rparr>, Inr (rp_revision p \<noteq> revision))
           | _ \<Rightarrow> (p, policy_invalid)))"

definition isToolEnabled :: "runtime_policy \<Rightarrow> string \<Rightarrow> bool" where
  "isToolEnabled p n = (n \<in> set (rp_tools p))"

section \<open>What the tables say\<close>

text \<open>Every tool has a classification, the tools that only observe need no lease, and every tool that sends
  input needs one.\<close>

lemma tools_classified: "list_all (\<lambda>(n, l). requiredClientScopesForTool n \<noteq> None) toolDefinitions"
  by code_simp

lemma observing_needs_no_lease:
  "list_all (\<lambda>(n, l). requiredClientScopesForTool n = Some [ObserveScope] \<longrightarrow> \<not> l) toolDefinitions"
  by code_simp

lemma input_needs_lease: "list_all needs_lease interactiveInputTools"
  by code_simp

section \<open>The tools of a profile\<close>

datatype tool_profile = FullProfile | FilesProfile | BrowserSemantic | BrowserVisual | DesktopProfile

definition openTerminalImageTools :: "string list" where
  "openTerminalImageTools =
     [''take_screenshot'', ''browser_screenshot'', ''browser_click_at'', ''browser_double_click_at'',
     ''browser_hover_at'', ''browser_drag'', ''browser_scroll_at'', ''browser_type_focused'', ''browser_computer'']"

definition processAndFiles :: "string list" where
  "processAndFiles =
     [''get_computer_status'', ''exec_command'', ''list_managed_processes'', ''process_output'',
     ''save_process_output'', ''write_stdin'', ''stop_process'', ''terminal_open'', ''terminal_list'',
     ''terminal_read'', ''terminal_write'', ''terminal_resize'', ''terminal_signal'', ''terminal_close'',
     ''list_files'', ''get_file_info'', ''read_file'', ''write_file'', ''edit_file'', ''copy_path'', ''move_path'',
     ''delete_path'', ''list_ports'', ''publish_port'', ''list_previews'', ''unpublish_port'', ''share_preview'',
     ''revoke_preview_share'', ''broker_request'', ''skills_list'', ''skill_view'', ''skill_manage'']"

definition semanticBrowser :: "string list" where
  "semanticBrowser =
     [''get_computer_status'', ''skills_list'', ''skill_view'', ''skill_manage'', ''web_search'', ''web_extract'',
     ''browser_navigate'', ''browser_snapshot'', ''browser_read'', ''browser_screenshot'', ''browser_click'',
     ''browser_type'', ''browser_select'', ''browser_press'', ''browser_scroll'', ''browser_history'',
     ''browser_wait'', ''browser_tabs'', ''browser_use_tab'', ''browser_new_tab'', ''browser_close_tab'',
     ''browser_reset'', ''browser_upload'', ''browser_downloads'', ''browser_cancel_download'', ''browser_dialogs'',
     ''browser_respond_dialog'', ''browser_permissions'', ''browser_diagnostics'', ''browser_set_viewport'',
     ''browser_inspect_at'']"

definition visualBrowser :: "string list" where
  "visualBrowser =
     [''get_computer_status'', ''skills_list'', ''skill_view'', ''skill_manage'', ''web_search'', ''web_extract'',
     ''browser_navigate'', ''browser_screenshot'', ''browser_tabs'', ''browser_use_tab'', ''browser_new_tab'',
     ''browser_close_tab'', ''browser_reset'', ''browser_click_at'', ''browser_double_click_at'',
     ''browser_hover_at'', ''browser_drag'', ''browser_scroll_at'', ''browser_type_focused'', ''browser_inspect_at'',
     ''browser_computer'', ''browser_upload'', ''browser_downloads'', ''browser_cancel_download'',
     ''browser_dialogs'', ''browser_respond_dialog'', ''browser_permissions'', ''browser_diagnostics'',
     ''browser_set_viewport'']"

definition desktop :: "string list" where
  "desktop = processAndFiles @
     [''list_desktop_windows'', ''desktop_snapshot'', ''desktop_element_action'', ''desktop_window_action'',
     ''take_screenshot'', ''control_computer'', ''read_clipboard'', ''write_clipboard'',
     ''open_desktop_application'', ''list_desktop_applications'', ''close_desktop_application'']"

fun profile_tools :: "tool_profile \<Rightarrow> string list \<Rightarrow> string list" where
  "profile_tools FullProfile enabled = enabled"
| "profile_tools FilesProfile enabled = processAndFiles"
| "profile_tools BrowserSemantic enabled = semanticBrowser"
| "profile_tools BrowserVisual enabled = visualBrowser"
| "profile_tools DesktopProfile enabled = desktop"

text \<open>A set of JavaScript keeps the order in which its members were first added.\<close>

definition add_enabled :: "string list \<Rightarrow> string list \<Rightarrow> string list" where
  "add_enabled enabled names = foldl (\<lambda>selected n. if n \<in> set enabled \<and> n \<notin> set selected then selected @ [n] else selected) [] names"

definition toolNamesForProfile :: "string list \<Rightarrow> tool_profile \<Rightarrow> bool \<Rightarrow> string list" where
  "toolNamesForProfile enabled profile leaseTransparent =
     filter (\<lambda>n. \<not> leaseTransparent \<or> n \<notin> set leaseLifecycleClientTools) (add_enabled enabled (profile_tools profile enabled))"

lemma add_enabled_set: "set (add_enabled enabled names) = set names \<inter> set enabled \<and> distinct (add_enabled enabled names)"
proof -
  have "set (foldl (\<lambda>selected n. if n \<in> set enabled \<and> n \<notin> set selected then selected @ [n] else selected) acc names) = set acc \<union> set names \<inter> set enabled
      \<and> distinct (foldl (\<lambda>selected n. if n \<in> set enabled \<and> n \<notin> set selected then selected @ [n] else selected) acc names)"
    if "distinct acc" for acc
    using that by (induction names arbitrary: acc) auto
  from this [of "[]"] show ?thesis by (simp add: add_enabled_def)
qed

text \<open>Every tool that a profile selects is enabled and selected once; a client to which leases are
  transparent sees none of the tools that manage them.\<close>

lemma profile_within_enabled:
  "set (toolNamesForProfile enabled profile transparent) \<subseteq> set enabled \<and> distinct (toolNamesForProfile enabled profile transparent)
   \<and> (transparent \<longrightarrow> set (toolNamesForProfile enabled profile transparent) \<inter> set leaseLifecycleClientTools = {})"
  using add_enabled_set [of enabled "profile_tools profile enabled"] by (auto simp: toolNamesForProfile_def)


section \<open>The context reaches the computer\<close>

lemma scope_text_inject [simp]: "scope_text a = scope_text b \<longleftrightarrow> a = b"
  by (cases a; cases b) simp_all

lemma scope_text_clean: "CHR '','' \<notin> set (scope_text s)"
  by (cases s) simp_all

lemma scope_listed [simp]: "s \<in> set CLIENT_CREDENTIAL_SCOPES"
  by (cases s) (simp_all add: CLIENT_CREDENTIAL_SCOPES_def)

lemma normalized_scopes [simp]:
  "set (normalizeClientCredentialScopes scopes) = set scopes" "distinct (normalizeClientCredentialScopes scopes)"
  by (auto simp: normalizeClientCredentialScopes_def) (simp add: CLIENT_CREDENTIAL_SCOPES_def)

lemma normalized_length: "distinct scopes \<Longrightarrow> length (normalizeClientCredentialScopes scopes) = length scopes"
  by (metis distinct_card normalized_scopes)

lemma credential_round_trip:
  assumes "credential_valid c"
  shows "parseClientCredential (Some (cc_id c)) (Some (cc_label c)) (Some (join_with CHR '','' (map scope_text (cc_scopes c))))
    = Inr \<lparr>ck_id = cc_id c, ck_label = safeLabel (cc_label c), ck_scopes = normalizeClientCredentialScopes (cc_scopes c)\<rparr>"
proof -
  let ?raw = "join_with CHR '','' (map scope_text (cc_scopes c))"
  have pieces: "split_on CHR '','' ?raw = map scope_text (cc_scopes c)"
    by (rule split_join) (use assms scope_text_clean in \<open>auto simp: credential_valid_def\<close>)
  have "?raw \<noteq> []"
    using assms by (cases "cc_scopes c" rule: list.exhaust; cases "tl (cc_scopes c)"; cases "hd (cc_scopes c)")
      (auto simp: credential_valid_def)
  moreover have "filter (\<lambda>s. scope_text s \<in> set (map scope_text (cc_scopes c))) CLIENT_CREDENTIAL_SCOPES
      = normalizeClientCredentialScopes (cc_scopes c)"
    by (auto simp: normalizeClientCredentialScopes_def intro!: filter_cong)
  moreover have "normalizeClientCredentialScopes (cc_scopes c) \<noteq> []"
    using assms normalized_scopes(1) [of "cc_scopes c"] by (auto simp: credential_valid_def simp del: normalized_scopes)
  moreover have "distinct (map scope_text (cc_scopes c))"
    using assms by (simp add: credential_valid_def distinct_map inj_on_def)
  ultimately show ?thesis
    using assms pieces normalized_length [of "cc_scopes c"]
    by (simp add: parseClientCredential_def header_text_def Let_def credential_valid_def credential_id_pattern_def split: list.splits)
qed

section \<open>The policy stays within the contract\<close>

definition policy_ok :: "runtime_policy \<Rightarrow> bool" where
  "policy_ok p =
     (set (rp_tools p) \<subseteq> set (rp_manifest p) \<and> (rp_tools p = rp_manifest p
        \<or> distinct (rp_tools p) \<and> set LOCKED_TOOLS \<subseteq> set (rp_tools p) \<and> set (rp_tools p) \<subseteq> fst ` set toolDefinitions))"

lemma load_policy_ok: "policy_ok p \<Longrightarrow> policy_ok (fst (load_policy doc p))"
  by (auto simp: load_policy_def policy_ok_def policy_invalid_def list_ex_iff map_of_eq_None_iff subset_iff Let_def
      split: sum.split option.split)

lemma load_policy_failed: "is_error (snd (load_policy doc p)) \<Longrightarrow> fst (load_policy doc p) = p"
  by (auto simp: load_policy_def Let_def policy_invalid_def split: sum.splits option.splits)

definition loads :: "(string + policy_document) list \<Rightarrow> runtime_policy \<Rightarrow> runtime_policy" where
  "loads docs p = fold (\<lambda>d p. fst (load_policy d p)) docs p"

lemma loads_ok: "policy_ok p \<Longrightarrow> policy_ok (loads docs p)"
  unfolding loads_def by (induction docs arbitrary: p) (simp_all add: load_policy_ok)

lemma load_policy_manifest [simp]: "rp_manifest (fst (load_policy doc p)) = rp_manifest p"
  by (auto simp: load_policy_def Let_def policy_invalid_def split: sum.split option.split)

lemma loads_manifest [simp]: "rp_manifest (loads docs p) = rp_manifest p"
  unfolding loads_def by (induction docs arbitrary: p) simp_all

text \<open>C14. However often the policy of a computer is read again, whatever its file holds, the enabled tools are
  tools of the image's contract, and unless they are all of them they were accepted: without repetition, known, and with the
  tools for the status and the lease. A reading that fails changes nothing.\<close>

theorem policy_stays_within_contract:
  "(\<forall>docs. let tools = rp_tools (loads docs (new_runtime_policy manifest configured)) in
      set tools \<subseteq> set manifest
      \<and> (tools = manifest \<or> distinct tools \<and> set LOCKED_TOOLS \<subseteq> set tools \<and> set tools \<subseteq> fst ` set toolDefinitions))
   \<and> (\<forall>doc p. is_error (snd (load_policy doc p)) = False \<or> fst (load_policy doc p) = p)"
proof -
  have "policy_ok (new_runtime_policy manifest configured)" by (simp add: policy_ok_def new_runtime_policy_def)
  note loaded = loads_ok [OF this]
  have "rp_manifest (loads docs (new_runtime_policy manifest configured)) = manifest" for docs
    by (simp add: new_runtime_policy_def)
  with loaded load_policy_failed show ?thesis unfolding policy_ok_def Let_def by metis
qed

end
