(* ===== verification/Gateway_Headers.thy ===== *)
theory Gateway_Headers
  imports Client_Scope
begin

text \<open>What the gateway forwards to a computer and back: packages/gateway/src/server.ts. A request header of
  Node is a pair of a lower-case name and a value; the raw headers have the names as they were sent.
  \<open>derive\<close> is the key derivation of packages/core/src/runtime.ts.\<close>

section \<open>Routes\<close>

record gateway_route =
  gr_id :: string
  gr_host :: string
  gr_viewHost :: "string option"
  gr_controlPort :: nat
  gr_viewPort :: "nat option"
  gr_controlViewPort :: "nat option"
  gr_viewerAuthentication :: bool
  gr_viewer :: bool \<comment> \<open>the capabilities include the viewer\<close>
  gr_tokenHash :: string
  gr_clientCredentials :: "client_credential list"
  gr_internalKey :: string

text \<open>\<open>th\<close> is the hexadecimal digest of a token.\<close>

definition tokenMatches :: "(string \<Rightarrow> string) \<Rightarrow> string \<Rightarrow> string \<Rightarrow> bool" where
  "tokenMatches th token expectedHex = (th token = expectedHex)"

definition routeAcceptsTokenHash :: "gateway_route \<Rightarrow> string \<Rightarrow> bool" where
  "routeAcceptsTokenHash r h = (gr_tokenHash r = h \<or> list_ex (\<lambda>c. cc_tokenHash c = h) (gr_clientCredentials r))"

definition routeClientCredentials :: "gateway_route \<Rightarrow> client_credential list" where
  "routeClientCredentials r =
     (if list_ex (\<lambda>c. cc_tokenHash c = gr_tokenHash r) (gr_clientCredentials r) then gr_clientCredentials r
      else \<lparr>cc_id = ''default'', cc_label = ''Default client'', cc_tokenHash = gr_tokenHash r, cc_scopes = CLIENT_CREDENTIAL_SCOPES\<rparr>
        # gr_clientCredentials r)"

lemma route_credentials_accepted: "c \<in> set (routeClientCredentials r) \<Longrightarrow> routeAcceptsTokenHash r (cc_tokenHash c)"
  by (auto simp: routeClientCredentials_def routeAcceptsTokenHash_def list_ex_iff split: if_splits)

section \<open>The headers that pass\<close>

type_synonym http_headers = "(string \<times> string) list"

definition HOP_BY_HOP_HEADERS :: "string list" where
  "HOP_BY_HOP_HEADERS = [''connection'', ''keep-alive'', ''proxy-authenticate'', ''proxy-authorization'', ''te'', ''trailer'',
     ''transfer-encoding'', ''upgrade'']"

definition VIEWER_KEY_HEADER :: string where "VIEWER_KEY_HEADER = ''x-qubicl-viewer-key''"

definition PROTECTED_REQUEST_HEADERS :: "string list" where
  "PROTECTED_REQUEST_HEADERS = [''authorization'', ''cookie'', ''host'', ''forwarded'', ''via'', ''cf-connecting-ip'',
     ''true-client-ip'', ''x-client-ip'', ''x-real-ip'', ''x-qubicl-internal-key'', ''x-qubicl-gateway-epoch'',
     ''x-qubicl-operator-key'', VIEWER_KEY_HEADER]"

definition connectionHeaderTokens :: "http_headers \<Rightarrow> string list" where
  "connectionHeaderTokens headers =
     filter (\<lambda>v. v \<noteq> []) (map (\<lambda>v. to_lower (js_trim v)) (split_on CHR '','' (header_text (map_of headers ''connection''))))"

definition stripForwardedHeader :: "string \<Rightarrow> string list \<Rightarrow> bool \<Rightarrow> bool" where
  "stripForwardedHeader name tokens preserveCookie =
     (let normalized = to_lower name in
      if preserveCookie \<and> normalized = ''cookie'' then False
      else normalized \<in> set HOP_BY_HOP_HEADERS \<or> normalized \<in> set PROTECTED_REQUEST_HEADERS \<or> normalized \<in> set tokens
        \<or> starts_with normalized ''x-forwarded-'' \<or> starts_with normalized ''x-qubicl-'')"

definition sanitizedProxyHeaders :: "http_headers \<Rightarrow> bool \<Rightarrow> http_headers" where
  "sanitizedProxyHeaders headers preserveCookie =
     filter (\<lambda>(n, v). \<not> stripForwardedHeader n (connectionHeaderTokens headers) preserveCookie) headers"

definition gatewayResponseHeaders :: "http_headers \<Rightarrow> http_headers" where
  "gatewayResponseHeaders headers =
     filter (\<lambda>(n, v). to_lower n \<notin> set HOP_BY_HOP_HEADERS \<and> to_lower n \<notin> set (connectionHeaderTokens headers)) headers"

definition sanitizedUpgradeHeaderLines :: "http_headers \<Rightarrow> http_headers \<Rightarrow> bool \<Rightarrow> string list" where
  "sanitizedUpgradeHeaderLines rawHeaders headers preserveCookie =
     map (\<lambda>(n, v). n @ '': '' @ v)
       (filter (\<lambda>(n, v). \<not> stripForwardedHeader n (connectionHeaderTokens headers) preserveCookie) rawHeaders)"

section \<open>The request to the computer\<close>

datatype access_surface = LocalSurface | ExternalSurface

fun surface_text :: "access_surface \<Rightarrow> string" where
  "surface_text LocalSurface = ''local''"
| "surface_text ExternalSurface = ''external''"

definition preview_proxy :: "string \<Rightarrow> bool" where
  "preview_proxy path = starts_with path ''/_qubicl/previews/''"

definition preview_headers :: "access_surface \<Rightarrow> http_headers \<Rightarrow> http_headers" where
  "preview_headers surface incoming =
     (case map_of incoming ''authorization'' of None \<Rightarrow> [] | Some a \<Rightarrow> [(''x-qubicl-preview-authorization'', a)])
     @ (case map_of incoming ''host'' of None \<Rightarrow> []
        | Some host \<Rightarrow> [(''x-qubicl-preview-host'', host),
            (''x-qubicl-preview-proto'', if surface = ExternalSurface then ''https'' else ''http'')])"

definition client_headers :: "client_credential option \<Rightarrow> http_headers" where
  "client_headers client = (case client of
       None \<Rightarrow> []
     | Some c \<Rightarrow> [(''x-qubicl-client-id'', cc_id c), (''x-qubicl-client-label'', cc_label c),
         (''x-qubicl-client-scopes'', join_with CHR '','' (map scope_text (cc_scopes c)))])"

text \<open>The assignments to \<open>headers\<close>, in their order.\<close>

definition gateway_headers ::
  "(string \<Rightarrow> string \<Rightarrow> string) \<Rightarrow> string \<Rightarrow> gateway_route \<Rightarrow> string \<Rightarrow> bool \<Rightarrow> access_surface
     \<Rightarrow> client_credential option \<Rightarrow> http_headers \<Rightarrow> http_headers"
where
  "gateway_headers derive gatewayEpoch r path view surface client incoming =
     (if preview_proxy path then preview_headers surface incoming else [])
     @ (if \<not> view then
          [(''x-qubicl-internal-key'', gr_internalKey r), (''x-qubicl-gateway-epoch'', gatewayEpoch),
           (''x-qubicl-access-surface'', surface_text surface)] @ client_headers client
        else if gr_viewerAuthentication r then [(VIEWER_KEY_HEADER, derive (gr_internalKey r) ''viewer'')]
        else [])"

definition set_headers :: "http_headers \<Rightarrow> http_headers \<Rightarrow> http_headers" where
  "set_headers new h = fold (\<lambda>(n, v). AList.update n v) new h"

definition proxy_headers ::
  "(string \<Rightarrow> string \<Rightarrow> string) \<Rightarrow> string \<Rightarrow> gateway_route \<Rightarrow> string \<Rightarrow> bool \<Rightarrow> access_surface
     \<Rightarrow> client_credential option \<Rightarrow> http_headers \<Rightarrow> http_headers"
where
  "proxy_headers derive gatewayEpoch r path view surface client incoming =
     set_headers (gateway_headers derive gatewayEpoch r path view surface client incoming)
       (sanitizedProxyHeaders incoming (preview_proxy path))"

text \<open>Node refuses a header value with a control character: the request is not made, and the call throws.\<close>

definition header_value_ok :: "string \<Rightarrow> bool" where
  "header_value_ok v = list_all (\<lambda>c. let n = (of_char c :: nat) in n = 9 \<or> 32 \<le> n \<and> n \<noteq> 127) v"

definition request_throws :: "http_headers \<Rightarrow> bool" where
  "request_throws h = (\<not> list_all (\<lambda>(n, v). header_value_ok v) h)"

section \<open>Cookies\<close>

definition viewerSessionCookieName :: "access_surface \<Rightarrow> string \<Rightarrow> string" where
  "viewerSessionCookieName surface computerId =
     (if surface = ExternalSurface then ''__Host-qubicl_view_'' @ computerId else ''qubicl_view'')"

definition requestCookie :: "http_headers \<Rightarrow> string \<Rightarrow> string option" where
  "requestCookie headers name = (case map_of headers ''cookie'' of
       None \<Rightarrow> None
     | Some cookie \<Rightarrow> map_option (drop (length name + 1))
         (List.find (\<lambda>v. starts_with v (name @ ''='')) (map js_trim (split_on CHR '';'' cookie))))"

definition securePreviewCookie :: "string \<Rightarrow> string option" where
  "securePreviewCookie v = (case split_on CHR '';'' v of
       [] \<Rightarrow> None
     | pair # attributes \<Rightarrow>
         (let name = to_lower (js_trim (takeWhile (\<lambda>c. c \<noteq> CHR ''='') pair)) in
          if pair = [] \<or> CHR ''='' \<notin> set pair \<or> hd pair = CHR ''='' \<or> name = [] \<or> name \<in> {''qubicl_view'', ''__host-qubicl_view''} then None
          else
            (let retained = filter (\<lambda>a. a \<noteq> [] \<and> \<not> starts_with (to_lower a) ''domain='' \<and> to_lower a \<noteq> ''secure'') (map js_trim attributes)
             in Some (js_trim pair @ concat (map (\<lambda>a. ''; '' @ a) (retained @ [''Secure'']))))))"

section \<open>Cross-origin requests\<close>

definition has_part :: "string \<Rightarrow> string \<Rightarrow> bool" where
  "has_part s p = list_ex (\<lambda>i. starts_with (drop i s) p) [0..<Suc (length s)]"

text \<open>A pattern for the last pieces of a path, which something precedes.\<close>

definition ends_in_pieces :: "(string \<Rightarrow> bool) list \<Rightarrow> string \<Rightarrow> bool" where
  "ends_in_pieces ps s =
     (let pieces = split_on CHR ''/'' s in
      length ps < length pieces \<and> list_all2 (\<lambda>p x. p x) ps (drop (length pieces - length ps) pieces))"

definition job_pattern :: "string \<Rightarrow> bool" where
  "job_pattern s = (16 \<le> length s \<and> length s \<le> 64 \<and> list_all (\<lambda>c. is_alnum c \<or> c \<in> {CHR ''_'', CHR ''-''}) s)"

definition browserMethods :: "string \<Rightarrow> string list" where
  "browserMethods suffix =
     (let execute = [(=) ''open-terminal'', (=) ''execute'', job_pattern] in
      if suffix = ''/openapi.json'' then [''GET'']
      else if starts_with suffix ''/v1/tools/'' then [''POST'']
      else if ends_with suffix ''/open-terminal/execute'' then [''GET'', ''POST'']
      else if ends_in_pieces (execute @ [(=) ''status'']) suffix then [''GET'']
      else if ends_in_pieces (execute @ [(=) ''input'']) suffix then [''POST'']
      else if ends_in_pieces execute suffix then [''DELETE'']
      else if ends_with suffix ''/open-terminal/files/cwd'' then [''GET'', ''POST'']
      else if ends_with suffix ''/files/delete'' then [''DELETE'']
      else if has_part suffix ''/v1/tools/'' \<or> ends_with suffix ''/files/upload'' \<or> ends_with suffix ''/files/mkdir''
        \<or> ends_with suffix ''/files/move'' \<or> ends_with suffix ''/files/archive'' then [''POST'']
      else [''GET''])"

definition join_comma :: "string list \<Rightarrow> string" where
  "join_comma vs = (case vs of [] \<Rightarrow> [] | v # vs \<Rightarrow> v @ concat (map (\<lambda>v. '', '' @ v) vs))"

definition appendVary :: "string option \<Rightarrow> string list \<Rightarrow> string" where
  "appendVary current vs =
     (let entries = filter (\<lambda>v. v \<noteq> []) (map js_trim (case current of None \<Rightarrow> [] | Some c \<Rightarrow> split_on CHR '','' c)) in
      join_comma (foldl (\<lambda>es v. if list_ex (\<lambda>e. to_lower e = to_lower v) es then es else es @ [v]) entries vs))"

definition headerName :: "string \<Rightarrow> string" where
  "headerName v = (if v = ''authorization'' then ''Authorization'' else if v = ''content-type'' then ''Content-Type''
     else if v = ''x-session-id'' then ''X-Session-Id'' else v)"

definition preflight_headers :: "string \<Rightarrow> string list" where
  "preflight_headers suffix =
     (if suffix = ''/openapi.json'' \<or> starts_with suffix ''/v1/tools/'' then [''authorization'', ''content-type'']
      else [''authorization'', ''content-type'', ''x-session-id''])"

text \<open>The headers of the answer to a preflight request, or its refusal. \<open>vary\<close> is what was set before.\<close>

definition handleBrowserPreflight :: "http_headers \<Rightarrow> string \<Rightarrow> string option \<Rightarrow> http_headers outcome" where
  "handleBrowserPreflight headers suffix vary =
     (let requestedHeaders = filter (\<lambda>v. v \<noteq> []) (map (\<lambda>v. to_lower (js_trim v))
            (split_on CHR '','' (header_text (map_of headers ''access-control-request-headers''))));
          allowed = preflight_headers suffix; methods = browserMethods suffix in
      case map_of headers ''access-control-request-method'' of
        None \<Rightarrow> Inl (QubiclError ''cors_preflight_rejected'' 403)
      | Some m \<Rightarrow>
          if m \<notin> set methods \<or> list_ex (\<lambda>v. v \<notin> set allowed) requestedHeaders
          then Inl (QubiclError ''cors_preflight_rejected'' 403)
          else Inr [(''access-control-allow-methods'', join_comma methods),
             (''access-control-allow-headers'', join_comma (map headerName allowed)), (''access-control-max-age'', ''600''),
             (''vary'', appendVary vary [''Access-Control-Request-Method'', ''Access-Control-Request-Headers''])])"

section \<open>What passes the filter\<close>

lemma lower_eq: "to_lower_char c = c \<Longrightarrow> to_lower (c # s) = c # to_lower s"
  by (simp add: to_lower_def)

lemma stripped_prefix: "starts_with (to_lower n) ''x-qubicl-'' \<Longrightarrow> stripForwardedHeader n tokens preserve"
  by (auto simp: stripForwardedHeader_def Let_def)

lemma sanitized_from: "(n, v) \<in> set (sanitizedProxyHeaders headers preserve) \<Longrightarrow>
    (n, v) \<in> set headers \<and> \<not> stripForwardedHeader n (connectionHeaderTokens headers) preserve"
  by (auto simp: sanitizedProxyHeaders_def)

lemma sanitized_lookup: "stripForwardedHeader n (connectionHeaderTokens headers) preserve \<Longrightarrow>
    map_of (sanitizedProxyHeaders headers preserve) n = None"
  by (auto simp: map_of_eq_None_iff dest: sanitized_from)

lemma set_headers_from: "(n, v) \<in> set (set_headers new h) \<Longrightarrow> (n, v) \<in> set new \<or> (n, v) \<in> set h"
  unfolding set_headers_def by (induction new arbitrary: h) (auto dest: set_update_subset)

lemma set_headers_lookup: "distinct (map fst new) \<Longrightarrow>
    map_of (set_headers new h) n = (case map_of new n of Some v \<Rightarrow> Some v | None \<Rightarrow> map_of h n)"
proof (induction new arbitrary: h)
  case (Cons a new)
  then have "map_of new (fst a) = None" by (auto simp: map_of_eq_None_iff)
  with Cons show ?case by (cases a) (auto simp: set_headers_def split: option.split)
qed (simp add: set_headers_def)


lemma upgrade_lines_clean:
  assumes "l \<in> set (sanitizedUpgradeHeaderLines rawHeaders headers preserve)"
  shows "\<exists>n v. (n, v) \<in> set rawHeaders \<and> l = n @ '': '' @ v \<and> \<not> starts_with (to_lower n) ''x-qubicl-''"
proof -
  from assms obtain n v where "(n, v) \<in> set rawHeaders" "l = n @ '': '' @ v"
    "\<not> stripForwardedHeader n (connectionHeaderTokens headers) preserve"
    by (auto simp: sanitizedUpgradeHeaderLines_def)
  then show ?thesis using stripped_prefix by blast
qed

section \<open>What the computer reads\<close>

lemma client_names_stripped:
  "n \<in> {''x-qubicl-client-id'', ''x-qubicl-client-label'', ''x-qubicl-client-scopes''} \<Longrightarrow> stripForwardedHeader n tokens preserve"
  by (rule stripped_prefix) (auto simp: to_lower_def to_lower_char_def)

lemma gateway_headers_distinct: "distinct (map fst (gateway_headers derive epoch r path view surface client incoming))"
  by (cases client; cases view; cases "preview_proxy path"; cases "map_of incoming ''authorization''"; cases "map_of incoming ''host''")
    (simp_all add: gateway_headers_def preview_headers_def client_headers_def VIEWER_KEY_HEADER_def)

lemma client_header_lookup:
  assumes "n \<in> {''x-qubicl-client-id'', ''x-qubicl-client-label'', ''x-qubicl-client-scopes''}"
  shows "map_of (proxy_headers derive epoch r path view surface client incoming) n =
    (if view then None else map_of (client_headers client) n)"
proof -
  have "map_of (gateway_headers derive epoch r path view surface client incoming) n = (if view then None else map_of (client_headers client) n)"
    using assms
    by (elim insertE emptyE; cases client; cases view; cases "preview_proxy path"; cases "map_of incoming ''authorization''"; cases "map_of incoming ''host''")
      (simp_all add: gateway_headers_def preview_headers_def client_headers_def VIEWER_KEY_HEADER_def)
  then show ?thesis
    by (simp add: proxy_headers_def set_headers_lookup [OF gateway_headers_distinct] sanitized_lookup [OF client_names_stripped [OF assms]]
        split: option.split)
qed

text \<open>C13. A computer reads from a forwarded request exactly the credential that the gateway has authenticated: its
  identifier, its label as text for display and its scopes, whatever headers the caller has sent. A request
  without a credential counts as the operator's, so no tool request may be forwarded without one.\<close>

theorem computer_reads_the_credential:
  assumes "\<And>c. client = Some c \<Longrightarrow> credential_valid c"
  shows "clientCredentialFromNodeHeaders (proxy_headers derive epoch r path False surface client incoming) =
    Inr (case client of
        None \<Rightarrow> \<lparr>ck_id = ''operator-internal'', ck_label = ''Qubicl operator'', ck_scopes = CLIENT_CREDENTIAL_SCOPES\<rparr>
      | Some c \<Rightarrow> \<lparr>ck_id = cc_id c, ck_label = safeLabel (cc_label c), ck_scopes = normalizeClientCredentialScopes (cc_scopes c)\<rparr>)"
proof (cases client)
  case None
  then show ?thesis
    by (simp add: clientCredentialFromNodeHeaders_def client_header_lookup client_headers_def parseClientCredential_def header_text_def)
next
  case (Some c)
  then show ?thesis
    using credential_round_trip [OF assms [OF Some]]
    by (simp add: clientCredentialFromNodeHeaders_def client_header_lookup client_headers_def)
qed

section \<open>A forged request\<close>

definition gateway_credential :: client_credential where
  "gateway_credential = \<lparr>cc_id = ''laptop'', cc_label = ''My laptop'', cc_tokenHash = replicate 64 CHR ''a'', cc_scopes = [FilesScope]\<rparr>"

definition demo_route :: gateway_route where
  "demo_route = \<lparr>gr_id = ''c1'', gr_host = ''c1'', gr_viewHost = None, gr_controlPort = 8080, gr_viewPort = None, gr_controlViewPort = None,
     gr_viewerAuthentication = False, gr_viewer = False, gr_tokenHash = replicate 64 CHR ''b'', gr_clientCredentials = [gateway_credential],
     gr_internalKey = ''key''\<rparr>"

definition demo_headers :: http_headers where
  "demo_headers = [(''accept'', ''*/*''), (''authorization'', ''Bearer t''), (''x-qubicl-client-scopes'', ''observe,tasks'')]"


theorem computer_reads_the_credential_witness:
  "clientCredentialFromNodeHeaders (proxy_headers (\<lambda>k s. k) ''e'' demo_route ''/mcp'' False LocalSurface (Some gateway_credential) demo_headers)
   = Inr \<lparr>ck_id = ''laptop'', ck_label = ''My laptop'', ck_scopes = [FilesScope]\<rparr>"
proof -
  have "credential_valid gateway_credential" by code_simp
  then have valid: "credential_valid c" if "Some gateway_credential = Some c" for c using that by simp
  have "safeLabel ''My laptop'' = ''My laptop''" "normalizeClientCredentialScopes [FilesScope] = [FilesScope]" by code_simp+
  with computer_reads_the_credential [where client = "Some gateway_credential", OF valid, of "\<lambda>k s. k" "''e''" demo_route "''/mcp''" LocalSurface demo_headers]
  show ?thesis by (simp add: gateway_credential_def)
qed

text \<open>A label with a line break satisfies the schema, but Node refuses the header.\<close>

lemma label_breaks_requests:
  "credential_valid (gateway_credential\<lparr>cc_label := [CHR ''a'', CHR 0x0A, CHR ''b'']\<rparr>)
   \<and> request_throws (proxy_headers (\<lambda>k s. k) ''e'' demo_route ''/mcp'' False LocalSurface
       (Some (gateway_credential\<lparr>cc_label := [CHR ''a'', CHR 0x0A, CHR ''b'']\<rparr>)) demo_headers)"
  by code_simp

text \<open>The session cookie of the external surface is not the name that the filter for the cookies of previews knows.\<close>

lemma preview_may_set_session_cookie:
  "securePreviewCookie (viewerSessionCookieName ExternalSurface ''c1'' @ ''=x; Path=/'') = Some (''__Host-qubicl_view_c1=x; Path=/; Secure'')"
  by code_simp

end
