(* ===== verification/Gateway_State.thy ===== *)
theory Gateway_State
  imports Gateway_Headers
begin

text \<open>The state of the gateway and what its requests share: the class \<open>Gateway\<close> of
  packages/gateway/src/server.ts. Tickets and sessions of viewers, the sockets of viewers, the queue of
  ownership changes of each computer, the timers that release an abandoned control, rate buckets.

  Time is in milliseconds. A session is known by its key, a random text that is never used twice; a socket by
  a number. A promise chain of \<open>controlTransitions\<close> is a list whose head runs.\<close>

section \<open>State\<close>

record timed_value =
  tv_id :: string
  tv_expiresAt :: int
  tv_tokenHash :: string
  tv_controlling :: bool

record viewer_socket =
  sk_session :: string
  sk_controlling :: bool
  sk_connecting :: bool
  sk_ready :: bool
  sk_paused :: bool
  sk_destroyed :: bool

datatype control_op = TakeControl string | ReleaseControl string | OperatorRelease string | AbandonedRelease string

datatype control_phase = Waiting | Proxied | ProxyAnswered | Releasing | Restoring

record gateway_bucket =
  rb_count :: nat
  rb_resetsAt :: int

record gateway =
  gw_routes :: "(string, gateway_route) js_map"
  gw_tickets :: "(string, timed_value) js_map"
  gw_sessions :: "(string, timed_value) js_map"
  gw_sockets :: "(nat, viewer_socket) js_map"
  gw_transitions :: "(string, (control_op \<times> control_phase) list) js_map"
  gw_timers :: "(string, string \<times> int) js_map" \<comment> \<open>by session: the computer, and when it fires\<close>
  gw_rates :: "(string, gateway_bucket) js_map"
  gw_active :: "(string, nat) js_map"
  gw_epoch :: string
  gw_grace :: int
  gw_closing :: bool

definition new_gateway :: "string \<Rightarrow> int \<Rightarrow> gateway" where
  "new_gateway epoch grace = \<lparr>gw_routes = [], gw_tickets = [], gw_sessions = [], gw_sockets = [], gw_transitions = [],
     gw_timers = [], gw_rates = [], gw_active = [], gw_epoch = epoch, gw_grace = grace, gw_closing = False\<rparr>"

definition EXTERNAL_REQUESTS_PER_MINUTE :: nat where "EXTERNAL_REQUESTS_PER_MINUTE = 240"
definition EXTERNAL_AUTH_FAILURES_PER_MINUTE :: nat where "EXTERNAL_AUTH_FAILURES_PER_MINUTE = 30"
definition EXTERNAL_TICKETS_PER_MINUTE :: nat where "EXTERNAL_TICKETS_PER_MINUTE = 12"
definition MAX_PROXY_REQUESTS_PER_COMPUTER :: nat where "MAX_PROXY_REQUESTS_PER_COMPUTER = 32"
definition MAX_GATEWAY_BUCKETS :: nat where "MAX_GATEWAY_BUCKETS = 4096"
definition MAX_TICKETS :: nat where "MAX_TICKETS = 4096"
definition MAX_VIEW_SESSIONS :: nat where "MAX_VIEW_SESSIONS = 4096"
definition MAX_ROUTE_TICKETS :: nat where "MAX_ROUTE_TICKETS = 128"
definition MAX_ROUTE_SESSIONS :: nat where "MAX_ROUTE_SESSIONS = 128"
definition EXTERNAL_MAX_BODY_BYTES :: int where "EXTERNAL_MAX_BODY_BYTES = 16 * 1024 * 1024"
definition SESSION_LIFETIME :: int where "SESSION_LIFETIME = 12 * 60 * 60 * 1000"
definition TICKET_LIFETIME :: int where "TICKET_LIFETIME = 60000"

definition countTimedValues :: "(string, timed_value) js_map \<Rightarrow> string \<Rightarrow> nat" where
  "countTimedValues vs i = length (filter (\<lambda>v. tv_id v = i) (map_values vs))"

section \<open>Rates\<close>

datatype ip_family = IPv4Family | IPv6Family

text \<open>The address of a peer: without its zone, and an IPv4 address that is mapped into IPv6 as such.\<close>

definition mapped_ipv4 :: "string \<Rightarrow> string option" where
  "mapped_ipv4 s = (if to_lower (take 7 s) = ''::ffff:'' \<and> isIPv4 (drop 7 s) then Some (drop 7 s) else None)"

definition normalizedPeerAddress :: "string option \<Rightarrow> (string \<times> ip_family) option" where
  "normalizedPeerAddress v =
     (let value = header_text v; withoutZone = takeWhile (\<lambda>c. c \<noteq> CHR ''%'') value in
      if value = [] then None
      else case mapped_ipv4 withoutZone of
        Some m \<Rightarrow> Some (m, IPv4Family)
      | None \<Rightarrow> if isIP withoutZone = 4 then Some (withoutZone, IPv4Family)
          else if isIP withoutZone = 6 then Some (withoutZone, IPv6Family) else None)"

definition pruneRateBuckets :: "int \<Rightarrow> gateway \<Rightarrow> gateway" where
  "pruneRateBuckets now g = g\<lparr>gw_rates := filter (\<lambda>(k, b). \<not> rb_resetsAt b \<le> now) (gw_rates g)\<rparr>"

definition count_in_bucket :: "string \<Rightarrow> gateway_bucket \<Rightarrow> nat \<Rightarrow> gateway \<Rightarrow> gateway \<times> bool" where
  "count_in_bucket key b limit g =
     (if limit \<le> rb_count b then (g, False)
      else (g\<lparr>gw_rates := AList.update key (b\<lparr>rb_count := rb_count b + 1\<rparr>) (gw_rates g)\<rparr>, True))"

definition consumeExternalRate :: "string option \<Rightarrow> string \<Rightarrow> nat \<Rightarrow> int \<Rightarrow> gateway \<Rightarrow> gateway \<times> bool" where
  "consumeExternalRate remote category limit now g = (case normalizedPeerAddress remote of
       None \<Rightarrow> (g, False)
     | Some (address, _) \<Rightarrow>
         (let key = address @ ''|'' @ category in
          case map_of (gw_rates g) key of
            Some b \<Rightarrow>
              if rb_resetsAt b \<le> now
              then (let g1 = pruneRateBuckets now g in
                if MAX_GATEWAY_BUCKETS \<le> length (gw_rates g1) then (g1, False)
                else
                  (let fresh = \<lparr>rb_count = 0, rb_resetsAt = now + 60000\<rparr> in
                   count_in_bucket key fresh limit (g1\<lparr>gw_rates := AList.update key fresh (gw_rates g1)\<rparr>)))
              else count_in_bucket key b limit g
          | None \<Rightarrow>
              (let g1 = pruneRateBuckets now g in
               if MAX_GATEWAY_BUCKETS \<le> length (gw_rates g1) then (g1, False)
               else
                 (let fresh = \<lparr>rb_count = 0, rb_resetsAt = now + 60000\<rparr> in
                  count_in_bucket key fresh limit (g1\<lparr>gw_rates := AList.update key fresh (gw_rates g1)\<rparr>)))))"

section \<open>Viewer sockets and abandoned control\<close>

definition socket_live :: "viewer_socket \<Rightarrow> bool" where
  "socket_live s = (\<not> sk_destroyed s)"

definition change_sockets :: "(viewer_socket \<Rightarrow> viewer_socket) \<Rightarrow> gateway \<Rightarrow> gateway" where
  "change_sockets f g = g\<lparr>gw_sockets := map (\<lambda>(n, s). (n, f s)) (gw_sockets g)\<rparr>"

definition closeViewerSockets :: "string \<Rightarrow> bool \<Rightarrow> gateway \<Rightarrow> gateway" where
  "closeViewerSockets key controllingOnly g =
     change_sockets (\<lambda>s. if sk_session s = key \<and> (\<not> controllingOnly \<or> sk_controlling s) then s\<lparr>sk_destroyed := True\<rparr> else s) g"

definition hasControllingViewerSocket :: "string \<Rightarrow> gateway \<Rightarrow> bool" where
  "hasControllingViewerSocket key g =
     list_ex (\<lambda>s. sk_session s = key \<and> sk_controlling s \<and> \<not> sk_destroyed s) (map_values (gw_sockets g))"

definition clearAbandonedControlRelease :: "string \<Rightarrow> gateway \<Rightarrow> gateway" where
  "clearAbandonedControlRelease key g = g\<lparr>gw_timers := AList.delete key (gw_timers g)\<rparr>"

definition armAbandonedControlRelease :: "string \<Rightarrow> string \<Rightarrow> int \<Rightarrow> gateway \<Rightarrow> gateway" where
  "armAbandonedControlRelease key i now g =
     (let g1 = clearAbandonedControlRelease key g in
      if gw_closing g1 \<or> hasControllingViewerSocket key g1 then g1
      else g1\<lparr>gw_timers := AList.update key (i, now + gw_grace g1) (gw_timers g1)\<rparr>)"

section \<open>Expiry\<close>

definition token_accepted :: "timed_value \<Rightarrow> gateway \<Rightarrow> bool" where
  "token_accepted v g = (case map_of (gw_routes g) (tv_id v) of
       None \<Rightarrow> False
     | Some r \<Rightarrow> routeAcceptsTokenHash r (tv_tokenHash v))"

definition prune_session :: "int \<Rightarrow> string \<times> timed_value \<Rightarrow> gateway \<Rightarrow> gateway" where
  "prune_session now kv g = (case kv of (key, v) \<Rightarrow>
     if tv_expiresAt v \<le> now \<or> \<not> token_accepted v g then
       (let g1 = closeViewerSockets key False g in
        if tv_controlling v \<and> token_accepted v g
        then (if map_of (gw_timers g1) key = None then armAbandonedControlRelease key (tv_id v) now g1 else g1)
        else (clearAbandonedControlRelease key g1)\<lparr>gw_sessions := AList.delete key (gw_sessions g1)\<rparr>)
     else g)"

definition pruneExpired :: "int \<Rightarrow> gateway \<Rightarrow> gateway" where
  "pruneExpired now g =
     (let g1 = g\<lparr>gw_tickets := filter (\<lambda>(k, v). \<not> (tv_expiresAt v \<le> now \<or> \<not> token_accepted v g)) (gw_tickets g)\<rparr> in
      fold (prune_session now) (gw_sessions g1) g1)"

text \<open>The session of a request, by the key in its cookie. A session that is used lives on.\<close>

definition validViewSession :: "string option \<Rightarrow> string \<Rightarrow> int \<Rightarrow> gateway \<Rightarrow> gateway \<times> string option" where
  "validViewSession cookie i now g =
     (let g1 = pruneExpired now g in
      case cookie of
        None \<Rightarrow> (g1, None)
      | Some key \<Rightarrow> if key = [] then (g1, None) else
          (case map_of (gw_sessions g1) key of
             None \<Rightarrow> (g1, None)
           | Some v \<Rightarrow>
               if tv_id v \<noteq> i \<or> \<not> token_accepted v g1 \<or> tv_expiresAt v \<le> now then (g1, None)
               else (g1\<lparr>gw_sessions := AList.update key (v\<lparr>tv_expiresAt := now + SESSION_LIFETIME\<rparr>) (gw_sessions g1)\<rparr>, Some key)))"

end
