(* ===== verification/Gateway_Control.thy ===== *)
theory Gateway_Control
  imports Gateway_State
begin

text \<open>Who controls a computer through the viewer: the ownership changes of packages/gateway/src/server.ts. A
  change is an asynchronous operation; those of one computer run one after the other. While one runs, its
  request to the computer is in flight and anything else may happen. A viewer socket is tracked when it
  arrives, connected when no change is running, and forwarded when the connection to the computer stands.\<close>

section \<open>Setting the controller\<close>

definition control_step :: "int \<Rightarrow> string \<Rightarrow> string option \<Rightarrow> string \<times> timed_value \<Rightarrow> gateway \<Rightarrow> gateway" where
  "control_step now i controller kv g = (case kv of (k, v) \<Rightarrow>
     if tv_id v \<noteq> i then g
     else
       (let c = (controller = Some k);
            g1 = (if tv_controlling v \<and> \<not> c then closeViewerSockets k True g else g);
            g2 = g1\<lparr>gw_sessions := AList.update k (v\<lparr>tv_controlling := c\<rparr>) (gw_sessions g1)\<rparr> in
        if c then armAbandonedControlRelease k i now g2 else clearAbandonedControlRelease k g2))"

definition setControllingSession :: "int \<Rightarrow> string \<Rightarrow> string option \<Rightarrow> gateway \<Rightarrow> gateway" where
  "setControllingSession now i controller g = fold (control_step now i controller) (gw_sessions g) g"

section \<open>The queue of ownership changes\<close>

definition transitions_of :: "string \<Rightarrow> gateway \<Rightarrow> (control_op \<times> control_phase) list" where
  "transitions_of i g = (case map_of (gw_transitions g) i of None \<Rightarrow> [] | Some q \<Rightarrow> q)"

definition serializeControlTransition :: "string \<Rightarrow> control_op \<Rightarrow> gateway \<Rightarrow> gateway" where
  "serializeControlTransition i op g =
     g\<lparr>gw_transitions := AList.update i (transitions_of i g @ [(op, Waiting)]) (gw_transitions g)\<rparr>"

definition set_phase :: "string \<Rightarrow> control_phase \<Rightarrow> gateway \<Rightarrow> gateway" where
  "set_phase i p g = (case transitions_of i g of
       [] \<Rightarrow> g
     | (op, _) # q \<Rightarrow> g\<lparr>gw_transitions := AList.update i ((op, p) # q) (gw_transitions g)\<rparr>)"

definition of_computer :: "string \<Rightarrow> gateway \<Rightarrow> viewer_socket \<Rightarrow> bool" where
  "of_computer i g s = (case map_of (gw_sessions g) (sk_session s) of None \<Rightarrow> False | Some v \<Rightarrow> tv_id v = i)"

definition controlled_by :: "gateway \<Rightarrow> viewer_socket \<Rightarrow> bool" where
  "controlled_by g s = (case map_of (gw_sessions g) (sk_session s) of None \<Rightarrow> False | Some v \<Rightarrow> tv_controlling v)"

definition pause_controllers :: "string \<Rightarrow> gateway \<Rightarrow> gateway" where
  "pause_controllers i g = change_sockets (\<lambda>s. if of_computer i g s \<and> sk_controlling s then s\<lparr>sk_paused := True\<rparr> else s) g"

definition finish_transition :: "string \<Rightarrow> gateway \<Rightarrow> gateway" where
  "finish_transition i g =
     (let g1 = change_sockets (\<lambda>s. if of_computer i g s \<and> controlled_by g s \<and> sk_controlling s \<and> sk_ready s
                 then s\<lparr>sk_paused := False\<rparr> else s) g in
      case transitions_of i g1 of
        [] \<Rightarrow> g1
      | [_] \<Rightarrow> g1\<lparr>gw_transitions := AList.delete i (gw_transitions g1)\<rparr>
      | _ # q \<Rightarrow> g1\<lparr>gw_transitions := AList.update i q (gw_transitions g1)\<rparr>)"

text \<open>A request to the computer takes one of its slots.\<close>

definition active_requests :: "string \<Rightarrow> gateway \<Rightarrow> nat" where
  "active_requests i g = (case map_of (gw_active g) i of None \<Rightarrow> 0 | Some n \<Rightarrow> n)"

definition take_slot :: "string \<Rightarrow> gateway \<Rightarrow> gateway" where
  "take_slot i g = g\<lparr>gw_active := AList.update i (active_requests i g + 1) (gw_active g)\<rparr>"

definition release_slot :: "string \<Rightarrow> gateway \<Rightarrow> gateway" where
  "release_slot i g =
     (let remaining = (case map_of (gw_active g) i of None \<Rightarrow> 0 | Some n \<Rightarrow> n - 1) in
      if 0 < remaining then g\<lparr>gw_active := AList.update i remaining (gw_active g)\<rparr>
      else g\<lparr>gw_active := AList.delete i (gw_active g)\<rparr>)"

definition controller_of :: "string \<Rightarrow> gateway \<Rightarrow> string option" where
  "controller_of i g = map_option fst (List.find (\<lambda>(k, v). tv_id v = i \<and> tv_controlling v) (gw_sessions g))"

definition session_controls :: "string \<Rightarrow> gateway \<Rightarrow> bool" where
  "session_controls key g = (case map_of (gw_sessions g) key of None \<Rightarrow> False | Some v \<Rightarrow> tv_controlling v)"

text \<open>The proxied request of a change, or the answer when there is no slot. A change that ends at once is
  finished with the reply to its client.\<close>

definition proxy_transition :: "string \<Rightarrow> gateway \<Rightarrow> gateway \<times> nat option" where
  "proxy_transition i g =
     (if MAX_PROXY_REQUESTS_PER_COMPUTER \<le> active_requests i g then (finish_transition i g, Some 429)
      else (set_phase i Proxied (take_slot i g), None))"

definition viewer_transition :: "bool \<Rightarrow> string \<Rightarrow> string \<Rightarrow> int \<Rightarrow> gateway \<Rightarrow> gateway \<times> nat option" where
  "viewer_transition taking key i now g =
     (case map_of (gw_routes g) i of
        None \<Rightarrow> (finish_transition i g, Some 404)
      | Some r \<Rightarrow>
          (case validViewSession (Some key) i now g of
             (g1, None) \<Rightarrow> (finish_transition i g1, Some 401)
           | (g1, Some _) \<Rightarrow>
               if taking \<and> controller_of i g1 \<noteq> None \<and> controller_of i g1 \<noteq> Some key then (finish_transition i g1, Some 409)
               else if \<not> taking \<and> \<not> session_controls key g1 then (finish_transition i g1, Some 409)
               else proxy_transition i g1))"

definition releaseAbandonedControl :: "string \<Rightarrow> string \<Rightarrow> int \<Rightarrow> gateway \<Rightarrow> gateway" where
  "releaseAbandonedControl key i now g =
     (if gw_closing g \<or> \<not> session_controls key g \<or> hasControllingViewerSocket key g then finish_transition i g
      else case map_of (gw_sessions g) key of
        None \<Rightarrow> finish_transition i g
      | Some v \<Rightarrow>
          if token_accepted v g then set_phase i Releasing g
          else finish_transition i (setControllingSession now i None g))"

text \<open>The beginning of the change at the head of the queue. \<open>gone\<close>: its client has disconnected.\<close>

definition begin_transition :: "string \<Rightarrow> bool \<Rightarrow> int \<Rightarrow> gateway \<Rightarrow> gateway \<times> nat option" where
  "begin_transition i gone now g0 = (case transitions_of i g0 of
       (op, Waiting) # q \<Rightarrow>
         (let g = pause_controllers i g0 in
          case op of
            AbandonedRelease key \<Rightarrow> (releaseAbandonedControl key i now g, None)
          | TakeControl key \<Rightarrow>
              if gone \<or> gw_closing g then (finish_transition i g, None) else viewer_transition True key i now g
          | ReleaseControl key \<Rightarrow>
              if gone \<or> gw_closing g then (finish_transition i g, None) else viewer_transition False key i now g
          | OperatorRelease key \<Rightarrow>
              if gone \<or> gw_closing g then (finish_transition i g, None)
              else case map_of (gw_routes g) i of
                None \<Rightarrow> (finish_transition i g, Some 404)
              | Some r \<Rightarrow> if key = gr_internalKey r then proxy_transition i g else (finish_transition i g, Some 401))
     | _ \<Rightarrow> (g0, None))"

text \<open>The computer has answered the proxied request; then the request is closed, or it is closed without an answer.\<close>

definition proxy_answered :: "string \<Rightarrow> bool \<Rightarrow> int \<Rightarrow> gateway \<Rightarrow> gateway" where
  "proxy_answered i success now g = (case transitions_of i g of
       (op, Proxied) # q \<Rightarrow>
         set_phase i ProxyAnswered
           (if success then setControllingSession now i (case op of TakeControl key \<Rightarrow> Some key | _ \<Rightarrow> None) g else g)
     | _ \<Rightarrow> g)"

definition proxy_settled :: "string \<Rightarrow> gateway \<Rightarrow> gateway" where
  "proxy_settled i g = (case transitions_of i g of
       (op, phase) # q \<Rightarrow> if phase \<in> {Proxied, ProxyAnswered} then finish_transition i (release_slot i g) else g
     | _ \<Rightarrow> g)"

text \<open>The end of the request that releases an abandoned control, and of the one that restores it.\<close>

definition release_answered :: "string \<Rightarrow> bool \<Rightarrow> int \<Rightarrow> gateway \<Rightarrow> gateway" where
  "release_answered i released now g = (case transitions_of i g of
       (AbandonedRelease key, Releasing) # q \<Rightarrow>
         (if gw_closing g \<or> \<not> session_controls key g then finish_transition i g
          else if hasControllingViewerSocket key g then
            (case map_of (gw_sessions g) key of
               Some v \<Rightarrow> if token_accepted v g then set_phase i Restoring g
                 else finish_transition i (setControllingSession now i None g)
             | None \<Rightarrow> finish_transition i g)
          else if released then finish_transition i (setControllingSession now i None g)
          else finish_transition i (armAbandonedControlRelease key i now g))
     | _ \<Rightarrow> g)"

definition restore_answered :: "string \<Rightarrow> bool \<Rightarrow> int \<Rightarrow> gateway \<Rightarrow> gateway" where
  "restore_answered i restored now g = (case transitions_of i g of
       (AbandonedRelease key, Restoring) # q \<Rightarrow>
         (if restored \<and> \<not> gw_closing g \<and> session_controls key g then
            finish_transition i (if hasControllingViewerSocket key g then g else armAbandonedControlRelease key i now g)
          else finish_transition i (setControllingSession now i None g))
     | _ \<Rightarrow> g)"

text \<open>The timer of an abandoned control.\<close>

definition timer_due :: "string \<Rightarrow> int \<Rightarrow> gateway \<Rightarrow> gateway" where
  "timer_due key now g = (case map_of (gw_timers g) key of
       None \<Rightarrow> g
     | Some (i, at) \<Rightarrow>
         if now < at then g
         else serializeControlTransition i (AbandonedRelease key) (clearAbandonedControlRelease key g))"

section \<open>Viewer sockets\<close>

text \<open>The upgrade of a request with the cookie of a session; \<open>n\<close> is the new socket.\<close>

definition trackViewerSocket :: "nat \<Rightarrow> string \<Rightarrow> gateway \<Rightarrow> gateway" where
  "trackViewerSocket n key g =
     (let c = session_controls key g;
          s = \<lparr>sk_session = key, sk_controlling = c, sk_connecting = False, sk_ready = False, sk_paused = True, sk_destroyed = False\<rparr>;
          g1 = g\<lparr>gw_sockets := gw_sockets g @ [(n, s)]\<rparr> in
      if c then clearAbandonedControlRelease key g1 else g1)"

definition open_socket :: "nat \<Rightarrow> string option \<Rightarrow> string \<Rightarrow> int \<Rightarrow> gateway \<Rightarrow> gateway" where
  "open_socket n cookie i now g = (case validViewSession cookie i now g of
       (g1, None) \<Rightarrow> g1
     | (g1, Some key) \<Rightarrow> trackViewerSocket n key g1)"

definition update_socket :: "nat \<Rightarrow> viewer_socket \<Rightarrow> gateway \<Rightarrow> gateway" where
  "update_socket n s g = g\<lparr>gw_sockets := AList.update n s (gw_sockets g)\<rparr>"

text \<open>\<open>connectViewerAfterTransitions\<close>, when no change of the computer is queued: the choice of the port, and
  the state of the connection afterwards. \<open>same\<close>: the route still names the same backend.\<close>

definition connect_viewer :: "nat \<Rightarrow> string \<Rightarrow> int \<Rightarrow> gateway \<Rightarrow> gateway" where
  "connect_viewer n i now g = (case map_of (gw_sockets g) n of
       None \<Rightarrow> g
     | Some s \<Rightarrow>
         if transitions_of i g \<noteq> [] \<or> sk_destroyed s \<or> gw_closing g \<or> sk_connecting s then g
         else (case (map_of (gw_routes g) i, validViewSession (Some (sk_session s)) i now g) of
             (Some r, (g1, Some key)) \<Rightarrow>
               if gr_viewPort r = None \<or> gr_controlViewPort r = None then g1
               else (case map_of (gw_sockets g1) n of
                   None \<Rightarrow> g1
                 | Some s1 \<Rightarrow> update_socket n (s1\<lparr>sk_controlling := session_controls key g1, sk_connecting := True\<rparr>) g1)
           | (Some r, (g1, None)) \<Rightarrow> g1
           | (None, _) \<Rightarrow> g))"

definition backend_connected :: "nat \<Rightarrow> string \<Rightarrow> bool \<Rightarrow> int \<Rightarrow> gateway \<Rightarrow> gateway" where
  "backend_connected n i same now g = (case map_of (gw_sockets g) n of
       None \<Rightarrow> g
     | Some s \<Rightarrow>
         if transitions_of i g \<noteq> [] \<or> sk_destroyed s \<or> gw_closing g \<or> \<not> sk_connecting s \<or> sk_ready s then g
         else (case (map_of (gw_routes g) i, validViewSession (Some (sk_session s)) i now g) of
             (Some r, (g1, Some key)) \<Rightarrow>
               if session_controls key g1 \<noteq> sk_controlling s \<or> \<not> same then g1
               else (case map_of (gw_sockets g1) n of
                   None \<Rightarrow> g1
                 | Some s1 \<Rightarrow> update_socket n (s1\<lparr>sk_ready := True, sk_paused := False\<rparr>) g1)
           | (Some r, (g1, None)) \<Rightarrow> g1
           | (None, _) \<Rightarrow> g))"

definition socket_destroyed :: "nat \<Rightarrow> gateway \<Rightarrow> gateway" where
  "socket_destroyed n g = (case map_of (gw_sockets g) n of
       None \<Rightarrow> g
     | Some s \<Rightarrow> update_socket n (s\<lparr>sk_destroyed := True\<rparr>) g)"

definition socket_closed :: "nat \<Rightarrow> int \<Rightarrow> gateway \<Rightarrow> gateway" where
  "socket_closed n now g = (case map_of (gw_sockets g) n of
       None \<Rightarrow> g
     | Some s \<Rightarrow>
         (let g1 = g\<lparr>gw_sockets := AList.delete n (gw_sockets g)\<rparr> in
          case map_of (gw_sessions g1) (sk_session s) of
            None \<Rightarrow> g1
          | Some v \<Rightarrow> if sk_controlling s \<and> tv_controlling v then armAbandonedControlRelease (sk_session s) (tv_id v) now g1 else g1))"

definition close_gateway :: "gateway \<Rightarrow> gateway" where
  "close_gateway g = change_sockets (\<lambda>s. s\<lparr>sk_destroyed := True\<rparr>) (g\<lparr>gw_closing := True, gw_timers := []\<rparr>)"

end
