(* ===== verification/Gateway_Requests.thy ===== *)
theory Gateway_Requests
  imports Gateway_Control
begin

text \<open>How the gateway answers a request: \<open>handle\<close> and \<open>upgrade\<close> of packages/gateway/src/server.ts with the checks
  they use. A request carries its headers as Node presents them, with lower-case names, and the raw ones; the
  URL parser of the platform, the digest of tokens and the match of a peer against the allowed networks are
  arguments. Of the answers, the status and the code are kept.\<close>

section \<open>Requests and surfaces\<close>

record url_parts =
  ur_protocol :: string
  ur_hostname :: string
  ur_host :: string
  ur_pathname :: string
  ur_search :: string
  ur_origin :: string
  ur_ticket :: "string option" \<comment> \<open>the query parameter\<close>

record http_library =
  hl_url :: "string \<Rightarrow> url_parts option" \<comment> \<open>\<open>new URL(value)\<close>, or it throws\<close>
  hl_target :: "string \<Rightarrow> url_parts option" \<comment> \<open>\<open>new URL(value, 'http://gateway.local')\<close>\<close>
  hl_hash :: "string \<Rightarrow> string"

record exposure =
  ex_hostname :: string
  ex_port :: nat
  ex_previewDomain :: "string option"
  ex_trustedOrigins :: "string list"
  ex_allows :: "string option \<Rightarrow> bool"

record gateway_request =
  rq_method :: string
  rq_target :: string
  rq_remote :: "string option"
  rq_headers :: http_headers
  rq_rawHeaders :: http_headers
  rq_encrypted :: bool
  rq_servername :: "string option"

text \<open>The local surface is None.\<close>

definition surface_of :: "exposure option \<Rightarrow> access_surface" where
  "surface_of ex = (case ex of None \<Rightarrow> LocalSurface | Some _ \<Rightarrow> ExternalSurface)"

definition rq_header :: "string \<Rightarrow> gateway_request \<Rightarrow> string option" where
  "rq_header n rq = map_of (rq_headers rq) n"

section \<open>Hosts and origins\<close>

definition hex_dash :: "char \<Rightarrow> bool" where
  "hex_dash c = (is_lower_hex c \<or> c = CHR ''-'')"

definition canonical_id :: "string \<Rightarrow> bool" where
  "canonical_id s = (length s = 36 \<and> list_all hex_dash s)"

text \<open>None: the function throws.\<close>

definition previewHostname :: "string \<Rightarrow> string option" where
  "previewHostname i = (if canonical_id i then Some (''preview-'' @ i @ ''.localhost'') else None)"

definition gatewayPreviewHostname :: "string \<Rightarrow> string \<Rightarrow> string option" where
  "gatewayPreviewHostname i previewDomain = (if canonical_id i then Some (''preview-'' @ i @ ''.'' @ previewDomain) else None)"

definition gatewayExposureOrigin :: "string \<Rightarrow> nat \<Rightarrow> string" where
  "gatewayExposureOrigin hostname port =
     ''https://'' @ (if isIP hostname = 6 then ''['' @ hostname @ '']'' else hostname)
     @ (if port = 443 then [] else '':'' @ show_nat port)"

definition requestHost :: "http_library \<Rightarrow> gateway_request \<Rightarrow> string option" where
  "requestHost lib rq = (case rq_header ''host'' rq of
       None \<Rightarrow> None
     | Some v \<Rightarrow> map_option ur_hostname (hl_url lib (''http://'' @ v)))"

definition lower_host :: "http_library \<Rightarrow> gateway_request \<Rightarrow> string option" where
  "lower_host lib rq = (case requestHost lib rq of None \<Rightarrow> None | Some h \<Rightarrow> if h = [] then None else Some (to_lower h))"

definition isPreviewRequestHost :: "http_library \<Rightarrow> exposure option \<Rightarrow> gateway_request \<Rightarrow> string \<Rightarrow> bool option" where
  "isPreviewRequestHost lib ex rq i = (case lower_host lib rq of
       None \<Rightarrow> Some False
     | Some actual \<Rightarrow>
         (case ex of
            None \<Rightarrow> map_option (\<lambda>h. actual = h) (previewHostname i)
          | Some x \<Rightarrow>
              (case ex_previewDomain x of
                 None \<Rightarrow> Some False
               | Some d \<Rightarrow> map_option (\<lambda>h. actual = h) (gatewayPreviewHostname i d))))"

text \<open>\<open>/^([a-f0-9]{16})--preview-([a-f0-9-]{36})$/\<close>\<close>

definition publication_label :: "string \<Rightarrow> (string \<times> string) option" where
  "publication_label label =
     (let p = take 16 label; i = drop 26 label in
      if length p = 16 \<and> list_all is_lower_hex p \<and> take 10 (drop 16 label) = ''--preview-'' \<and> canonical_id i then Some (p, i) else None)"

definition publicationPreviewIdentity :: "string \<Rightarrow> string option \<Rightarrow> (string \<times> string) option" where
  "publicationPreviewIdentity actual previewDomain = (case previewDomain of
       None \<Rightarrow> None
     | Some d \<Rightarrow>
         if d = [] \<or> \<not> ends_with actual (''.'' @ d) then None
         else publication_label (take (length actual - length d - 1) actual))"

definition publicationPreviewRequest :: "http_library \<Rightarrow> exposure option \<Rightarrow> gateway_request \<Rightarrow> (string \<times> string) option" where
  "publicationPreviewRequest lib ex rq = (case lower_host lib rq of
       None \<Rightarrow> None
     | Some actual \<Rightarrow> publicationPreviewIdentity actual (case ex of None \<Rightarrow> Some ''localhost'' | Some x \<Rightarrow> ex_previewDomain x))"

text \<open>An origin that is the expected one and that the parser gives back as it is.\<close>

definition exact_origin :: "http_library \<Rightarrow> string \<Rightarrow> string \<Rightarrow> string option \<Rightarrow> bool" where
  "exact_origin lib origin expected protocol =
     (origin = expected \<and> (case hl_url lib origin of
        None \<Rightarrow> False
      | Some u \<Rightarrow> (case protocol of None \<Rightarrow> True | Some p \<Rightarrow> ur_protocol u = p) \<and> ur_origin u = expected))"

definition surface_protocol :: "exposure option \<Rightarrow> string" where
  "surface_protocol ex = (case ex of None \<Rightarrow> ''http:'' | Some _ \<Rightarrow> ''https:'')"

definition hasExactViewerOrigin :: "http_library \<Rightarrow> exposure option \<Rightarrow> gateway_request \<Rightarrow> bool" where
  "hasExactViewerOrigin lib ex rq = (case (rq_header ''host'' rq, rq_header ''origin'' rq) of
       (Some host, Some origin) \<Rightarrow>
         exact_origin lib origin
           (case ex of None \<Rightarrow> ''http://'' @ host | Some x \<Rightarrow> gatewayExposureOrigin (ex_hostname x) (ex_port x))
           (Some (surface_protocol ex))
     | _ \<Rightarrow> False)"

definition hasExactPreviewOrigin :: "http_library \<Rightarrow> exposure option \<Rightarrow> gateway_request \<Rightarrow> string \<Rightarrow> bool" where
  "hasExactPreviewOrigin lib ex rq i = (case (rq_header ''host'' rq, rq_header ''origin'' rq) of
       (Some host, Some origin) \<Rightarrow>
         (case (case ex of
             None \<Rightarrow> Some (''http://'' @ host)
           | Some x \<Rightarrow> (case ex_previewDomain x of
                 None \<Rightarrow> None
               | Some d \<Rightarrow> map_option (\<lambda>h. gatewayExposureOrigin h (ex_port x)) (gatewayPreviewHostname i d))) of
            None \<Rightarrow> False
          | Some expected \<Rightarrow> exact_origin lib origin expected (Some (surface_protocol ex)))
     | _ \<Rightarrow> False)"

definition hasExactRequestOrigin :: "http_library \<Rightarrow> exposure option \<Rightarrow> gateway_request \<Rightarrow> bool" where
  "hasExactRequestOrigin lib ex rq = (case (rq_header ''host'' rq, rq_header ''origin'' rq) of
       (Some host, Some origin) \<Rightarrow>
         exact_origin lib origin ((case ex of None \<Rightarrow> ''http'' | Some _ \<Rightarrow> ''https'') @ ''://'' @ host) None
     | _ \<Rightarrow> False)"

definition browserOrigin :: "http_library \<Rightarrow> exposure option \<Rightarrow> string \<Rightarrow> string option" where
  "browserOrigin lib ex v = (case ex of
       Some x \<Rightarrow> if v \<in> set (ex_trustedOrigins x) then Some v else None
     | None \<Rightarrow>
         (case hl_url lib v of
            None \<Rightarrow> None
          | Some u \<Rightarrow>
              if ur_protocol u \<noteq> ''http:'' \<or> ur_origin u \<noteq> v then None
              else if ur_hostname u \<notin> {''127.0.0.1'', ''localhost'', ''[::1]''} then None
              else Some (ur_origin u)))"

section \<open>The authority of an external request\<close>

definition rawHeaderCount :: "gateway_request \<Rightarrow> string \<Rightarrow> nat" where
  "rawHeaderCount rq expectedName = length (filter (\<lambda>(n, v). to_lower n = expectedName) (rq_rawHeaders rq))"

text \<open>The computer of a path for previews: \<open>/^\/computers\/([a-f0-9-]+)\/previews(?:\/|$)/\<close>\<close>

definition preview_path_id :: "string \<Rightarrow> string option" where
  "preview_path_id path = (case split_on CHR ''/'' path of
       e # c # i # p # _ \<Rightarrow> if e = [] \<and> c = ''computers'' \<and> i \<noteq> [] \<and> list_all hex_dash i \<and> p = ''previews'' then Some i else None
     | _ \<Rightarrow> None)"

definition authority_hostname :: "http_library \<Rightarrow> exposure \<Rightarrow> gateway_request \<Rightarrow> string \<Rightarrow> string option" where
  "authority_hostname lib x rq path =
     (let publication = publicationPreviewIdentity (case requestHost lib rq of None \<Rightarrow> [] | Some h \<Rightarrow> to_lower h) (ex_previewDomain x) in
      case preview_path_id path of
        Some i \<Rightarrow>
          if \<not> canonical_id i then None
          else if publication \<noteq> None then requestHost lib rq
          else (case ex_previewDomain x of None \<Rightarrow> None | Some d \<Rightarrow> gatewayPreviewHostname i d)
      | None \<Rightarrow> if publication \<noteq> None then requestHost lib rq else Some (ex_hostname x))"

text \<open>None: the URL parser throws.\<close>

definition validExternalRequestAuthority :: "http_library \<Rightarrow> exposure \<Rightarrow> gateway_request \<Rightarrow> string \<Rightarrow> bool option" where
  "validExternalRequestAuthority lib x rq path = (case authority_hostname lib x rq path of
       None \<Rightarrow> Some False
     | Some expectedHostname \<Rightarrow>
         if expectedHostname = [] then Some False
         else (case hl_url lib (gatewayExposureOrigin expectedHostname (ex_port x)) of
             None \<Rightarrow> None
           | Some u \<Rightarrow>
               (case rq_header ''host'' rq of
                  None \<Rightarrow> Some False
                | Some host \<Rightarrow>
                    Some (rawHeaderCount rq ''host'' = 1 \<and> to_lower host = to_lower (ur_host u) \<and> rq_encrypted rq
                      \<and> (if isIP expectedHostname \<noteq> 0
                         then map_option to_lower (rq_servername rq) \<in> {None, Some expectedHostname}
                         else map_option to_lower (rq_servername rq) = Some expectedHostname)))))"

definition allowedExternalServerName :: "string \<Rightarrow> exposure \<Rightarrow> bool" where
  "allowedExternalServerName servername x =
     (let normalized = to_lower servername in
      normalized = ex_hostname x
      \<or> (case ex_previewDomain x of
           None \<Rightarrow> False
         | Some d \<Rightarrow> d \<noteq> [] \<and> ends_with normalized (''.'' @ d)
             \<and> (let label = take (length normalized - length d - 1) normalized in
                publication_label label \<noteq> None \<or> starts_with label ''preview-'' \<and> canonical_id (drop 8 label))))"

definition externalBodyTooLarge :: "gateway_request \<Rightarrow> bool" where
  "externalBodyTooLarge rq = (case rq_header ''content-length'' rq of
       None \<Rightarrow> False
     | Some v \<Rightarrow> v = [] \<or> \<not> list_all is_digit v \<or> EXTERNAL_MAX_BODY_BYTES < int (read_nat v))"

section \<open>Who asks\<close>

text \<open>\<open>/^Bearer\s+(.+)$/i\<close>\<close>

definition line_end :: "char \<Rightarrow> bool" where
  "line_end c = ((of_char c :: nat) \<in> {10, 13})"

definition bearer_token :: "gateway_request \<Rightarrow> string option" where
  "bearer_token rq = (case rq_header ''authorization'' rq of
       None \<Rightarrow> None
     | Some v \<Rightarrow>
         (let rest = drop 6 v; spaces = takeWhile js_space rest; token = dropWhile js_space rest in
          if to_lower (take 6 v) \<noteq> ''bearer'' \<or> spaces = [] then None
          else if token = [] then (if 2 \<le> length spaces \<and> \<not> line_end (last spaces) then Some [last spaces] else None)
          else if list_ex line_end token then None else Some token))"

definition bearer_client :: "http_library \<Rightarrow> gateway_request \<Rightarrow> gateway_route \<Rightarrow> client_credential option" where
  "bearer_client lib rq r = (case bearer_token rq of
       None \<Rightarrow> None
     | Some token \<Rightarrow> List.find (\<lambda>c. tokenMatches (hl_hash lib) token (cc_tokenHash c)) (routeClientCredentials r))"

datatype gateway_answer =
    Refused nat string
  | Crashed \<comment> \<open>the handler throws\<close>
  | GatewayHealth
  | Preflight string http_headers \<comment> \<open>with the allowed origin\<close>
  | TicketIssued string
  | SessionOpened string
  | ViewerPage
  | ControlStatus bool "int option"
  | Forwarded string string bool "client_credential option" \<comment> \<open>computer, path, to the viewer, client\<close>
  | ChangeQueued string control_op

definition rate_limited :: gateway_answer where "rate_limited = Refused 429 ''rate_limited''"

definition requireBearer ::
  "http_library \<Rightarrow> exposure option \<Rightarrow> int \<Rightarrow> gateway_request \<Rightarrow> gateway_route \<Rightarrow> gateway
     \<Rightarrow> gateway \<times> (gateway_answer + client_credential)"
where
  "requireBearer lib ex now rq r g = (case bearer_client lib rq r of
       Some c \<Rightarrow> (g, Inr c)
     | None \<Rightarrow>
         if ex = None then (g, Inl (Refused 401 ''unauthorized''))
         else (case consumeExternalRate (rq_remote rq) (''auth-failure:'' @ gr_id r) EXTERNAL_AUTH_FAILURES_PER_MINUTE now g of
             (g1, True) \<Rightarrow> (g1, Inl (Refused 401 ''unauthorized''))
           | (g1, False) \<Rightarrow> (g1, Inl rate_limited)))"

definition requireClientScope :: "client_credential \<Rightarrow> client_scope \<Rightarrow> bool" where
  "requireClientScope c scope = (scope \<in> set (cc_scopes c))"

definition requireOperator :: "gateway_request \<Rightarrow> gateway_route \<Rightarrow> bool" where
  "requireOperator rq r = (rq_header ''x-qubicl-operator-key'' rq = Some (gr_internalKey r))"

definition view_session :: "exposure option \<Rightarrow> int \<Rightarrow> gateway_request \<Rightarrow> gateway_route \<Rightarrow> gateway \<Rightarrow> gateway \<times> string option" where
  "view_session ex now rq r g =
     validViewSession (requestCookie (rq_headers rq) (viewerSessionCookieName (surface_of ex) (gr_id r))) (gr_id r) now g"

definition view_session_required :: gateway_answer where
  "view_session_required = Refused 401 ''view_session_required''"

section \<open>The proxied request\<close>

definition proxy_begin ::
  "gateway_route \<Rightarrow> string \<Rightarrow> bool \<Rightarrow> client_credential option \<Rightarrow> gateway \<Rightarrow> gateway \<times> gateway_answer"
where
  "proxy_begin r path view client g =
     (if view \<and> gr_viewPort r = None then (g, Refused 404 ''capability_unsupported'')
      else if MAX_PROXY_REQUESTS_PER_COMPUTER \<le> active_requests (gr_id r) g then (g, Refused 429 ''computer_busy'')
      else (take_slot (gr_id r) g, Forwarded (gr_id r) path view client))"

definition bearer_proxy ::
  "http_library \<Rightarrow> exposure option \<Rightarrow> int \<Rightarrow> gateway_request \<Rightarrow> gateway_route \<Rightarrow> gateway
     \<Rightarrow> (client_credential \<Rightarrow> gateway \<Rightarrow> gateway \<times> gateway_answer) \<Rightarrow> gateway \<times> gateway_answer"
where
  "bearer_proxy lib ex now rq r g k = (case requireBearer lib ex now rq r g of
       (g1, Inl a) \<Rightarrow> (g1, a)
     | (g1, Inr c) \<Rightarrow> k c g1)"

definition with_view_session ::
  "exposure option \<Rightarrow> int \<Rightarrow> gateway_request \<Rightarrow> gateway_route \<Rightarrow> gateway
     \<Rightarrow> (string \<Rightarrow> gateway \<Rightarrow> gateway \<times> gateway_answer) \<Rightarrow> gateway \<times> gateway_answer"
where
  "with_view_session ex now rq r g k = (case view_session ex now rq r g of
       (g1, None) \<Rightarrow> (g1, view_session_required)
     | (g1, Some key) \<Rightarrow> k key g1)"

section \<open>Tickets and sessions\<close>

definition issue_ticket ::
  "exposure option \<Rightarrow> string \<Rightarrow> int \<Rightarrow> gateway_request \<Rightarrow> gateway_route \<Rightarrow> client_credential \<Rightarrow> gateway \<Rightarrow> gateway \<times> gateway_answer"
where
  "issue_ticket ex ticket now rq r c g0 =
     (if \<not> requireClientScope c InteractiveScope then (g0, Refused 403 ''client_scope_denied'')
      else
        (let g1 = pruneExpired now g0;
             (g, allowed) = (if ex = None then (g1, True)
                else consumeExternalRate (rq_remote rq) (''ticket:'' @ gr_id r) EXTERNAL_TICKETS_PER_MINUTE now g1) in
         if \<not> allowed then (g, rate_limited)
         else if MAX_TICKETS \<le> length (gw_tickets g) \<or> MAX_ROUTE_TICKETS \<le> countTimedValues (gw_tickets g) (gr_id r) then (g, rate_limited)
         else (g\<lparr>gw_tickets := AList.update ticket
                 \<lparr>tv_id = gr_id r, tv_expiresAt = now + TICKET_LIFETIME, tv_tokenHash = cc_tokenHash c, tv_controlling = False\<rparr> (gw_tickets g)\<rparr>,
               TicketIssued ticket)))"

definition open_session :: "string \<Rightarrow> string option \<Rightarrow> int \<Rightarrow> gateway_route \<Rightarrow> gateway \<Rightarrow> gateway \<times> gateway_answer" where
  "open_session session ticket now r g =
     (case ticket of
        None \<Rightarrow> (g, Refused 401 ''invalid_view_ticket'')
      | Some t \<Rightarrow>
          (case map_of (gw_tickets g) t of
             None \<Rightarrow> (g, Refused 401 ''invalid_view_ticket'')
           | Some v \<Rightarrow>
               if t = [] \<or> tv_id v \<noteq> gr_id r \<or> \<not> routeAcceptsTokenHash r (tv_tokenHash v) \<or> tv_expiresAt v \<le> now
               then (g, Refused 401 ''invalid_view_ticket'')
               else
                 (let g1 = g\<lparr>gw_tickets := AList.delete t (gw_tickets g)\<rparr> in
                  if MAX_VIEW_SESSIONS \<le> length (gw_sessions g1) \<or> MAX_ROUTE_SESSIONS \<le> countTimedValues (gw_sessions g1) (gr_id r)
                  then (g1, rate_limited)
                  else (g1\<lparr>gw_sessions := AList.update session
                          \<lparr>tv_id = gr_id r, tv_expiresAt = now + SESSION_LIFETIME, tv_tokenHash = tv_tokenHash v, tv_controlling = False\<rparr>
                          (gw_sessions g1)\<rparr>,
                        SessionOpened session))))"

section \<open>The routes of a computer\<close>

text \<open>\<open>/^\/computers\/([a-f0-9-]+)(\/.*)?$/\<close>: the computer and the rest.\<close>

definition computer_path :: "string \<Rightarrow> (string \<times> string) option" where
  "computer_path path =
     (let rest = drop 11 path; i = takeWhile hex_dash rest; suffix = dropWhile hex_dash rest in
      if \<not> starts_with path ''/computers/'' \<or> i = [] \<or> list_ex line_end suffix then None
      else if suffix = [] then Some (i, ''/'')
      else if hd suffix = CHR ''/'' then Some (i, suffix) else None)"

definition viewer_request :: "string \<Rightarrow> bool" where
  "viewer_request suffix =
     (suffix = ''/view-ticket'' \<or> suffix = ''/view'' \<or> starts_with suffix ''/view/''
      \<or> suffix = ''/human-control/take'' \<or> suffix = ''/human-control/release'')"

definition no_viewer :: "gateway_route \<Rightarrow> bool" where
  "no_viewer r = (gr_viewPort r = None \<or> gr_controlViewPort r = None \<or> \<not> gr_viewer r)"

definition open_api_request :: "string \<Rightarrow> bool" where
  "open_api_request suffix =
     (suffix = ''/openapi.json'' \<or> starts_with suffix ''/v1/tools/'' \<or> suffix = ''/open-terminal'' \<or> starts_with suffix ''/open-terminal/'')"

definition management_routes :: "((string \<times> string) \<times> string) list" where
  "management_routes =
     [((''GET'', ''/operator/management/status''), ''/_qubicl/operator/management/status''),
      ((''GET'', ''/operator/management/processes''), ''/_qubicl/operator/management/processes''),
      ((''GET'', ''/operator/management/previews''), ''/_qubicl/operator/management/previews''),
      ((''POST'', ''/operator/management/processes/stop''), ''/_qubicl/operator/management/processes/stop''),
      ((''POST'', ''/operator/management/processes/stop-all''), ''/_qubicl/operator/management/processes/stop-all''),
      ((''POST'', ''/operator/management/previews/revoke''), ''/_qubicl/operator/management/previews/revoke''),
      ((''POST'', ''/operator/management/previews/share''), ''/_qubicl/operator/management/previews/share''),
      ((''POST'', ''/operator/management/previews/unshare''), ''/_qubicl/operator/management/previews/unshare''),
      ((''POST'', ''/operator/management/previews/open''), ''/_qubicl/operator/management/previews/open'')]"

definition queue_change :: "string \<Rightarrow> control_op \<Rightarrow> gateway \<Rightarrow> gateway \<times> gateway_answer" where
  "queue_change i op g = (serializeControlTransition i op g, ChangeQueued i op)"

text \<open>The viewer: its tickets, sessions and pages, and human control.\<close>

definition handle_viewer ::
  "http_library \<Rightarrow> exposure option \<Rightarrow> string \<Rightarrow> int \<Rightarrow> gateway_request \<Rightarrow> gateway_route \<Rightarrow> url_parts \<Rightarrow> string \<Rightarrow> gateway
     \<Rightarrow> (gateway \<times> gateway_answer) option"
where
  "handle_viewer lib ex fresh now rq r url suffix g =
     (let post = (rq_method rq = ''POST''); get = (rq_method rq = ''GET'') in
      if post \<and> suffix = ''/view-ticket'' then
        Some (bearer_proxy lib ex now rq r g (issue_ticket ex fresh now rq r))
      else if get \<and> suffix = ''/view'' then Some (open_session fresh (ur_ticket url) now r g)
      else if suffix = ''/view/'' \<and> get then Some (with_view_session ex now rq r g (\<lambda>key g1. (g1, ViewerPage)))
      else if suffix = ''/view/actions'' \<and> get then
        Some (with_view_session ex now rq r g (\<lambda>key. proxy_begin r (''/_qubicl/view/actions'' @ ur_search url) False None))
      else if starts_with suffix ''/view/'' then
        Some (with_view_session ex now rq r g (\<lambda>key. proxy_begin r (drop 5 suffix @ ur_search url) True None))
      else if suffix = ''/human-control/status'' \<and> get then
        Some (with_view_session ex now rq r g (\<lambda>key g1.
          (g1, ControlStatus (session_controls key g1) (map_option snd (map_of (gw_timers g1) key)))))
      else if (suffix = ''/human-control/take'' \<or> suffix = ''/human-control/release'') \<and> post then
        Some (if \<not> hasExactViewerOrigin lib ex rq then (g, Refused 403 ''origin_mismatch'')
          else with_view_session ex now rq r g (\<lambda>key.
            queue_change (gr_id r) (if suffix = ''/human-control/take'' then TakeControl key else ReleaseControl key)))
      else None)"

definition operator_proxy :: "gateway_request \<Rightarrow> gateway_route \<Rightarrow> string \<Rightarrow> gateway \<Rightarrow> gateway \<times> gateway_answer" where
  "operator_proxy rq r path g =
     (if requireOperator rq r then proxy_begin r path False None g else (g, Refused 401 ''operator_authority_required''))"

text \<open>The operator's routes, on the local surface only.\<close>

definition handle_operator ::
  "exposure option \<Rightarrow> gateway_request \<Rightarrow> gateway_route \<Rightarrow> string \<Rightarrow> gateway \<Rightarrow> (gateway \<times> gateway_answer) option"
where
  "handle_operator ex rq r suffix g =
     (let post = (rq_method rq = ''POST'') in
      if ex \<noteq> None \<and> starts_with suffix ''/operator/'' then Some (g, Refused 403 ''operator_route_local_only'')
      else if post \<and> suffix = ''/operator/policy/reload'' then
        Some (operator_proxy rq r ''/_qubicl/operator/policy/reload'' g)
      else if starts_with suffix ''/operator/management/'' then
        Some (if \<not> requireOperator rq r then (g, Refused 401 ''operator_authority_required'')
          else case map_of management_routes (rq_method rq, suffix) of
            None \<Rightarrow> (g, Refused 404 ''not_found'')
          | Some target \<Rightarrow> proxy_begin r target False None g)
      else if post \<and> suffix = ''/operator/human-control/release'' then
        Some (if \<not> requireOperator rq r then (g, Refused 401 ''operator_authority_required'')
          else queue_change (gr_id r) (OperatorRelease (gr_internalKey r)) g)
      else None)"

definition handle_tools ::
  "http_library \<Rightarrow> exposure option \<Rightarrow> int \<Rightarrow> gateway_request \<Rightarrow> gateway_route \<Rightarrow> url_parts \<Rightarrow> string \<Rightarrow> gateway \<Rightarrow> gateway \<times> gateway_answer"
where
  "handle_tools lib ex now rq r url suffix g =
     bearer_proxy lib ex now rq r g (\<lambda>c g1.
       if suffix = ''/mcp'' \<or> open_api_request suffix then proxy_begin r (suffix @ ur_search url) False (Some c) g1
       else (g1, Refused 404 ''not_found''))"

definition handle_routed ::
  "http_library \<Rightarrow> exposure option \<Rightarrow> string \<Rightarrow> int \<Rightarrow> gateway_request \<Rightarrow> gateway_route \<Rightarrow> url_parts \<Rightarrow> string \<Rightarrow> gateway
     \<Rightarrow> gateway \<times> gateway_answer"
where
  "handle_routed lib ex fresh now rq r url suffix g =
     (if rq_method rq = ''GET'' \<and> suffix = ''/health'' then
        (if ex = None then proxy_begin r ''/health'' False None g
         else bearer_proxy lib ex now rq r g (\<lambda>c. proxy_begin r ''/health'' False None))
      else case handle_viewer lib ex fresh now rq r url suffix g of
        Some a \<Rightarrow> a
      | None \<Rightarrow>
          if starts_with suffix ''/previews/'' then proxy_begin r (''/_qubicl'' @ suffix @ ur_search url) False None g
          else (case handle_operator ex rq r suffix g of
              Some a \<Rightarrow> a
            | None \<Rightarrow> handle_tools lib ex now rq r url suffix g))"

definition applyBrowserCors :: "string option \<Rightarrow> string" where
  "applyBrowserCors vary = appendVary vary [''Origin'']"

definition handle_computer ::
  "http_library \<Rightarrow> exposure option \<Rightarrow> string \<Rightarrow> int \<Rightarrow> gateway_request \<Rightarrow> gateway_route \<Rightarrow> url_parts \<Rightarrow> string \<Rightarrow> gateway
     \<Rightarrow> gateway \<times> gateway_answer"
where
  "handle_computer lib ex fresh now rq r url suffix g =
     (case isPreviewRequestHost lib ex rq (gr_id r) of
        None \<Rightarrow> (g, Crashed)
      | Some previewOrigin \<Rightarrow>
          if previewOrigin \<noteq> starts_with suffix ''/previews/'' then (g, Refused 403 ''origin_boundary'')
          else if viewer_request suffix \<and> no_viewer r then (g, Refused 404 ''capability_unsupported'')
          else (case (open_api_request suffix, rq_header ''origin'' rq) of
              (True, Some origin) \<Rightarrow>
                (case browserOrigin lib ex origin of
                   None \<Rightarrow> (g, Refused 403 ''browser_origin_unsupported'')
                 | Some allowed \<Rightarrow>
                     if rq_method rq = ''OPTIONS''
                     then (g, case handleBrowserPreflight (rq_headers rq) suffix (Some (applyBrowserCors None)) of
                          Inl e \<Rightarrow> Refused (error_status e) (error_code e)
                        | Inr h \<Rightarrow> Preflight allowed h)
                     else handle_routed lib ex fresh now rq r url suffix g)
            | _ \<Rightarrow> handle_routed lib ex fresh now rq r url suffix g))"

text \<open>A publication has a host of its own.\<close>

definition handle_publication ::
  "http_library \<Rightarrow> exposure option \<Rightarrow> gateway_request \<Rightarrow> url_parts \<Rightarrow> string \<times> string \<Rightarrow> gateway \<Rightarrow> gateway \<times> gateway_answer"
where
  "handle_publication lib ex rq url pub g = (case map_of (gw_routes g) (snd pub) of
       None \<Rightarrow> (g, Refused 404 ''computer_not_found'')
     | Some r \<Rightarrow>
         if rq_header ''origin'' rq \<noteq> None \<and> \<not> hasExactRequestOrigin lib ex rq then (g, Refused 403 ''origin_boundary'')
         else proxy_begin r (''/_qubicl/previews/'' @ fst pub @ ur_pathname url @ ur_search url) False None g)"

definition handle_url ::
  "http_library \<Rightarrow> exposure option \<Rightarrow> string \<Rightarrow> int \<Rightarrow> gateway_request \<Rightarrow> url_parts \<Rightarrow> gateway \<Rightarrow> gateway \<times> gateway_answer"
where
  "handle_url lib ex fresh now rq url g = (case publicationPreviewRequest lib ex rq of
       Some pub \<Rightarrow> handle_publication lib ex rq url pub g
     | None \<Rightarrow>
         if ur_pathname url = ''/health'' then (g, GatewayHealth)
         else (case computer_path (ur_pathname url) of
             None \<Rightarrow> (g, Refused 404 ''not_found'')
           | Some (i, suffix) \<Rightarrow>
               (case map_of (gw_routes g) i of
                  None \<Rightarrow> (g, Refused 404 ''computer_not_found'')
                | Some r \<Rightarrow> handle_computer lib ex fresh now rq r url suffix g)))"

text \<open>\<open>fresh\<close> is the random text of a new ticket or session.\<close>

definition handle ::
  "http_library \<Rightarrow> exposure option \<Rightarrow> string \<Rightarrow> int \<Rightarrow> gateway_request \<Rightarrow> gateway \<Rightarrow> gateway \<times> gateway_answer"
where
  "handle lib ex fresh now rq g0 =
     (case ex of
        None \<Rightarrow>
          (case hl_target lib (rq_target rq) of
             None \<Rightarrow> (g0, Refused 400 ''invalid_request_target'')
           | Some url \<Rightarrow> handle_url lib ex fresh now rq url g0)
      | Some x \<Rightarrow>
          if \<not> ex_allows x (rq_remote rq) then (g0, Refused 403 ''network_not_allowed'')
          else (case consumeExternalRate (rq_remote rq) ''request'' EXTERNAL_REQUESTS_PER_MINUTE now g0 of
              (g, False) \<Rightarrow> (g, rate_limited)
            | (g, True) \<Rightarrow>
                (case hl_target lib (rq_target rq) of
                   None \<Rightarrow> (g, Refused 400 ''invalid_request_target'')
                 | Some url \<Rightarrow>
                     (case validExternalRequestAuthority lib x rq (ur_pathname url) of
                        None \<Rightarrow> (g, Crashed)
                      | Some False \<Rightarrow> (g, Refused 421 ''external_authority_mismatch'')
                      | Some True \<Rightarrow>
                          if externalBodyTooLarge rq then (g, Refused 413 ''payload_too_large'')
                          else handle_url lib ex fresh now rq url g))))"

section \<open>Upgrades\<close>

text \<open>The head of the request that the gateway writes to the preview of a computer.\<close>

definition preview_upgrade_lines ::
  "exposure option \<Rightarrow> string \<Rightarrow> string \<Rightarrow> gateway_request \<Rightarrow> gateway_route \<Rightarrow> string \<Rightarrow> string list"
where
  "preview_upgrade_lines ex httpVersion epoch rq r target =
     [rq_method rq @ '' '' @ target @ '' HTTP/'' @ httpVersion]
     @ sanitizedUpgradeHeaderLines (rq_rawHeaders rq) (rq_headers rq) True
     @ [''Host: '' @ gr_host r @ '':'' @ show_nat (gr_controlPort r), ''Connection: Upgrade'', ''Upgrade: websocket'',
        ''X-Qubicl-Internal-Key: '' @ gr_internalKey r, ''X-Qubicl-Gateway-Epoch: '' @ epoch,
        ''X-Qubicl-Access-Surface: '' @ surface_text (surface_of ex)]
     @ (case rq_header ''host'' rq of None \<Rightarrow> [] | Some h \<Rightarrow> [''X-Qubicl-Preview-Host: '' @ h])
     @ [''X-Qubicl-Preview-Proto: '' @ (if ex = None then ''http'' else ''https'')]
     @ (case rq_header ''authorization'' rq of None \<Rightarrow> [] | Some a \<Rightarrow> [''X-Qubicl-Preview-Authorization: '' @ a])"

text \<open>The preview of a path: \<open>/^\/computers\/([a-f0-9-]+)(\/previews\/.*)$/\<close>, and the socket of the viewer.\<close>

definition preview_upgrade_path :: "string \<Rightarrow> (string \<times> string) option" where
  "preview_upgrade_path path = (case computer_path path of
       Some (i, suffix) \<Rightarrow> if starts_with suffix ''/previews/'' then Some (i, suffix) else None
     | None \<Rightarrow> None)"

definition viewer_upgrade_path :: "string \<Rightarrow> string option" where
  "viewer_upgrade_path path = (case computer_path path of
       Some (i, suffix) \<Rightarrow> if suffix = ''/view/websockify'' then Some i else None
     | None \<Rightarrow> None)"

datatype upgrade_answer =
    Rejected nat
  | UpgradeCrashed
  | PreviewUpgrade string string \<comment> \<open>computer and target\<close>
  | ViewerUpgrade string string \<comment> \<open>computer and session\<close>

text \<open>\<open>n\<close> is the socket of the request.\<close>

definition upgrade_viewer ::
  "http_library \<Rightarrow> exposure option \<Rightarrow> nat \<Rightarrow> int \<Rightarrow> gateway_request \<Rightarrow> string \<Rightarrow> gateway \<Rightarrow> gateway \<times> upgrade_answer"
where
  "upgrade_viewer lib ex n now rq i g = (case map_of (gw_routes g) i of
       None \<Rightarrow> (g, Rejected 401)
     | Some r \<Rightarrow>
         (case isPreviewRequestHost lib ex rq i of
            None \<Rightarrow> (g, UpgradeCrashed)
          | Some True \<Rightarrow> (g, Rejected 403)
          | Some False \<Rightarrow>
              if no_viewer r then (g, Rejected 404)
              else if \<not> hasExactViewerOrigin lib ex rq then (g, Rejected 403)
              else (case view_session ex now rq r g of
                  (g1, None) \<Rightarrow> (g1, Rejected 401)
                | (g1, Some key) \<Rightarrow> (trackViewerSocket n key g1, ViewerUpgrade i key))))"

definition upgrade_url ::
  "http_library \<Rightarrow> exposure option \<Rightarrow> nat \<Rightarrow> int \<Rightarrow> gateway_request \<Rightarrow> url_parts \<Rightarrow> gateway \<Rightarrow> gateway \<times> upgrade_answer"
where
  "upgrade_url lib ex n now rq url g = (case publicationPreviewRequest lib ex rq of
       Some (p, i) \<Rightarrow>
         (case map_of (gw_routes g) i of
            None \<Rightarrow> (g, Rejected 404)
          | Some r \<Rightarrow>
              if rq_header ''origin'' rq \<noteq> None \<and> \<not> hasExactRequestOrigin lib ex rq then (g, Rejected 403)
              else (g, PreviewUpgrade i (''/_qubicl/previews/'' @ p @ ur_pathname url @ ur_search url)))
     | None \<Rightarrow>
         (case preview_upgrade_path (ur_pathname url) of
            Some (i, suffix) \<Rightarrow>
              (case map_of (gw_routes g) i of
                 None \<Rightarrow> (g, Rejected 404)
               | Some r \<Rightarrow>
                   (case isPreviewRequestHost lib ex rq (gr_id r) of
                      None \<Rightarrow> (g, UpgradeCrashed)
                    | Some False \<Rightarrow> (g, Rejected 403)
                    | Some True \<Rightarrow>
                        if rq_header ''origin'' rq \<noteq> None \<and> \<not> hasExactPreviewOrigin lib ex rq (gr_id r) then (g, Rejected 403)
                        else (g, PreviewUpgrade i (''/_qubicl'' @ suffix @ ur_search url))))
          | None \<Rightarrow>
              (case viewer_upgrade_path (ur_pathname url) of
                 None \<Rightarrow> (g, Rejected 404)
               | Some i \<Rightarrow> upgrade_viewer lib ex n now rq i g)))"

definition upgrade ::
  "http_library \<Rightarrow> exposure option \<Rightarrow> nat \<Rightarrow> int \<Rightarrow> gateway_request \<Rightarrow> gateway \<Rightarrow> gateway \<times> upgrade_answer"
where
  "upgrade lib ex n now rq g0 =
     (case ex of
        None \<Rightarrow>
          (case hl_target lib (rq_target rq) of
             None \<Rightarrow> (g0, Rejected 400)
           | Some url \<Rightarrow> upgrade_url lib ex n now rq url g0)
      | Some x \<Rightarrow>
          if \<not> ex_allows x (rq_remote rq) then (g0, Rejected 403)
          else (case consumeExternalRate (rq_remote rq) ''upgrade'' EXTERNAL_REQUESTS_PER_MINUTE now g0 of
              (g, False) \<Rightarrow> (g, Rejected 429)
            | (g, True) \<Rightarrow>
                (case hl_target lib (rq_target rq) of
                   None \<Rightarrow> (g, Rejected 400)
                 | Some url \<Rightarrow>
                     (case validExternalRequestAuthority lib x rq (ur_pathname url) of
                        None \<Rightarrow> (g, UpgradeCrashed)
                      | Some False \<Rightarrow> (g, Rejected 421)
                      | Some True \<Rightarrow> upgrade_url lib ex n now rq url g))))"

end
