(* ===== verification/Gateway_Access.thy ===== *)
theory Gateway_Access
  imports Gateway_Requests
begin

text \<open>What the gateway's answers show: who is behind a request that reaches a computer, where tickets and sessions
  come from, and how much the gateway keeps.\<close>

section \<open>What a request leaves\<close>

lemma consume_fields:
  assumes "consumeExternalRate a b c now g = (g1, x)"
  shows "gw_routes g1 = gw_routes g" "gw_sessions g1 = gw_sessions g" "gw_tickets g1 = gw_tickets g" "gw_active g1 = gw_active g"
proof -
  have "gw_routes (fst (consumeExternalRate a b c now g)) = gw_routes g \<and> gw_sessions (fst (consumeExternalRate a b c now g)) = gw_sessions g
    \<and> gw_tickets (fst (consumeExternalRate a b c now g)) = gw_tickets g \<and> gw_active (fst (consumeExternalRate a b c now g)) = gw_active g"
    by (auto simp: consumeExternalRate_def count_in_bucket_def pruneRateBuckets_def Let_def split: option.split prod.split)
  then show "gw_routes g1 = gw_routes g" "gw_sessions g1 = gw_sessions g" "gw_tickets g1 = gw_tickets g" "gw_active g1 = gw_active g"
    by (simp_all add: assms)
qed

text \<open>No ticket and no session is new; of each computer there are no more of them than before.\<close>

definition no_more :: "(string, timed_value) js_map \<Rightarrow> (string, timed_value) js_map \<Rightarrow> bool" where
  "no_more vs vs' = (length vs' \<le> length vs \<and> (\<forall>i. countTimedValues vs' i \<le> countTimedValues vs i))"

definition same_sessions :: "(string, timed_value) js_map \<Rightarrow> (string, timed_value) js_map \<Rightarrow> bool" where
  "same_sessions vs vs' = (\<forall>k v. map_of vs' k = Some v \<longrightarrow>
     (\<exists>u. map_of vs k = Some u \<and> tv_id v = tv_id u \<and> tv_tokenHash v = tv_tokenHash u))"

definition kept :: "gateway \<Rightarrow> gateway \<Rightarrow> bool" where
  "kept g g' = (gw_routes g' = gw_routes g \<and> gw_active g' = gw_active g
     \<and> same_sessions (gw_sessions g) (gw_sessions g')
     \<and> set (gw_tickets g') \<subseteq> set (gw_tickets g)
     \<and> no_more (gw_sessions g) (gw_sessions g') \<and> no_more (gw_tickets g) (gw_tickets g'))"

lemma no_more_refl [simp]: "no_more vs vs"
  by (simp add: no_more_def)

lemma no_more_trans: "no_more vs vs' \<Longrightarrow> no_more vs' vs'' \<Longrightarrow> no_more vs vs''"
  unfolding no_more_def using order_trans by blast

lemma same_sessions_refl [simp]: "same_sessions vs vs"
  by (simp add: same_sessions_def)

lemma same_sessions_trans: "same_sessions vs vs' \<Longrightarrow> same_sessions vs' vs'' \<Longrightarrow> same_sessions vs vs''"
  unfolding same_sessions_def by fastforce

lemma same_sessions_delete [simp]: "same_sessions vs (AList.delete k vs)"
  by (simp add: same_sessions_def delete_conv')

lemma same_sessions_update: "map_of vs k = Some u \<Longrightarrow> tv_id v = tv_id u \<Longrightarrow> tv_tokenHash v = tv_tokenHash u \<Longrightarrow> same_sessions vs (AList.update k v vs)"
  by (simp add: same_sessions_def)

lemma no_more_filter: "no_more vs (filter P vs)"
proof -
  have "countTimedValues (filter P vs) i \<le> countTimedValues vs i" for i
    by (induction vs) (simp_all add: countTimedValues_def map_values_def)
  then show ?thesis by (simp add: no_more_def)
qed

lemma no_more_delete: "no_more vs (AList.delete k vs)"
  by (simp add: AList.delete_eq no_more_filter)

lemma count_update_same:
  "map_of vs k = Some u \<Longrightarrow> tv_id v = tv_id u \<Longrightarrow> countTimedValues (AList.update k v vs) i = countTimedValues vs i
     \<and> length (AList.update k v vs) = length vs"
  by (induction vs) (auto simp: countTimedValues_def map_values_def split: if_splits)

lemma count_update:
  "countTimedValues (AList.update k v vs) i \<le> countTimedValues vs i + (if tv_id v = i then 1 else 0)"
  by (induction vs) (auto simp: countTimedValues_def map_values_def)

lemma length_update: "length (AList.update k v vs) \<le> length vs + 1"
  by (induction vs) auto

lemma kept_same:
  "gw_routes g' = gw_routes g \<Longrightarrow> gw_active g' = gw_active g \<Longrightarrow> gw_sessions g' = gw_sessions g \<Longrightarrow> gw_tickets g' = gw_tickets g \<Longrightarrow> kept g g'"
  by (auto simp: kept_def)

lemma kept_refl [simp]: "kept g g"
  by (simp add: kept_same)

lemma kept_trans: "kept g g' \<Longrightarrow> kept g' g'' \<Longrightarrow> kept g g''"
  unfolding kept_def using no_more_trans same_sessions_trans subset_trans by auto

lemma prune_session_kept: "kept g (prune_session now kv g)"
proof (cases kv)
  case (Pair key v)
  have "kept g (g'\<lparr>gw_sessions := AList.delete key (gw_sessions g')\<rparr>)"
    if "gw_routes g' = gw_routes g" "gw_active g' = gw_active g" "gw_sessions g' = gw_sessions g" "gw_tickets g' = gw_tickets g" for g'
    using that by (auto simp: kept_def no_more_delete)
  then show ?thesis
    unfolding Pair
    by (auto simp: prune_session_def Let_def closeViewerSockets_def change_sockets_def
        clearAbandonedControlRelease_def armAbandonedControlRelease_def intro: kept_same)
qed

lemma prune_kept: "kept g (pruneExpired now g)"
proof -
  have fold: "kept h (fold (prune_session now) xs h)" for xs h
  proof (induction xs arbitrary: h)
    case (Cons x xs)
    show ?case using kept_trans [OF prune_session_kept Cons.IH] by simp
  qed simp
  have "kept g (g\<lparr>gw_tickets := filter P (gw_tickets g)\<rparr>)" for P
    by (auto simp: kept_def no_more_filter)
  from kept_trans [OF this fold] show ?thesis by (simp add: pruneExpired_def Let_def)
qed

text \<open>Pruning keeps only sessions as they were.\<close>

lemma prune_session_exact: "map_of (gw_sessions (prune_session now kv g)) k = Some v \<Longrightarrow> map_of (gw_sessions g) k = Some v"
  by (cases kv) (auto simp: prune_session_def Let_def closeViewerSockets_def change_sockets_def
      clearAbandonedControlRelease_def armAbandonedControlRelease_def split: if_splits)

lemma prune_exact: "map_of (gw_sessions (pruneExpired now g)) k = Some v \<Longrightarrow> map_of (gw_sessions g) k = Some v"
proof -
  have "map_of (gw_sessions (fold (prune_session now) xs h)) k = Some v \<Longrightarrow> map_of (gw_sessions h) k = Some v" for xs h
    by (induction xs arbitrary: h) (auto dest: prune_session_exact)
  then show "map_of (gw_sessions (pruneExpired now g)) k = Some v \<Longrightarrow> map_of (gw_sessions g) k = Some v"
    by (fastforce simp: pruneExpired_def Let_def)
qed

text \<open>A valid session is one of the computer, not yet expired, of a credential that the route still accepts.\<close>

definition usable_session :: "gateway \<Rightarrow> int \<Rightarrow> string \<Rightarrow> string \<Rightarrow> bool" where
  "usable_session g now i key = (\<exists>v. map_of (gw_sessions g) key = Some v \<and> tv_id v = i \<and> now < tv_expiresAt v \<and> token_accepted v g)"

lemma token_accepted_routes: "gw_routes g' = gw_routes g \<Longrightarrow> token_accepted v g' = token_accepted v g"
  by (simp add: token_accepted_def)

lemma valid_kept:
  assumes "validViewSession cookie i now g = (g1, res)"
  shows "kept g g1" and "res = Some key \<Longrightarrow> cookie = Some key \<and> usable_session g now i key"
proof -
  let ?p = "pruneExpired now g"
  have routes: "gw_routes ?p = gw_routes g" using prune_kept by (simp add: kept_def)
  have update: "kept g (?p\<lparr>gw_sessions := AList.update k (v\<lparr>tv_expiresAt := t\<rparr>) (gw_sessions ?p)\<rparr>)"
    if "map_of (gw_sessions ?p) k = Some v" for k v t
    by (rule kept_trans [OF prune_kept [of g now]]) (use that count_update_same [OF that, of "v\<lparr>tv_expiresAt := t\<rparr>"] same_sessions_update [OF that, of "v\<lparr>tv_expiresAt := t\<rparr>"] in
        \<open>simp add: kept_def no_more_def\<close>)
  show "kept g g1"
    using assms update prune_kept unfolding validViewSession_def Let_def by (auto split: option.split_asm if_split_asm)
  show "res = Some key \<Longrightarrow> cookie = Some key \<and> usable_session g now i key"
    using assms prune_exact [of now g] token_accepted_routes [OF routes] unfolding validViewSession_def Let_def usable_session_def
    by (auto split: option.split_asm if_split_asm simp: not_le)
qed

lemma view_session_kept:
  assumes "view_session ex now rq r g = (g1, res)"
  shows "kept g g1" and "res = Some key \<Longrightarrow>
    requestCookie (rq_headers rq) (viewerSessionCookieName (surface_of ex) (gr_id r)) = Some key \<and> usable_session g now (gr_id r) key"
  using valid_kept [OF assms [unfolded view_session_def]] by auto

lemma bearer_kept:
  assumes "requireBearer lib ex now rq r g = (g1, res)"
  shows "kept g g1" and "res = Inr c \<Longrightarrow> bearer_client lib rq r = Some c \<and> g1 = g"
  using assms consume_fields unfolding requireBearer_def
  by (auto split: option.split_asm if_split_asm prod.split_asm bool.split_asm intro!: kept_same)

lemma bearer_client_member:
  "bearer_client lib rq r = Some c \<Longrightarrow> c \<in> set (routeClientCredentials r)
     \<and> (\<exists>token. bearer_token rq = Some token \<and> tokenMatches (hl_hash lib) token (cc_tokenHash c))"
  by (auto simp: bearer_client_def find_Some_iff split: option.splits)

end
