(* ===== verification/Gateway_Events.thy ===== *)
theory Gateway_Events
  imports Gateway_Control
begin

text \<open>What can happen to the viewers of the gateway, in any order, together with what the computers do with the
  requests that are in flight. A state is the gateway, for each computer whether its human control is on, and
  whether it has carried out the request in flight.\<close>

section \<open>Events\<close>

datatype gateway_event =
    RoutesLoaded "(string, gateway_route) js_map"
  | SessionCreated string timed_value
  | Pruned int
  | SessionUsed "string option" string int
  | ControlRequested string control_op
  | TransitionBegun string bool int
  | EffectApplied string
  | ProxyAnswer string bool int
  | ProxySettled string
  | ReleaseAnswer string bool int
  | RestoreAnswer string bool int
  | TimerDue string int
  | SocketOpened nat "string option" string int
  | SocketConnecting nat string int
  | SocketConnected nat string bool int
  | SocketDestroyed nat
  | SocketClosed nat int
  | GatewayClosed

definition gateway_event_step :: "gateway_event \<Rightarrow> gateway \<Rightarrow> gateway" where
  "gateway_event_step e g = (case e of
       RoutesLoaded rs \<Rightarrow> g\<lparr>gw_routes := rs\<rparr>
     | SessionCreated k v \<Rightarrow> g\<lparr>gw_sessions := AList.update k v (gw_sessions g)\<rparr>
     | Pruned now \<Rightarrow> pruneExpired now g
     | SessionUsed cookie i now \<Rightarrow> fst (validViewSession cookie i now g)
     | ControlRequested i op \<Rightarrow> serializeControlTransition i op g
     | TransitionBegun i gone now \<Rightarrow> fst (begin_transition i gone now g)
     | EffectApplied i \<Rightarrow> g
     | ProxyAnswer i ok now \<Rightarrow> proxy_answered i ok now g
     | ProxySettled i \<Rightarrow> proxy_settled i g
     | ReleaseAnswer i ok now \<Rightarrow> release_answered i ok now g
     | RestoreAnswer i ok now \<Rightarrow> restore_answered i ok now g
     | TimerDue key now \<Rightarrow> timer_due key now g
     | SocketOpened n cookie i now \<Rightarrow> open_socket n cookie i now g
     | SocketConnecting n i now \<Rightarrow> connect_viewer n i now g
     | SocketConnected n i same now \<Rightarrow> backend_connected n i same now g
     | SocketDestroyed n \<Rightarrow> socket_destroyed n g
     | SocketClosed n now \<Rightarrow> socket_closed n now g
     | GatewayClosed \<Rightarrow> close_gateway g)"

text \<open>The request in flight of a computer: to take (True) or to release (False) human control.\<close>

definition in_flight :: "string \<Rightarrow> gateway \<Rightarrow> bool option" where
  "in_flight i g = (case transitions_of i g of
       (TakeControl _, Proxied) # _ \<Rightarrow> Some True
     | (_, Proxied) # _ \<Rightarrow> Some False
     | (_, Releasing) # _ \<Rightarrow> Some False
     | (_, Restoring) # _ \<Rightarrow> Some True
     | _ \<Rightarrow> None)"

definition head_phase :: "string \<Rightarrow> gateway \<Rightarrow> control_phase option" where
  "head_phase i g = (case transitions_of i g of [] \<Rightarrow> None | (_, p) # _ \<Rightarrow> Some p)"

type_synonym control_world = "gateway \<times> (string \<Rightarrow> bool) \<times> (string \<Rightarrow> bool)"

fun answers :: "gateway_event \<Rightarrow> string option" where
  "answers (ProxyAnswer i _ _) = Some i"
| "answers (ProxySettled i) = Some i"
| "answers (ReleaseAnswer i _ _) = Some i"
| "answers (RestoreAnswer i _ _) = Some i"
| "answers (TransitionBegun i _ _) = Some i"
| "answers _ = None"

definition fence_after :: "gateway_event \<Rightarrow> control_world \<Rightarrow> (string \<Rightarrow> bool) \<times> (string \<Rightarrow> bool)" where
  "fence_after e w = (case w of (g, fence, applied) \<Rightarrow>
     (case e of
        EffectApplied i \<Rightarrow> (case in_flight i g of None \<Rightarrow> (fence, applied) | Some b \<Rightarrow> (fence(i := b), applied(i := True)))
      | _ \<Rightarrow> (case answers e of None \<Rightarrow> (fence, applied) | Some i \<Rightarrow> (fence, applied(i := False)))))"

text \<open>New keys and numbers are fresh; an answer belongs to the request in flight. A computer answers with success only when it has carried out the request.
  \<open>honest\<close>: a request that is not answered with success has had no effect.\<close>

definition gateway_event_allowed :: "bool \<Rightarrow> gateway_event \<Rightarrow> control_world \<Rightarrow> bool" where
  "gateway_event_allowed honest e w = (case w of (g, fence, applied) \<Rightarrow>
     (case e of
        SessionCreated k v \<Rightarrow> \<not> tv_controlling v \<and> map_of (gw_sessions g) k = None
          \<and> list_all (\<lambda>s. sk_session s \<noteq> k) (map_values (gw_sockets g))
          \<and> map_of (gw_timers g) k = None \<and> list_all (\<lambda>(i, q). list_all (\<lambda>(op, p). op \<noteq> AbandonedRelease k) q) (gw_transitions g)
      | ControlRequested i op \<Rightarrow> (case op of AbandonedRelease _ \<Rightarrow> False | _ \<Rightarrow> True)
      | SocketOpened n cookie i now \<Rightarrow> map_of (gw_sockets g) n = None
      | TransitionBegun i gone now \<Rightarrow> head_phase i g = Some Waiting
      | ProxyAnswer i ok now \<Rightarrow> head_phase i g = Some Proxied \<and> (if ok then applied i else honest \<longrightarrow> \<not> applied i)
      | ProxySettled i \<Rightarrow> head_phase i g = Some ProxyAnswered \<or> head_phase i g = Some Proxied \<and> (honest \<longrightarrow> \<not> applied i)
      | ReleaseAnswer i ok now \<Rightarrow> head_phase i g = Some Releasing \<and> (if ok then applied i else honest \<longrightarrow> \<not> applied i)
      | RestoreAnswer i ok now \<Rightarrow> head_phase i g = Some Restoring \<and> (if ok then applied i else honest \<longrightarrow> \<not> applied i)
      | _ \<Rightarrow> True))"

inductive viewers_reach :: "bool \<Rightarrow> control_world \<Rightarrow> bool" for honest where
  start: "viewers_reach honest (new_gateway epoch grace, \<lambda>_. False, \<lambda>_. False)"
| event: "viewers_reach honest (g, w) \<Longrightarrow> gateway_event_allowed honest e (g, w)
    \<Longrightarrow> viewers_reach honest (gateway_event_step e g, fence_after e (g, w))"

section \<open>Sockets, sessions and the queue\<close>

definition running :: "string \<Rightarrow> gateway \<Rightarrow> bool" where
  "running i g = (case transitions_of i g of (_, p) # _ \<Rightarrow> p \<noteq> Waiting | [] \<Rightarrow> False)"

definition single_controller :: "gateway \<Rightarrow> bool" where
  "single_controller g = (\<forall>k k' v v'. map_of (gw_sessions g) k = Some v \<longrightarrow> map_of (gw_sessions g) k' = Some v' \<longrightarrow>
     tv_id v = tv_id v' \<longrightarrow> tv_controlling v \<longrightarrow> tv_controlling v' \<longrightarrow> k = k')"

definition backed_socket :: "gateway \<Rightarrow> viewer_socket \<Rightarrow> bool" where
  "backed_socket g s = (\<not> sk_destroyed s \<and> sk_controlling s \<longrightarrow> session_controls (sk_session s) g)"

definition quiet_socket :: "gateway \<Rightarrow> viewer_socket \<Rightarrow> bool" where
  "quiet_socket g s = (\<not> sk_destroyed s \<and> sk_controlling s \<longrightarrow>
     (\<forall>v. map_of (gw_sessions g) (sk_session s) = Some v \<longrightarrow> running (tv_id v) g \<longrightarrow> sk_paused s))"

text \<open>Only the head of a queue runs.\<close>

definition queues_ok :: "gateway \<Rightarrow> bool" where
  "queues_ok g = (\<forall>i. \<forall>(op, p) \<in> set (tl (transitions_of i g)). p = Waiting)"

definition viewers_ok :: "gateway \<Rightarrow> bool" where
  "viewers_ok g = (queues_ok g \<and> single_controller g \<and> distinct (map fst (gw_sessions g)) \<and> distinct (map fst (gw_sockets g))
     \<and> (\<forall>(n, s) \<in> set (gw_sockets g). backed_socket g s \<and> quiet_socket g s))"

text \<open>A change of the gateway that takes sessions away, or their control, but neither computers nor keys of
  sockets, and that leaves the queue as it is.\<close>

definition sessions_within :: "gateway \<Rightarrow> gateway \<Rightarrow> bool" where
  "sessions_within g g' = (\<forall>k v'. map_of (gw_sessions g') k = Some v' \<longrightarrow>
     (\<exists>v. map_of (gw_sessions g) k = Some v \<and> tv_id v' = tv_id v \<and> (tv_controlling v' \<longrightarrow> tv_controlling v)))"

lemma sessions_within_refl [simp]: "sessions_within g g"
  by (auto simp: sessions_within_def)

lemma sessions_within_trans: "sessions_within g g' \<Longrightarrow> sessions_within g' g'' \<Longrightarrow> sessions_within g g''"
  unfolding sessions_within_def by metis

lemma single_from: "single_controller g \<Longrightarrow> sessions_within g g' \<Longrightarrow> single_controller g'"
  unfolding single_controller_def sessions_within_def by metis

lemma transitions_eq: "gw_transitions g' = gw_transitions g \<Longrightarrow> transitions_of i g' = transitions_of i g \<and> running i g' = running i g"
  by (simp add: transitions_of_def running_def)

text \<open>What may happen to a socket without harm: it is destroyed, paused, or no longer a controller's.\<close>

definition socket_tamed :: "viewer_socket \<Rightarrow> viewer_socket \<Rightarrow> bool" where
  "socket_tamed s s' = (sk_session s' = sk_session s \<and> (\<not> sk_destroyed s' \<longrightarrow> \<not> sk_destroyed s)
     \<and> (sk_controlling s' \<longrightarrow> sk_controlling s) \<and> (sk_paused s \<longrightarrow> sk_paused s'))"

definition sockets_from :: "gateway \<Rightarrow> gateway \<Rightarrow> bool" where
  "sockets_from g g' = (distinct (map fst (gw_sockets g'))
     \<and> (\<forall>(n, s') \<in> set (gw_sockets g'). \<exists>s. (n, s) \<in> set (gw_sockets g) \<and> socket_tamed s s'))"

definition computers_from :: "gateway \<Rightarrow> gateway \<Rightarrow> bool" where
  "computers_from g g' = (\<forall>k v'. map_of (gw_sessions g') k = Some v' \<longrightarrow>
     (\<exists>v. map_of (gw_sessions g) k = Some v \<and> tv_id v' = tv_id v))"

lemma computers_change_ok:
  assumes ok: "viewers_ok g" and sessions: "computers_from g g'" "distinct (map fst (gw_sessions g'))" and single: "single_controller g'"
    and queue: "\<And>i. running i g' \<Longrightarrow> running i g" "queues_ok g'" and sockets: "sockets_from g g'"
    and backed: "\<And>n s. (n, s) \<in> set (gw_sockets g') \<Longrightarrow> backed_socket g' s"
  shows "viewers_ok g'"
proof -
  have "quiet_socket g' s'" if s': "(n, s') \<in> set (gw_sockets g')" for n s'
    unfolding quiet_socket_def
  proof (intro impI allI)
    fix v' assume live: "\<not> sk_destroyed s' \<and> sk_controlling s'" and v': "map_of (gw_sessions g') (sk_session s') = Some v'"
      and run: "running (tv_id v') g'"
    from sockets s' obtain s where s: "(n, s) \<in> set (gw_sockets g)" "socket_tamed s s'" unfolding sockets_from_def by blast
    from sessions(1) v' obtain v where v: "map_of (gw_sessions g) (sk_session s') = Some v" "tv_id v' = tv_id v"
      unfolding computers_from_def by blast
    from ok s(1) have "quiet_socket g s" unfolding viewers_ok_def by blast
    with s(2) live v run queue show "sk_paused s'" unfolding quiet_socket_def socket_tamed_def by metis
  qed
  then show ?thesis
    using sessions sockets backed single queue(2) unfolding viewers_ok_def sockets_from_def by blast
qed

lemma change_ok:
  assumes "viewers_ok g" and "sessions_within g g'" "distinct (map fst (gw_sessions g'))"
    and "\<And>i. running i g' \<Longrightarrow> running i g" "queues_ok g'" and "sockets_from g g'"
    and "\<And>n s. (n, s) \<in> set (gw_sockets g') \<Longrightarrow> backed_socket g' s"
  shows "viewers_ok g'"
proof (rule computers_change_ok [OF assms(1) _ assms(3) _ assms(4-7)])
  show "computers_from g g'" using assms(2) unfolding sessions_within_def computers_from_def by metis
  show "single_controller g'" using assms(1,2) single_from unfolding viewers_ok_def by blast
qed

lemma map_of_socket: "viewers_ok g \<Longrightarrow> map_of (gw_sockets g) n = Some s \<longleftrightarrow> (n, s) \<in> set (gw_sockets g)"
  by (simp add: viewers_ok_def)

lemma ok_socket: "viewers_ok g \<Longrightarrow> (n, s) \<in> set (gw_sockets g) \<Longrightarrow> backed_socket g s \<and> quiet_socket g s"
  unfolding viewers_ok_def by blast

text \<open>The parts of the gateway that do not matter here.\<close>

definition same_viewers :: "gateway \<Rightarrow> gateway \<Rightarrow> bool" where
  "same_viewers g g' = (gw_sessions g' = gw_sessions g \<and> gw_sockets g' = gw_sockets g \<and> gw_transitions g' = gw_transitions g)"

lemma same_viewers_ok: "viewers_ok g \<Longrightarrow> same_viewers g g' \<Longrightarrow> viewers_ok g'"
proof -
  assume ok: "viewers_ok g" and same: "same_viewers g g'"
  show "viewers_ok g'"
  proof (rule change_ok [OF ok])
    show "sockets_from g g'" using ok same unfolding sockets_from_def viewers_ok_def same_viewers_def socket_tamed_def by auto
    show "backed_socket g' s" if "(n, s) \<in> set (gw_sockets g')" for n s
      using that ok_socket [OF ok] same unfolding same_viewers_def backed_socket_def session_controls_def by auto
  qed (use ok same in \<open>auto simp: sessions_within_def same_viewers_def viewers_ok_def running_def transitions_of_def queues_ok_def\<close>)
qed

lemma timer_same [simp]:
  "same_viewers g (clearAbandonedControlRelease key g)" "same_viewers g (armAbandonedControlRelease key i now g)"
  by (simp_all add: same_viewers_def clearAbandonedControlRelease_def armAbandonedControlRelease_def Let_def)

lemma timer_fields [simp]:
  "gw_sessions (clearAbandonedControlRelease key g) = gw_sessions g" "gw_sessions (armAbandonedControlRelease key i now g) = gw_sessions g"
  "gw_sockets (clearAbandonedControlRelease key g) = gw_sockets g" "gw_sockets (armAbandonedControlRelease key i now g) = gw_sockets g"
  "gw_transitions (clearAbandonedControlRelease key g) = gw_transitions g" "gw_transitions (armAbandonedControlRelease key i now g) = gw_transitions g"
  "gw_closing (clearAbandonedControlRelease key g) = gw_closing g" "gw_closing (armAbandonedControlRelease key i now g) = gw_closing g"
  by (simp_all add: clearAbandonedControlRelease_def armAbandonedControlRelease_def Let_def)

lemma change_sockets_fields [simp]:
  "gw_sessions (change_sockets f g) = gw_sessions g" "gw_transitions (change_sockets f g) = gw_transitions g"
  "gw_closing (change_sockets f g) = gw_closing g" "gw_sockets (change_sockets f g) = map (\<lambda>(n, s). (n, f s)) (gw_sockets g)"
  by (simp_all add: change_sockets_def)

lemma change_sockets_from:
  assumes "viewers_ok g" and "\<And>s. socket_tamed s (f s)"
  shows "sockets_from g (change_sockets f g)"
  using assms unfolding sockets_from_def viewers_ok_def
  by (auto simp: comp_def case_prod_beta)

lemma change_sockets_ok:
  assumes "viewers_ok g" and "\<And>s. socket_tamed s (f s)"
  shows "viewers_ok (change_sockets f g)"
proof (rule change_ok [OF assms(1) _ _ _ _ change_sockets_from [OF assms]])
  show "backed_socket (change_sockets f g) s" if "(n, s) \<in> set (gw_sockets (change_sockets f g))" for n s
  proof -
    from that obtain t where "(n, t) \<in> set (gw_sockets g)" "s = f t" by auto
    with ok_socket [OF assms(1)] assms(2) [of t] show ?thesis
      unfolding backed_socket_def socket_tamed_def session_controls_def by auto
  qed
qed (use assms(1) in \<open>auto simp: sessions_within_def viewers_ok_def running_def transitions_of_def queues_ok_def\<close>)

section \<open>Expiry and sessions\<close>

lemma close_tamed: "socket_tamed s (if sk_session s = key \<and> (\<not> o1 \<or> sk_controlling s) then s\<lparr>sk_destroyed := True\<rparr> else s)"
  by (simp add: socket_tamed_def)

lemma close_sockets_ok: "viewers_ok g \<Longrightarrow> viewers_ok (closeViewerSockets key o1 g)"
  unfolding closeViewerSockets_def by (rule change_sockets_ok [OF _ close_tamed])

lemma close_fields [simp]:
  "gw_sessions (closeViewerSockets key o1 g) = gw_sessions g" "gw_transitions (closeViewerSockets key o1 g) = gw_transitions g"
  "gw_closing (closeViewerSockets key o1 g) = gw_closing g"
  by (simp_all add: closeViewerSockets_def)

lemma closed_sockets:
  "(n, s) \<in> set (gw_sockets (closeViewerSockets key o1 g)) \<Longrightarrow> sk_session s = key \<Longrightarrow> \<not> o1 \<or> sk_controlling s \<Longrightarrow> sk_destroyed s"
proof -
  assume s: "(n, s) \<in> set (gw_sockets (closeViewerSockets key o1 g))" "sk_session s = key" "\<not> o1 \<or> sk_controlling s"
  then obtain t where t: "s = (if sk_session t = key \<and> (\<not> o1 \<or> sk_controlling t) then t\<lparr>sk_destroyed := True\<rparr> else t)"
    by (force simp: closeViewerSockets_def)
  show "sk_destroyed s"
    by (rule ccontr) (use s(2,3) t in \<open>simp split: if_split_asm\<close>)
qed

lemma delete_session_ok:
  assumes "viewers_ok g" and "\<And>n s. (n, s) \<in> set (gw_sockets g) \<Longrightarrow> sk_session s = key \<Longrightarrow> sk_destroyed s"
  shows "viewers_ok (g\<lparr>gw_sessions := AList.delete key (gw_sessions g)\<rparr>)"
proof (rule change_ok [OF assms(1)])
  show "sockets_from g (g\<lparr>gw_sessions := AList.delete key (gw_sessions g)\<rparr>)"
    using assms(1) unfolding sockets_from_def viewers_ok_def socket_tamed_def by auto
  show "backed_socket (g\<lparr>gw_sessions := AList.delete key (gw_sessions g)\<rparr>) s"
    if "(n, s) \<in> set (gw_sockets (g\<lparr>gw_sessions := AList.delete key (gw_sessions g)\<rparr>))" for n s
    using that ok_socket [OF assms(1)] assms(2) unfolding backed_socket_def session_controls_def by auto
qed (use assms(1) in \<open>auto simp: sessions_within_def viewers_ok_def running_def transitions_of_def queues_ok_def distinct_delete\<close>)

lemma prune_session_ok: "viewers_ok g \<Longrightarrow> viewers_ok (prune_session now kv g)"
proof -
  assume ok: "viewers_ok g"
  obtain key v where kv: "kv = (key, v)" by force
  let ?g = "closeViewerSockets key False g"
  have closed: "viewers_ok ?g" by (rule close_sockets_ok [OF ok])
  have "viewers_ok ((clearAbandonedControlRelease key ?g)\<lparr>gw_sessions := AList.delete key (gw_sessions ?g)\<rparr>)"
    using delete_session_ok [OF same_viewers_ok [OF closed timer_same(1)], of key key] closed_sockets [of _ _ key False g]
    by simp
  with ok closed same_viewers_ok [OF closed timer_same(2)] show ?thesis
    unfolding kv prune_session_def Let_def by simp
qed

text \<open>What pruning and the use of a session leave as it is.\<close>

definition tamed_sockets :: "gateway \<Rightarrow> gateway \<Rightarrow> bool" where
  "tamed_sockets g g' = (\<forall>n s'. (n, s') \<in> set (gw_sockets g') \<longrightarrow> (\<exists>s. (n, s) \<in> set (gw_sockets g) \<and> socket_tamed s s'))"

lemma tamed_refl [simp]: "socket_tamed s s" "gw_sockets g' = gw_sockets g \<Longrightarrow> tamed_sockets g g'"
  by (auto simp: socket_tamed_def tamed_sockets_def)

lemma tamed_trans: "tamed_sockets g g' \<Longrightarrow> tamed_sockets g' g'' \<Longrightarrow> tamed_sockets g g''"
  unfolding tamed_sockets_def socket_tamed_def by metis

lemma tamed_change:
  assumes "\<And>s. socket_tamed s (f s)"
  shows "tamed_sockets g (change_sockets f g)"
  unfolding tamed_sockets_def
proof (intro allI impI)
  fix n s' assume "(n, s') \<in> set (gw_sockets (change_sockets f g))"
  then obtain s where "(n, s) \<in> set (gw_sockets g)" "s' = f s" by auto
  with assms show "\<exists>s. (n, s) \<in> set (gw_sockets g) \<and> socket_tamed s s'" by blast
qed

lemma tamed_close [simp]: "tamed_sockets g (closeViewerSockets key o1 g)"
  unfolding closeViewerSockets_def by (rule tamed_change [OF close_tamed])

definition shrinks :: "gateway \<Rightarrow> gateway \<Rightarrow> bool" where
  "shrinks g g' = (tamed_sockets g g' \<and> sessions_within g g' \<and> gw_transitions g' = gw_transitions g \<and> gw_closing g' = gw_closing g)"

lemma shrinks_refl [simp]: "shrinks g g"
  by (simp add: shrinks_def)

lemma shrinks_trans: "shrinks g g' \<Longrightarrow> shrinks g' g'' \<Longrightarrow> shrinks g g''"
  unfolding shrinks_def using sessions_within_trans tamed_trans by metis

lemma shrinks_same: "gw_sockets g' = gw_sockets g \<Longrightarrow> gw_sessions g' = gw_sessions g \<Longrightarrow> gw_transitions g' = gw_transitions g \<Longrightarrow> gw_closing g' = gw_closing g \<Longrightarrow> shrinks g g'"
  by (simp add: shrinks_def sessions_within_def)

lemma prune_session_shrinks: "shrinks g (prune_session now kv g)"
proof -
  obtain key v where kv: "kv = (key, v)" by force
  have "tamed_sockets g (clearAbandonedControlRelease key (closeViewerSockets key False g))" for key
    by (rule tamed_trans [OF tamed_close [of g key False]]) simp
  moreover have "tamed_sockets g (armAbandonedControlRelease key i now (closeViewerSockets key False g))" for key i
    by (rule tamed_trans [OF tamed_close [of g key False]]) simp
  ultimately show ?thesis
    unfolding kv by (auto simp: prune_session_def Let_def shrinks_def sessions_within_def tamed_sockets_def)
qed

lemma prune_fold: "viewers_ok g \<Longrightarrow> viewers_ok (fold (prune_session now) xs g) \<and> shrinks g (fold (prune_session now) xs g)"
proof (induction xs arbitrary: g)
  case (Cons x xs)
  from Cons.IH [OF prune_session_ok [OF Cons.prems]] prune_session_shrinks [of g now x] show ?case
    using shrinks_trans by (metis fold_simps(2))
qed simp

lemma prune_ok:
  assumes "viewers_ok g"
  shows "viewers_ok (pruneExpired now g) \<and> shrinks g (pruneExpired now g)"
proof -
  let ?g = "g\<lparr>gw_tickets := filter (\<lambda>(k, v). \<not> (tv_expiresAt v \<le> now \<or> \<not> token_accepted v g)) (gw_tickets g)\<rparr>"
  have "viewers_ok ?g" by (rule same_viewers_ok [OF assms]) (simp add: same_viewers_def)
  moreover have "shrinks g ?g" by (rule shrinks_same) simp_all
  ultimately show ?thesis
    unfolding pruneExpired_def Let_def using prune_fold shrinks_trans by blast
qed

lemma use_session_ok:
  assumes "viewers_ok g" and "map_of (gw_sessions g) key = Some v"
  shows "viewers_ok (g\<lparr>gw_sessions := AList.update key (v\<lparr>tv_expiresAt := t\<rparr>) (gw_sessions g)\<rparr>)"
    and "shrinks g (g\<lparr>gw_sessions := AList.update key (v\<lparr>tv_expiresAt := t\<rparr>) (gw_sessions g)\<rparr>)"
proof -
  let ?g = "g\<lparr>gw_sessions := AList.update key (v\<lparr>tv_expiresAt := t\<rparr>) (gw_sessions g)\<rparr>"
  show "shrinks g ?g" using assms(2) by (auto simp: shrinks_def sessions_within_def)
  show "viewers_ok ?g"
  proof (rule change_ok [OF assms(1)])
    show "sockets_from g ?g" using assms(1) unfolding sockets_from_def viewers_ok_def socket_tamed_def by auto
    show "backed_socket ?g s" if "(n, s) \<in> set (gw_sockets ?g)" for n s
    proof -
      from that ok_socket [OF assms(1), of n s] have "backed_socket g s" by simp
      with assms(2) show ?thesis by (cases "sk_session s = key") (simp_all add: backed_socket_def session_controls_def)
    qed
  qed (use assms in \<open>auto simp: sessions_within_def viewers_ok_def running_def transitions_of_def queues_ok_def distinct_update\<close>)
qed

lemma valid_session:
  assumes "viewers_ok g" and "validViewSession cookie i now g = (g1, r)"
  shows "viewers_ok g1 \<and> shrinks g g1"
    and "r = Some key \<Longrightarrow> cookie = Some key \<and> (\<exists>v. map_of (gw_sessions g1) key = Some v \<and> tv_id v = i)"
proof -
  note pruned = prune_ok [OF assms(1), of now]
  have "viewers_ok g1 \<and> shrinks g g1 \<and> (r = Some key \<longrightarrow> cookie = Some key \<and> (\<exists>v. map_of (gw_sessions g1) key = Some v \<and> tv_id v = i))"
    using assms(2) pruned use_session_ok [OF conjunct1 [OF pruned]]
    by (auto simp: validViewSession_def Let_def split: option.splits if_splits intro: shrinks_trans)
  then show "viewers_ok g1 \<and> shrinks g g1"
    and "r = Some key \<Longrightarrow> cookie = Some key \<and> (\<exists>v. map_of (gw_sessions g1) key = Some v \<and> tv_id v = i)" by blast+
qed

section \<open>A new controller\<close>

definition with_controller :: "string \<Rightarrow> string option \<Rightarrow> string \<Rightarrow> timed_value \<Rightarrow> timed_value" where
  "with_controller i c k v = (if tv_id v = i then v\<lparr>tv_controlling := (c = Some k)\<rparr> else v)"

lemma with_controller_fields [simp]:
  "tv_id (with_controller i c k v) = tv_id v"
  "tv_controlling (with_controller i c k v) = (if tv_id v = i then c = Some k else tv_controlling v)"
  by (simp_all add: with_controller_def)

definition sockets_backed :: "gateway \<Rightarrow> bool" where
  "sockets_backed g = (distinct (map fst (gw_sockets g)) \<and> (\<forall>(n, s) \<in> set (gw_sockets g). backed_socket g s))"

lemma control_step_sockets: "sockets_from g (control_step now i c kv g)" if "distinct (map fst (gw_sockets g))"
  using that
  by (cases kv) (auto simp: control_step_def Let_def sockets_from_def closeViewerSockets_def socket_tamed_def comp_def case_prod_beta)

lemma control_step_rest [simp]:
  "gw_transitions (control_step now i c kv g) = gw_transitions g" "gw_closing (control_step now i c kv g) = gw_closing g"
  by (cases kv; simp add: control_step_def Let_def)+

lemma control_step_sessions:
  assumes "map_of (gw_sessions g) k = Some v"
  shows "map_of (gw_sessions (control_step now i c (k, v) g)) k' = (if k' = k then Some (with_controller i c k v) else map_of (gw_sessions g) k')"
    and "distinct (map fst (gw_sessions g)) \<Longrightarrow> distinct (map fst (gw_sessions (control_step now i c (k, v) g)))"
  using assms by (simp_all add: control_step_def Let_def with_controller_def distinct_update)

lemma control_step_backed:
  assumes "map_of (gw_sessions g) k = Some v" and backed: "sockets_backed g"
  shows "sockets_backed (control_step now i c (k, v) g)"
proof -
  let ?g = "control_step now i c (k, v) g"
  have "distinct (map fst (gw_sockets g))" using backed by (simp add: sockets_backed_def)
  note from_g = control_step_sockets [OF this, of now i c "(k, v)"]
  have "backed_socket ?g s'" if s': "(n, s') \<in> set (gw_sockets ?g)" for n s'
    unfolding backed_socket_def
  proof (intro impI)
    assume live: "\<not> sk_destroyed s' \<and> sk_controlling s'"
    from from_g s' obtain s where s: "(n, s) \<in> set (gw_sockets g)" "socket_tamed s s'" unfolding sockets_from_def by blast
    from backed s(1) have "backed_socket g s" by (auto simp: sockets_backed_def)
    with s(2) live have before: "session_controls (sk_session s') g" by (simp add: backed_socket_def socket_tamed_def)
    show "session_controls (sk_session s') ?g"
    proof (cases "sk_session s' = k \<and> tv_id v = i \<and> c \<noteq> Some k")
      case True
      then have "tv_controlling v" using before assms(1) by (simp add: session_controls_def)
      then have "gw_sockets ?g = gw_sockets (closeViewerSockets k True g)" using True by (simp add: control_step_def Let_def)
      with s' True live closed_sockets [of n s' k True g] have False by simp
      then show ?thesis ..
    next
      case False
      then show ?thesis using before control_step_sessions(1) [OF assms(1), of now i c "sk_session s'"] assms(1)
        by (auto simp: session_controls_def with_controller_def)
    qed
  qed
  then show ?thesis using from_g by (auto simp: sockets_backed_def sockets_from_def)
qed

lemma sockets_from_trans:
  assumes "sockets_from g g'" and "sockets_from g' g''"
  shows "sockets_from g g''"
  unfolding sockets_from_def
proof (intro conjI ballI)
  show "distinct (map fst (gw_sockets g''))" using assms(2) by (simp add: sockets_from_def)
  fix x assume "x \<in> set (gw_sockets g'')"
  then obtain n s'' where x: "x = (n, s'')" "(n, s'') \<in> set (gw_sockets g'')" by (metis surj_pair)
  from assms(2) x(2) obtain s' where s': "(n, s') \<in> set (gw_sockets g')" "socket_tamed s' s''" unfolding sockets_from_def by blast
  from assms(1) s'(1) obtain s where "(n, s) \<in> set (gw_sockets g)" "socket_tamed s s'" unfolding sockets_from_def by blast
  with s'(2) have "\<exists>s. (n, s) \<in> set (gw_sockets g) \<and> socket_tamed s s''" unfolding socket_tamed_def by metis
  then show "case x of (n, s') \<Rightarrow> \<exists>s. (n, s) \<in> set (gw_sockets g) \<and> socket_tamed s s'" by (simp add: x(1))
qed

lemma control_fold:
  assumes "distinct (map fst xs)" and "\<And>k v. (k, v) \<in> set xs \<Longrightarrow> map_of (gw_sessions g) k = Some v"
    and "sockets_backed g"
  shows "sockets_backed (fold (control_step now i c) xs g) \<and> sockets_from g (fold (control_step now i c) xs g)
    \<and> (\<forall>k. map_of (gw_sessions (fold (control_step now i c) xs g)) k =
         (case map_of xs k of Some v \<Rightarrow> Some (with_controller i c k v) | None \<Rightarrow> map_of (gw_sessions g) k))
    \<and> (distinct (map fst (gw_sessions g)) \<longrightarrow> distinct (map fst (gw_sessions (fold (control_step now i c) xs g))))
    \<and> gw_transitions (fold (control_step now i c) xs g) = gw_transitions g
    \<and> gw_closing (fold (control_step now i c) xs g) = gw_closing g"
  using assms
proof (induction xs arbitrary: g)
  case Nil
  then show ?case by (auto simp: sockets_from_def sockets_backed_def socket_tamed_def)
next
  case (Cons x xs)
  obtain k v where x: "x = (k, v)" by force
  let ?g = "control_step now i c (k, v) g"
  have kv: "map_of (gw_sessions g) k = Some v" using Cons.prems(2) x by simp
  note sessions = control_step_sessions [OF kv, of now i c]
  have rest: "map_of (gw_sessions ?g) k' = Some v'" if "(k', v') \<in> set xs" for k' v'
    using that Cons.prems(1,2) x by (auto simp: sessions(1) image_iff)
  have IH: "sockets_backed (fold (control_step now i c) xs ?g) \<and> sockets_from ?g (fold (control_step now i c) xs ?g)
    \<and> (\<forall>k. map_of (gw_sessions (fold (control_step now i c) xs ?g)) k =
         (case map_of xs k of Some v \<Rightarrow> Some (with_controller i c k v) | None \<Rightarrow> map_of (gw_sessions ?g) k))
    \<and> (distinct (map fst (gw_sessions ?g)) \<longrightarrow> distinct (map fst (gw_sessions (fold (control_step now i c) xs ?g))))
    \<and> gw_transitions (fold (control_step now i c) xs ?g) = gw_transitions ?g
    \<and> gw_closing (fold (control_step now i c) xs ?g) = gw_closing ?g"
    using Cons.IH [OF _ rest control_step_backed [OF kv Cons.prems(3)]] Cons.prems(1) by simp
  have "sockets_from g ?g" using Cons.prems(3) control_step_sockets by (simp add: sockets_backed_def)
  moreover have "map_of xs k = None" using Cons.prems(1) x by (simp add: map_of_eq_None_iff)
  ultimately show ?case
    using IH sessions sockets_from_trans by (auto simp: x split: option.split)
qed

lemma set_controller:
  assumes "viewers_ok g"
  shows "viewers_ok (setControllingSession now i c g)"
    and "map_of (gw_sessions (setControllingSession now i c g)) k = map_option (with_controller i c k) (map_of (gw_sessions g) k)"
    and "gw_transitions (setControllingSession now i c g) = gw_transitions g"
    and "gw_closing (setControllingSession now i c g) = gw_closing g"
proof -
  let ?g = "setControllingSession now i c g"
  have distinct: "distinct (map fst (gw_sessions g))" and backed: "sockets_backed g"
    using assms by (auto simp: viewers_ok_def sockets_backed_def)
  note f = control_fold [OF distinct map_of_is_SomeI [OF distinct] backed, folded setControllingSession_def, of now i c]
  have map: "map_of (gw_sessions ?g) k = map_option (with_controller i c k) (map_of (gw_sessions g) k)" for k
    using f by (simp split: option.split)
  have single: "single_controller ?g"
    using assms unfolding single_controller_def viewers_ok_def map by (auto simp del: map_of_eq_Some_iff split: if_splits)
  show "viewers_ok ?g"
  proof (rule computers_change_ok [OF assms])
    show "computers_from g ?g" unfolding computers_from_def map by auto
    show "backed_socket ?g s" if "(n, s) \<in> set (gw_sockets ?g)" for n s
      using f that by (auto simp: sockets_backed_def)
    show "queues_ok ?g" using assms f unfolding queues_ok_def viewers_ok_def transitions_of_def by metis
  qed (use f distinct single in \<open>auto simp: running_def transitions_of_def\<close>)
  show "map_of (gw_sessions ?g) k = map_option (with_controller i c k) (map_of (gw_sessions g) k)" by (rule map)
  show "gw_transitions ?g = gw_transitions g" "gw_closing ?g = gw_closing g" using f by blast+
qed

section \<open>The queue\<close>

lemma transitions_update [simp]:
  "transitions_of j (g\<lparr>gw_transitions := AList.update i q (gw_transitions g)\<rparr>) = (if j = i then q else transitions_of j g)"
  "transitions_of j (g\<lparr>gw_transitions := AList.delete i (gw_transitions g)\<rparr>) = (if j = i then [] else transitions_of j g)"
  by (simp_all add: transitions_of_def)

lemma queue_change_ok:
  assumes "viewers_ok g" and "gw_sessions g' = gw_sessions g" and "gw_sockets g' = gw_sockets g"
    and "\<And>i. running i g' \<Longrightarrow> running i g" "queues_ok g'"
  shows "viewers_ok g'"
proof (rule change_ok [OF assms(1) _ _ assms(4,5)])
  show "sockets_from g g'" using assms(1,3) unfolding sockets_from_def viewers_ok_def socket_tamed_def by auto
  show "backed_socket g' s" if "(n, s) \<in> set (gw_sockets g')" for n s
    using that ok_socket [OF assms(1)] assms(2,3) unfolding backed_socket_def session_controls_def by auto
qed (use assms in \<open>auto simp: sessions_within_def viewers_ok_def\<close>)

lemma queue_waits: "viewers_ok g \<Longrightarrow> (op, p) \<in> set (tl (transitions_of i g)) \<Longrightarrow> p = Waiting"
  unfolding viewers_ok_def queues_ok_def by blast

lemma serialize_ok:
  assumes "viewers_ok g"
  shows "viewers_ok (serializeControlTransition i op g)"
proof (rule queue_change_ok [OF assms])
  show "running j (serializeControlTransition i op g) \<Longrightarrow> running j g" for j
    by (auto simp: serializeControlTransition_def running_def split: list.splits if_splits)
  have "p = Waiting" if "(op', p) \<in> set (tl (transitions_of i g @ [(op, Waiting)]))" for op' p
    using that queue_waits [OF assms, of op' p i] by (cases "transitions_of i g") auto
  then show "queues_ok (serializeControlTransition i op g)"
    using queue_waits [OF assms] by (auto simp: serializeControlTransition_def queues_ok_def)
qed (simp_all add: serializeControlTransition_def)

lemma set_phase_queue:
  assumes "viewers_ok g"
  shows "queues_ok (set_phase i p g)"
proof (cases "transitions_of i g")
  case (Cons x q)
  then have "op = op' \<Longrightarrow> p' = Waiting" if "(op', p') \<in> set q" for op op' p'
    using queue_waits [OF assms, of op' p' i] that by simp
  then show ?thesis using Cons queue_waits [OF assms]
    by (auto simp: set_phase_def queues_ok_def split: prod.split)
qed (use assms in \<open>simp add: set_phase_def viewers_ok_def\<close>)

text \<open>A running change goes on; one that begins has paused the sockets first.\<close>

lemma set_phase_running:
  assumes "viewers_ok g" and "running i g"
  shows "viewers_ok (set_phase i p g)"
  by (rule queue_change_ok [OF assms(1) _ _ _ set_phase_queue [OF assms(1)]])
    (use assms(2) in \<open>auto simp: set_phase_def running_def split: list.splits if_splits\<close>)

definition paused_controllers :: "string \<Rightarrow> gateway \<Rightarrow> bool" where
  "paused_controllers i g = (\<forall>(n, s) \<in> set (gw_sockets g). \<not> sk_destroyed s \<and> sk_controlling s \<and> of_computer i g s \<longrightarrow> sk_paused s)"

lemma pause_ok: "viewers_ok g \<Longrightarrow> viewers_ok (pause_controllers i g) \<and> paused_controllers i (pause_controllers i g)"
proof
  show "viewers_ok g \<Longrightarrow> viewers_ok (pause_controllers i g)"
    unfolding pause_controllers_def by (rule change_sockets_ok) (simp_all add: socket_tamed_def)
  have "of_computer i (change_sockets f g) s = of_computer i g s" for f s by (simp add: of_computer_def)
  then show "paused_controllers i (pause_controllers i g)"
    unfolding paused_controllers_def pause_controllers_def by (auto simp: of_computer_def split: if_splits)
qed

lemma set_phase_paused:
  assumes "viewers_ok g" and "paused_controllers i g"
  shows "viewers_ok (set_phase i p g)"
proof -
  have "sk_paused s" if s: "(n, s) \<in> set (gw_sockets g)" "\<not> sk_destroyed s" "sk_controlling s"
      and v: "map_of (gw_sessions g) (sk_session s) = Some v" and run: "running (tv_id v) (set_phase i p g)" for n s v
  proof (cases "tv_id v = i")
    case True
    with assms(2) s v show ?thesis by (auto simp: paused_controllers_def of_computer_def)
  next
    case False
    with run have "running (tv_id v) g" by (auto simp: set_phase_def running_def split: list.splits)
    with ok_socket [OF assms(1) s(1)] s v show ?thesis unfolding quiet_socket_def by blast
  qed
  moreover have "gw_sessions (set_phase i p g) = gw_sessions g" "gw_sockets (set_phase i p g) = gw_sockets g"
    by (auto simp: set_phase_def split: list.splits)
  ultimately show ?thesis
    using assms(1) set_phase_queue [OF assms(1)] unfolding viewers_ok_def quiet_socket_def backed_socket_def single_controller_def session_controls_def
    by (simp only:) blast
qed

lemma tl_member: "x \<in> set (tl xs) \<Longrightarrow> x \<in> set xs"
  by (cases xs) simp_all

lemma finish_ok:
  assumes "viewers_ok g"
  shows "viewers_ok (finish_transition i g)"
proof -
  let ?f = "\<lambda>s. if of_computer i g s \<and> controlled_by g s \<and> sk_controlling s \<and> sk_ready s then s\<lparr>sk_paused := False\<rparr> else s"
  let ?g = "finish_transition i g"
  have sockets: "gw_sockets ?g = map (\<lambda>(n, s). (n, ?f s)) (gw_sockets g)" and sessions: "gw_sessions ?g = gw_sessions g"
    by (auto simp: finish_transition_def Let_def split: list.split)
  have queue: "transitions_of j ?g = (if j = i then tl (transitions_of i g) else transitions_of j g)" for j
    by (auto simp: finish_transition_def Let_def transitions_of_def split: list.split option.split)
  have idle: "\<not> running i ?g"
    using queue_waits [OF assms, of _ _ i] by (cases "tl (transitions_of i g)") (auto simp: running_def queue)
  have "backed_socket ?g s' \<and> quiet_socket ?g s'" if s': "(n, s') \<in> set (gw_sockets ?g)" for n s'
  proof -
    from s' obtain s where s: "(n, s) \<in> set (gw_sockets g)" "s' = ?f s" by (auto simp: sockets)
    note ok = ok_socket [OF assms s(1)]
    have "sk_paused s'" if live: "\<not> sk_destroyed s' \<and> sk_controlling s'" and v: "map_of (gw_sessions g) (sk_session s') = Some v"
        and run: "running (tv_id v) ?g" for v
    proof -
      from run idle have other: "tv_id v \<noteq> i" by auto
      with v s(2) have "s' = s" by (auto simp: of_computer_def split: if_splits)
      moreover from run other have "running (tv_id v) g" by (simp add: running_def queue)
      ultimately show ?thesis using ok live v unfolding quiet_socket_def by blast
    qed
    then show ?thesis using ok s(2)
      by (auto simp: backed_socket_def quiet_socket_def session_controls_def sessions split: if_splits)
  qed
  moreover have "queues_ok ?g"
    using queue_waits [OF assms] unfolding queues_ok_def queue by (auto dest: tl_member)
  moreover have "distinct (map fst (gw_sockets ?g))"
    using assms by (simp add: sockets viewers_ok_def comp_def case_prod_beta)
  ultimately show ?thesis
    using assms unfolding viewers_ok_def single_controller_def sessions by blast
qed

section \<open>Every event keeps the viewers in order\<close>

lemma paused_shrinks: "paused_controllers i g \<Longrightarrow> shrinks g g' \<Longrightarrow> paused_controllers i g'"
  unfolding paused_controllers_def
proof (intro ballI, clarify)
  fix n s'
  assume paused: "\<forall>(n, s) \<in> set (gw_sockets g). \<not> sk_destroyed s \<and> sk_controlling s \<and> of_computer i g s \<longrightarrow> sk_paused s"
    and shrinks: "shrinks g g'" and s': "(n, s') \<in> set (gw_sockets g')" "\<not> sk_destroyed s'" "sk_controlling s'" "of_computer i g' s'"
  from shrinks s'(1) obtain s where s: "(n, s) \<in> set (gw_sockets g)" "socket_tamed s s'"
    unfolding shrinks_def tamed_sockets_def by blast
  have "of_computer i g s" using s'(4) s(2) shrinks
    unfolding of_computer_def shrinks_def sessions_within_def socket_tamed_def by (fastforce split: option.splits)
  with paused s s' show "sk_paused s'" unfolding socket_tamed_def by blast
qed

lemma slot_same [simp]: "same_viewers g (take_slot i g)" "same_viewers g (release_slot i g)"
  by (simp_all add: same_viewers_def take_slot_def release_slot_def Let_def)

lemma proxy_transition_ok:
  assumes "viewers_ok g" and "paused_controllers i g"
  shows "viewers_ok (fst (proxy_transition i g))"
proof -
  have "paused_controllers i (take_slot i g)"
    using assms(2) by (simp add: paused_controllers_def of_computer_def take_slot_def)
  with assms show ?thesis
    by (simp add: proxy_transition_def finish_ok set_phase_paused same_viewers_ok [OF assms(1) slot_same(1)])
qed

lemma viewer_transition_ok:
  assumes "viewers_ok g" and "paused_controllers i g"
  shows "viewers_ok (fst (viewer_transition taking key i now g))"
proof -
  obtain g1 r where v: "validViewSession (Some key) i now g = (g1, r)" by force
  note valid = valid_session(1) [OF assms(1) v]
  then show ?thesis
    using paused_shrinks [OF assms(2), of g1] assms(1)
    by (auto simp: viewer_transition_def v finish_ok proxy_transition_ok split: option.split)
qed

lemma releaseAbandoned_ok:
  assumes "viewers_ok g" and "paused_controllers i g"
  shows "viewers_ok (releaseAbandonedControl key i now g)"
  using assms by (auto simp: releaseAbandonedControl_def finish_ok set_phase_paused set_controller(1) split: option.split)

lemma begin_ok:
  assumes "viewers_ok g"
  shows "viewers_ok (fst (begin_transition i gone now g))"
  using assms pause_ok [OF assms, of i]
  by (auto simp: begin_transition_def Let_def finish_ok viewer_transition_ok releaseAbandoned_ok proxy_transition_ok
      split: list.split control_op.split control_phase.split option.split)

lemma running_after_controller:
  "viewers_ok g \<Longrightarrow> running i (setControllingSession now j c g) = running i g"
  by (simp add: running_def transitions_of_def set_controller(3))

lemma proxy_answered_ok: "viewers_ok g \<Longrightarrow> viewers_ok (proxy_answered i ok now g)"
  by (auto simp: proxy_answered_def set_controller(1) running_after_controller intro!: set_phase_running
      split: list.split control_phase.split) (auto simp: running_def)

lemma proxy_settled_ok: "viewers_ok g \<Longrightarrow> viewers_ok (proxy_settled i g)"
  by (auto simp: proxy_settled_def finish_ok same_viewers_ok [OF _ slot_same(2)] split: list.split)

lemma release_answered_ok: "viewers_ok g \<Longrightarrow> viewers_ok (release_answered i ok now g)"
  by (auto simp: release_answered_def finish_ok set_controller(1) same_viewers_ok [OF _ timer_same(2)] intro!: set_phase_running
      split: list.split control_op.split control_phase.split option.split) (auto simp: running_def)

lemma restore_answered_ok: "viewers_ok g \<Longrightarrow> viewers_ok (restore_answered i ok now g)"
  by (auto simp: restore_answered_def finish_ok set_controller(1) same_viewers_ok [OF _ timer_same(2)]
      split: list.split control_op.split control_phase.split)

lemma timer_due_ok: "viewers_ok g \<Longrightarrow> viewers_ok (timer_due key now g)"
  by (auto simp: timer_due_def serialize_ok same_viewers_ok [OF _ timer_same(1)] split: option.split)

text \<open>Sockets that come, change and go.\<close>

lemma socket_change_ok:
  assumes "viewers_ok g" and "gw_sessions g' = gw_sessions g" and "gw_transitions g' = gw_transitions g"
    and "distinct (map fst (gw_sockets g'))"
    and "\<And>n s. (n, s) \<in> set (gw_sockets g') \<Longrightarrow> (n, s) \<in> set (gw_sockets g) \<or> backed_socket g s \<and> quiet_socket g s"
  shows "viewers_ok g'"
proof -
  have "running i g' = running i g" for i using assms(3) by (simp add: running_def transitions_of_def)
  then have same: "backed_socket g' s = backed_socket g s" "quiet_socket g' s = quiet_socket g s" for s
    using assms(2) by (simp_all add: backed_socket_def quiet_socket_def session_controls_def)
  have "queues_ok g'" "single_controller g'" "distinct (map fst (gw_sessions g'))"
    using assms(1-3) by (auto simp: viewers_ok_def queues_ok_def single_controller_def transitions_of_def)
  with assms(4,5) ok_socket [OF assms(1)] show ?thesis unfolding viewers_ok_def same by blast
qed

lemma update_socket_ok:
  assumes "viewers_ok g" and "backed_socket g s" "quiet_socket g s"
  shows "viewers_ok (update_socket n s g)"
proof (rule socket_change_ok [OF assms(1)])
  show "(m, t) \<in> set (gw_sockets g) \<or> backed_socket g t \<and> quiet_socket g t" if "(m, t) \<in> set (gw_sockets (update_socket n s g))" for m t
    using set_update_subset [of m t n s "gw_sockets g"] that assms(2,3) by (auto simp: update_socket_def)
qed (use assms(1) in \<open>simp_all add: update_socket_def viewers_ok_def distinct_update\<close>)

lemma open_socket_ok:
  assumes "viewers_ok g" and "map_of (gw_sockets g) n = None"
  shows "viewers_ok (open_socket n cookie i now g)"
proof -
  obtain g1 r where v: "validViewSession cookie i now g = (g1, r)" by force
  note valid = valid_session(1) [OF assms(1) v]
  have fresh: "n \<notin> fst ` set (gw_sockets g1)"
    using valid assms(2) unfolding shrinks_def tamed_sockets_def by (force simp: map_of_eq_None_iff)
  have "viewers_ok (trackViewerSocket n key g1)" for key
  proof (rule socket_change_ok [OF conjunct1 [OF valid]])
    show "(m, t) \<in> set (gw_sockets g1) \<or> backed_socket g1 t \<and> quiet_socket g1 t" if "(m, t) \<in> set (gw_sockets (trackViewerSocket n key g1))" for m t
      using that by (auto simp: trackViewerSocket_def Let_def backed_socket_def quiet_socket_def split: if_splits)
    show "distinct (map fst (gw_sockets (trackViewerSocket n key g1)))"
      using fresh valid by (simp add: trackViewerSocket_def Let_def viewers_ok_def)
  qed (simp_all add: trackViewerSocket_def Let_def)
  then show ?thesis using valid by (simp add: open_socket_def v split: option.split)
qed

text \<open>A socket of the session that was just found valid, while nothing is queued for its computer.\<close>

lemma session_socket:
  assumes "viewers_ok g" and v: "validViewSession (Some (sk_session s)) i now g = (g1, Some key)"
    and "map_of (gw_sockets g) n = Some s" and "map_of (gw_sockets g1) n = Some s1" and "transitions_of i g = []"
  shows "key = sk_session s" "sk_session s1 = sk_session s"
    and "sk_session t = key \<Longrightarrow> quiet_socket g1 t" and "viewers_ok g1"
proof -
  note valid = valid_session [OF assms(1) v]
  show key: "key = sk_session s" using valid(2) by simp
  show ok: "viewers_ok g1" using valid(1) by simp
  from valid(1) assms(4) map_of_socket [OF ok] obtain s' where "(n, s') \<in> set (gw_sockets g)" "socket_tamed s' s1"
    unfolding shrinks_def tamed_sockets_def by blast
  moreover from this(1) have "map_of (gw_sockets g) n = Some s'" using map_of_socket [OF assms(1)] by blast
  ultimately show "sk_session s1 = sk_session s" using assms(3) by (simp add: socket_tamed_def)
  from valid(2) obtain v where "map_of (gw_sessions g1) key = Some v" "tv_id v = i" by blast
  moreover have "\<not> running i g1" using valid(1) assms(5) by (simp add: running_def transitions_of_def shrinks_def)
  ultimately show "quiet_socket g1 t" if "sk_session t = key" using that by (simp add: quiet_socket_def)
qed

lemma connect_viewer_ok:
  assumes "viewers_ok g"
  shows "viewers_ok (connect_viewer n i now g)"
proof (cases "map_of (gw_sockets g) n")
  case (Some s)
  obtain g1 r where v: "validViewSession (Some (sk_session s)) i now g = (g1, r)" by force
  note valid = valid_session(1) [OF assms v]
  have "viewers_ok (update_socket n (s1\<lparr>sk_controlling := session_controls key g1, sk_connecting := True\<rparr>) g1)"
    if r: "r = Some key" and s1: "map_of (gw_sockets g1) n = Some s1" and idle: "transitions_of i g = []" for key s1
  proof -
    note f = session_socket [OF assms v [unfolded r] Some s1 idle]
    show ?thesis
      by (rule update_socket_ok [OF f(4)]) (use f(1-3) in \<open>simp_all add: backed_socket_def\<close>)
  qed
  with valid assms Some show ?thesis by (auto simp: connect_viewer_def v split: option.split)
qed (simp add: connect_viewer_def assms)

lemma backend_connected_ok:
  assumes "viewers_ok g"
  shows "viewers_ok (backend_connected n i same now g)"
proof (cases "map_of (gw_sockets g) n")
  case (Some s)
  obtain g1 r where v: "validViewSession (Some (sk_session s)) i now g = (g1, r)" by force
  note valid = valid_session(1) [OF assms v]
  have "viewers_ok (update_socket n (s1\<lparr>sk_ready := True, sk_paused := False\<rparr>) g1)"
    if r: "r = Some key" and s1: "map_of (gw_sockets g1) n = Some s1" and idle: "transitions_of i g = []" for key s1
  proof -
    note f = session_socket [OF assms v [unfolded r] Some s1 idle]
    have "backed_socket g1 s1" using ok_socket [OF f(4)] s1 map_of_socket [OF f(4)] by blast
    then show ?thesis
      by (intro update_socket_ok [OF f(4)]) (use f(1-3) in \<open>simp_all add: backed_socket_def\<close>)
  qed
  with valid assms Some show ?thesis by (auto simp: backend_connected_def v split: option.split)
qed (simp add: backend_connected_def assms)

lemma socket_destroyed_ok: "viewers_ok g \<Longrightarrow> viewers_ok (socket_destroyed n g)"
  by (auto simp: socket_destroyed_def backed_socket_def quiet_socket_def intro!: update_socket_ok split: option.split)

lemma socket_closed_ok:
  assumes "viewers_ok g"
  shows "viewers_ok (socket_closed n now g)"
proof -
  have "distinct (map fst (AList.delete n (gw_sockets g)))" using assms by (simp add: viewers_ok_def distinct_delete)
  moreover have "(m, t) \<in> set (gw_sockets g)" if "(m, t) \<in> set (AList.delete n (gw_sockets g))" for m t
    using that by (auto simp: AList.delete_eq)
  ultimately have "viewers_ok (g\<lparr>gw_sockets := AList.delete n (gw_sockets g)\<rparr>)"
    by (intro socket_change_ok [OF assms]) simp_all
  then show ?thesis
    using assms same_viewers_ok [OF _ timer_same(2)] by (auto simp: socket_closed_def Let_def split: option.split)
qed

lemma close_gateway_ok: "viewers_ok g \<Longrightarrow> viewers_ok (close_gateway g)"
  unfolding close_gateway_def
  by (rule change_sockets_ok [OF same_viewers_ok]) (simp_all add: same_viewers_def socket_tamed_def)

lemma create_session_ok:
  assumes "viewers_ok g" and "\<not> tv_controlling v" and "map_of (gw_sessions g) k = None"
    and unused: "list_all (\<lambda>s. sk_session s \<noteq> k) (map_values (gw_sockets g))"
  shows "viewers_ok (g\<lparr>gw_sessions := AList.update k v (gw_sessions g)\<rparr>)" (is "viewers_ok ?g")
proof -
  have "backed_socket ?g s \<and> quiet_socket ?g s" if "(n, s) \<in> set (gw_sockets ?g)" for n s
  proof -
    from that unused have "sk_session s \<noteq> k" by (auto simp: list_all_iff map_values_def)
    with that ok_socket [OF assms(1), of n s] show ?thesis
      by (simp add: backed_socket_def quiet_socket_def session_controls_def running_def transitions_of_def)
  qed
  moreover have "single_controller ?g"
    using assms(1,2) unfolding single_controller_def viewers_ok_def by (auto simp del: map_of_eq_Some_iff)
  ultimately show ?thesis
    using assms(1) by (auto simp: viewers_ok_def queues_ok_def transitions_of_def distinct_update)
qed

lemma event_ok:
  assumes "viewers_ok g" and "gateway_event_allowed honest e (g, w)"
  shows "viewers_ok (gateway_event_step e g)"
proof (cases e)
  case (SessionUsed cookie i now)
  then show ?thesis using valid_session(1) [OF assms(1)] by (metis gateway_event_step_def gateway_event.case(4) surjective_pairing)
next
  case (RoutesLoaded rs)
  then show ?thesis using same_viewers_ok [OF assms(1)] by (simp add: gateway_event_step_def same_viewers_def)
qed (use assms in \<open>auto simp: gateway_event_step_def gateway_event_allowed_def create_session_ok prune_ok serialize_ok begin_ok
    proxy_answered_ok proxy_settled_ok release_answered_ok restore_answered_ok timer_due_ok open_socket_ok connect_viewer_ok
    backend_connected_ok socket_destroyed_ok socket_closed_ok close_gateway_ok split: prod.splits\<close>)

lemma reach_ok: "viewers_reach honest w \<Longrightarrow> viewers_ok (fst w)"
proof (induction rule: viewers_reach.induct)
  case (start epoch grace)
  then show ?case
    by (simp add: new_gateway_def viewers_ok_def queues_ok_def single_controller_def transitions_of_def)
next
  case (event g w e)
  then show ?case using event_ok by (cases w) auto
qed

end
