(* ===== verification/Gateway_Properties.thy ===== *)
theory Gateway_Properties
  imports Gateway_Events
begin

text \<open>What holds of the viewers of the gateway in every reachable state: who controls a computer, and that the
  computer's agents are fenced off while somebody does.\<close>

section \<open>Timers and queued releases name the computer of their session\<close>

definition owns :: "string \<Rightarrow> string \<Rightarrow> gateway \<Rightarrow> bool" where
  "owns key i g = (\<forall>v. map_of (gw_sessions g) key = Some v \<longrightarrow> tv_id v = i)"

definition releases_owned :: "gateway \<Rightarrow> bool" where
  "releases_owned g = ((\<forall>key i t. map_of (gw_timers g) key = Some (i, t) \<longrightarrow> owns key i g)
     \<and> (\<forall>i key p. (AbandonedRelease key, p) \<in> set (transitions_of i g) \<longrightarrow> owns key i g))"

lemma owns_same: "gw_sessions g' = gw_sessions g \<Longrightarrow> owns key i g' = owns key i g"
  by (simp only: owns_def)

lemma owned_change:
  assumes "releases_owned g" and "computers_from g g'"
    and "\<And>key i t. map_of (gw_timers g') key = Some (i, t) \<Longrightarrow> map_of (gw_timers g) key = Some (i, t) \<or> owns key i g"
    and "\<And>i key p. (AbandonedRelease key, p) \<in> set (transitions_of i g') \<Longrightarrow> (\<exists>p. (AbandonedRelease key, p) \<in> set (transitions_of i g)) \<or> owns key i g"
  shows "releases_owned g'"
proof -
  have "owns key i g'" if "owns key i g" for key i
    using assms(2) that unfolding owns_def computers_from_def by metis
  with assms(1,3,4) show ?thesis unfolding releases_owned_def by metis
qed

lemma computers_refl [simp]: "gw_sessions g' = gw_sessions g \<Longrightarrow> computers_from g g'"
  by (auto simp: computers_from_def)

lemma owned_same: "releases_owned g \<Longrightarrow> gw_sessions g' = gw_sessions g \<Longrightarrow> gw_timers g' = gw_timers g \<Longrightarrow> gw_transitions g' = gw_transitions g \<Longrightarrow> releases_owned g'"
  by (rule owned_change) (auto simp: transitions_of_def)

lemma owned_clear: "releases_owned g \<Longrightarrow> releases_owned (clearAbandonedControlRelease key g)"
  by (rule owned_change) (auto simp: transitions_of_def clearAbandonedControlRelease_def split: if_splits)

lemma owned_arm: "releases_owned g \<Longrightarrow> owns key i g \<Longrightarrow> releases_owned (armAbandonedControlRelease key i now g)"
  by (rule owned_change)
    (auto simp: transitions_of_def armAbandonedControlRelease_def clearAbandonedControlRelease_def Let_def split: if_splits)

lemma owned_sockets: "releases_owned g \<Longrightarrow> releases_owned (change_sockets f g)"
  by (rule owned_same) (simp_all add: change_sockets_def)

lemma owned_close: "releases_owned g \<Longrightarrow> releases_owned (closeViewerSockets key o1 g)"
  by (simp add: closeViewerSockets_def owned_sockets)

lemma owned_delete: "releases_owned g \<Longrightarrow> releases_owned (g\<lparr>gw_sessions := AList.delete key (gw_sessions g)\<rparr>)"
  by (rule owned_change) (auto simp: computers_from_def transitions_of_def)

lemma owned_update: "releases_owned g \<Longrightarrow> map_of (gw_sessions g) key = Some v \<Longrightarrow> tv_id v' = tv_id v \<Longrightarrow>
    releases_owned (g\<lparr>gw_sessions := AList.update key v' (gw_sessions g)\<rparr>)"
  by (rule owned_change) (auto simp: computers_from_def transitions_of_def)

lemma owned_phase: "releases_owned g \<Longrightarrow> releases_owned (set_phase i p g)"
  by (rule owned_change) (auto simp: set_phase_def split: list.splits if_splits)

lemma finish_queue: "transitions_of j (finish_transition i g) = (if j = i then tl (transitions_of i g) else transitions_of j g)"
  by (auto simp: finish_transition_def Let_def transitions_of_def split: list.split option.split)

lemma finish_fields [simp]:
  "gw_sessions (finish_transition i g) = gw_sessions g" "gw_timers (finish_transition i g) = gw_timers g"
  "gw_closing (finish_transition i g) = gw_closing g"
  by (auto simp: finish_transition_def Let_def change_sockets_def split: list.split)

lemma owned_finish: "releases_owned g \<Longrightarrow> releases_owned (finish_transition i g)"
  by (rule owned_change) (auto simp: finish_queue dest: tl_member split: if_splits)

lemma set_phase_fields [simp]:
  "gw_sessions (set_phase i p g) = gw_sessions g" "gw_timers (set_phase i p g) = gw_timers g" "gw_closing (set_phase i p g) = gw_closing g"
  by (auto simp: set_phase_def split: list.split)

lemma owned_serialize: "releases_owned g \<Longrightarrow> (\<And>key. op = AbandonedRelease key \<Longrightarrow> owns key i g) \<Longrightarrow> releases_owned (serializeControlTransition i op g)"
  by (rule owned_change) (auto simp: serializeControlTransition_def split: if_splits)

lemma owned_prune_session:
  assumes "releases_owned g" and "owns key (tv_id v) g"
  shows "releases_owned (prune_session now (key, v) g)"
proof -
  let ?g = "closeViewerSockets key False g"
  have closed: "releases_owned ?g" "owns key (tv_id v) ?g"
    using assms owns_same [OF close_fields(1)] by (simp_all add: owned_close)
  note owned_arm [OF closed, of now] owned_delete [OF owned_clear [OF closed(1), of key], of key]
  then show ?thesis using assms(1) closed(1) by (simp add: prune_session_def Let_def)
qed

lemma owned_prune_fold:
  "releases_owned g \<Longrightarrow> (\<And>key v. (key, v) \<in> set xs \<Longrightarrow> owns key (tv_id v) g) \<Longrightarrow> releases_owned (fold (prune_session now) xs g)"
proof (induction xs arbitrary: g)
  case (Cons x xs)
  obtain key v where x: "x = (key, v)" by force
  have "owns k i (prune_session now x g)" if "owns k i g" for k i
    using prune_session_shrinks [of g now x] that unfolding shrinks_def sessions_within_def owns_def by metis
  with Cons.prems have "(k, v') \<in> set xs \<Longrightarrow> owns k (tv_id v') (prune_session now x g)" for k v' by simp
  moreover have "releases_owned (prune_session now x g)" unfolding x by (rule owned_prune_session) (use Cons.prems x in auto)
  ultimately show ?case using Cons.IH by simp
qed simp

lemma own_entries: "viewers_ok g \<Longrightarrow> (key, v) \<in> set (gw_sessions g) \<Longrightarrow> owns key (tv_id v) g"
  by (simp add: viewers_ok_def owns_def)

lemma owned_prune:
  assumes "viewers_ok g" and "releases_owned g"
  shows "releases_owned (pruneExpired now g)"
proof -
  let ?g = "g\<lparr>gw_tickets := filter (\<lambda>(k, v). \<not> (tv_expiresAt v \<le> now \<or> \<not> token_accepted v g)) (gw_tickets g)\<rparr>"
  have "releases_owned ?g" by (rule owned_same [OF assms(2)]) simp_all
  then show ?thesis
    unfolding pruneExpired_def Let_def by (rule owned_prune_fold) (use own_entries [OF assms(1)] owns_same [of ?g g] in simp)
qed

lemma owned_valid:
  assumes "viewers_ok g" and "releases_owned g" and "validViewSession cookie i now g = (g1, r)"
  shows "releases_owned g1"
proof -
  let ?p = "pruneExpired now g"
  have p: "releases_owned ?p" by (rule owned_prune [OF assms(1,2)])
  have "releases_owned (?p\<lparr>gw_sessions := AList.update key (v\<lparr>tv_expiresAt := t\<rparr>) (gw_sessions ?p)\<rparr>)"
    if "map_of (gw_sessions ?p) key = Some v" for key v t
    by (rule owned_update [OF p that]) simp
  with p assms(3) show ?thesis
    unfolding validViewSession_def Let_def by (auto split: option.split_asm if_split_asm)
qed

lemma owned_control_step:
  assumes "releases_owned g" and "map_of (gw_sessions g) k = Some v"
  shows "releases_owned (control_step now i c (k, v) g)"
proof -
  let ?update = "\<lambda>h. h\<lparr>gw_sessions := AList.update k (v\<lparr>tv_controlling := (c = Some k)\<rparr>) (gw_sessions h)\<rparr>"
  have "releases_owned (?update g)" "releases_owned (?update (closeViewerSockets k True g))"
    using owned_update [OF assms] owned_update [OF owned_close [OF assms(1)], where key = k and v = v] assms(2) by simp_all
  then show ?thesis
    using assms(1) by (auto simp: control_step_def Let_def owns_def intro!: owned_arm owned_clear)
qed

lemma owned_control_fold:
  assumes "releases_owned g" and "distinct (map fst xs)" and "\<And>k v. (k, v) \<in> set xs \<Longrightarrow> map_of (gw_sessions g) k = Some v"
  shows "releases_owned (fold (control_step now i c) xs g)"
  using assms
proof (induction xs arbitrary: g)
  case (Cons x xs)
  obtain k v where x: "x = (k, v)" by force
  have kv: "map_of (gw_sessions g) k = Some v" using Cons.prems(3) x by simp
  have "map_of (gw_sessions (control_step now i c (k, v) g)) k' = Some v'" if "(k', v') \<in> set xs" for k' v'
    using that Cons.prems(2,3) x by (auto simp: control_step_sessions(1) [OF kv] image_iff)
  with Cons.IH [OF owned_control_step [OF Cons.prems(1) kv]] Cons.prems(2) show ?case by (simp add: x)
qed simp

lemma owned_controller:
  assumes "viewers_ok g" and "releases_owned g"
  shows "releases_owned (setControllingSession now i c g)"
  unfolding setControllingSession_def
  by (rule owned_control_fold [OF assms(2)]) (use assms(1) in \<open>auto simp: viewers_ok_def\<close>)

lemma owned_slot: "releases_owned g \<Longrightarrow> releases_owned (take_slot i g)" "releases_owned g \<Longrightarrow> releases_owned (release_slot i g)"
  by (erule owned_same; simp add: take_slot_def release_slot_def Let_def)+

lemma owned_proxy: "releases_owned g \<Longrightarrow> releases_owned (fst (proxy_transition i g))"
  by (simp add: proxy_transition_def owned_finish owned_phase owned_slot)

lemma owned_viewer: "viewers_ok g \<Longrightarrow> releases_owned g \<Longrightarrow> releases_owned (fst (viewer_transition taking key i now g))"
  using owned_valid by (fastforce simp: viewer_transition_def owned_finish owned_proxy split: option.split prod.split)

lemma owned_release: "viewers_ok g \<Longrightarrow> releases_owned g \<Longrightarrow> releases_owned (releaseAbandonedControl key i now g)"
  by (auto simp: releaseAbandonedControl_def owned_finish owned_phase owned_controller split: option.split)

lemma owned_begin: "viewers_ok g \<Longrightarrow> releases_owned g \<Longrightarrow> releases_owned (fst (begin_transition i gone now g))"
  using pause_ok [of g i]
  by (auto simp: begin_transition_def Let_def owned_finish owned_viewer owned_release owned_proxy owned_sockets pause_controllers_def
      split: list.split control_op.split control_phase.split option.split)

lemma owned_answer: "viewers_ok g \<Longrightarrow> releases_owned g \<Longrightarrow> releases_owned (proxy_answered i ok now g)"
  by (auto simp: proxy_answered_def owned_phase owned_controller split: list.split control_phase.split)

lemma owned_settled: "releases_owned g \<Longrightarrow> releases_owned (proxy_settled i g)"
  by (auto simp: proxy_settled_def owned_finish owned_slot split: list.split)

lemma queued_release: "releases_owned g \<Longrightarrow> transitions_of i g = (AbandonedRelease key, p) # q \<Longrightarrow> owns key i g"
  unfolding releases_owned_def by (metis list.set_intros(1))

lemma owned_release_answer: "viewers_ok g \<Longrightarrow> releases_owned g \<Longrightarrow> releases_owned (release_answered i ok now g)"
  by (auto simp: release_answered_def owned_finish owned_phase owned_controller intro!: owned_finish owned_arm queued_release
      split: list.split control_op.split control_phase.split option.split)

lemma owned_restore_answer: "viewers_ok g \<Longrightarrow> releases_owned g \<Longrightarrow> releases_owned (restore_answered i ok now g)"
  by (auto simp: restore_answered_def owned_finish owned_controller intro!: owned_finish owned_arm queued_release
      split: list.split control_op.split control_phase.split)

lemma owned_timer: "releases_owned g \<Longrightarrow> releases_owned (timer_due key now g)"
  by (auto simp: timer_due_def owns_def intro!: owned_serialize owned_clear split: option.split) (auto simp: releases_owned_def owns_def)

lemma owned_open: "viewers_ok g \<Longrightarrow> releases_owned g \<Longrightarrow> releases_owned (open_socket n cookie i now g)"
proof -
  assume ok: "viewers_ok g" "releases_owned g"
  obtain g1 r where v: "validViewSession cookie i now g = (g1, r)" by force
  have "releases_owned (g1\<lparr>gw_sockets := x\<rparr>)" for x by (rule owned_same [OF owned_valid [OF ok v]]) simp_all
  then show ?thesis using owned_valid [OF ok v]
    by (auto simp: open_socket_def v trackViewerSocket_def Let_def intro!: owned_clear split: option.split)
qed

lemma owned_update_socket: "releases_owned g \<Longrightarrow> releases_owned (update_socket n s g)"
  by (rule owned_same) (simp_all add: update_socket_def)

lemma owned_connect: "viewers_ok g \<Longrightarrow> releases_owned g \<Longrightarrow> releases_owned (connect_viewer n i now g)"
  using owned_valid by (fastforce simp: connect_viewer_def intro!: owned_update_socket split: option.split prod.split)

lemma owned_connected: "viewers_ok g \<Longrightarrow> releases_owned g \<Longrightarrow> releases_owned (backend_connected n i same now g)"
  using owned_valid by (fastforce simp: backend_connected_def intro!: owned_update_socket split: option.split prod.split)

lemma owned_closed: "releases_owned g \<Longrightarrow> releases_owned (socket_closed n now g)"
proof -
  assume "releases_owned g"
  then have "releases_owned (g\<lparr>gw_sockets := x\<rparr>)" for x by (rule owned_same) simp_all
  then show ?thesis
    by (auto simp: socket_closed_def Let_def \<open>releases_owned g\<close> owns_def intro!: owned_arm split: option.split)
qed

lemma owned_create:
  assumes "releases_owned g" and "map_of (gw_timers g) k = None"
    and "list_all (\<lambda>(i, q). list_all (\<lambda>(op, p). op \<noteq> AbandonedRelease k) q) (gw_transitions g)"
  shows "releases_owned (g\<lparr>gw_sessions := AList.update k v (gw_sessions g)\<rparr>)"
proof -
  have "(AbandonedRelease k, p) \<notin> set (transitions_of i g)" for i p
  proof (cases "map_of (gw_transitions g) i")
    case (Some q)
    from map_of_SomeD [OF this] assms(3) show ?thesis by (auto simp: transitions_of_def Some list_all_iff)
  qed (simp add: transitions_of_def)
  with assms(1,2) show ?thesis by (auto simp: releases_owned_def owns_def transitions_of_def)
qed

section \<open>The fence of a computer\<close>

definition controllers :: "string \<Rightarrow> gateway \<Rightarrow> string set" where
  "controllers i g = {k. \<exists>v. map_of (gw_sessions g) k = Some v \<and> tv_id v = i \<and> tv_controlling v}"

text \<open>What is known of the fence \<open>f\<close> of a computer with the queue \<open>q\<close> and the controlling sessions \<open>C\<close>, when
  the request in flight has (\<open>a\<close>) or has not been carried out.\<close>

fun fence_state :: "(control_op \<times> control_phase) list \<Rightarrow> string set \<Rightarrow> bool \<Rightarrow> bool \<Rightarrow> bool" where
  "fence_state ((TakeControl key, Proxied) # q) C f a = (if a then f else C \<noteq> {} \<longrightarrow> f)"
| "fence_state ((AbandonedRelease key, Proxied) # q) C f a = False"
| "fence_state ((op, Proxied) # q) C f a = (if a then \<not> f else C \<noteq> {} \<longrightarrow> f)"
| "fence_state ((AbandonedRelease key, Releasing) # q) C f a = (C \<subseteq> {key} \<and> (if a then \<not> f else C \<noteq> {} \<longrightarrow> f))"
| "fence_state ((AbandonedRelease key, Restoring) # q) C f a = (C \<subseteq> {key} \<and> (a \<longrightarrow> f))"
| "fence_state ((op, Releasing) # q) C f a = False"
| "fence_state ((op, Restoring) # q) C f a = False"
| "fence_state q C f a = (C \<noteq> {} \<longrightarrow> f)"

lemma fence_state_less: "fence_state q C f a \<Longrightarrow> C' \<subseteq> C \<Longrightarrow> fence_state q C' f a"
  by (induction q C f a rule: fence_state.induct) (auto split: if_splits)

definition fence_ok :: "string \<Rightarrow> control_world \<Rightarrow> bool" where
  "fence_ok i w = (case w of (g, f, a) \<Rightarrow> fence_state (transitions_of i g) (controllers i g) (f i) (a i))"

lemma controllers_shrink: "shrinks g g' \<Longrightarrow> controllers i g' \<subseteq> controllers i g"
  unfolding shrinks_def sessions_within_def controllers_def by fastforce

lemma fence_shrinks: "shrinks g g' \<Longrightarrow> fence_ok i (g, f, a) \<Longrightarrow> fence_ok i (g', f, a)"
  unfolding fence_ok_def using fence_state_less controllers_shrink by (auto simp: shrinks_def transitions_of_def)

lemma controllers_same: "gw_sessions g' = gw_sessions g \<Longrightarrow> controllers i g' = controllers i g"
  by (simp add: controllers_def)

lemma mapped_some: "(\<exists>v. map_option h x = Some v \<and> P v) \<longleftrightarrow> (\<exists>z. x = Some z \<and> P (h z))"
  by (cases x) auto

lemma controllers_set:
  assumes "viewers_ok g"
  shows "controllers i (setControllingSession now j c g) =
    (if i = j then {k. c = Some k \<and> (\<exists>v. map_of (gw_sessions g) k = Some v \<and> tv_id v = i)} else controllers i g)"
  unfolding controllers_def set_controller(2) [OF assms] mapped_some by auto

lemma controllers_set_subset:
  assumes "viewers_ok g"
  shows "controllers i (setControllingSession now i c g) \<subseteq> set_option c"
  by (auto simp: controllers_set [OF assms])

lemma sole_controller: "viewers_ok g \<Longrightarrow> k \<in> controllers i g \<Longrightarrow> controllers i g \<subseteq> {k}"
  unfolding controllers_def viewers_ok_def single_controller_def by fastforce

lemma idle_phases: "fence_state ((op, Waiting) # q) C f a = (C \<noteq> {} \<longrightarrow> f)" "fence_state ((op, ProxyAnswered) # q) C f a = (C \<noteq> {} \<longrightarrow> f)"
  by (cases op; simp)+

lemma slot_fields [simp]:
  "gw_sessions (take_slot i g) = gw_sessions g" "gw_transitions (take_slot i g) = gw_transitions g" "gw_closing (take_slot i g) = gw_closing g"
  "gw_sessions (release_slot i g) = gw_sessions g" "gw_transitions (release_slot i g) = gw_transitions g" "gw_closing (release_slot i g) = gw_closing g"
  by (simp_all add: take_slot_def release_slot_def Let_def)

lemma pause_fields [simp]:
  "gw_sessions (pause_controllers i g) = gw_sessions g" "gw_transitions (pause_controllers i g) = gw_transitions g" "gw_closing (pause_controllers i g) = gw_closing g"
  by (simp_all add: pause_controllers_def)

lemma controllers_fields [simp]:
  "controllers i (finish_transition j g) = controllers i g" "controllers i (set_phase j p g) = controllers i g"
  "controllers i (take_slot j g) = controllers i g" "controllers i (release_slot j g) = controllers i g"
  "controllers i (pause_controllers j g) = controllers i g" "controllers i (armAbandonedControlRelease key j now g) = controllers i g"
  "controllers i (clearAbandonedControlRelease key g) = controllers i g"
  by (simp_all add: controllers_def)

lemma queue_fields [simp]:
  "transitions_of i (take_slot j g) = transitions_of i g" "transitions_of i (release_slot j g) = transitions_of i g"
  "transitions_of i (pause_controllers j g) = transitions_of i g" "transitions_of i (armAbandonedControlRelease key j now g) = transitions_of i g"
  "transitions_of i (clearAbandonedControlRelease key g) = transitions_of i g"
  by (simp_all add: transitions_of_def)

text \<open>The next change waits.\<close>

lemma fence_next:
  assumes "viewers_ok g" and "C \<noteq> {} \<longrightarrow> f"
  shows "fence_state (tl (transitions_of i g)) C f a"
proof (cases "tl (transitions_of i g)")
  case (Cons x q)
  then have "snd x = Waiting" using queue_waits [OF assms(1), of "fst x" "snd x" i] by simp
  with Cons assms(2) show ?thesis by (cases x) (simp add: idle_phases)
qed (use assms(2) in simp)

lemma fence_finish:
  assumes "viewers_ok g" and "controllers i g \<noteq> {} \<longrightarrow> f i"
  shows "fence_ok i (finish_transition i g, f, a)"
  using fence_next [OF assms] by (simp add: fence_ok_def finish_queue)

text \<open>Other computers are not touched.\<close>

definition untouched :: "string \<Rightarrow> gateway \<Rightarrow> gateway \<Rightarrow> bool" where
  "untouched i g g' = (transitions_of i g' = transitions_of i g \<and> controllers i g' \<subseteq> controllers i g)"

lemma untouched_fence: "untouched i g g' \<Longrightarrow> fence_ok i (g, f, a) \<Longrightarrow> f' i = f i \<Longrightarrow> a' i = a i \<Longrightarrow> fence_ok i (g', f', a')"
  unfolding untouched_def fence_ok_def using fence_state_less by auto

lemma untouched_trans: "untouched i g g' \<Longrightarrow> untouched i g' g'' \<Longrightarrow> untouched i g g''"
  by (auto simp: untouched_def)

lemma untouched_shrinks: "shrinks g g' \<Longrightarrow> untouched i g g'"
  using controllers_shrink by (auto simp: untouched_def shrinks_def transitions_of_def)

lemma untouched_same: "gw_sessions g' = gw_sessions g \<Longrightarrow> gw_transitions g' = gw_transitions g \<Longrightarrow> untouched i g g'"
  by (auto simp: untouched_def transitions_of_def controllers_def)

lemma untouched_refl [simp]: "untouched i g g"
  by (simp add: untouched_def)

lemma untouched_finish: "i \<noteq> j \<Longrightarrow> untouched i g (finish_transition j g)"
  by (simp add: untouched_def finish_queue)

lemma set_phase_other: "i \<noteq> j \<Longrightarrow> transitions_of i (set_phase j p g) = transitions_of i g"
  by (auto simp: set_phase_def split: list.split)

lemma untouched_phase: "i \<noteq> j \<Longrightarrow> untouched i g (set_phase j p g)"
  by (simp add: untouched_def set_phase_other)

lemma untouched_set: "viewers_ok g \<Longrightarrow> i \<noteq> j \<Longrightarrow> untouched i g (setControllingSession now j c g)"
  by (simp add: untouched_def controllers_set set_controller(3) transitions_of_def)

lemma phase_head: "transitions_of i g = (op, p) # q \<Longrightarrow> transitions_of i (set_phase i r g) = (op, r) # q"
  by (simp add: set_phase_def)

text \<open>A request is made: it has not been carried out.\<close>

lemma fence_proxy:
  assumes "viewers_ok g" and "controllers i g \<noteq> {} \<longrightarrow> f i" and head: "transitions_of i g = (op, p) # q" "\<forall>key. op \<noteq> AbandonedRelease key"
  shows "fence_ok i (fst (proxy_transition i g), f, a(i := False))"
proof -
  have "transitions_of i (set_phase i Proxied (take_slot i g)) = (op, Proxied) # q"
    by (rule phase_head) (use head(1) in simp)
  then have "fence_ok i (set_phase i Proxied (take_slot i g), f, a(i := False))"
    using assms(2) head(2) by (cases op) (simp_all add: fence_ok_def)
  then show ?thesis using fence_finish [of g i f "a(i := False)"] assms(1,2) by (simp add: proxy_transition_def)
qed

lemma fence_viewer:
  assumes "viewers_ok g" and "controllers i g \<noteq> {} \<longrightarrow> f i" and head: "transitions_of i g = (op, p) # q" "\<forall>key. op \<noteq> AbandonedRelease key"
  shows "fence_ok i (fst (viewer_transition taking key i now g), f, a(i := False))"
proof -
  obtain g1 r where v: "validViewSession (Some key) i now g = (g1, r)" by force
  note valid = valid_session(1) [OF assms(1) v]
  then have ctl: "controllers i g1 \<noteq> {} \<longrightarrow> f i" and "transitions_of i g1 = (op, p) # q"
    using controllers_shrink [of g g1 i] assms(2) head(1) by (auto simp: shrinks_def transitions_of_def)
  with fence_proxy [of g1 i f op p q a] fence_finish [of g1 i f "a(i := False)"] fence_finish [of g i f "a(i := False)"] assms(1,2) valid head(2) show ?thesis
    by (simp add: viewer_transition_def v split: option.split)
qed

lemma fence_release:
  assumes ok: "viewers_ok g" and "controllers i g \<noteq> {} \<longrightarrow> f i" and owner: "owns key i g"
    and head: "transitions_of i g = (AbandonedRelease key, p) # q"
  shows "fence_ok i (releaseAbandonedControl key i now g, f, a(i := False))"
proof -
  have none: "fence_ok i (finish_transition i (setControllingSession now i None g), f, a(i := False))"
    by (rule fence_finish [OF set_controller(1) [OF ok]]) (simp add: controllers_set [OF ok])
  have "key \<in> controllers i g" if "session_controls key g"
    using that owner by (auto simp: session_controls_def controllers_def owns_def split: option.splits)
  then have "controllers i g \<subseteq> {key}" if "session_controls key g" using that sole_controller [OF ok] by blast
  moreover have "transitions_of i (set_phase i Releasing g) = (AbandonedRelease key, Releasing) # q"
    by (rule phase_head [OF head])
  ultimately have "session_controls key g \<Longrightarrow> fence_ok i (set_phase i Releasing g, f, a(i := False))"
    using assms(2) by (simp add: fence_ok_def)
  with none fence_finish [of g i f "a(i := False)"] ok assms(2) show ?thesis
    by (auto simp: releaseAbandonedControl_def split: option.split)
qed

lemma fence_begin:
  assumes "viewers_ok g" "releases_owned g" "fence_ok i (g, f, a)"
    and "head_phase i g = Some Waiting"
  shows "fence_ok i (fst (begin_transition i gone now g), f, a(i := False))"
proof (cases "transitions_of i g")
  case (Cons x q)
  obtain op p where x: "x = (op, p)" by force
  have True: "p = Waiting" using assms(4) by (simp add: head_phase_def Cons x)
  let ?g = "pause_controllers i g"
  have ok: "viewers_ok ?g" using pause_ok [OF assms(1)] by simp
  have ctl: "controllers i ?g \<noteq> {} \<longrightarrow> f i" using assms(3) Cons True x by (simp add: fence_ok_def idle_phases)
  have head: "transitions_of i ?g = (op, p) # q" using Cons x by (simp add: transitions_of_def)
  have "owns key i ?g" if "op = AbandonedRelease key" for key
    using queued_release [OF assms(2)] Cons x that by (simp add: owns_same [OF pause_fields(1)])
  then show ?thesis
    using fence_finish [of ?g i f "a(i := False)"] fence_viewer [of ?g i f op p q _ _ _ a] fence_proxy [of ?g i f op p q a]
      fence_release [where g = ?g and i = i and f = f and a = a] ok ctl head
    by (cases op) (simp_all add: begin_transition_def Let_def Cons x True split: option.split)
qed (use assms(4) in \<open>simp add: head_phase_def\<close>)

text \<open>An answer, or the end without one.\<close>

lemma fence_none:
  assumes "viewers_ok g"
  shows "fence_ok i (finish_transition i (setControllingSession now i None g), f, a)"
  by (rule fence_finish [OF set_controller(1) [OF assms]]) (simp add: controllers_set [OF assms])

lemma fence_proxy_answer:
  assumes ok: "viewers_ok g" and state: "fence_ok i (g, f, a)" and head: "head_phase i g = Some Proxied" and effect: "success = a i"
  shows "fence_ok i (proxy_answered i success now g, f, a(i := False))"
proof -
  obtain op q where q: "transitions_of i g = (op, Proxied) # q"
    using head by (auto simp: head_phase_def split: list.splits)
  let ?c = "case op of TakeControl key \<Rightarrow> Some key | _ \<Rightarrow> None"
  let ?g = "if success then setControllingSession now i ?c g else g"
  have "transitions_of i ?g = (op, Proxied) # q" using q set_controller(3) [OF ok] by (simp add: transitions_of_def)
  then have "fence_ok i (set_phase i ProxyAnswered ?g, f, a(i := False)) = (controllers i ?g \<noteq> {} \<longrightarrow> f i)"
    by (simp add: fence_ok_def phase_head idle_phases)
  moreover have "controllers i ?g \<noteq> {} \<longrightarrow> f i"
  proof (cases success)
    case True
    then have "?c \<noteq> None \<longrightarrow> f i" using state effect q by (cases op) (simp_all add: fence_ok_def)
    then show ?thesis using True controllers_set_subset [OF ok, of i now ?c] by auto
  next
    case False
    then show ?thesis using state effect q by (cases op) (simp_all add: fence_ok_def)
  qed
  ultimately show ?thesis by (simp add: proxy_answered_def q)
qed

lemma release_slot_ok: "viewers_ok g \<Longrightarrow> viewers_ok (release_slot i g)"
  using same_viewers_ok slot_same(2) by blast

lemma fence_settle:
  assumes ok: "viewers_ok g" and state: "fence_ok i (g, f, a)"
    and head: "head_phase i g = Some ProxyAnswered \<or> head_phase i g = Some Proxied \<and> \<not> a i"
  shows "fence_ok i (proxy_settled i g, f, a(i := False))"
proof -
  obtain op p q where q: "transitions_of i g = (op, p) # q" "p \<in> {Proxied, ProxyAnswered}" "p = Proxied \<longrightarrow> \<not> a i"
    using head by (auto simp: head_phase_def split: list.splits)
  have "controllers i (release_slot i g) \<noteq> {} \<longrightarrow> f i"
    using state q by (cases op) (auto simp: fence_ok_def)
  from fence_finish [of "release_slot i g" i f "a(i := False)", OF release_slot_ok [OF ok] this] q show ?thesis
    by (simp add: proxy_settled_def)
qed

lemma fence_release_answer:
  assumes ok: "viewers_ok g" and state: "fence_ok i (g, f, a)" and head: "head_phase i g = Some Releasing" and effect: "success = a i"
    and "\<not> gw_closing g"
  shows "fence_ok i (release_answered i success now g, f, a(i := False))"
proof -
  obtain op q where q: "transitions_of i g = (op, Releasing) # q"
    using head by (auto simp: head_phase_def split: list.splits)
  with state obtain key where op: "op = AbandonedRelease key" and C: "controllers i g \<subseteq> {key}"
    and fence: "if a i then \<not> f i else controllers i g \<noteq> {} \<longrightarrow> f i"
    by (cases op) (simp_all add: fence_ok_def)
  have "controllers i g = {}" if "\<not> session_controls key g"
    using C that by (auto simp: controllers_def session_controls_def split: option.splits)
  then have gone: "fence_ok i (finish_transition i g, f, a(i := False))" if "\<not> session_controls key g"
    using fence_finish [of g i f "a(i := False)"] ok that by simp
  have kept: "fence_ok i (finish_transition i (armAbandonedControlRelease key i now g), f, a(i := False))" if "\<not> success"
    using fence_finish [of "armAbandonedControlRelease key i now g" i f "a(i := False)"] same_viewers_ok [OF ok timer_same(2)]
      fence effect that by simp
  have "transitions_of i (set_phase i Restoring g) = (AbandonedRelease key, Restoring) # q"
    by (rule phase_head) (use q op in simp)
  then have "fence_ok i (set_phase i Restoring g, f, a(i := False))" using C by (simp add: fence_ok_def)
  with gone kept fence_none [OF ok] show ?thesis
    using assms(5) by (auto simp: release_answered_def q op session_controls_def split: option.splits)
qed

lemma fence_restore_answer:
  assumes ok: "viewers_ok g" and state: "fence_ok i (g, f, a)" and head: "head_phase i g = Some Restoring" and effect: "success = a i"
  shows "fence_ok i (restore_answered i success now g, f, a(i := False))"
proof -
  obtain op q where q: "transitions_of i g = (op, Restoring) # q"
    using head by (auto simp: head_phase_def split: list.splits)
  with state obtain key where op: "op = AbandonedRelease key" and fence: "a i \<longrightarrow> f i"
    by (cases op) (simp_all add: fence_ok_def)
  have "fence_ok i (finish_transition i h, f, a(i := False))"
    if "success" "h = g \<or> h = armAbandonedControlRelease key i now g" for h
    using that fence_finish [of h i f "a(i := False)"] same_viewers_ok [OF ok timer_same(2)] ok fence effect by auto
  with fence_none [OF ok] show ?thesis by (auto simp: restore_answered_def q op)
qed

end
