(* ===== verification/Gateway_Fence.thy ===== *)
theory Gateway_Fence
  imports Gateway_Properties
begin

text \<open>The fence of every computer in every reachable state of the gateway, and what it gives: one session
  controls a computer, and while it does the computer's agents are fenced off.\<close>

section \<open>Closing\<close>

lemma set_controller_closing [simp]: "gw_closing (setControllingSession now i c g) = gw_closing g"
proof -
  have "gw_closing (fold (control_step now i c) xs g) = gw_closing g" for xs
    by (induction xs arbitrary: g) simp_all
  then show ?thesis by (simp add: setControllingSession_def)
qed

lemma prune_closing [simp]: "gw_closing (pruneExpired now g) = gw_closing g"
proof -
  have "gw_closing (fold (prune_session now) xs h) = gw_closing h" for xs h
    using prune_session_shrinks by (induction xs arbitrary: h) (simp_all add: shrinks_def)
  then show ?thesis by (simp add: pruneExpired_def Let_def)
qed

lemma valid_closing [simp]: "gw_closing (fst (validViewSession cookie i now g)) = gw_closing g"
  by (simp add: validViewSession_def Let_def split: option.split)

lemma proxy_closing [simp]: "gw_closing (fst (proxy_transition i g)) = gw_closing g"
  by (simp add: proxy_transition_def)

lemma viewer_closing [simp]: "gw_closing (fst (viewer_transition taking key i now g)) = gw_closing g"
proof -
  obtain g1 r where v: "validViewSession (Some key) i now g = (g1, r)" by force
  have "gw_closing g1 = gw_closing g" using valid_closing [of "Some key" i now g] by (simp only: v fst_conv)
  then show ?thesis by (simp add: viewer_transition_def v split: option.split)
qed

lemma begin_closing [simp]: "gw_closing (fst (begin_transition i gone now g)) = gw_closing g"
  by (auto simp: begin_transition_def Let_def releaseAbandonedControl_def
      split: list.split control_op.split control_phase.split option.split)

lemma serialize_closing [simp]: "gw_closing (serializeControlTransition i op g) = gw_closing g"
  by (simp add: serializeControlTransition_def)

lemma answer_closing [simp]:
  "gw_closing (proxy_answered i ok now g) = gw_closing g" "gw_closing (proxy_settled i g) = gw_closing g"
  "gw_closing (release_answered i ok now g) = gw_closing g" "gw_closing (restore_answered i ok now g) = gw_closing g"
  "gw_closing (timer_due key now g) = gw_closing g"
  by (auto simp: proxy_answered_def proxy_settled_def release_answered_def restore_answered_def timer_due_def
      split: list.split control_op.split control_phase.split option.split)

lemma update_socket_fields [simp]:
  "gw_closing (update_socket n s g) = gw_closing g" "gw_sessions (update_socket n s g) = gw_sessions g"
  "gw_transitions (update_socket n s g) = gw_transitions g"
  by (simp_all add: update_socket_def)

text \<open>The events of the sockets take sessions away at most.\<close>

lemma socket_events_untouched:
  assumes "viewers_ok g"
  shows "untouched j g (open_socket n cookie i now g) \<and> gw_closing (open_socket n cookie i now g) = gw_closing g"
    and "untouched j g (connect_viewer n i now g) \<and> gw_closing (connect_viewer n i now g) = gw_closing g"
    and "untouched j g (backend_connected n i same now g) \<and> gw_closing (backend_connected n i same now g) = gw_closing g"
    and "untouched j g (socket_destroyed n g) \<and> gw_closing (socket_destroyed n g) = gw_closing g"
    and "untouched j g (socket_closed n now g) \<and> gw_closing (socket_closed n now g) = gw_closing g"
proof -
  have shrunk: "untouched j g h \<and> gw_closing h = gw_closing g"
    if "validViewSession c i now g = (g1, r)" "gw_sessions h = gw_sessions g1" "gw_transitions h = gw_transitions g1" "gw_closing h = gw_closing g1"
    for g1 r c h
  proof
    note v = valid_session(1) [OF assms that(1)]
    show "untouched j g h" using untouched_trans [OF untouched_shrinks untouched_same] v that(2,3) by blast
    show "gw_closing h = gw_closing g" using v that(4) by (simp add: shrinks_def)
  qed
  have same: "untouched j g h \<and> gw_closing h = gw_closing g"
    if "gw_sessions h = gw_sessions g" "gw_transitions h = gw_transitions g" "gw_closing h = gw_closing g" for h
    using untouched_same that by blast
  obtain g1 r where v: "validViewSession cookie i now g = (g1, r)" by force
  show "untouched j g (open_socket n cookie i now g) \<and> gw_closing (open_socket n cookie i now g) = gw_closing g"
    using shrunk [OF v] by (simp add: open_socket_def v trackViewerSocket_def Let_def split: option.split)
  show "untouched j g (connect_viewer n i now g) \<and> gw_closing (connect_viewer n i now g) = gw_closing g"
    using shrunk by (auto simp: connect_viewer_def split: option.split prod.split)
  show "untouched j g (backend_connected n i same now g) \<and> gw_closing (backend_connected n i same now g) = gw_closing g"
    using shrunk by (auto simp: backend_connected_def split: option.split prod.split)
  show "untouched j g (socket_destroyed n g) \<and> gw_closing (socket_destroyed n g) = gw_closing g"
    by (rule same; simp add: socket_destroyed_def split: option.split)
  show "untouched j g (socket_closed n now g) \<and> gw_closing (socket_closed n now g) = gw_closing g"
    by (rule same; simp add: socket_closed_def Let_def split: option.split)
qed

lemma closing_stays:
  assumes "viewers_ok g" and "gw_closing g"
  shows "gw_closing (gateway_event_step e g)"
  using assms(2) socket_events_untouched [OF assms(1)]
  by (cases e) (simp_all add: gateway_event_step_def close_gateway_def)

section \<open>A computer that the event is not about\<close>

lemma untouched_proxy: "i \<noteq> j \<Longrightarrow> untouched i g (fst (proxy_transition j g))"
proof -
  assume ij: "i \<noteq> j"
  have "untouched i g (set_phase j Proxied (take_slot j g))"
    by (rule untouched_trans [OF untouched_same untouched_phase [OF ij]]) simp_all
  then show ?thesis using untouched_finish [OF ij] by (simp add: proxy_transition_def)
qed

lemma untouched_viewer:
  assumes "viewers_ok g" "i \<noteq> j"
  shows "untouched i g (fst (viewer_transition taking key j now g))"
proof -
  obtain g1 r where v: "validViewSession (Some key) j now g = (g1, r)" by force
  have "untouched i g g1" using valid_session(1) [OF assms(1) v] untouched_shrinks by blast
  note step = untouched_trans [OF this]
  note step [OF untouched_finish [OF assms(2)]] step [OF untouched_proxy [OF assms(2)]]
  then show ?thesis using untouched_finish [OF assms(2)] by (simp add: viewer_transition_def v split: option.split)
qed

lemma untouched_none:
  assumes "viewers_ok g" "i \<noteq> j"
  shows "untouched i g (finish_transition j (setControllingSession now j None g))"
  by (rule untouched_trans [OF untouched_set [OF assms] untouched_finish [OF assms(2)]])

lemma untouched_arm: "i \<noteq> j \<Longrightarrow> untouched i g (finish_transition j (armAbandonedControlRelease key j now g))"
  by (rule untouched_trans [OF untouched_same untouched_finish]) simp_all

lemma untouched_begin:
  assumes "viewers_ok g" "i \<noteq> j"
  shows "untouched i g (fst (begin_transition j gone now g))"
proof -
  let ?g = "pause_controllers j g"
  have ok: "viewers_ok ?g" using pause_ok [OF assms(1)] by simp
  have "untouched i g ?g" by (rule untouched_same) simp_all
  note step = untouched_trans [OF this]
  note finish = step [OF untouched_finish [OF assms(2)]] and proxy = step [OF untouched_proxy [OF assms(2)]]
    and viewer = step [OF untouched_viewer [OF ok assms(2)]] and none = step [OF untouched_none [OF ok assms(2)]]
    and phase = step [OF untouched_phase [OF assms(2)]]
  then show ?thesis
    by (simp add: begin_transition_def Let_def releaseAbandonedControl_def
        split: list.split control_op.split control_phase.split option.split)
qed

lemma untouched_answers:
  assumes "viewers_ok g" "i \<noteq> j"
  shows "untouched i g (proxy_answered j ok now g)" and "untouched i g (proxy_settled j g)"
    and "untouched i g (release_answered j ok now g)" and "untouched i g (restore_answered j ok now g)"
proof -
  note set = untouched_trans [OF untouched_set [OF assms] untouched_phase [OF assms(2)]]
  have slot: "untouched i g (finish_transition j (release_slot j g))"
    by (rule untouched_trans [OF untouched_same untouched_finish [OF assms(2)]]) simp_all
  note rest = untouched_phase [OF assms(2)] untouched_finish [OF assms(2)] untouched_none [OF assms] untouched_arm [OF assms(2)]
  show "untouched i g (proxy_answered j ok now g)" and "untouched i g (proxy_settled j g)"
    and "untouched i g (release_answered j ok now g)" and "untouched i g (restore_answered j ok now g)"
    using set slot rest
    by (auto simp: proxy_answered_def proxy_settled_def release_answered_def restore_answered_def
        split: list.split control_op.split control_phase.split option.split)
qed

section \<open>The invariant\<close>

lemma fence_append: "fence_state q C f a \<Longrightarrow> fence_state (q @ [(op, Waiting)]) C f a"
  by (cases "(q, C, f, a)" rule: fence_state.cases) (auto simp: idle_phases)

lemma fence_serialize: "fence_ok j (g, f, a) \<Longrightarrow> fence_ok j (serializeControlTransition i op g, f, a)"
proof -
  assume "fence_ok j (g, f, a)"
  moreover have "controllers j (serializeControlTransition i op g) = controllers j g"
    by (rule controllers_same) (simp add: serializeControlTransition_def)
  moreover have "transitions_of j (serializeControlTransition i op g) = (if j = i then transitions_of j g @ [(op, Waiting)] else transitions_of j g)"
    by (simp add: serializeControlTransition_def)
  ultimately show ?thesis using fence_append by (cases "j = i") (simp_all add: fence_ok_def)
qed

lemma fence_unrelated:
  assumes ok: "viewers_ok g" and state: "fence_ok j (g, f, a)"
    and none: "answers e = None" "\<And>i. e \<noteq> EffectApplied i" and allowed: "gateway_event_allowed honest e (g, f, a)"
  shows "fence_ok j (gateway_event_step e g, f, a)"
proof -
  have untouched: "fence_ok j (h, f, a)" if "untouched j g h" for h
    by (rule untouched_fence [OF that state]) simp_all
  note sockets = socket_events_untouched [OF ok, THEN conjunct1, THEN untouched]
  have same: "fence_ok j (h, f, a)" if "gw_sessions h = gw_sessions g" "gw_transitions h = gw_transitions g" for h
    by (rule untouched [OF untouched_same [OF that]])
  show ?thesis
  proof (cases e)
    case (SessionCreated k v)
    then have "controllers j (gateway_event_step e g) \<subseteq> controllers j g"
      using allowed by (auto simp: controllers_def gateway_event_step_def gateway_event_allowed_def)
    then show ?thesis
      by (intro untouched) (simp add: SessionCreated untouched_def gateway_event_step_def transitions_of_def)
  next
    case (SessionUsed c i now)
    obtain g1 r where v: "validViewSession c i now g = (g1, r)" by force
    then show ?thesis using valid_session(1) [OF ok v] untouched_shrinks by (simp add: SessionUsed gateway_event_step_def untouched)
  next
    case (TimerDue key now)
    have "fence_ok j (clearAbandonedControlRelease key g, f, a)" by (rule same) simp_all
    then show ?thesis using state fence_serialize by (simp add: TimerDue gateway_event_step_def timer_due_def split: option.split)
  qed (use none sockets same prune_ok [OF ok] untouched_shrinks untouched state fence_serialize
      in \<open>simp_all add: gateway_event_step_def close_gateway_def\<close>)
qed

lemma fence_effect:
  assumes "fence_ok j (g, f, a)"
  shows "fence_ok j (g, fence_after (EffectApplied i) (g, f, a))"
proof (cases "in_flight i g")
  case (Some b)
  with assms show ?thesis
    by (cases "(transitions_of i g, controllers i g, f i, a i)" rule: fence_state.cases)
      (auto simp: fence_ok_def fence_after_def in_flight_def split: if_splits control_op.splits)
qed (use assms in \<open>simp add: fence_after_def\<close>)

lemma fence_answered:
  assumes "viewers_ok g" "releases_owned g" "fence_ok i (g, f, a)" "\<not> gw_closing g"
    and "answers e = Some i" "gateway_event_allowed True e (g, f, a)"
  shows "fence_ok i (gateway_event_step e g, f, a(i := False))"
  using assms fence_begin [OF assms(1-3)] fence_proxy_answer [OF assms(1,3)] fence_settle [OF assms(1,3)]
    fence_release_answer [OF assms(1,3)] fence_restore_answer [OF assms(1,3)]
  by (cases e) (auto simp: gateway_event_step_def gateway_event_allowed_def split: if_splits)

lemma untouched_answered:
  assumes "viewers_ok g" "answers e = Some i" "j \<noteq> i"
  shows "untouched j g (gateway_event_step e g)"
  using assms(2) untouched_answers [OF assms(1,3)] untouched_begin [OF assms(1,3)]
  by (cases e) (simp_all add: gateway_event_step_def)

definition all_fenced :: "control_world \<Rightarrow> bool" where
  "all_fenced w = (case w of (g, f, a) \<Rightarrow> releases_owned g \<and> (gw_closing g \<or> (\<forall>i. fence_ok i w)))"

lemma owned_event:
  assumes "viewers_ok g" "releases_owned g" "gateway_event_allowed honest e (g, w)"
  shows "releases_owned (gateway_event_step e g)"
proof (cases e)
  case (SessionUsed c i now)
  obtain g1 r where v: "validViewSession c i now g = (g1, r)" by force
  then show ?thesis using owned_valid [OF assms(1,2) v] by (simp add: SessionUsed gateway_event_step_def)
next
  case (RoutesLoaded rs)
  show ?thesis by (rule owned_same [OF assms(2)]) (simp_all add: RoutesLoaded gateway_event_step_def)
next
  case (SessionCreated k v)
  then show ?thesis using assms owned_create by (auto simp: gateway_event_step_def gateway_event_allowed_def split: prod.splits)
next
  case (ControlRequested i op)
  then show ?thesis using assms by (auto simp: gateway_event_step_def gateway_event_allowed_def intro!: owned_serialize split: prod.splits)
next
  case (SocketDestroyed n)
  then show ?thesis using assms(2) by (simp add: gateway_event_step_def socket_destroyed_def owned_update_socket split: option.split)
next
  case GatewayClosed
  have "releases_owned (g\<lparr>gw_closing := True, gw_timers := []\<rparr>)"
    by (rule owned_change [OF assms(2)]) (auto simp: transitions_of_def)
  then show ?thesis by (simp add: GatewayClosed gateway_event_step_def close_gateway_def owned_sockets)
qed (use assms(1,2) in \<open>simp_all add: gateway_event_step_def owned_prune owned_begin owned_answer owned_settled owned_release_answer
    owned_restore_answer owned_timer owned_open owned_connect owned_connected owned_closed\<close>)

lemma fenced_event:
  assumes "viewers_ok g" "all_fenced (g, f, a)" and allowed: "gateway_event_allowed True e (g, f, a)"
  shows "all_fenced (gateway_event_step e g, fence_after e (g, f, a))"
proof (cases "gw_closing g")
  case True
  then show ?thesis using closing_stays [OF assms(1)] owned_event [OF assms(1) _ allowed] assms(2)
    by (auto simp: all_fenced_def)
next
  case False
  with assms(2) have own: "releases_owned g" and state: "\<And>i. fence_ok i (g, f, a)" by (auto simp: all_fenced_def)
  have "fence_ok j (gateway_event_step e g, fence_after e (g, f, a))" for j
  proof (cases "answers e")
    case None
    then show ?thesis
    proof (cases "\<exists>i. e = EffectApplied i")
      case True
      then show ?thesis using fence_effect [OF state] by (auto simp: gateway_event_step_def)
    next
      case other: False
      then have "fence_after e (g, f, a) = (f, a)" using None by (cases e) (simp_all add: fence_after_def)
      with fence_unrelated [OF assms(1) state None _ allowed] other show ?thesis by simp
    qed
  next
    case (Some i)
    then have after: "fence_after e (g, f, a) = (f, a(i := False))" by (cases e) (simp_all add: fence_after_def)
    show ?thesis
    proof (cases "j = i")
      case True
      then show ?thesis using fence_answered [OF assms(1) own state False Some allowed] by (simp add: after)
    next
      case other: False
      show ?thesis unfolding after
        by (rule untouched_fence [OF untouched_answered [OF assms(1) Some other] state]) (simp_all add: other)
    qed
  qed
  then show ?thesis using owned_event [OF assms(1) own allowed] by (simp add: all_fenced_def split: prod.split)
qed

lemma reach_fenced: "viewers_reach True w \<Longrightarrow> all_fenced w"
proof (induction rule: viewers_reach.induct)
  case (start epoch grace)
  then show ?case
    by (simp add: all_fenced_def fence_ok_def controllers_def releases_owned_def new_gateway_def transitions_of_def)
next
  case (event g w e)
  then show ?case using fenced_event reach_ok [OF event(1)] by (cases w) auto
qed

section \<open>What it gives\<close>

lemma controls_owner: "session_controls key g \<longleftrightarrow> (\<exists>v. map_of (gw_sessions g) key = Some v \<and> tv_controlling v)"
  by (simp add: session_controls_def split: option.split)



section \<open>Runs\<close>

fun run_gateway :: "bool \<Rightarrow> gateway_event list \<Rightarrow> control_world \<Rightarrow> control_world option" where
  "run_gateway honest [] w = Some w"
| "run_gateway honest (e # es) w =
     (if gateway_event_allowed honest e w then run_gateway honest es (gateway_event_step e (fst w), fence_after e w) else None)"

lemma run_reaches: "viewers_reach honest w \<Longrightarrow> run_gateway honest es w = Some w' \<Longrightarrow> viewers_reach honest w'"
proof (induction es arbitrary: w)
  case (Cons e es)
  then have "viewers_reach honest (gateway_event_step e (fst w), fence_after e w)"
    using viewers_reach.event [of honest "fst w" "snd w" e] by (simp split: if_splits)
  with Cons show ?case by (auto split: if_splits)
qed simp

definition start_world :: control_world where
  "start_world = (new_gateway ''e'' 30000, \<lambda>_. False, \<lambda>_. False)"

definition example_route :: gateway_route where
  "example_route = \<lparr>gr_id = ''c'', gr_host = ''host'', gr_viewHost = Some ''host'', gr_controlPort = 1, gr_viewPort = Some 2,
     gr_controlViewPort = Some 3, gr_viewerAuthentication = False, gr_viewer = True, gr_tokenHash = ''t'', gr_clientCredentials = [],
     gr_internalKey = ''key''\<rparr>"

definition session_of_client :: timed_value where
  "session_of_client = \<lparr>tv_id = ''c'', tv_expiresAt = 50000000, tv_tokenHash = ''t'', tv_controlling = False\<rparr>"

definition viewer_arrives :: "nat \<Rightarrow> int \<Rightarrow> gateway_event list" where
  "viewer_arrives n now = [SocketOpened n (Some ''k'') ''c'' now, SocketConnecting n ''c'' now, SocketConnected n ''c'' True now]"

definition take_and_view :: "gateway_event list" where
  "take_and_view = [RoutesLoaded [(''c'', example_route)], SessionCreated ''k'' session_of_client, ControlRequested ''c'' (TakeControl ''k''),
     TransitionBegun ''c'' False 1, EffectApplied ''c'', ProxyAnswer ''c'' True 2, ProxySettled ''c''] @ viewer_arrives 0 3"

lemma start_reaches: "viewers_reach honest start_world"
  unfolding start_world_def by (rule viewers_reach.start)

lemma take_and_view_run: "map_option (\<lambda>(g, f, a). (gw_sockets g, gw_sessions g, transitions_of ''c'' g, gw_closing g))
    (run_gateway True take_and_view start_world) =
  Some ([(0, \<lparr>sk_session = ''k'', sk_controlling = True, sk_connecting = True, sk_ready = True, sk_paused = False, sk_destroyed = False\<rparr>)],
    [(''k'', \<lparr>tv_id = ''c'', tv_expiresAt = 43200003, tv_tokenHash = ''t'', tv_controlling = True\<rparr>)], [], False)"
  by code_simp

lemma take_and_view_state:
  obtains f a g where "viewers_reach True (g, f, a)" "\<not> gw_closing g" "transitions_of ''c'' g = []"
    "gw_sessions g = [(''k'', \<lparr>tv_id = ''c'', tv_expiresAt = 43200003, tv_tokenHash = ''t'', tv_controlling = True\<rparr>)]"
    "gw_sockets g = [(0, \<lparr>sk_session = ''k'', sk_controlling = True, sk_connecting = True, sk_ready = True, sk_paused = False, sk_destroyed = False\<rparr>)]"
proof -
  obtain w where w: "run_gateway True take_and_view start_world = Some w"
    using take_and_view_run by (cases "run_gateway True take_and_view start_world") simp_all
  obtain g f a where "w = (g, f, a)" by (rule prod_cases3)
  with w run_reaches [OF start_reaches w] take_and_view_run that [of g f a] show thesis by simp
qed



text \<open>Without that premise it fails: the controlling socket goes, its control is released when the grace is over,
  the computer lifts the fence and its answer is lost. The gateway keeps the session in control and arms the timer
  again; the viewer that comes back before it is a controller, with no fence.\<close>

definition answer_lost :: "gateway_event list" where
  "answer_lost = take_and_view @ [SocketDestroyed 0, SocketClosed 0 10, TimerDue ''k'' 30010, TransitionBegun ''c'' False 30010,
     EffectApplied ''c'', ReleaseAnswer ''c'' False 30020] @ viewer_arrives 1 30030"

lemma answer_lost_run: "map_option (\<lambda>(g, f, a). (gw_sockets g, transitions_of ''c'' g, gw_timers g, f ''c''))
    (run_gateway False answer_lost start_world) =
  Some ([(1, \<lparr>sk_session = ''k'', sk_controlling = True, sk_connecting = True, sk_ready = True, sk_paused = False, sk_destroyed = False\<rparr>)],
    [], [], False)"
  by code_simp

lemma lost_answer_leaves_control_unfenced:
  "\<exists>g f a. viewers_reach False (g, f, a) \<and> transitions_of ''c'' g = [] \<and> \<not> f ''c''
     \<and> (\<exists>s. gw_sockets g = [(1, s)] \<and> sk_controlling s \<and> sk_ready s \<and> \<not> sk_paused s \<and> \<not> sk_destroyed s)"
proof -
  obtain w where w: "run_gateway False answer_lost start_world = Some w"
    using answer_lost_run by (cases "run_gateway False answer_lost start_world") simp_all
  obtain g f a where "w = (g, f, a)" by (rule prod_cases3)
  with w run_reaches [OF start_reaches w] answer_lost_run show ?thesis
    by (intro exI [of _ g] exI [of _ f] exI [of _ a]) simp
qed

end
