(* ===== verification/Spec2Isabelle.thy ===== *)
theory Spec2Isabelle
  imports Prelude Archive_Plan Archive_Confinement Archive_Extract Archive_Verify Deadline_Timer Terminals Terminal_Events Terminal_Properties Sorts Stable_Json Cleanup Runtime_Names Cleanup_Command Fencing Lease Dashboard_Auth Network_Address Egress Utf8 Process_Output
    Process_Manager Process_Requests Process_Events Process_Accounting Process_Properties
    Durable Transaction_Document Transactions Transaction_Recovery Transaction_Runtime Json Lifecycle Lifecycle_Recovery
    Client_Scope Gateway_Headers Gateway_State Gateway_Control Gateway_Requests Gateway_Access Gateway_Events Gateway_Properties Gateway_Fence
begin

text \<open>Qubicl gives an AI agent a private computer: a set of containers on the user's machine, behind one
  gateway. Three programs work together (packages/ of the repository).

  \<^item> The host command line (packages/cli) owns the durable intent under ~/.qubicl: configuration,
    secrets, one directory for each computer. Every change takes the state lock, is written to a journal
    first and is finished by a recovery that any later command runs again. It drives the container runtime.
  \<^item> The control service (packages/control) runs in each computer: it grants the lease that lets one client
    act, runs its commands and terminals, and cuts off what a former holder left behind. Its egress proxy and
    credential broker are the way to the network.
  \<^item> The gateway (packages/gateway) is the one published port, and the dashboard (packages/cli/src/dashboard)
    the web interface of the command line.

  The theories follow these parts. The name of a definition is that of the TypeScript function or type
  where one exists; a record field carries a prefix for its type. An asynchronous function is cut at its
  awaits into segments, each a definition, so that other operations can come in between; the order
  in which segments run is an argument, an event list or a step relation.

  \<^bold>\<open>Shared theories.\<close> Prelude: errors as sums, \<open>Map\<close> as association list, decimal text, \<open>split\<close> and
  \<open>join\<close>. Sorts: the stable sort. Json, Stable_Json: JSON values, character patterns, the canonical text
  and its injectivity (\<open>stableJson\<close>, cleanup-plan.ts). Durable: programs over a disk on which the power may
  fail before any durable step, triples for them, and the locale \<open>recovery\<close> of procedures that are repeated
  until they succeed; interpreted on the recovery of transactions, on their roll back and on that of the
  lifecycle commands. Fencing: the locale of tokens that never become valid again; interpreted on leases and on
  the attempts to sign in.

  \<^bold>\<open>Leases and what runs under them (packages/control/src).\<close>
  Lease (lease.ts): acquisition, renewal, release, human control, expiry timers and waiters, and the chain of
  revocation promises as a queue, all as events of one machine. A new lease is granted only when the handler has
  succeeded for every proof that was valid before; no revocation is lost; a proof that stopped being valid stays
  so.
  Process_Output, Process_Manager, Process_Requests, Process_Events (processes.ts): the record of a managed
  process, its output in memory and in its journal, starting, timers, service probes and restarts, revocation,
  management. The locale \<open>manager_invariant\<close> reduces what every event keeps to what the changes of the table
  keep; Process_Accounting interprets it on the byte and record counters, Process_Properties on the targets of a
  revocation. Utf8 (utf8-page.ts): pages that cut no character.
  Terminals, Terminal_Events, Terminal_Properties (pty.ts): interactive terminals in the same style, with
  the locales \<open>terminal_steps\<close> and \<open>terminal_invariant\<close>: budgets, pages as parts of the whole output, and the end of
  an owner. Deadline_Timer (deadline-timer.ts): a timer for delays beyond 2147483647 milliseconds, with the
  bound on its number of firings.
  Network_Address, Egress (network-address.ts, egress.ts, cli/src/network-policy.ts): which addresses are
  routable, which target a policy permits, the tunnels, the scope of a brokered credential and the redaction of its value in
  responses.

  \<^bold>\<open>Durable state of the host (packages/cli/src).\<close>
  Transaction_Document, Transactions, Transaction_Recovery, Transaction_Runtime (transactions.ts, state.ts,
  core/src/config.ts, core/src/gateway-access.ts): the documents and their rules, the journalled transaction, what a disk
  without journal can be after any interruptions, the outcome of recovery, and the calls of the container
  runtime.
  Lifecycle, Lifecycle_Recovery (lifecycle-operations.ts): start, stop and restart under their journal, and its
  recovery.
  Cleanup, Cleanup_Command (cleanup-plan.ts, cleanup-command.ts), Runtime_Names (runtime.ts,
  runtime-inventory.ts): the names an installation expects, the plan of what may be removed and its execution.
  Archive_Plan, Archive_Confinement, Archive_Extract, Archive_Verify (safe-backup-archive.ts): the
  inspection of a backup, the proof that an accepted archive stays within its directory, the verified copy and the
  comparison of the tree on disk with the plan.
  Dashboard_Auth (dashboard/auth.ts): sessions, rate limits, the queue of password derivations, and the attempts
  in flight as steps.

  \<^bold>\<open>The gateway (packages/gateway/src/server.ts).\<close>
  Client_Scope (core/src/client-credentials.ts, core/src/tools.ts, control/src/client-scope.ts,
  control/src/policy.ts): the scopes of a credential, the tools they cover, the context a computer reads and the
  operator's policy, which stays within the contract of the image.
  Gateway_Headers: which headers pass to a computer and back; a caller cannot forge the gateway's authority, and the
  computer reads exactly the credential that was authenticated. Gateway_State, Gateway_Control: tickets,
  sessions, rates, viewer sockets and the queue of changes of human control, cut at the awaits. Gateway_Requests,
  Gateway_Access: the dispatch of requests and upgrades with every check of it. Gateway_Events, Gateway_Properties,
  Gateway_Fence: all of it as a step relation together with what the computers do with the requests in
  flight: one session controls a computer, and while it does its agents are fenced off, provided that no answer is lost.

  \<^bold>\<open>Arguments of the model.\<close> Clocks, random identifiers, DNS, hashes, the URL parser, base64, \<open>JSON.parse\<close>, decompression,
  Unicode normalisation, the tar library, the container runtime and what the operating system answers are
  arguments of the definitions. A theorem that needs a law of one of them says so (a hash without collisions, for
  example), and its witness has an instance that satisfies it.

  \<^bold>\<open>Bounds and fuel.\<close> Loops are structural or have a measure. The walk along a symbolic link of an archive and
  the rounds of a deadline timer are \<open>function\<close>s or have a fuel that the theorems bound: the step
  budget of the archive limits, and \<open>d div 2147483647 + 1\<close> rounds for a delay \<open>d\<close>. A run of a durable program has a
  budget, the number of steps until the power fails; no budget means that it does not. Machine numbers of JavaScript are
  integers, with the range checks the code has.

  \<^bold>\<open>Faithfulness.\<close> Messages of errors are shortened where nothing depends on them. A string has characters below
  256. \<open>decodeBrokerResponse\<close> is modelled without the choice between text and base64 of the body. Labels that the
  container runtime reports as something else than an object count as none. The order and the uniqueness of keys of
  an object are those of a JavaScript \<open>Map\<close>.

  \<^bold>\<open>Not modelled.\<close> Code that only builds the arguments of Docker, Compose, systemd or a browser and code that
  only moves bytes between sockets (docker.ts, commands.ts, browser.ts, executor.ts, the servers) has no state of its own beyond what the
  components above keep; rendering of pages and prompts, skills, previews, the desktop and the scripts of
  the build are left out. The rows of the manifest give the reason file by file.\<close>

end
